(* ===== verification/Prelude.thy ===== *)
theory Prelude
  imports Main "HOL-Library.AList" "HOL-Library.List_Lexorder" "HOL-Library.Char_ord"
begin

text \<open>
  What every component shares: results of fallible code as sums (\<open>Inl\<close> the error, \<open>Inr\<close> the
  value) with their sequencing operator, the theorem collections the proofs rest on, lists of
  rows addressed by a key (the tables of \<open>storage.py\<close>), and the two interfaces used throughout:
  a keyed table and a machine whose steps keep an invariant.
\<close>

named_theorems result_simps "what a successful or failing result says of the steps that made it"
named_theorems handler_defs "definitions of the command bodies"

text \<open>An optional field with a bound runs as code.\<close>

lemma pred_option_code [code]:
  "pred_option P None \<longleftrightarrow> True"
  "pred_option P (Some x) \<longleftrightarrow> P x"
  by simp_all

section \<open>Results\<close>

definition bindE :: "'e + 'a \<Rightarrow> ('a \<Rightarrow> 'e + 'b) \<Rightarrow> 'e + 'b" where
  "bindE m f = (case m of Inl e \<Rightarrow> Inl e | Inr a \<Rightarrow> f a)"

definition ensure :: "bool \<Rightarrow> 'e \<Rightarrow> 'e + unit" where
  "ensure ok e = (if ok then Inr () else Inl e)"

lemma bindE_simps [simp]:
  "bindE (Inl e) f = Inl e"
  "bindE (Inr a) f = f a"
  by (simp_all add: bindE_def)

lemma bindE_Inr_iff [result_simps]: "bindE m f = Inr b \<longleftrightarrow> (\<exists>a. m = Inr a \<and> f a = Inr b)"
  by (cases m) auto

lemma bindE_Inl_iff: "bindE m f = Inl e \<longleftrightarrow> m = Inl e \<or> (\<exists>a. m = Inr a \<and> f a = Inl e)"
  by (cases m) auto

lemma ensure_Inr_iff [result_simps]: "ensure b e = Inr u \<longleftrightarrow> b"
  by (simp add: ensure_def)

lemma ensure_Inl_iff: "ensure b e = Inl e' \<longleftrightarrow> \<not> b \<and> e = e'"
  by (simp add: ensure_def)

lemma ensure_simps [simp]: "ensure True e = Inr ()" "ensure False e = Inl e"
  by (simp_all add: ensure_def)

lemma if_Inl_Inr_iff [result_simps]: "(if b then Inl e else m) = Inr a \<longleftrightarrow> \<not> b \<and> m = Inr a"
  by simp

lemma if_Inr_Inl_iff [result_simps]: "(if b then m else Inl e) = Inr a \<longleftrightarrow> b \<and> m = Inr a"
  by simp

text \<open>A computation that evaluates to a success has a value.\<close>

lemma Inr_projr: "\<not> isl m \<Longrightarrow> m = Inr (fst (projr m), snd (projr m))"
  by (cases m) auto

lemma succeedsE:
  assumes "\<not> isl m"
  obtains r w where "m = Inr (r, w)"
  using assms Inr_projr by blast

text \<open>A loop whose body may raise: the state goes through the elements in order and the first
  error ends it.\<close>

fun foldE :: "('a \<Rightarrow> 's \<Rightarrow> 'e + 's) \<Rightarrow> 'a list \<Rightarrow> 's \<Rightarrow> 'e + 's" where
  "foldE f [] s = Inr s"
| "foldE f (x # xs) s = bindE (f x s) (foldE f xs)"

text \<open>A loop that only checks its elements: \<open>for x in xs: if bad(x): raise\<close>.\<close>

fun checkE :: "('a \<Rightarrow> 'e + unit) \<Rightarrow> 'a list \<Rightarrow> 'e + unit" where
  "checkE f [] = Inr ()"
| "checkE f (x # xs) = bindE (f x) (\<lambda>_. checkE f xs)"

lemma checkE_Inr_iff [result_simps]: "checkE f xs = Inr u \<longleftrightarrow> (\<forall>x \<in> set xs. f x = Inr ())"
  by (induction xs) (auto simp: bindE_Inr_iff)

lemma foldE_append: "foldE f (xs @ ys) s = bindE (foldE f xs s) (foldE f ys)"
proof (induction xs arbitrary: s)
  case (Cons x xs)
  then show ?case by (cases "f x s") auto
qed simp

text \<open>An invariant of the body is an invariant of the loop.\<close>

lemma foldE_invariant:
  assumes "foldE f xs s = Inr t" and "I s"
    and "\<And>x s t. x \<in> set xs \<Longrightarrow> I s \<Longrightarrow> f x s = Inr t \<Longrightarrow> I t"
  shows "I t"
  using assms
proof (induction xs arbitrary: s)
  case (Cons x xs)
  from Cons.prems(1) obtain s' where s': "f x s = Inr s'" and rest: "foldE f xs s' = Inr t"
    by (auto simp: bindE_Inr_iff)
  have "I s'" using Cons.prems(2,3) s' by auto
  then show ?case using Cons.IH [OF rest] Cons.prems(3) by auto
qed simp

text \<open>A loop that ends went through the body for every element.\<close>

lemma foldE_each: "foldE f xs s = Inr t \<Longrightarrow> x \<in> set xs \<Longrightarrow> \<exists>a b. f x a = Inr b"
  by (induction xs arbitrary: s) (auto simp: bindE_Inr_iff)

section \<open>Tables addressed by a key\<close>

text \<open>
  \<open>lookup_row\<close> is \<open>session.get(Row, key)\<close>; \<open>put_row\<close> writes a row back under its key, in place
  when the key exists and at the end otherwise.
\<close>

definition lookup_row :: "('r \<Rightarrow> 'k) \<Rightarrow> 'k \<Rightarrow> 'r list \<Rightarrow> 'r option" where
  "lookup_row key k rows = find (\<lambda>r. key r = k) rows"

definition put_row :: "('r \<Rightarrow> 'k) \<Rightarrow> 'r \<Rightarrow> 'r list \<Rightarrow> 'r list" where
  "put_row key r rows =
     (if key r \<in> key ` set rows then map (\<lambda>x. if key x = key r then r else x) rows
      else rows @ [r])"

lemma lookup_row_Nil [simp]: "lookup_row key k [] = None"
  by (simp add: lookup_row_def)

lemma lookup_row_Cons [simp]:
  "lookup_row key k (r # rows) = (if key r = k then Some r else lookup_row key k rows)"
  by (simp add: lookup_row_def)

lemma lookup_row_None_iff: "lookup_row key k rows = None \<longleftrightarrow> k \<notin> key ` set rows"
  by (induction rows) auto

lemma lookup_row_SomeD: "lookup_row key k rows = Some r \<Longrightarrow> r \<in> set rows \<and> key r = k"
  by (induction rows) (auto split: if_splits)

lemma lookup_row_append:
  "lookup_row key k (xs @ ys) =
     (case lookup_row key k xs of Some r \<Rightarrow> Some r | None \<Rightarrow> lookup_row key k ys)"
  by (induction xs) auto

lemma lookup_row_distinct:
  "distinct (map key rows) \<Longrightarrow> r \<in> set rows \<Longrightarrow> lookup_row key (key r) rows = Some r"
  by (induction rows) (auto simp: image_iff)

lemma lookup_row_map_replace:
  "lookup_row key k (map (\<lambda>x. if key x = key r then r else x) rows) =
     (if k = key r \<and> key r \<in> key ` set rows then Some r else lookup_row key k rows)"
  by (induction rows) auto

lemma lookup_row_put [simp]:
  "lookup_row key k (put_row key r rows) = (if k = key r then Some r else lookup_row key k rows)"
proof (cases "key r \<in> key ` set rows")
  case True
  then show ?thesis by (simp add: put_row_def lookup_row_map_replace)
next
  case False
  then have "lookup_row key (key r) rows = None" by (simp add: lookup_row_None_iff)
  with False show ?thesis
    by (cases "lookup_row key k rows") (auto simp: put_row_def lookup_row_append)
qed

lemma keys_put_row: "key ` set (put_row key r rows) = insert (key r) (key ` set rows)"
  by (auto simp: put_row_def image_iff)

lemma map_key_put_row:
  "map key (put_row key r rows) =
     (if key r \<in> key ` set rows then map key rows else map key rows @ [key r])"
  by (auto simp: put_row_def)

lemma distinct_put_row: "distinct (map key rows) \<Longrightarrow> distinct (map key (put_row key r rows))"
  by (auto simp: map_key_put_row)

lemma set_put_row_subset: "set (put_row key r rows) \<subseteq> insert r (set rows)"
  by (auto simp: put_row_def)

lemma in_put_row_iff:
  "distinct (map key rows) \<Longrightarrow>
     x \<in> set (put_row key r rows) \<longleftrightarrow> x = r \<or> (x \<in> set rows \<and> key x \<noteq> key r)"
  by (auto simp: put_row_def image_iff)

text \<open>Replacing one row of a table changes a sum over the rows by that row's difference.\<close>

lemma sum_list_put_row_new:
  fixes f :: "'r \<Rightarrow> int"
  assumes "key r \<notin> key ` set rows"
  shows "sum_list (map f (put_row key r rows)) = sum_list (map f rows) + f r"
  using assms by (simp add: put_row_def)

lemma sum_list_map_replace_absent:
  fixes f :: "'r \<Rightarrow> int"
  assumes "key r \<notin> key ` set rows"
  shows "sum_list (map (\<lambda>x. f (if key x = key r then r else x)) rows) = sum_list (map f rows)"
  using assms by (induction rows) auto

lemma sum_list_put_row_old:
  fixes f :: "'r \<Rightarrow> int"
  assumes "distinct (map key rows)" and "lookup_row key (key r) rows = Some r0"
  shows "sum_list (map f (put_row key r rows)) = sum_list (map f rows) - f r0 + f r"
proof -
  have mem: "key r \<in> key ` set rows"
    using lookup_row_SomeD [OF assms(2)] by (metis imageI)
  have "sum_list (map f (map (\<lambda>x. if key x = key r then r else x) rows)) =
      sum_list (map f rows) - f r0 + f r"
    using assms
  proof (induction rows)
    case (Cons x rows)
    show ?case
    proof (cases "key x = key r")
      case True
      then have "key r \<notin> key ` set rows" using Cons.prems(1) by auto
      then show ?thesis
        using True Cons.prems(2) by (simp add: sum_list_map_replace_absent comp_def)
    next
      case False
      then show ?thesis using Cons by (simp add: comp_def)
    qed
  qed simp
  then show ?thesis using mem by (simp add: put_row_def)
qed

text \<open>The table interface the stateful components rely on, and its one provider.\<close>

locale keyed_table =
  fixes key :: "'r \<Rightarrow> 'k"
    and get :: "'k \<Rightarrow> 't \<Rightarrow> 'r option"
    and put :: "'r \<Rightarrow> 't \<Rightarrow> 't"
    and wf :: "'t \<Rightarrow> bool"
  assumes get_put: "get k (put r t) = (if k = key r then Some r else get k t)"
    and get_key: "get k t = Some r \<Longrightarrow> key r = k"
    and wf_put: "wf t \<Longrightarrow> wf (put r t)"
begin

lemma get_put_same: "get (key r) (put r t) = Some r"
  by (simp add: get_put)

lemma get_put_other: "k \<noteq> key r \<Longrightarrow> get k (put r t) = get k t"
  by (simp add: get_put)

lemma put_put_get: "get k (put r (put r' t)) = (if k = key r then Some r else get k (put r' t))"
  by (simp add: get_put)

lemma foldr_put_frame: "k \<notin> key ` set rs \<Longrightarrow> get k (foldr put rs t) = get k t"
  by (induction rs) (auto simp: get_put)

lemma foldr_put_wf: "wf t \<Longrightarrow> wf (foldr put rs t)"
  by (induction rs) (auto intro: wf_put)

end

section \<open>Machines\<close>

text \<open>
  A component as a machine: a step that may refuse, and what it keeps. \<open>run\<close> executes commands
  one after the other; a refused command leaves the state as it is, as the database rolls its
  transaction back.
\<close>

definition attempt :: "('c \<Rightarrow> 's \<Rightarrow> 'e + 's) \<Rightarrow> 'c \<Rightarrow> 's \<Rightarrow> 's" where
  "attempt step c s = (case step c s of Inl _ \<Rightarrow> s | Inr t \<Rightarrow> t)"

definition run :: "('c \<Rightarrow> 's \<Rightarrow> 'e + 's) \<Rightarrow> 'c list \<Rightarrow> 's \<Rightarrow> 's" where
  "run step cs s = fold (attempt step) cs s"

lemma run_simps [simp]:
  "run step [] s = s"
  "run step (c # cs) s = run step cs (attempt step c s)"
  by (simp_all add: run_def)

lemma run_append: "run step (cs @ ds) s = run step ds (run step cs s)"
  by (simp add: run_def)

locale guarded_machine =
  fixes step :: "'c \<Rightarrow> 's \<Rightarrow> 'e + 's"
    and inv :: "'s \<Rightarrow> bool"
  assumes step_inv: "inv s \<Longrightarrow> step c s = Inr t \<Longrightarrow> inv t"
begin

lemma attempt_inv: "inv s \<Longrightarrow> inv (attempt step c s)"
  by (auto simp: attempt_def intro: step_inv split: sum.splits)

lemma run_inv: "inv s \<Longrightarrow> inv (run step cs s)"
  by (induction cs arbitrary: s) (auto intro: attempt_inv)

text \<open>A relation every accepted step keeps, reflexive and transitive, relates the ends of any
  run: the shape of every monotonicity fact.\<close>

lemma run_rel:
  assumes "inv s" and "\<And>s. R s s" and "\<And>a b c. R a b \<Longrightarrow> R b c \<Longrightarrow> R a c"
    and "\<And>c s t. inv s \<Longrightarrow> step c s = Inr t \<Longrightarrow> R s t"
  shows "R s (run step cs s)"
  using assms(1)
proof (induction cs arbitrary: s)
  case Nil
  then show ?case by (simp add: assms(2))
next
  case (Cons c cs)
  have "R s (attempt step c s)"
    using Cons.prems assms(2,4) by (auto simp: attempt_def split: sum.splits)
  moreover have "R (attempt step c s) (run step (c # cs) s)"
    using Cons.IH attempt_inv Cons.prems by simp
  ultimately show ?case by (rule assms(3))
qed

end

section \<open>Lists\<close>

lemma find_SomeD: "find P xs = Some x \<Longrightarrow> x \<in> set xs \<and> P x"
  by (induction xs) (auto split: if_splits)

lemma find_None_iff_all: "find P xs = None \<longleftrightarrow> (\<forall>x \<in> set xs. \<not> P x)"
  by (induction xs) auto

text \<open>\<open>list(dict.fromkeys(xs))\<close>: the first occurrence of each element, in order.\<close>

fun dedup_from :: "'a list \<Rightarrow> 'a list \<Rightarrow> 'a list" where
  "dedup_from seen [] = []"
| "dedup_from seen (x # xs) =
     (if x \<in> set seen then dedup_from seen xs else x # dedup_from (x # seen) xs)"

definition dedup :: "'a list \<Rightarrow> 'a list" where
  "dedup xs = dedup_from [] xs"

lemma set_dedup_from: "set (dedup_from seen xs) = set xs - set seen"
  by (induction seen xs rule: dedup_from.induct) auto

lemma distinct_dedup_from: "distinct (dedup_from seen xs)"
  by (induction seen xs rule: dedup_from.induct) (auto simp: set_dedup_from)

lemma set_dedup [simp]: "set (dedup xs) = set xs"
  by (simp add: dedup_def set_dedup_from)

lemma distinct_dedup [simp]: "distinct (dedup xs)"
  by (simp add: dedup_def distinct_dedup_from)

end
