(* ===== verification/Json.thy ===== *)
theory Json
  imports Prelude
begin

text \<open>
  The JSON values a record's payload holds, and the dictionary operations the handlers use on
  them: \<open>d.get(k)\<close>, \<open>d[k]\<close>, \<open>{**d, **e}\<close> and the truth value of an object. A Python
  dictionary is an association list in insertion order whose keys are distinct. An instant (the
  ISO text of \<open>utcnow().isoformat()\<close> or the seconds of \<open>utcnow().timestamp()\<close>) is \<open>JTime\<close>, in
  microseconds.
\<close>

datatype json =
    JNull
  | JBool bool
  | JInt int
  | JTime int
  | JStr string
  | JList "json list"
  | JObj "(string \<times> json) list"

type_synonym dict = "(string \<times> json) list"

text \<open>\<open>bool(v)\<close>.\<close>

fun truthy :: "json \<Rightarrow> bool" where
  "truthy JNull = False"
| "truthy (JBool b) = b"
| "truthy (JInt n) = (n \<noteq> 0)"
| "truthy (JTime t) = True"
| "truthy (JStr s) = (s \<noteq> [])"
| "truthy (JList xs) = (xs \<noteq> [])"
| "truthy (JObj d) = (d \<noteq> [])"

text \<open>\<open>a or b\<close>.\<close>

definition jor :: "json \<Rightarrow> json \<Rightarrow> json" where
  "jor a b = (if truthy a then a else b)"

text \<open>\<open>d.get(k)\<close>, \<open>d.get(k, v)\<close> and \<open>k in d\<close>.\<close>

definition dget :: "dict \<Rightarrow> string \<Rightarrow> json" where
  "dget d k = (case map_of d k of None \<Rightarrow> JNull | Some v \<Rightarrow> v)"

definition dget_or :: "dict \<Rightarrow> string \<Rightarrow> json \<Rightarrow> json" where
  "dget_or d k v = (case map_of d k of None \<Rightarrow> v | Some w \<Rightarrow> w)"

definition dhas :: "dict \<Rightarrow> string \<Rightarrow> bool" where
  "dhas d k = (map_of d k \<noteq> None)"

text \<open>\<open>d[k] = v\<close> and \<open>{**d, **e}\<close>: a key keeps its place, a new key goes to the end.\<close>

definition dput :: "string \<Rightarrow> json \<Rightarrow> dict \<Rightarrow> dict" where
  "dput k v d = AList.update k v d"

definition dmerge :: "dict \<Rightarrow> dict \<Rightarrow> dict" where
  "dmerge d e = fold (\<lambda>(k, v). dput k v) e d"

definition as_dict :: "json \<Rightarrow> dict" where
  "as_dict j = (case j of JObj d \<Rightarrow> d | _ \<Rightarrow> [])"

definition as_list :: "json \<Rightarrow> json list" where
  "as_list j = (case j of JList xs \<Rightarrow> xs | _ \<Rightarrow> [])"

definition as_int :: "json \<Rightarrow> int" where
  "as_int j = (case j of JInt n \<Rightarrow> n | _ \<Rightarrow> 0)"

text \<open>An optional string of the code as the JSON value it is stored as.\<close>

definition jopt :: "string option \<Rightarrow> json" where
  "jopt x = (case x of None \<Rightarrow> JNull | Some s \<Rightarrow> JStr s)"

definition strings :: "string list \<Rightarrow> json" where
  "strings xs = JList (map JStr xs)"

text \<open>\<open>if s:\<close> for an optional string.\<close>

definition opt_true :: "string option \<Rightarrow> bool" where
  "opt_true x = (case x of None \<Rightarrow> False | Some s \<Rightarrow> s \<noteq> [])"

lemma jopt_simps [simp]: "jopt None = JNull" "jopt (Some s) = JStr s"
  by (simp_all add: jopt_def)

lemma jopt_eq_iff [simp]: "jopt x = jopt y \<longleftrightarrow> x = y"
  by (cases x; cases y) auto

lemma JStr_eq_jopt [simp]: "JStr s = jopt x \<longleftrightarrow> x = Some s" "jopt x = JStr s \<longleftrightarrow> x = Some s"
  by (cases x; auto)+

lemma JNull_eq_jopt [simp]: "JNull = jopt x \<longleftrightarrow> x = None" "jopt x = JNull \<longleftrightarrow> x = None"
  by (cases x; auto)+

lemma truthy_jopt [simp]: "truthy (jopt x) = opt_true x"
  by (cases x) (auto simp: opt_true_def)

lemma opt_true_simps [simp]: "opt_true None = False" "opt_true (Some s) = (s \<noteq> [])"
  by (simp_all add: opt_true_def)

lemma dget_Nil [simp]: "dget [] k = JNull"
  by (simp add: dget_def)

lemma dget_Cons [simp]: "dget ((k', v) # d) k = (if k = k' then v else dget d k)"
  by (simp add: dget_def)

lemma map_of_dput [simp]: "map_of (dput k v d) = (map_of d)(k \<mapsto> v)"
  by (simp add: dput_def update_conv')

lemma dget_dput [simp]: "dget (dput k v d) k' = (if k' = k then v else dget d k')"
  by (simp add: dget_def)

lemma dhas_dput [simp]: "dhas (dput k v d) k' \<longleftrightarrow> k' = k \<or> dhas d k'"
  by (simp add: dhas_def)

lemma dget_or_dput [simp]: "dget_or (dput k v d) k' w = (if k' = k then v else dget_or d k' w)"
  by (simp add: dget_or_def)

lemma dmerge_simps [simp]:
  "dmerge d [] = d"
  "dmerge d ((k, v) # e) = dmerge (dput k v d) e"
  by (simp_all add: dmerge_def)

lemma map_of_dmerge: "distinct (map fst e) \<Longrightarrow> map_of (dmerge d e) = map_of d ++ map_of e"
proof (induction e arbitrary: d)
  case (Cons p e)
  obtain k v where p: "p = (k, v)" by (cases p)
  have "k \<notin> dom (map_of e)"
    using Cons.prems p by (auto simp: dom_map_of_conv_image_fst)
  then show ?case
    using Cons p by (auto simp: map_add_def fun_eq_iff split: option.splits)
qed simp

text \<open>What a merge leaves alone.\<close>

lemma map_of_dmerge_other: "k \<notin> fst ` set e \<Longrightarrow> map_of (dmerge d e) k = map_of d k"
  by (induction e arbitrary: d) auto

lemma dget_dmerge_other: "k \<notin> fst ` set e \<Longrightarrow> dget (dmerge d e) k = dget d k"
  by (simp add: dget_def map_of_dmerge_other)

lemma dget_dmerge_in:
  "distinct (map fst e) \<Longrightarrow> (k, v) \<in> set e \<Longrightarrow> dget (dmerge d e) k = v"
  by (simp add: dget_def map_of_dmerge)

lemma distinct_keys_dput: "distinct (map fst d) \<Longrightarrow> distinct (map fst (dput k v d))"
  by (simp add: dput_def distinct_update)

lemma distinct_keys_dmerge: "distinct (map fst d) \<Longrightarrow> distinct (map fst (dmerge d e))"
  by (induction e arbitrary: d) (auto simp: distinct_keys_dput)

text \<open>Every JSON value is one of a \<open>size\<close> that its parts stay under, and values compare by
  structure (the datatype's \<open>equal\<close> and \<open>size\<close> instances); \<open>Literal\<close> choices of the code are
  strings here, written as the source writes them.\<close>

definition in_strings :: "json \<Rightarrow> string list \<Rightarrow> bool" where
  "in_strings j xs = (case j of JStr s \<Rightarrow> s \<in> set xs | _ \<Rightarrow> False)"

lemma in_strings_JStr [simp]: "in_strings (JStr s) xs \<longleftrightarrow> s \<in> set xs"
  by (simp add: in_strings_def)

lemma in_strings_iff: "in_strings j xs \<longleftrightarrow> (\<exists>s \<in> set xs. j = JStr s)"
  by (cases j) (auto simp: in_strings_def)

end
