(* ===== verification/Pricing.thy ===== *)
theory Pricing
  imports Prelude Complex_Main
begin

text \<open>
  Model prices (\<open>orchestration/pricing.py\<close>). A rate is dollars per million tokens, which is
  micro-dollars per token, so a charge in micro-dollars is the rate times the tokens, rounded up.
  Rates are exact rationals: the decimal arithmetic of the code is exact on them while a charge
  stays under 28 significant digits.
\<close>

record model_price =
  p_input :: rat
  p_output :: rat
  p_cached :: "rat option"
  p_write :: "rat option"

text \<open>The field bounds and \<open>cached_rates_are_complete\<close>.\<close>

definition price_valid :: "model_price \<Rightarrow> bool" where
  "price_valid p \<longleftrightarrow>
     0 \<le> p_input p \<and> 0 \<le> p_output p \<and>
     (case p_cached p of None \<Rightarrow> True
      | Some c \<Rightarrow> 0 \<le> c \<and> c \<le> p_input p \<and> p_write p \<noteq> None) \<and>
     (case p_write p of None \<Rightarrow> True | Some x \<Rightarrow> 0 \<le> x)"

definition price_rates :: "model_price \<Rightarrow> rat \<times> rat" where
  "price_rates p =
     (case p_cached p of None \<Rightarrow> p_input p | Some c \<Rightarrow> c,
      case p_write p of None \<Rightarrow> p_input p | Some x \<Rightarrow> x)"

text \<open>\<open>cost\<close> and \<open>reservation_cost\<close>, in micro-dollars; \<open>None\<close> is the \<open>ValueError\<close>.\<close>

definition price_cost :: "model_price \<Rightarrow> int \<Rightarrow> int \<Rightarrow> int \<Rightarrow> int \<Rightarrow> int option" where
  "price_cost p input_tokens output_tokens cached cache_write =
     (if input_tokens < 0 \<or> output_tokens < 0 \<or> cached < 0 \<or> cache_write < 0 then None
      else if cached + cache_write > input_tokens then None
      else
        let (cached_rate, write_rate) = price_rates p;
            plain = input_tokens - cached - cache_write
        in Some \<lceil>p_input p * of_int plain + cached_rate * of_int cached +
                 write_rate * of_int cache_write + p_output p * of_int output_tokens\<rceil>)"

definition reservation_cost :: "model_price \<Rightarrow> int \<Rightarrow> int \<Rightarrow> int option" where
  "reservation_cost p input_tokens output_tokens =
     (let rate = max (p_input p) (snd (price_rates p))
      in if input_tokens < 0 \<or> output_tokens < 0 then None
         else Some \<lceil>rate * of_int input_tokens + p_output p * of_int output_tokens\<rceil>)"

section \<open>Facts\<close>

lemma price_rates_bounds:
  assumes "price_valid p"
  shows "fst (price_rates p) \<le> p_input p" "0 \<le> fst (price_rates p)" "0 \<le> snd (price_rates p)"
  using assms by (auto simp: price_valid_def price_rates_def split: option.splits)

lemma ceiling_nonneg: "(0 :: rat) \<le> x \<Longrightarrow> 0 \<le> \<lceil>x\<rceil>"
  by linarith

lemma reservation_cost_nonneg:
  assumes "price_valid p" and "reservation_cost p i j = Some r"
  shows "0 \<le> r"
proof -
  let ?m = "max (p_input p) (snd (price_rates p))"
  have "0 \<le> i" "0 \<le> j" and r: "r = \<lceil>?m * of_int i + p_output p * of_int j\<rceil>"
    using assms(2) by (auto simp: reservation_cost_def Let_def split: if_splits)
  moreover have "0 \<le> ?m" "0 \<le> p_output p" using assms(1) by (auto simp: price_valid_def)
  ultimately show ?thesis unfolding r
    by (intro ceiling_nonneg add_nonneg_nonneg mult_nonneg_nonneg) simp_all
qed

section \<open>Properties\<close>

text \<open>A reservation bounds every settlement: under a valid price, whatever part of the input was
  a cache hit or a cache write, and for no more input and output tokens than were reserved, the
  charge is at most the reservation.\<close>

theorem reservation_bounds_settlement:
  assumes "price_valid p" and "reservation_cost p i j = Some r"
    and "price_cost p i' j' cached written = Some c" and "i' \<le> i" and "j' \<le> j"
  shows "0 \<le> c \<and> c \<le> r"
proof -
  obtain cr wr where rates: "price_rates p = (cr, wr)" by (cases "price_rates p")
  have b: "cr \<le> p_input p" "0 \<le> cr" "0 \<le> wr" using price_rates_bounds [OF assms(1)] rates by simp_all
  have p: "0 \<le> p_input p" "0 \<le> p_output p" using assms(1) by (simp_all add: price_valid_def)
  define m where "m = max (p_input p) wr"
  have r: "r = \<lceil>m * of_int i + p_output p * of_int j\<rceil>"
    using assms(2) by (auto simp: reservation_cost_def rates m_def Let_def split: if_splits)
  have nn: "0 \<le> j'" "0 \<le> cached" "0 \<le> written" "cached + written \<le> i'"
    and c: "c = \<lceil>p_input p * of_int (i' - cached - written) + cr * of_int cached + wr * of_int written
        + p_output p * of_int j'\<rceil>"
    using assms(3) by (auto simp: price_cost_def rates split: if_splits)
  define x y z where "x = (of_int (i' - cached - written) :: rat)" and "y = (of_int cached :: rat)"
    and "z = (of_int written :: rat)"
  have xyz: "0 \<le> x" "0 \<le> y" "0 \<le> z" "x + y + z \<le> of_int i"
    using nn assms(4) by (auto simp: x_def y_def z_def simp flip: of_int_add)
  have m: "p_input p \<le> m" "cr \<le> m" "wr \<le> m" "0 \<le> m" using b p by (auto simp: m_def)
  have "p_input p * x + cr * y + wr * z \<le> m * x + m * y + m * z"
    using m xyz by (intro add_mono mult_right_mono) auto
  also have "\<dots> = m * (x + y + z)" by (simp add: algebra_simps)
  also have "\<dots> \<le> m * of_int i" using m(4) xyz(4) by (rule mult_left_mono [rotated])
  finally have "p_input p * x + cr * y + wr * z + p_output p * of_int j' \<le>
      m * of_int i + p_output p * of_int j"
    using p(2) assms(5) by (intro add_mono mult_left_mono) auto
  then have "c \<le> r" unfolding c r x_def y_def z_def by (rule ceiling_mono)
  moreover have "0 \<le> p_input p * x + cr * y + wr * z + p_output p * of_int j'"
    using p b xyz nn by (intro add_nonneg_nonneg mult_nonneg_nonneg) auto
  then have "0 \<le> c" unfolding c x_def y_def z_def by (rule ceiling_nonneg)
  ultimately show ?thesis by simp
qed

theorem reservation_bounds_settlement_witness:
  "0 \<le> (1000 :: int) \<and> (1000 :: int) \<le> 2000"
proof (rule reservation_bounds_settlement)
  let ?p = "\<lparr>p_input = 1, p_output = 5, p_cached = Some (1 / 2), p_write = Some (5 / 4)\<rparr>"
  show "price_valid ?p" "reservation_cost ?p 1200 100 = Some 2000"
    "price_cost ?p 1000 50 500 0 = Some 1000"
    by (simp_all add: price_valid_def reservation_cost_def price_cost_def price_rates_def Let_def)
qed simp_all

end
