(* ===== verification/Store.thy ===== *)
theory Store
  imports Json Pricing
begin

text \<open>
  The canonical store (\<open>storage.py\<close>) as one value, \<open>world\<close>: a list of rows per table, each
  addressed by its primary key, and what a command reads of its process: the clock, the source of
  new ids, the digests (\<open>domain.digest_json\<close>, SHA-256 of the canonical JSON, and SHA-256 of a text,
  both kept uninterpreted), the worker-effect binding (\<open>worker_authority.py\<close>), the recorded model
  prices and the decoded text of a stored artifact by its digest (a read that may fail), and the ISO text of an instant. Errors are
  \<open>errors.HarnessError\<close> by code, status and retryability (the messages are text), or the Python
  exceptions a missing key, a duplicate primary key or a value error raises.

  A query without \<open>order_by\<close> reads the table in insertion order; \<open>order_by(RecordRow.id)\<close> sorts by
  id. One command reads one instant of the clock unless it says otherwise.
\<close>

section \<open>Errors\<close>

datatype herr =
    Harness (h_code: string) (h_status: int) (h_retryable: bool)
  | KeyError string
  | IntegrityError
  | ValueError string

abbreviation fail :: "string \<Rightarrow> int \<Rightarrow> herr" where
  "fail c st \<equiv> Harness c st False"

section \<open>Actors\<close>

datatype role = Researcher | Reviewer | Operator | Publisher | Verifier | Admin | Agent

record principal =
  pr_id :: string
  pr_project :: string
  pr_role :: role
  pr_experiment :: "string option"
  pr_branch :: "string option"
  pr_orchestrator :: bool

text \<open>\<open>Principal.worker_scope\<close> with the field bounds: what a constructed principal satisfies.\<close>

definition principal_ok :: "principal \<Rightarrow> bool" where
  "principal_ok p \<longleftrightarrow>
     1 \<le> length (pr_id p) \<and> length (pr_id p) \<le> 200 \<and>
     1 \<le> length (pr_project p) \<and> length (pr_project p) \<le> 200 \<and>
     \<not> (pr_role p = Agent \<and> \<not> opt_true (pr_experiment p)) \<and>
     \<not> (pr_orchestrator p \<and> (pr_role p \<noteq> Agent \<or> opt_true (pr_branch p))) \<and>
     \<not> (opt_true (pr_branch p) \<and> \<not> opt_true (pr_experiment p))"

record worker_effects =
  we_actor :: principal
  we_task :: string
  we_holder :: string
  we_fence :: int
  we_require_active :: bool

section \<open>Rows\<close>

text \<open>The kinds of record (\<open>RecordRow.kind\<close>), and the names they have in the database.\<close>

datatype kind =
    Campaign | Problem | Review | Experiment | Branch | Task | Claim | Artifact | Verification
  | Message | Session | ContinuationLink | ModelReservation | Source | Program | Workspace
  | WorkspaceOperation | ComponentRegistry | DiscussionTopic | DiscussionPost | DiscussionReader
  | DiscussionSubscription | DiscussionDelivery | DiscussionWithdrawal | WorkforcePolicy
  | WorkforceProfile | WorkforceTeam | WorkforceCapacityRequest | CommonsNode | CommonsClaim
  | CommonsReview | LiteratureFetch

fun kind_name :: "kind \<Rightarrow> string" where
  "kind_name Campaign = ''campaign''"
| "kind_name Problem = ''problem''"
| "kind_name Review = ''review''"
| "kind_name Experiment = ''experiment''"
| "kind_name Branch = ''branch''"
| "kind_name Task = ''task''"
| "kind_name Claim = ''claim''"
| "kind_name Artifact = ''artifact''"
| "kind_name Verification = ''verification''"
| "kind_name Message = ''message''"
| "kind_name Session = ''session''"
| "kind_name ContinuationLink = ''continuation_link''"
| "kind_name ModelReservation = ''model_reservation''"
| "kind_name Source = ''source''"
| "kind_name Program = ''program''"
| "kind_name Workspace = ''workspace''"
| "kind_name WorkspaceOperation = ''workspace_operation''"
| "kind_name ComponentRegistry = ''component_registry''"
| "kind_name DiscussionTopic = ''discussion_topic''"
| "kind_name DiscussionPost = ''discussion_post''"
| "kind_name DiscussionReader = ''discussion_reader''"
| "kind_name DiscussionSubscription = ''discussion_subscription''"
| "kind_name DiscussionDelivery = ''discussion_delivery''"
| "kind_name DiscussionWithdrawal = ''discussion_withdrawal''"
| "kind_name WorkforcePolicy = ''workforce_policy''"
| "kind_name WorkforceProfile = ''workforce_profile''"
| "kind_name WorkforceTeam = ''workforce_team''"
| "kind_name WorkforceCapacityRequest = ''workforce_capacity_request''"
| "kind_name CommonsNode = ''commons_node''"
| "kind_name CommonsClaim = ''commons_claim''"
| "kind_name CommonsReview = ''commons_review''"
| "kind_name LiteratureFetch = ''literature_fetch''"

record row =
  r_id :: string
  r_project :: string
  r_kind :: kind
  r_rev :: int
  r_payload :: dict

record event_row =
  e_sequence :: int
  e_project :: string
  e_kind :: string
  e_aggregate :: string
  e_operation :: string
  e_payload :: dict
  e_created :: int

record outbox_row =
  o_id :: string
  o_project :: string
  o_kind :: string
  o_aggregate :: string
  o_payload :: dict
  o_state :: string

record command_row =
  c_id :: string
  c_project :: string
  c_operation :: string
  c_fingerprint :: string
  c_result :: json

record budget_row =
  b_experiment :: string
  b_max_cost :: int
  b_reserved :: int
  b_spent :: int
  b_active_workers :: int
  b_max_concurrency :: int
  b_max_tokens :: "int option"
  b_tokens_reserved :: int
  b_tokens_spent :: int

record reservation_row =
  v_id :: string
  v_experiment :: string
  v_reserved :: int
  v_workers :: int
  v_state :: string
  v_actual :: "int option"
  v_tokens_reserved :: int
  v_tokens_actual :: "int option"

record lease_row =
  l_task :: string
  l_holder :: string
  l_fence :: int
  l_expires :: int

record edge_row =
  d_source :: string
  d_target :: string
  d_relation :: string
  d_project :: string

definition edge_key :: "edge_row \<Rightarrow> string \<times> string \<times> string" where
  "edge_key d = (d_source d, d_target d, d_relation d)"

record world =
  records :: "row list"
  events :: "event_row list"
  outbox :: "outbox_row list"
  commands :: "command_row list"
  budgets :: "budget_row list"
  reservations :: "reservation_row list"
  leases :: "lease_row list"
  edges :: "edge_row list"
  now :: int
  uuids :: "nat \<Rightarrow> string"
  uuids_used :: nat
  digest_of :: "json \<Rightarrow> string"
  sha256_of :: "string \<Rightarrow> string"
  effects :: "worker_effects option"
  prices :: "(string \<times> model_price) list"
  artifact_text :: "string \<Rightarrow> herr + string"
  stamp_of :: "int \<Rightarrow> string"

section \<open>Access\<close>

definition find_row :: "world \<Rightarrow> string \<Rightarrow> row option" where
  "find_row w i = lookup_row r_id i (records w)"

text \<open>\<open>session.get(RecordRow, x)\<close> for a value read from a payload: only a string names a row.\<close>

definition find_json :: "world \<Rightarrow> json \<Rightarrow> row option" where
  "find_json w x = (case x of JStr i \<Rightarrow> find_row w i | _ \<Rightarrow> None)"

definition find_opt :: "world \<Rightarrow> string option \<Rightarrow> row option" where
  "find_opt w x = (case x of None \<Rightarrow> None | Some i \<Rightarrow> find_row w i)"

definition set_row :: "row \<Rightarrow> world \<Rightarrow> world" where
  "set_row r w = w\<lparr>records := put_row r_id r (records w)\<rparr>"

definition find_budget :: "world \<Rightarrow> string \<Rightarrow> budget_row option" where
  "find_budget w i = lookup_row b_experiment i (budgets w)"

definition set_budget :: "budget_row \<Rightarrow> world \<Rightarrow> world" where
  "set_budget b w = w\<lparr>budgets := put_row b_experiment b (budgets w)\<rparr>"

definition find_reservation :: "world \<Rightarrow> string \<Rightarrow> reservation_row option" where
  "find_reservation w i = lookup_row v_id i (reservations w)"

definition set_reservation :: "reservation_row \<Rightarrow> world \<Rightarrow> world" where
  "set_reservation v w = w\<lparr>reservations := put_row v_id v (reservations w)\<rparr>"

definition find_lease :: "world \<Rightarrow> string \<Rightarrow> lease_row option" where
  "find_lease w i = lookup_row l_task i (leases w)"

definition set_lease :: "lease_row \<Rightarrow> world \<Rightarrow> world" where
  "set_lease l w = w\<lparr>leases := put_row l_task l (leases w)\<rparr>"

definition find_command :: "world \<Rightarrow> string \<Rightarrow> command_row option" where
  "find_command w i = lookup_row c_id i (commands w)"

definition find_edge :: "world \<Rightarrow> string \<Rightarrow> string \<Rightarrow> string \<Rightarrow> edge_row option" where
  "find_edge w s t rel = lookup_row edge_key (s, t, rel) (edges w)"

text \<open>A field of a row's payload, \<open>row.payload.get(k)\<close>, and \<open>row.payload[k]\<close>.\<close>

abbreviation field :: "row \<Rightarrow> string \<Rightarrow> json" where
  "field r k \<equiv> dget (r_payload r) k"

definition need :: "row \<Rightarrow> string \<Rightarrow> herr + json" where
  "need r k = (case map_of (r_payload r) k of None \<Rightarrow> Inl (KeyError k) | Some v \<Rightarrow> Inr v)"

lemma need_Inr_iff [result_simps]: "need r k = Inr v \<longleftrightarrow> map_of (r_payload r) k = Some v"
  by (auto simp: need_def split: option.splits)

lemma need_field: "need r k = Inr v \<Longrightarrow> field r k = v"
  by (auto simp: need_def dget_def split: option.splits)

text \<open>\<open>d[k]\<close> of a dict in hand.\<close>

definition dneed :: "dict \<Rightarrow> string \<Rightarrow> herr + json" where
  "dneed d k = (case map_of d k of None \<Rightarrow> Inl (KeyError k) | Some v \<Rightarrow> Inr v)"

text \<open>\<open>session.scalars(select(RecordRow).where(...))\<close>, with and without \<open>order_by(RecordRow.id)\<close>.\<close>

definition select_rows :: "(row \<Rightarrow> bool) \<Rightarrow> world \<Rightarrow> row list" where
  "select_rows P w = filter P (records w)"

definition select_sorted :: "(row \<Rightarrow> bool) \<Rightarrow> world \<Rightarrow> row list" where
  "select_sorted P w = sort_key r_id (filter P (records w))"

text \<open>\<open>new_id()\<close>: the next id of the source.\<close>

definition new_id :: "world \<Rightarrow> string \<times> world" where
  "new_id w = (uuids w (uuids_used w), w\<lparr>uuids_used := Suc (uuids_used w)\<rparr>)"

section \<open>The tables are keyed tables\<close>

interpretation record_table: keyed_table r_id "\<lambda>i w. find_row w i" set_row
  "\<lambda>w. distinct (map r_id (records w))"
  by unfold_locales
    (auto simp: find_row_def set_row_def distinct_put_row dest: lookup_row_SomeD)

interpretation budget_table: keyed_table b_experiment "\<lambda>i w. find_budget w i" set_budget
  "\<lambda>w. distinct (map b_experiment (budgets w))"
  by unfold_locales
    (auto simp: find_budget_def set_budget_def distinct_put_row dest: lookup_row_SomeD)

interpretation reservation_table: keyed_table v_id "\<lambda>i w. find_reservation w i" set_reservation
  "\<lambda>w. distinct (map v_id (reservations w))"
  by unfold_locales
    (auto simp: find_reservation_def set_reservation_def distinct_put_row dest: lookup_row_SomeD)

interpretation lease_table: keyed_table l_task "\<lambda>i w. find_lease w i" set_lease
  "\<lambda>w. distinct (map l_task (leases w))"
  by unfold_locales
    (auto simp: find_lease_def set_lease_def distinct_put_row dest: lookup_row_SomeD)

text \<open>What writing one table leaves of the others.\<close>

lemma set_row_simps [simp]:
  "events (set_row r w) = events w" "outbox (set_row r w) = outbox w"
  "commands (set_row r w) = commands w" "budgets (set_row r w) = budgets w"
  "reservations (set_row r w) = reservations w" "leases (set_row r w) = leases w"
  "edges (set_row r w) = edges w" "now (set_row r w) = now w"
  "uuids (set_row r w) = uuids w" "uuids_used (set_row r w) = uuids_used w"
  "digest_of (set_row r w) = digest_of w" "sha256_of (set_row r w) = sha256_of w"
  "effects (set_row r w) = effects w"
  by (simp_all add: set_row_def)

lemma set_budget_simps [simp]:
  "records (set_budget b w) = records w" "events (set_budget b w) = events w"
  "outbox (set_budget b w) = outbox w" "commands (set_budget b w) = commands w"
  "reservations (set_budget b w) = reservations w" "leases (set_budget b w) = leases w"
  "edges (set_budget b w) = edges w" "now (set_budget b w) = now w"
  "uuids (set_budget b w) = uuids w" "uuids_used (set_budget b w) = uuids_used w"
  "digest_of (set_budget b w) = digest_of w" "sha256_of (set_budget b w) = sha256_of w"
  "effects (set_budget b w) = effects w"
  by (simp_all add: set_budget_def)

lemma set_reservation_simps [simp]:
  "records (set_reservation v w) = records w" "events (set_reservation v w) = events w"
  "outbox (set_reservation v w) = outbox w" "commands (set_reservation v w) = commands w"
  "budgets (set_reservation v w) = budgets w" "leases (set_reservation v w) = leases w"
  "edges (set_reservation v w) = edges w" "now (set_reservation v w) = now w"
  "uuids (set_reservation v w) = uuids w" "uuids_used (set_reservation v w) = uuids_used w"
  "digest_of (set_reservation v w) = digest_of w" "sha256_of (set_reservation v w) = sha256_of w"
  "effects (set_reservation v w) = effects w"
  by (simp_all add: set_reservation_def)

lemma set_lease_simps [simp]:
  "records (set_lease l w) = records w" "events (set_lease l w) = events w"
  "outbox (set_lease l w) = outbox w" "commands (set_lease l w) = commands w"
  "budgets (set_lease l w) = budgets w" "reservations (set_lease l w) = reservations w"
  "edges (set_lease l w) = edges w" "now (set_lease l w) = now w"
  "uuids (set_lease l w) = uuids w" "uuids_used (set_lease l w) = uuids_used w"
  "digest_of (set_lease l w) = digest_of w" "sha256_of (set_lease l w) = sha256_of w"
  "effects (set_lease l w) = effects w"
  by (simp_all add: set_lease_def)

lemma find_frames [simp]:
  "find_row (set_budget b w) i = find_row w i"
  "find_row (set_reservation v w) i = find_row w i"
  "find_row (set_lease l w) i = find_row w i"
  "find_budget (set_row r w) i = find_budget w i"
  "find_budget (set_reservation v w) i = find_budget w i"
  "find_budget (set_lease l w) i = find_budget w i"
  "find_reservation (set_row r w) i = find_reservation w i"
  "find_reservation (set_budget b w) i = find_reservation w i"
  "find_reservation (set_lease l w) i = find_reservation w i"
  "find_lease (set_row r w) i = find_lease w i"
  "find_lease (set_budget b w) i = find_lease w i"
  "find_lease (set_reservation v w) i = find_lease w i"
  by (simp_all add: find_row_def find_budget_def find_reservation_def find_lease_def)

lemma find_row_set_row [simp]:
  "find_row (set_row r w) i = (if i = r_id r then Some r else find_row w i)"
  by (rule record_table.get_put)

lemma find_budget_set_budget [simp]:
  "find_budget (set_budget b w) i = (if i = b_experiment b then Some b else find_budget w i)"
  by (rule budget_table.get_put)

lemma find_reservation_set_reservation [simp]:
  "find_reservation (set_reservation v w) i = (if i = v_id v then Some v else find_reservation w i)"
  by (rule reservation_table.get_put)

lemma find_lease_set_lease [simp]:
  "find_lease (set_lease l w) i = (if i = l_task l then Some l else find_lease w i)"
  by (rule lease_table.get_put)

lemma find_row_id: "find_row w i = Some r \<Longrightarrow> r_id r = i"
  by (rule record_table.get_key)

lemma find_row_in: "find_row w i = Some r \<Longrightarrow> r \<in> set (records w)"
  by (auto simp: find_row_def dest: lookup_row_SomeD)

lemma find_json_SomeD: "find_json w x = Some r \<Longrightarrow> x = JStr (r_id r) \<and> find_row w (r_id r) = Some r"
  by (cases x) (auto simp: find_json_def dest: find_row_id)

lemma find_json_JStr [simp]: "find_json w (JStr i) = find_row w i"
  by (simp add: find_json_def)

lemma find_json_jopt [simp]: "find_json w (jopt x) = find_opt w x"
  by (cases x) (auto simp: find_json_def find_opt_def)

lemma find_opt_simps [simp]: "find_opt w None = None" "find_opt w (Some i) = find_row w i"
  by (simp_all add: find_opt_def)

lemma set_select_sorted: "set (select_sorted P w) = {r \<in> set (records w). P r}"
  by (auto simp: select_sorted_def)

lemma sorted_select_sorted: "sorted (map r_id (select_sorted P w))"
  by (simp add: select_sorted_def)

section \<open>The empty world\<close>

text \<open>A world with empty tables, for the concrete runs: its ids are \<open>u\<close>, \<open>uu\<close>, \<open>uuu\<close> and so on.\<close>

definition blank :: world where
  "blank = \<lparr>records = [], events = [], outbox = [], commands = [], budgets = [],
     reservations = [], leases = [], edges = [], now = 0,
     uuids = (\<lambda>n. replicate (Suc n) (CHR ''u'')), uuids_used = 0,
     digest_of = (\<lambda>_. ''digest''), sha256_of = (\<lambda>s. s), effects = None,
     prices = [], artifact_text = (\<lambda>s. Inr s),
     stamp_of = (\<lambda>_. ''now'')\<rparr>"

lemma blank_simps [simp]:
  "records blank = []" "events blank = []" "outbox blank = []" "commands blank = []"
  "budgets blank = []" "reservations blank = []" "leases blank = []" "edges blank = []"
  "now blank = 0" "uuids_used blank = 0" "effects blank = None"
  "uuids blank n = replicate (Suc n) (CHR ''u'')" "digest_of blank j = ''digest''"
  "sha256_of blank t = t"
  by (simp_all add: blank_def)

end
