(* ===== verification/Sample.thy ===== *)
theory Sample
  imports Store
begin

text \<open>
  A small project, for the concrete runs beside the properties: a campaign, an approved problem
  and its review, a queued experiment with its budget and one open reservation, two branches, a
  running task of the first branch under a live lease, an artifact of the second branch and the
  receipt that accepts it. The clock stands at ten seconds.
\<close>

definition sample_row :: "kind \<Rightarrow> string \<Rightarrow> dict \<Rightarrow> row" where
  "sample_row k i data =
     \<lparr>r_id = i, r_project = ''p'', r_kind = k, r_rev = 1,
      r_payload = data @ [(''id'', JStr i), (''kind'', JStr (kind_name k)),
        (''project_id'', JStr ''p''), (''revision'', JInt 1), (''created_at'', JTime 0)]\<rparr>"

definition sample_experiment :: row where
  "sample_experiment = sample_row Experiment ''e''
     [(''campaign_id'', JStr ''c''), (''problem_id'', JStr ''t''),
      (''target_digest'', JStr ''digest''), (''status'', JStr ''running''),
      (''sharing'', JStr ''verified''), (''started_at'', JTime 0),
      (''models'', JList [JStr ''m'']),
      (''budget'', JObj [(''max_runtime_seconds'', JInt 3600), (''max_concurrency'', JInt 4),
                         (''max_tokens'', JInt 1000)])]"

definition sample_problem :: row where
  "sample_problem = sample_row Problem ''t''
     [(''campaign_id'', JStr ''c''), (''formal_statement'', JStr ''s''),
      (''target_digest'', JStr ''digest''), (''environment_digest'', JStr ''env''),
      (''semantic_review'', JStr ''approved''), (''review_id'', JStr ''r'')]"

definition sample_artifact :: row where
  "sample_artifact = sample_row Artifact ''a''
     [(''experiment_id'', JStr ''e''), (''branch_id'', JStr ''b2''),
      (''artifact_kind'', JStr ''candidate''), (''sha256'', JStr ''h'')]"

definition sample_receipt :: row where
  "sample_receipt = sample_row Verification ''v''
     [(''experiment_id'', JStr ''e''), (''status'', JStr ''verified''),
      (''assurance'', JStr ''independent_kernel''), (''artifact_id'', JStr ''a''),
      (''review_id'', JStr ''r''), (''target_theorem'', JStr ''target''),
      (''challenge_sha256'', JStr ''s''), (''problem_revision_id'', JStr ''t''),
      (''target_digest'', JStr ''digest''), (''environment_digest'', JStr ''env''),
      (''candidate_sha256'', JStr ''h'')]"

definition sample_task :: row where
  "sample_task = sample_row Task ''k''
     [(''experiment_id'', JStr ''e''), (''branch_id'', JStr ''b1''),
      (''status'', JStr ''running''), (''objective'', JStr ''prove''),
      (''dependency_ids'', JList []), (''created_by'', JStr ''op'')]"

definition sample_branch :: "string \<Rightarrow> row" where
  "sample_branch i = sample_row Branch i
     [(''experiment_id'', JStr ''e''), (''status'', JStr ''open''), (''parent_id'', JNull)]"

definition sample_checkpoint :: row where
  "sample_checkpoint = sample_row Artifact ''n''
     [(''experiment_id'', JStr ''e''), (''branch_id'', JStr ''b1''),
      (''artifact_kind'', JStr ''native_checkpoint''), (''sha256'', JStr ''h'')]"

text \<open>The runs' digest: the key of a command, the operation of a fingerprint.\<close>

definition sample_digest :: "json \<Rightarrow> string" where
  "sample_digest j =
     (case as_list j of
        [_, _, JStr key] \<Rightarrow> CHR ''k'' # key
      | JStr operation # _ \<Rightarrow> operation
      | _ \<Rightarrow> ''digest'')"

definition sample :: world where
  "sample = blank\<lparr> digest_of := sample_digest,
     records :=
       [sample_row Campaign ''c'' [(''programs'', JList [JStr ''math''])],
        sample_problem,
        sample_row Review ''r'' [(''problem_id'', JStr ''t''), (''target_digest'', JStr ''digest'')],
        sample_experiment, sample_branch ''b1'', sample_branch ''b2'', sample_task, sample_artifact,
        sample_receipt, sample_checkpoint],
     budgets :=
       [\<lparr>b_experiment = ''e'', b_max_cost = 5000000, b_reserved = 1000000, b_spent = 0,
         b_active_workers = 1, b_max_concurrency = 4, b_max_tokens = Some 1000,
         b_tokens_reserved = 100, b_tokens_spent = 0\<rparr>],
     reservations :=
       [\<lparr>v_id = ''s'', v_experiment = ''e'', v_reserved = 1000000, v_workers = 1,
         v_state = ''active'', v_actual = None, v_tokens_reserved = 100, v_tokens_actual = None\<rparr>],
     leases := [\<lparr>l_task = ''k'', l_holder = ''h1'', l_fence = 1, l_expires = 60000000\<rparr>],
     now := 10000000\<rparr>"

text \<open>The same project as a research society: ideas are shared, the first branch works under a claim
  policy, and the second branch is the author of an open lemma with its thread.\<close>

definition society_experiment :: row where
  "society_experiment = sample_row Experiment ''e''
     [(''campaign_id'', JStr ''c''), (''problem_id'', JStr ''t''),
      (''target_digest'', JStr ''digest''), (''status'', JStr ''running''),
      (''sharing'', JStr ''ideas''), (''started_at'', JTime 0),
      (''society'', JObj [(''claim_ttl_seconds'', JInt 600), (''messages_per_minute'', JInt 2)]),
      (''models'', JList [JObj [(''model'', JStr ''m'')]]),
      (''budget'', JObj [(''max_runtime_seconds'', JInt 3600), (''max_concurrency'', JInt 4),
                         (''max_tokens'', JInt 1000)])]"

definition sample_node :: row where
  "sample_node = sample_row CommonsNode ''nd''
     [(''experiment_id'', JStr ''e''), (''branch_id'', JStr ''b2''), (''node_type'', JStr ''lemma''),
      (''title'', JStr ''bound''), (''status'', JStr ''open''), (''topic_id'', JStr ''tp'')]"

definition sample_topic :: row where
  "sample_topic = sample_row DiscussionTopic ''tp''
     [(''experiment_id'', JStr ''e''), (''branch_id'', JStr ''b2''), (''node_id'', JStr ''nd''),
      (''problem_revision_id'', JStr ''t''), (''target_digest'', JStr ''digest''),
      (''environment_digest'', JStr ''env'')]"

definition society :: world where
  "society = sample\<lparr>records :=
     map (\<lambda>r. if r_id r = ''e'' then society_experiment else r) (records sample) @
     [sample_node, sample_topic]\<rparr>"

definition sample_agent :: principal where
  "sample_agent = \<lparr>pr_id = ''ag'', pr_project = ''p'', pr_role = Agent, pr_experiment = Some ''e'',
     pr_branch = Some ''b1'', pr_orchestrator = False\<rparr>"

definition sample_operator :: principal where
  "sample_operator = \<lparr>pr_id = ''op'', pr_project = ''p'', pr_role = Operator, pr_experiment = None,
     pr_branch = None, pr_orchestrator = False\<rparr>"

definition sample_reviewer :: principal where
  "sample_reviewer = \<lparr>pr_id = ''rv'', pr_project = ''p'', pr_role = Reviewer, pr_experiment = None,
     pr_branch = None, pr_orchestrator = False\<rparr>"

end
