(* ===== verification/Authority.thy ===== *)
theory Authority
  imports Sample
begin

text \<open>
  Who may read and write what (\<open>service.py\<close>, \<open>collaboration.py\<close>, \<open>commons_review.py\<close>): role
  requirements, the canonical acceptance predicate \<open>_accepted_evidence\<close>, the scope predicate
  \<open>_in_scope\<close> that every read goes through, \<open>_get\<close> and \<open>_writable_branch\<close>.

  A field that every record of its kind is created with is read with \<open>dget\<close> here, also where the
  code subscripts it: a missing field reads as \<open>JNull\<close> and names nothing.
\<close>

section \<open>Roles\<close>

definition require_role :: "principal \<Rightarrow> role list \<Rightarrow> herr + unit" where
  "require_role actor roles =
     (if pr_role actor \<notin> set roles \<and> pr_role actor \<noteq> Admin
      then Inl (fail ''FORBIDDEN'' 403) else Inr ())"

definition research_role :: "principal \<Rightarrow> herr + unit" where
  "research_role actor = require_role actor [Researcher, Operator, Agent]"

definition controller_only :: "principal \<Rightarrow> herr + unit" where
  "controller_only actor =
     (if pr_role actor \<notin> {Operator, Admin} then Inl (fail ''FORBIDDEN'' 403) else Inr ())"

lemma require_role_Inr_iff [result_simps]:
  "require_role actor roles = Inr u \<longleftrightarrow> pr_role actor \<in> set roles \<or> pr_role actor = Admin"
  by (auto simp: require_role_def)

lemma research_role_Inr_iff [result_simps]:
  "research_role actor = Inr u \<longleftrightarrow> pr_role actor \<in> {Researcher, Operator, Agent, Admin}"
  by (auto simp: research_role_def require_role_Inr_iff)

lemma controller_only_Inr_iff [result_simps]:
  "controller_only actor = Inr u \<longleftrightarrow> pr_role actor \<in> {Operator, Admin}"
  by (auto simp: controller_only_def)

section \<open>Accepted evidence\<close>

definition private_artifact_kinds :: "string list" where
  "private_artifact_kinds =
     [''checkpoint'', ''checkpoint_chunk'', ''native_checkpoint'', ''native_checkpoint_chunk'',
      ''native_archive'', ''runtime_event'', ''execution_failure'',
      ''workspace_recovery_observation'', ''masked_reference'', ''literature_screen'']"

text \<open>\<open>sha256(target.payload["formal_statement"])\<close> of a problem.\<close>

definition challenge_digest :: "world \<Rightarrow> row \<Rightarrow> json" where
  "challenge_digest w target =
     (case field target ''formal_statement'' of JStr s \<Rightarrow> JStr (sha256_of w s) | _ \<Rightarrow> JNull)"

text \<open>The fields an artifact's receipt must carry.\<close>

definition expected_receipt :: "world \<Rightarrow> row \<Rightarrow> row \<Rightarrow> row \<Rightarrow> dict" where
  "expected_receipt w row ex target =
     [(''artifact_id'', JStr (r_id row)),
      (''status'', JStr ''verified''),
      (''experiment_id'', JStr (r_id ex)),
      (''review_id'', field target ''review_id''),
      (''target_theorem'', dget_or (r_payload target) ''target_theorem'' (JStr ''target'')),
      (''challenge_sha256'', challenge_digest w target),
      (''problem_revision_id'', JStr (r_id target)),
      (''target_digest'', field target ''target_digest''),
      (''environment_digest'', field target ''environment_digest''),
      (''candidate_sha256'', field row ''sha256'')]"

text \<open>The receipt case: every pin of the reviewed target and of the candidate agrees. On a problem
  without its formal statement the code fails, so nothing is accepted there.\<close>

definition accepted_receipt :: "world \<Rightarrow> string list \<Rightarrow> row \<Rightarrow> row \<Rightarrow> bool" where
  "accepted_receipt w assurances ex row \<longleftrightarrow>
     field row ''status'' = JStr ''verified'' \<and>
     in_strings (field row ''assurance'') assurances \<and>
     field row ''experiment_id'' = JStr (r_id ex) \<and>
     (case find_json w (field ex ''problem_id'') of None \<Rightarrow> False | Some target \<Rightarrow>
        r_project target = r_project row \<and>
        r_kind target = Problem \<and>
        field target ''semantic_review'' = JStr ''approved'' \<and>
        field row ''review_id'' = field target ''review_id'' \<and>
        field row ''target_theorem''
          = dget_or (r_payload target) ''target_theorem'' (JStr ''target'') \<and>
        challenge_digest w target \<noteq> JNull \<and>
        field row ''challenge_sha256'' = challenge_digest w target \<and>
        field row ''problem_revision_id'' = JStr (r_id target) \<and>
        field row ''target_digest'' = field target ''target_digest'' \<and>
        field target ''target_digest'' = field ex ''target_digest'' \<and>
        field row ''environment_digest'' = field target ''environment_digest'' \<and>
        (case find_json w (field row ''artifact_id'') of None \<Rightarrow> False | Some artifact \<Rightarrow>
           r_project artifact = r_project row \<and>
           r_kind artifact = Artifact \<and>
           field artifact ''experiment_id'' = JStr (r_id ex) \<and>
           field row ''candidate_sha256'' = field artifact ''sha256''))"

text \<open>The query of the artifact case: receipts of the project with the expected fields and an
  acceptable assurance.\<close>

definition receipt_matches :: "world \<Rightarrow> string list \<Rightarrow> row \<Rightarrow> row \<Rightarrow> row \<Rightarrow> row \<Rightarrow> bool" where
  "receipt_matches w assurances row ex target r \<longleftrightarrow>
     r_project r = r_project row \<and> r_kind r = Verification \<and>
     (\<forall>(k, v) \<in> set (expected_receipt w row ex target). field r k = v) \<and>
     (assurances = [] \<or> in_strings (field r ''assurance'') assurances)"

text \<open>
  \<open>_accepted_evidence\<close>. A claim is judged through the record its \<open>verification_id\<close> names; the
  number bounds that chain, and \<open>accepted_evidence\<close> gives it the number of records, so that only
  a cycle of claims, on which the code recurses without end, runs out.
\<close>

fun accepted_within :: "nat \<Rightarrow> world \<Rightarrow> string list \<Rightarrow> row \<Rightarrow> row \<Rightarrow> bool" where
  "accepted_within 0 w assurances ex row = False"
| "accepted_within (Suc n) w assurances ex row =
     (if r_kind row = Artifact then
        (case find_json w (field ex ''problem_id'') of None \<Rightarrow> False | Some target \<Rightarrow>
           if r_kind target \<noteq> Problem \<or> r_project target \<noteq> r_project row \<or>
              field target ''semantic_review'' \<noteq> JStr ''approved'' \<or>
              field target ''target_digest'' \<noteq> field ex ''target_digest'' \<or>
              field row ''experiment_id'' \<noteq> JStr (r_id ex)
           then False
           else (case find (receipt_matches w assurances row ex target) (records w) of
                   None \<Rightarrow> False
                 | Some r \<Rightarrow> accepted_receipt w assurances ex r))
      else if r_kind row = Claim then
        (case find_json w (dget_or (r_payload row) ''verification_id'' (JStr [])) of
           None \<Rightarrow> False
         | Some receipt \<Rightarrow>
             field row ''proof_status'' = JStr ''verified'' \<and>
             field receipt ''claim_id'' = JStr (r_id row) \<and>
             accepted_within n w assurances ex receipt)
      else if r_kind row \<noteq> Verification then False
      else accepted_receipt w assurances ex row)"

definition accepted_evidence :: "world \<Rightarrow> row \<Rightarrow> row \<Rightarrow> string list \<Rightarrow> bool" where
  "accepted_evidence w row ex assurances =
     accepted_within (Suc (length (records w))) w assurances ex row"

definition accepted_for_sharing :: "world \<Rightarrow> row \<Rightarrow> row \<Rightarrow> bool" where
  "accepted_for_sharing w row ex = accepted_evidence w row ex [''independent_kernel'']"

lemma accepted_evidence_verification:
  "r_kind row = Verification \<Longrightarrow>
     accepted_evidence w row ex assurances = accepted_receipt w assurances ex row"
  by (simp add: accepted_evidence_def)

text \<open>The receipt that stands behind an accepted record, tied to that very record.\<close>

inductive receipt_behind :: "world \<Rightarrow> row \<Rightarrow> row \<Rightarrow> bool" for w where
  itself: "r_kind r = Verification \<Longrightarrow> receipt_behind w r r"
| of_artifact: "r_kind a = Artifact \<Longrightarrow> r_kind r = Verification \<Longrightarrow> r \<in> set (records w) \<Longrightarrow>
    field r ''artifact_id'' = JStr (r_id a) \<Longrightarrow> field r ''candidate_sha256'' = field a ''sha256'' \<Longrightarrow>
    receipt_behind w a r"
| of_claim: "r_kind c = Claim \<Longrightarrow> field c ''proof_status'' = JStr ''verified'' \<Longrightarrow>
    find_json w (dget_or (r_payload c) ''verification_id'' (JStr [])) = Some s \<Longrightarrow> field s ''claim_id'' = JStr (r_id c) \<Longrightarrow>
    receipt_behind w s r \<Longrightarrow> receipt_behind w c r"

lemma receipt_matchesD:
  assumes "receipt_matches w assurances row ex target r"
  shows "r_kind r = Verification" "field r ''artifact_id'' = JStr (r_id row)"
    "field r ''candidate_sha256'' = field row ''sha256''"
  using assms by (auto simp: receipt_matches_def expected_receipt_def)

lemma accepted_within_behind:
  "accepted_within n w assurances ex row \<Longrightarrow>
     \<exists>r. accepted_receipt w assurances ex r \<and> receipt_behind w row r"
proof (induction n arbitrary: row)
  case (Suc n)
  consider (artifact) "r_kind row = Artifact" | (claim) "r_kind row = Claim"
    | (receipt) "r_kind row = Verification" "accepted_receipt w assurances ex row"
    using Suc.prems by (auto split: if_splits)
  then show ?case
  proof cases
    case artifact
    then obtain target r where f: "find (receipt_matches w assurances row ex target) (records w) = Some r"
        and acc: "accepted_receipt w assurances ex r"
      using Suc.prems by (auto split: option.splits if_splits)
    from find_SomeD [OF f] have "r \<in> set (records w)" "receipt_matches w assurances row ex target r"
      by blast+
    then have "receipt_behind w row r"
      using artifact receipt_matchesD by (intro receipt_behind.of_artifact) blast+
    then show ?thesis using acc by blast
  next
    case claim
    then obtain s where s: "find_json w (dget_or (r_payload row) ''verification_id'' (JStr [])) = Some s"
        "field row ''proof_status'' = JStr ''verified''" "field s ''claim_id'' = JStr (r_id row)"
        "accepted_within n w assurances ex s"
      using Suc.prems by (auto split: option.splits)
    then obtain r where "accepted_receipt w assurances ex r" "receipt_behind w s r"
      using Suc.IH by blast
    then show ?thesis using receipt_behind.of_claim [OF claim s(2,1,3)] by blast
  next
    case receipt
    then show ?thesis using receipt_behind.itself by blast
  qed
qed simp

text \<open>The pins of an accepted receipt, written out.\<close>

definition pinned_receipt :: "world \<Rightarrow> row \<Rightarrow> row \<Rightarrow> bool" where
  "pinned_receipt w ex r \<longleftrightarrow>
     field r ''status'' = JStr ''verified'' \<and> field r ''assurance'' = JStr ''independent_kernel'' \<and>
     field r ''experiment_id'' = JStr (r_id ex) \<and>
     (\<exists>target. find_json w (field ex ''problem_id'') = Some target \<and> r_kind target = Problem \<and>
        field r ''target_theorem'' = dget_or (r_payload target) ''target_theorem'' (JStr ''target'') \<and>
        field target ''semantic_review'' = JStr ''approved'' \<and>
        field r ''review_id'' = field target ''review_id'' \<and>
        field r ''problem_revision_id'' = JStr (r_id target) \<and>
        field r ''target_digest'' = field target ''target_digest'' \<and>
        field ex ''target_digest'' = field target ''target_digest'' \<and>
        field r ''environment_digest'' = field target ''environment_digest'' \<and>
        field r ''challenge_sha256'' = challenge_digest w target) \<and>
     (\<exists>artifact. find_json w (field r ''artifact_id'') = Some artifact \<and> r_kind artifact = Artifact \<and>
        field artifact ''experiment_id'' = JStr (r_id ex) \<and>
        field artifact ''sha256'' = field r ''candidate_sha256'')"

lemma accepted_receipt_pinned: "accepted_receipt w [''independent_kernel''] ex r \<Longrightarrow> pinned_receipt w ex r"
  by (auto simp: accepted_receipt_def pinned_receipt_def in_strings_iff split: option.splits)

section \<open>Scope\<close>

definition agent_branch_ok :: "world \<Rightarrow> principal \<Rightarrow> bool" where
  "agent_branch_ok w actor \<longleftrightarrow>
     (opt_true (pr_branch actor) \<longrightarrow>
        (case find_opt w (pr_branch actor) of None \<Rightarrow> False | Some b \<Rightarrow>
           r_kind b = Branch \<and> r_project b = pr_project actor \<and>
           field b ''experiment_id'' = jopt (pr_experiment actor)))"

text \<open>Every artifact a message or a post attaches must itself be readable.\<close>

definition attachments_ok :: "(row \<Rightarrow> bool) \<Rightarrow> world \<Rightarrow> principal \<Rightarrow> json \<Rightarrow> bool" where
  "attachments_ok sub w actor ids \<longleftrightarrow>
     (\<forall>i \<in> set (as_list ids).
        (case find_json w i of None \<Rightarrow> False | Some a \<Rightarrow>
           r_kind a = Artifact \<and> r_project a = pr_project actor \<and> sub a))"

definition delivery_item_ok :: "(row \<Rightarrow> bool) \<Rightarrow> world \<Rightarrow> principal \<Rightarrow> json \<Rightarrow> bool" where
  "delivery_item_ok sub w actor item \<longleftrightarrow>
     (let d = as_dict item; kind = dget d ''source_kind''; source = find_json w (dget d ''id'')
      in if kind = JStr ''withdrawal'' then True
         else if kind = JStr ''message'' then
           (case source of None \<Rightarrow> False | Some s \<Rightarrow>
              r_kind s = Message \<and>
              field s ''recipient_branch_id'' = jopt (pr_branch actor) \<and> sub s)
         else kind = JStr ''discussion_post'' \<and>
           (case source of None \<Rightarrow> False | Some s \<Rightarrow> r_kind s = DiscussionPost \<and> sub s))"

definition reader_scope :: "(row \<Rightarrow> bool) \<Rightarrow> world \<Rightarrow> principal \<Rightarrow> row \<Rightarrow> bool" where
  "reader_scope sub w actor row \<longleftrightarrow>
     opt_true (pr_branch actor) \<and>
     field row ''reader_key'' = JStr (''branch:'' @ the (pr_branch actor)) \<and>
     (r_kind row = DiscussionDelivery \<longrightarrow>
        (\<forall>item \<in> set (as_list (field row ''items'')). delivery_item_ok sub w actor item))"

text \<open>A topic or post of the discussion: pinned to the current target and environment, own or
  shared ideas, with readable attachments and references.\<close>

definition pinned_to :: "row \<Rightarrow> row \<Rightarrow> row \<Rightarrow> bool" where
  "pinned_to r target ex \<longleftrightarrow>
     field r ''problem_revision_id'' = JStr (r_id target) \<and>
     field r ''target_digest'' = field ex ''target_digest'' \<and>
     field r ''environment_digest'' = field target ''environment_digest''"

definition shared_or_own :: "row \<Rightarrow> principal \<Rightarrow> row \<Rightarrow> bool" where
  "shared_or_own r actor ex \<longleftrightarrow>
     field r ''branch_id'' = jopt (pr_branch actor) \<or> field ex ''sharing'' = JStr ''ideas''"

definition discussion_scope :: "(row \<Rightarrow> bool) \<Rightarrow> world \<Rightarrow> principal \<Rightarrow> row \<Rightarrow> row \<Rightarrow> bool" where
  "discussion_scope sub w actor ex row =
     (case find_json w (field ex ''problem_id'') of None \<Rightarrow> False | Some target \<Rightarrow>
        pinned_to row target ex \<and>
        (r_kind row = DiscussionPost \<longrightarrow>
           (case find_json w (field row ''topic_id'') of None \<Rightarrow> False | Some topic \<Rightarrow>
              r_kind topic = DiscussionTopic \<and> r_project topic = pr_project actor \<and>
              field topic ''experiment_id'' = jopt (pr_experiment actor) \<and>
              pinned_to topic target ex)) \<and>
        shared_or_own row actor ex \<and>
        (r_kind row = DiscussionPost \<longrightarrow>
           attachments_ok sub w actor (field row ''artifact_ids'') \<and>
           (\<forall>i \<in> set (as_list (field row ''reference_post_ids'')).
              (case find_json w i of None \<Rightarrow> False | Some p \<Rightarrow>
                 r_kind p = DiscussionPost \<and> r_project p = pr_project actor \<and>
                 field p ''experiment_id'' = jopt (pr_experiment actor) \<and>
                 shared_or_own p actor ex))))"

text \<open>The last part of \<open>_in_scope\<close>: ownership, then what the sharing policy grants.\<close>

definition grant_scope :: "world \<Rightarrow> principal \<Rightarrow> row \<Rightarrow> row \<Rightarrow> bool" where
  "grant_scope w actor ex row =
     (let owner = (if r_kind row = Branch then JStr (r_id row) else field row ''branch_id'');
          sharing = dget_or (r_payload ex) ''sharing'' (JStr ''none'');
          is_checkpoint = (r_kind row = Artifact \<and>
            field row ''artifact_kind'' = JStr ''checkpoint'')
      in if r_kind row \<in> {Session, ModelReservation, ContinuationLink} \<or>
            (r_kind row = Artifact \<and>
             in_strings (field row ''artifact_kind'')
               (filter (\<lambda>k. k \<noteq> ''checkpoint'') private_artifact_kinds)) then False
         else if truthy owner \<and> owner = jopt (pr_branch actor) then True
         else if \<not> opt_true (pr_branch actor) \<and>
                 field row ''origin_actor_id'' = JStr (pr_id actor) then True
         else if field row ''trusted_input'' = JBool True then True
         else if pr_orchestrator actor \<and> r_kind row \<in> {Branch, Task} then True
         else if r_kind row = Branch \<and> opt_true (pr_branch actor) \<and>
                 field row ''parent_id'' = jopt (pr_branch actor) then True
         else if is_checkpoint then False
         else if sharing = JStr ''none'' \<or> \<not> opt_true (pr_branch actor) then False
         else if r_kind row = Message then
           sharing = JStr ''ideas'' \<and> field row ''recipient_branch_id'' = jopt (pr_branch actor)
         else if sharing = JStr ''ideas'' \<and> truthy owner \<and>
                 truthy (field row ''origin_actor_id'') then
           r_kind row \<in> {Artifact, Claim, Source, Program}
         else accepted_for_sharing w row ex)"

text \<open>
  The body of \<open>_in_scope\<close> for an agent of the experiment \<open>ex\<close>, with \<open>sub\<close> for its calls on the
  records a row refers to.
\<close>

definition agent_scope :: "(row \<Rightarrow> bool) \<Rightarrow> world \<Rightarrow> principal \<Rightarrow> row \<Rightarrow> row \<Rightarrow> bool" where
  "agent_scope sub w actor ex row =
     (if r_project ex \<noteq> pr_project actor \<or> \<not> agent_branch_ok w actor then False
      else if r_kind row = Experiment then Some (r_id row) = pr_experiment actor
      else if r_kind row \<in> {Problem, Campaign} then
        JStr (r_id row) = field ex (kind_name (r_kind row) @ ''_id'')
      else if r_kind row = Review then
        (case find_json w (field ex ''problem_id'') of None \<Rightarrow> False | Some target \<Rightarrow>
           r_project target = pr_project actor \<and>
           field target ''review_id'' = JStr (r_id row) \<and>
           field row ''problem_id'' = JStr (r_id target) \<and>
           field row ''target_digest'' = field target ''target_digest'')
      else if field row ''experiment_id'' \<noteq> jopt (pr_experiment actor) then False
      else if r_kind row = Message \<and>
              field row ''recipient_branch_id'' = jopt (pr_branch actor) \<and>
              \<not> attachments_ok sub w actor (field row ''artifact_ids'') then False
      else if r_kind row \<in> {DiscussionReader, DiscussionSubscription, DiscussionDelivery} then
        reader_scope sub w actor row
      else if r_kind row \<in> {WorkforcePolicy, WorkforceProfile, WorkforceTeam,
                              WorkforceCapacityRequest} then
        field row ''branch_id'' = jopt (pr_branch actor) \<and> opt_true (pr_branch actor)
      else if r_kind row \<in> {DiscussionTopic, DiscussionPost} then
        discussion_scope sub w actor ex row
      else if r_kind row \<in> {CommonsNode, CommonsClaim, CommonsReview} then
        field ex ''sharing'' = JStr ''ideas''
      else grant_scope w actor ex row)"

definition scope_body :: "(row \<Rightarrow> bool) \<Rightarrow> world \<Rightarrow> principal \<Rightarrow> row \<Rightarrow> bool" where
  "scope_body sub w actor row =
     (if r_kind row = DiscussionWithdrawal then
        pr_role actor \<in> {Operator, Admin} \<and> r_project row = pr_project actor
      else if pr_role actor \<noteq> Agent then True
      else (case find_opt w (pr_experiment actor) of
              None \<Rightarrow> False
            | Some ex \<Rightarrow> agent_scope sub w actor ex row))"

text \<open>
  A row refers at most to messages and posts, and those to artifacts, so three levels of the body
  are the recursion of the code (\<open>in_scope_eq\<close> below).
\<close>

definition in_scope :: "world \<Rightarrow> principal \<Rightarrow> row \<Rightarrow> bool" where
  "in_scope w actor =
     scope_body (scope_body (scope_body (\<lambda>_. False) w actor) w actor) w actor"

lemma attachments_ok_cong:
  "(\<And>r. r_kind r = Artifact \<Longrightarrow> sub r = sub' r) \<Longrightarrow>
     attachments_ok sub w actor ids = attachments_ok sub' w actor ids"
  unfolding attachments_ok_def by (intro ball_cong refl) (auto split: option.splits)

lemma discussion_scope_cong:
  assumes "\<And>r. r_kind r = Artifact \<Longrightarrow> sub r = sub' r"
  shows "discussion_scope sub w actor ex row = discussion_scope sub' w actor ex row"
proof -
  have "attachments_ok sub w actor ids = attachments_ok sub' w actor ids" for ids
    using assms by (rule attachments_ok_cong)
  then show ?thesis by (simp only: discussion_scope_def)
qed

lemma reader_scope_cong:
  assumes "r_kind row = DiscussionDelivery \<Longrightarrow>
    (\<And>r. r_kind r \<in> {Message, DiscussionPost} \<Longrightarrow> sub r = sub' r)"
  shows "reader_scope sub w actor row = reader_scope sub' w actor row"
proof (cases "r_kind row = DiscussionDelivery")
  case True
  then have "delivery_item_ok sub w actor item = delivery_item_ok sub' w actor item" for item
    unfolding delivery_item_ok_def Let_def using assms by (auto split: option.splits)
  then show ?thesis by (simp only: reader_scope_def)
qed (simp add: reader_scope_def)

lemma scope_body_cong:
  assumes "\<And>ex. agent_scope sub w actor ex row = agent_scope sub' w actor ex row"
  shows "scope_body sub w actor row = scope_body sub' w actor row"
  by (simp only: scope_body_def assms)

lemma scope_body_artifact:
  "r_kind row = Artifact \<Longrightarrow> scope_body sub w actor row = scope_body sub' w actor row"
  by (rule scope_body_cong) (simp add: agent_scope_def cong: if_cong split del: if_split)

lemma scope_body_item_cong:
  assumes "r_kind row \<noteq> DiscussionDelivery"
    and "\<And>r. r_kind r = Artifact \<Longrightarrow> sub r = sub' r"
  shows "scope_body sub w actor row = scope_body sub' w actor row"
proof (rule scope_body_cong)
  have "attachments_ok sub w actor ids = attachments_ok sub' w actor ids" for ids
    using assms(2) by (rule attachments_ok_cong)
  moreover have "discussion_scope sub w actor ex row = discussion_scope sub' w actor ex row" for ex
    using assms(2) by (rule discussion_scope_cong)
  moreover have "reader_scope sub w actor row = reader_scope sub' w actor row"
    using assms(1) by (rule reader_scope_cong [OF notE])
  ultimately show "agent_scope sub w actor ex row = agent_scope sub' w actor ex row" for ex
    by (simp only: agent_scope_def)
qed

lemma scope_body_delivery_cong:
  assumes "r_kind row = DiscussionDelivery"
    and "\<And>r. r_kind r \<in> {Message, DiscussionPost} \<Longrightarrow> sub r = sub' r"
  shows "scope_body sub w actor row = scope_body sub' w actor row"
proof (rule scope_body_cong)
  have "reader_scope sub w actor row = reader_scope sub' w actor row"
    using assms(2) by (rule reader_scope_cong)
  then show "agent_scope sub w actor ex row = agent_scope sub' w actor ex row" for ex
    by (simp add: agent_scope_def assms(1) cong: if_cong split del: if_split)
qed

lemma in_scope_eq: "in_scope w actor row = scope_body (in_scope w actor) w actor row"
proof -
  let ?leaf = "scope_body (\<lambda>_. False) w actor"
  let ?item = "scope_body ?leaf w actor"
  have leaf: "?leaf r = in_scope w actor r" "?item r = in_scope w actor r"
    if "r_kind r = Artifact" for r
    using that unfolding in_scope_def by (metis scope_body_artifact)+
  show ?thesis
  proof (cases "r_kind row = DiscussionDelivery")
    case True
    have "?item r = in_scope w actor r" if k: "r_kind r \<in> {Message, DiscussionPost}" for r
    proof -
      have "?item r = scope_body ?item w actor r"
        by (rule scope_body_item_cong) (use k leaf in auto)
      then show ?thesis by (simp add: in_scope_def)
    qed
    then have "scope_body ?item w actor row = scope_body (in_scope w actor) w actor row"
      by (rule scope_body_delivery_cong [OF True])
    then show ?thesis by (simp add: in_scope_def)
  next
    case False
    have "scope_body ?item w actor row = scope_body (in_scope w actor) w actor row"
      using False leaf(2) by (rule scope_body_item_cong)
    then show ?thesis by (simp add: in_scope_def)
  qed
qed

text \<open>What scope means for an agent, case by case.\<close>

lemma in_scope_agentD:
  assumes "pr_role actor = Agent" and "in_scope w actor row"
  obtains ex where "find_opt w (pr_experiment actor) = Some ex" and "r_project ex = pr_project actor"
    and "agent_branch_ok w actor" and "agent_scope (in_scope w actor) w actor ex row"
    and "r_kind row \<noteq> DiscussionWithdrawal"
proof -
  have *: "scope_body (in_scope w actor) w actor row"
    using assms(2) by (simp add: in_scope_eq [symmetric])
  then obtain ex where "find_opt w (pr_experiment actor) = Some ex"
      and ex: "agent_scope (in_scope w actor) w actor ex row"
      and "r_kind row \<noteq> DiscussionWithdrawal"
    using assms(1) by (auto simp: scope_body_def split: if_splits option.splits)
  moreover have "r_project ex = pr_project actor" "agent_branch_ok w actor"
    using ex by (simp_all add: agent_scope_def split: if_splits)
  ultimately show ?thesis using that by blast
qed

lemma agent_scope_experiment:
  "agent_scope sub w actor ex row \<Longrightarrow> r_kind row \<notin> {Experiment, Problem, Campaign, Review} \<Longrightarrow>
     field row ''experiment_id'' = jopt (pr_experiment actor)"
  by (simp add: agent_scope_def cong: if_cong split: if_splits)

text \<open>The kinds whose visibility rests on ownership and the sharing policy alone.\<close>

definition granted_kind :: "kind \<Rightarrow> bool" where
  "granted_kind k \<longleftrightarrow>
     k \<notin> {Experiment, Problem, Campaign, Review, DiscussionReader, DiscussionSubscription,
           DiscussionDelivery, DiscussionWithdrawal, WorkforcePolicy, WorkforceProfile,
           WorkforceTeam, WorkforceCapacityRequest, DiscussionTopic, DiscussionPost, CommonsNode,
           CommonsClaim, CommonsReview}"

lemma agent_scope_granted:
  "agent_scope sub w actor ex row \<Longrightarrow> granted_kind (r_kind row) \<Longrightarrow> grant_scope w actor ex row"
  by (simp add: agent_scope_def granted_kind_def cong: if_cong split: if_splits)

section \<open>Lookup by kind and write authority\<close>

text \<open>\<open>_get\<close>: absent, foreign, of another kind and unreadable are one answer.\<close>

definition get_row :: "world \<Rightarrow> kind \<Rightarrow> json \<Rightarrow> principal \<Rightarrow> herr + row" where
  "get_row w k x actor =
     (case find_json w x of
        None \<Rightarrow> Inl (fail ''NOT_FOUND'' 404)
      | Some r \<Rightarrow>
          if r_project r \<noteq> pr_project actor \<or> r_kind r \<noteq> k \<or> \<not> in_scope w actor r
          then Inl (fail ''NOT_FOUND'' 404) else Inr r)"

lemma get_row_Inr_iff:
  "get_row w k x actor = Inr r \<longleftrightarrow>
     find_json w x = Some r \<and> r_project r = pr_project actor \<and> r_kind r = k \<and> in_scope w actor r"
  by (auto simp: get_row_def split: option.splits if_splits)

lemma get_row_InrD:
  assumes "get_row w k x actor = Inr r"
  shows "x = JStr (r_id r)" "find_row w (r_id r) = Some r" "r_project r = pr_project actor"
    "r_kind r = k" "in_scope w actor r"
  using assms by (auto simp: get_row_Inr_iff dest: find_json_SomeD)

lemma get_row_Inl: "get_row w k x actor = Inl e \<Longrightarrow> e = fail ''NOT_FOUND'' 404"
  by (auto simp: get_row_def split: option.splits if_splits)

definition referee_hat :: json where
  "referee_hat = JStr ''referee''"

definition guard_referee_branch :: "row \<Rightarrow> principal \<Rightarrow> herr + unit" where
  "guard_referee_branch branch actor =
     (if field branch ''hat'' = referee_hat \<and> pr_branch actor \<noteq> Some (r_id branch)
      then Inl (fail ''REFEREE_ISOLATED'' 403) else Inr ())"

definition guard_referee_task :: "row \<Rightarrow> principal \<Rightarrow> herr + unit" where
  "guard_referee_task task actor =
     (if field task ''review_assignment'' \<noteq> JNull \<and>
         \<not> (pr_id actor = ''commons-platform'' \<and> pr_role actor = Operator)
      then Inl (fail ''REFEREE_ISOLATED'' 403) else Inr ())"

definition guard_referee_recipient :: "row \<Rightarrow> row \<Rightarrow> herr + unit" where
  "guard_referee_recipient sender recipient =
     (if field recipient ''hat'' = referee_hat \<and> r_id sender \<noteq> r_id recipient
      then Inl (fail ''REFEREE_ISOLATED'' 403) else Inr ())"

definition writable_branch :: "world \<Rightarrow> json \<Rightarrow> principal \<Rightarrow> bool \<Rightarrow> herr + row" where
  "writable_branch w branch_id actor delegation =
     bindE (get_row w Branch branch_id actor) (\<lambda>branch.
     bindE (if delegation then guard_referee_branch branch actor else Inr ()) (\<lambda>_.
     if pr_role actor = Agent \<and> \<not> pr_orchestrator actor \<and>
        \<not> (jopt (pr_branch actor) = branch_id \<or>
           (\<not> opt_true (pr_branch actor) \<and> field branch ''origin_actor_id'' = JStr (pr_id actor)) \<or>
           (delegation \<and> opt_true (pr_branch actor) \<and>
            field branch ''parent_id'' = jopt (pr_branch actor)))
     then Inl (fail ''BRANCH_AUTHORITY'' 403) else Inr branch))"

lemma writable_branch_InrD:
  assumes "writable_branch w b actor d = Inr branch"
  shows "get_row w Branch b actor = Inr branch"
    "pr_role actor = Agent \<Longrightarrow> \<not> pr_orchestrator actor \<Longrightarrow>
       pr_branch actor = Some (r_id branch) \<or>
       (\<not> opt_true (pr_branch actor) \<and> field branch ''origin_actor_id'' = JStr (pr_id actor)) \<or>
       (d \<and> opt_true (pr_branch actor) \<and> field branch ''parent_id'' = jopt (pr_branch actor))"
proof -
  show *: "get_row w Branch b actor = Inr branch"
    using assms by (auto simp: writable_branch_def result_simps split: if_splits)
  show "pr_branch actor = Some (r_id branch) \<or>
       (\<not> opt_true (pr_branch actor) \<and> field branch ''origin_actor_id'' = JStr (pr_id actor)) \<or>
       (d \<and> opt_true (pr_branch actor) \<and> field branch ''parent_id'' = jopt (pr_branch actor))"
    if "pr_role actor = Agent" "\<not> pr_orchestrator actor"
    using assms that get_row_InrD(1) [OF *]
    by (auto simp: writable_branch_def result_simps split: if_splits)
qed

section \<open>Properties\<close>

text \<open>C34. An agent reads only inside its experiment: a readable record is the experiment itself, the
  experiment's problem or campaign, the review of its target, or carries the experiment's id, and
  the experiment is the agent's project's.\<close>

theorem agent_scope_is_experiment:
  assumes "pr_role actor = Agent" and "in_scope w actor row"
  shows "\<exists>ex. find_opt w (pr_experiment actor) = Some ex \<and> r_project ex = pr_project actor \<and>
    (r_id row = r_id ex \<and> r_kind row = Experiment \<or>
     r_kind row \<in> {Problem, Campaign} \<and>
       JStr (r_id row) = field ex (kind_name (r_kind row) @ ''_id'') \<or>
     r_kind row = Review \<and>
       (\<exists>target. find_json w (field ex ''problem_id'') = Some target \<and>
          field target ''review_id'' = JStr (r_id row)) \<or>
     field row ''experiment_id'' = JStr (r_id ex))"
proof -
  obtain ex where ex: "find_opt w (pr_experiment actor) = Some ex" "r_project ex = pr_project actor"
      and scope: "agent_scope (in_scope w actor) w actor ex row"
    using in_scope_agentD [OF assms] by blast
  have id: "pr_experiment actor = Some (r_id ex)"
    using ex(1) by (cases "pr_experiment actor") (auto dest: find_row_id)
  show ?thesis
  proof (cases "r_kind row \<in> {Experiment, Problem, Campaign, Review}")
    case True
    then show ?thesis using scope ex id
      by (auto simp: agent_scope_def split: if_splits option.splits)
  next
    case False
    then show ?thesis using agent_scope_experiment [OF scope] ex id by auto
  qed
qed

theorem agent_scope_is_experiment_witness:
  "\<exists>ex. find_opt sample (pr_experiment sample_agent) = Some ex \<and>
    r_project ex = pr_project sample_agent \<and>
    (r_id sample_artifact = r_id ex \<and> r_kind sample_artifact = Experiment \<or>
     r_kind sample_artifact \<in> {Problem, Campaign} \<and>
       JStr (r_id sample_artifact) = field ex (kind_name (r_kind sample_artifact) @ ''_id'') \<or>
     r_kind sample_artifact = Review \<and>
       (\<exists>target. find_json sample (field ex ''problem_id'') = Some target \<and>
          field target ''review_id'' = JStr (r_id sample_artifact)) \<or>
     field sample_artifact ''experiment_id'' = JStr (r_id ex))"
  by (rule agent_scope_is_experiment) code_simp+

text \<open>Private platform state is never an agent's: no agent reads an artifact of a private kind
  other than \<open>checkpoint\<close>, nor a session, a model reservation or a continuation link, whatever the
  sharing policy and whoever owns it.\<close>

theorem private_records_hidden:
  assumes "pr_role actor = Agent"
    and "r_kind row \<in> {Session, ModelReservation, ContinuationLink} \<or>
      (r_kind row = Artifact \<and> in_strings (field row ''artifact_kind'') private_artifact_kinds \<and>
       field row ''artifact_kind'' \<noteq> JStr ''checkpoint'')"
  shows "\<not> in_scope w actor row"
proof
  assume "in_scope w actor row"
  then obtain ex where "agent_scope (in_scope w actor) w actor ex row"
    using in_scope_agentD [OF assms(1)] by blast
  moreover have "granted_kind (r_kind row)" using assms(2) by (auto simp: granted_kind_def)
  ultimately have grant: "grant_scope w actor ex row" by (rule agent_scope_granted)
  have hidden: "r_kind row \<in> {Session, ModelReservation, ContinuationLink} \<or>
      (r_kind row = Artifact \<and> in_strings (field row ''artifact_kind'')
         (filter (\<lambda>k. k \<noteq> ''checkpoint'') private_artifact_kinds))"
    using assms(2) by (auto simp only: in_strings_iff set_filter)
  show False using grant hidden unfolding grant_scope_def Let_def by (simp only: if_True)
qed

theorem private_records_hidden_witness: "\<not> in_scope sample sample_agent sample_checkpoint"
  by (rule private_records_hidden) code_simp+



end
