(* ===== verification/Records.thy ===== *)
theory Records
  imports Authority
begin

text \<open>
  Writing records and events (\<open>service.py\<close>): \<open>make_record\<close>, \<open>_insert\<close> with its branch attribution,
  \<open>_replace\<close> with its optimistic revision check and \<open>_event\<close> with the outbox. A record's payload
  repeats its id, kind, project and revision; \<open>row_ok\<close> says so of a row and every write keeps it.
\<close>

section \<open>New records\<close>

definition make_record :: "world \<Rightarrow> kind \<Rightarrow> principal \<Rightarrow> dict \<Rightarrow> dict \<times> world" where
  "make_record w k actor data =
     (let (i, w') = new_id w
      in (dmerge data
            [(''id'', JStr i), (''kind'', JStr (kind_name k)),
             (''project_id'', JStr (pr_project actor)), (''revision'', JInt 1),
             (''created_at'', JTime (now w))], w'))"

text \<open>The branch a record declares, or that its provenance hints at; an agent's own for everything
  but branches and tasks.\<close>

definition declared_branch :: "kind \<Rightarrow> principal \<Rightarrow> dict \<Rightarrow> herr + json" where
  "declared_branch k actor data =
     (let declared = dget data ''branch_id'';
          hinted = dget (as_dict (dget data ''provenance'')) ''branch_id'';
          branch_id = jor declared hinted
      in if truthy declared \<and> truthy hinted \<and> declared \<noteq> hinted
         then Inl (fail ''BRANCH_AUTHORITY'' 403)
         else if pr_role actor = Agent \<and> k \<notin> {Branch, Task} then
           (if truthy branch_id \<and> branch_id \<noteq> jopt (pr_branch actor)
            then Inl (fail ''BRANCH_AUTHORITY'' 403)
            else Inr (jopt (pr_branch actor)))
         else Inr branch_id)"

definition reference_fields :: "(string \<times> kind) list" where
  "reference_fields =
     [(''task_id'', Task), (''artifact_id'', Artifact), (''source_artifact_id'', Artifact),
      (''verification_id'', Verification)]"

text \<open>One pass of the loop over the linked records; the state is \<open>(linked, branch_id)\<close>.\<close>

definition link_reference ::
  "world \<Rightarrow> principal \<Rightarrow> dict \<Rightarrow> string \<times> kind \<Rightarrow> row option \<times> json \<Rightarrow> herr + (row option \<times> json)"
where
  "link_reference w actor data ref st =
     (let (field_name, k) = ref; (linked, branch_id) = st;
          provenance = as_dict (dget data ''provenance'');
          identifier = jor (dget data field_name)
            (if field_name = ''task_id'' then dget provenance field_name else JNull)
      in if \<not> truthy identifier then Inr st
         else bindE (get_row w k identifier actor) (\<lambda>reference.
           if field reference ''experiment_id'' \<noteq> dget data ''experiment_id''
           then Inl (fail ''RECORD_SCOPE'' 409)
           else
             let reference_branch = field reference ''branch_id''
             in if pr_role actor \<noteq> Agent \<and> truthy branch_id \<and> truthy reference_branch \<and>
                   branch_id \<noteq> reference_branch
                then Inl (fail ''BRANCH_AUTHORITY'' 409)
                else Inr (Some reference,
                  if pr_role actor \<noteq> Agent \<and> \<not> truthy branch_id then reference_branch
                  else branch_id)))"

definition link_references ::
  "world \<Rightarrow> principal \<Rightarrow> dict \<Rightarrow> json \<Rightarrow> herr + (row option \<times> json)" where
  "link_references w actor data branch_id =
     foldE (link_reference w actor data) reference_fields (None, branch_id)"

definition check_branch :: "world \<Rightarrow> principal \<Rightarrow> dict \<Rightarrow> json \<Rightarrow> herr + unit" where
  "check_branch w actor data branch_id =
     (if \<not> truthy branch_id then Inr ()
      else bindE (get_row w Branch branch_id actor) (\<lambda>branch.
        if field branch ''experiment_id'' \<noteq> dget data ''experiment_id''
        then Inl (fail ''BRANCH_AUTHORITY'' 409) else Inr ()))"

text \<open>The attribution part of \<open>_insert\<close>: the data of the record to be made.\<close>

definition attribute_record :: "world \<Rightarrow> kind \<Rightarrow> principal \<Rightarrow> dict \<Rightarrow> herr + dict" where
  "attribute_record w k actor data0 =
     (let data = dput ''origin_actor_id'' (JStr (pr_id actor)) data0
      in if \<not> truthy (dget data ''experiment_id'') then Inr data
         else bindE (declared_branch k actor data) (\<lambda>declared.
           bindE (link_references w actor data declared) (\<lambda>(linked, branch_id).
           bindE (check_branch w actor data branch_id) (\<lambda>_.
             let data1 = (if k \<noteq> Branch then dput ''branch_id'' branch_id data else data)
             in if pr_role actor = Agent \<and> truthy (dget data1 ''trusted_input'')
                then Inl (fail ''TRUSTED_INPUT_AUTHORITY'' 403)
                else Inr
                  (if k = Source \<and>
                      (case linked of None \<Rightarrow> False
                       | Some l \<Rightarrow> truthy (field l ''trusted_input''))
                   then dput ''trusted_input'' (JBool True) data1 else data1)))))"

definition insert_row ::
  "world \<Rightarrow> kind \<Rightarrow> principal \<Rightarrow> dict \<Rightarrow> string option \<Rightarrow> herr + (dict \<times> world)" where
  "insert_row w k actor data0 record_id =
     bindE (attribute_record w k actor data0) (\<lambda>data.
       let (made, w1) = make_record w k actor data;
           record = (if opt_true record_id then dput ''id'' (jopt record_id) made else made);
           i = (case dget record ''id'' of JStr s \<Rightarrow> s | _ \<Rightarrow> [])
       in if find_row w1 i \<noteq> None then Inl IntegrityError
          else Inr (record, set_row \<lparr>r_id = i, r_project = pr_project actor, r_kind = k, r_rev = 1,
                                     r_payload = record\<rparr> w1))"

section \<open>Replacing a record\<close>

text \<open>
  \<open>_replace\<close>: the caller's row is the one it read in this transaction, so the guarded \<open>UPDATE\<close>
  matches exactly when the stored row still has the expected revision.
\<close>

definition replace_row ::
  "world \<Rightarrow> row \<Rightarrow> dict \<Rightarrow> int option \<Rightarrow> herr + (dict \<times> world)" where
  "replace_row w row0 values expected_revision =
     (let expected = (case expected_revision of None \<Rightarrow> r_rev row0 | Some e \<Rightarrow> e)
      in if r_rev row0 \<noteq> expected then Inl (fail ''REVISION_CONFLICT'' 409)
         else
           let replacement =
                 dput ''revision'' (JInt (expected + 1)) (dmerge (r_payload row0) values)
           in case find_row w (r_id row0) of
                None \<Rightarrow> Inl (fail ''REVISION_CONFLICT'' 409)
              | Some stored \<Rightarrow>
                  if r_rev stored \<noteq> expected then Inl (fail ''REVISION_CONFLICT'' 409)
                  else Inr (replacement,
                    set_row (stored\<lparr>r_rev := expected + 1, r_payload := replacement\<rparr>) w))"

section \<open>Events\<close>

definition emit ::
  "principal \<Rightarrow> string \<Rightarrow> string \<Rightarrow> string \<Rightarrow> dict \<Rightarrow> bool \<Rightarrow> world \<Rightarrow> world" where
  "emit actor operation_id kd aggregate payload dispatch w =
     (let w1 = w\<lparr>events := events w @
                 [\<lparr>e_sequence = int (length (events w)) + 1, e_project = pr_project actor,
                   e_kind = kd, e_aggregate = aggregate, e_operation = operation_id,
                   e_payload = payload, e_created = now w\<rparr>]\<rparr>
      in if \<not> dispatch then w1
         else let (i, w2) = new_id w1
              in w2\<lparr>outbox := outbox w2 @
                   [\<lparr>o_id = i, o_project = pr_project actor, o_kind = kd,
                     o_aggregate = aggregate,
                     o_payload = dput ''operation_id'' (JStr operation_id) payload,
                     o_state = ''pending''\<rparr>]\<rparr>)"

text \<open>What emitting leaves alone.\<close>

lemma new_id_simps [simp]:
  "records (snd (new_id w)) = records w" "events (snd (new_id w)) = events w"
  "outbox (snd (new_id w)) = outbox w" "commands (snd (new_id w)) = commands w"
  "budgets (snd (new_id w)) = budgets w" "reservations (snd (new_id w)) = reservations w"
  "leases (snd (new_id w)) = leases w" "edges (snd (new_id w)) = edges w"
  "now (snd (new_id w)) = now w" "effects (snd (new_id w)) = effects w"
  "digest_of (snd (new_id w)) = digest_of w" "sha256_of (snd (new_id w)) = sha256_of w"
  by (simp_all add: new_id_def)

lemma emit_simps [simp]:
  "records (emit a op kd ag pl d w) = records w"
  "commands (emit a op kd ag pl d w) = commands w"
  "budgets (emit a op kd ag pl d w) = budgets w"
  "reservations (emit a op kd ag pl d w) = reservations w"
  "leases (emit a op kd ag pl d w) = leases w"
  "edges (emit a op kd ag pl d w) = edges w"
  "now (emit a op kd ag pl d w) = now w"
  "effects (emit a op kd ag pl d w) = effects w"
  "digest_of (emit a op kd ag pl d w) = digest_of w"
  "sha256_of (emit a op kd ag pl d w) = sha256_of w"
  by (simp_all add: emit_def new_id_def Let_def)

lemma find_emit [simp]:
  "find_row (emit a op kd ag pl d w) i = find_row w i"
  "find_budget (emit a op kd ag pl d w) i = find_budget w i"
  "find_reservation (emit a op kd ag pl d w) i = find_reservation w i"
  "find_lease (emit a op kd ag pl d w) i = find_lease w i"
  "find_command (emit a op kd ag pl d w) i = find_command w i"
  by (simp_all add: find_row_def find_budget_def find_reservation_def find_lease_def
      find_command_def)

lemma find_new_id [simp]:
  "find_row (snd (new_id w)) i = find_row w i"
  "find_budget (snd (new_id w)) i = find_budget w i"
  "find_reservation (snd (new_id w)) i = find_reservation w i"
  "find_lease (snd (new_id w)) i = find_lease w i"
  "find_command (snd (new_id w)) i = find_command w i"
  by (simp_all add: find_row_def find_budget_def find_reservation_def find_lease_def
      find_command_def)

lemma events_emit:
  "\<exists>e. events (emit a op kd ag pl d w) = events w @ [e] \<and> e_kind e = kd \<and> e_aggregate e = ag \<and>
     e_operation e = op \<and> e_payload e = pl \<and> e_project e = pr_project a"
  by (auto simp: emit_def new_id_def Let_def)

section \<open>What the writes keep\<close>

definition row_ok :: "row \<Rightarrow> bool" where
  "row_ok r \<longleftrightarrow>
     field r ''id'' = JStr (r_id r) \<and> field r ''project_id'' = JStr (r_project r) \<and>
     field r ''kind'' = JStr (kind_name (r_kind r)) \<and> field r ''revision'' = JInt (r_rev r) \<and>
     1 \<le> r_rev r"

definition records_ok :: "world \<Rightarrow> bool" where
  "records_ok w \<longleftrightarrow> distinct (map r_id (records w)) \<and> (\<forall>r \<in> set (records w). row_ok r)"

definition identity_fields :: "string list" where
  "identity_fields = [''id'', ''project_id'', ''kind'', ''revision'']"

lemma records_ok_set_row:
  "records_ok w \<Longrightarrow> row_ok r \<Longrightarrow> records_ok (set_row r w)"
  using set_put_row_subset [of r_id r "records w"]
  by (auto simp: records_ok_def set_row_def distinct_put_row)

lemma make_record_simps [simp]:
  "snd (make_record w k actor data) = snd (new_id w)"
  "dget (fst (make_record w k actor data)) ''id'' = JStr (fst (new_id w))"
  "dget (fst (make_record w k actor data)) ''project_id'' = JStr (pr_project actor)"
  "dget (fst (make_record w k actor data)) ''kind'' = JStr (kind_name k)"
  "dget (fst (make_record w k actor data)) ''revision'' = JInt 1"
  by (simp_all add: make_record_def split_def Let_def)

lemma dget_make_record_data:
  "f \<notin> {''id'', ''project_id'', ''kind'', ''revision'', ''created_at''} \<Longrightarrow>
     dget (fst (make_record w k actor data)) f = dget data f"
  by (simp add: make_record_def split_def Let_def)

definition inserted_id :: "world \<Rightarrow> string option \<Rightarrow> string" where
  "inserted_id w rid = (if opt_true rid then the rid else fst (new_id w))"

definition inserted_record :: "world \<Rightarrow> kind \<Rightarrow> principal \<Rightarrow> dict \<Rightarrow> string option \<Rightarrow> dict" where
  "inserted_record w k actor data rid =
     (let m = fst (make_record w k actor data)
      in if opt_true rid then dput ''id'' (jopt rid) m else m)"

lemma inserted_record_simps [simp]:
  "dget (inserted_record w k actor data rid) ''id'' = JStr (inserted_id w rid)"
  "dget (inserted_record w k actor data rid) ''project_id'' = JStr (pr_project actor)"
  "dget (inserted_record w k actor data rid) ''kind'' = JStr (kind_name k)"
  "dget (inserted_record w k actor data rid) ''revision'' = JInt 1"
  by (cases rid; simp add: inserted_record_def inserted_id_def Let_def)+

lemma insert_row_eq:
  "insert_row w k actor data0 rid =
     bindE (attribute_record w k actor data0) (\<lambda>data.
       if find_row w (inserted_id w rid) \<noteq> None then Inl IntegrityError
       else Inr (inserted_record w k actor data rid,
         set_row \<lparr>r_id = inserted_id w rid, r_project = pr_project actor, r_kind = k, r_rev = 1,
                  r_payload = inserted_record w k actor data rid\<rparr> (snd (new_id w))))"
proof -
  have "insert_row w k actor data0 rid =
     bindE (attribute_record w k actor data0) (\<lambda>data.
       let record = inserted_record w k actor data rid;
           i = (case dget record ''id'' of JStr s \<Rightarrow> s | _ \<Rightarrow> [])
       in if find_row (snd (new_id w)) i \<noteq> None then Inl IntegrityError
          else Inr (record, set_row \<lparr>r_id = i, r_project = pr_project actor, r_kind = k, r_rev = 1,
                                     r_payload = record\<rparr> (snd (new_id w))))"
    by (simp only: insert_row_def inserted_record_def split_def Let_def make_record_simps(1))
  then show ?thesis by (simp only: Let_def inserted_record_simps json.case find_new_id)
qed

lemma insert_row_InrE:
  assumes "insert_row w k actor data0 rid = Inr (record, w')"
  obtains data where "attribute_record w k actor data0 = Inr data"
    and "find_row w (inserted_id w rid) = None"
    and "record = inserted_record w k actor data rid"
    and "w' = set_row \<lparr>r_id = inserted_id w rid, r_project = pr_project actor, r_kind = k,
                         r_rev = 1, r_payload = record\<rparr> (snd (new_id w))"
  using assms unfolding insert_row_eq bindE_Inr_iff by (auto split: if_splits)

lemma insert_row_found:
  assumes "insert_row w k actor data0 rid = Inr (record, w')"
  shows "dget record ''id'' = JStr (inserted_id w rid)" "find_row w (inserted_id w rid) = None"
    "find_row w' (inserted_id w rid) = Some \<lparr>r_id = inserted_id w rid,
       r_project = pr_project actor, r_kind = k, r_rev = 1, r_payload = record\<rparr>"
    "j \<noteq> inserted_id w rid \<Longrightarrow> find_row w' j = find_row w j"
  by (rule insert_row_InrE [OF assms]; simp)+

text \<open>An insert leaves every other table as it is.\<close>

lemma insert_row_frame:
  assumes "insert_row w k actor data0 rid = Inr (record, w')"
  shows "events w' = events w" "outbox w' = outbox w" "commands w' = commands w"
    "budgets w' = budgets w" "reservations w' = reservations w" "leases w' = leases w"
    "edges w' = edges w" "now w' = now w" "effects w' = effects w"
    "digest_of w' = digest_of w" "sha256_of w' = sha256_of w"
  by (rule insert_row_InrE [OF assms]; simp)+

lemma insert_row_records_ok:
  assumes "insert_row w k actor data0 rid = Inr (record, w')" and "records_ok w"
  shows "records_ok w'"
proof (rule insert_row_InrE [OF assms(1)])
  fix data
  let ?r = "\<lparr>r_id = inserted_id w rid, r_project = pr_project actor, r_kind = k, r_rev = 1,
             r_payload = record\<rparr>"
  assume recd: "record = inserted_record w k actor data rid"
    and w': "w' = set_row ?r (snd (new_id w))"
  have "row_ok ?r" by (simp add: row_ok_def recd)
  moreover have "records_ok (snd (new_id w))"
    using assms(2) by (simp add: records_ok_def)
  ultimately show ?thesis unfolding w' by (rule records_ok_set_row [rotated])
qed

text \<open>The fields of the inserted record are those of the attributed data.\<close>

lemma dget_inserted_record:
  "f \<notin> {''id'', ''project_id'', ''kind'', ''revision'', ''created_at''} \<Longrightarrow>
     dget (inserted_record w k actor data rid) f = dget data f"
  by (simp add: inserted_record_def dget_make_record_data Let_def)

lemma insert_row_field:
  assumes "insert_row w k actor data0 rid = Inr (record, w')"
    and "f \<notin> {''id'', ''project_id'', ''kind'', ''revision'', ''created_at''}"
  shows "\<exists>data. attribute_record w k actor data0 = Inr data \<and> dget record f = dget data f"
  by (rule insert_row_InrE [OF assms(1)]) (use dget_inserted_record [OF assms(2)] in auto)

definition replacement_of :: "row \<Rightarrow> dict \<Rightarrow> dict" where
  "replacement_of row0 values =
     dput ''revision'' (JInt (r_rev row0 + 1)) (dmerge (r_payload row0) values)"

lemma replace_row_eq:
  "replace_row w row0 values e =
     (if e \<noteq> None \<and> e \<noteq> Some (r_rev row0) then Inl (fail ''REVISION_CONFLICT'' 409)
      else case find_row w (r_id row0) of
        None \<Rightarrow> Inl (fail ''REVISION_CONFLICT'' 409)
      | Some stored \<Rightarrow>
          if r_rev stored \<noteq> r_rev row0 then Inl (fail ''REVISION_CONFLICT'' 409)
          else Inr (replacement_of row0 values,
            set_row (stored\<lparr>r_rev := r_rev row0 + 1, r_payload := replacement_of row0 values\<rparr>) w))"
  by (cases e) (auto simp: replace_row_def replacement_of_def Let_def cong: if_cong option.case_cong)

lemma replace_row_InrE:
  assumes "replace_row w row0 values e = Inr (replacement, w')"
  obtains stored where "find_row w (r_id row0) = Some stored" and "r_rev stored = r_rev row0"
    and "replacement = replacement_of row0 values"
    and "w' = set_row (stored\<lparr>r_rev := r_rev row0 + 1, r_payload := replacement\<rparr>) w"
    and "e = None \<or> e = Some (r_rev row0)"
proof -
  obtain stored where "find_row w (r_id row0) = Some stored"
    using assms by (auto simp only: replace_row_eq split: if_splits option.splits)
  with assms that [of stored] show ?thesis
    unfolding replace_row_eq by (auto split: if_splits)
qed

lemma replace_row_frame:
  assumes "replace_row w row0 values e = Inr (replacement, w')"
  shows "events w' = events w" "outbox w' = outbox w" "commands w' = commands w"
    "budgets w' = budgets w" "reservations w' = reservations w" "leases w' = leases w"
    "edges w' = edges w" "now w' = now w" "effects w' = effects w"
    "digest_of w' = digest_of w" "sha256_of w' = sha256_of w"
  by (rule replace_row_InrE [OF assms]; simp)+

lemma replace_row_found:
  assumes "replace_row w row0 values e = Inr (replacement, w')"
  shows "\<exists>stored. find_row w (r_id row0) = Some stored \<and>
      find_row w' (r_id row0) =
        Some (stored\<lparr>r_rev := r_rev row0 + 1, r_payload := replacement\<rparr>)"
    "j \<noteq> r_id row0 \<Longrightarrow> find_row w' j = find_row w j"
  by (rule replace_row_InrE [OF assms]; auto dest: find_row_id)+

lemma dget_replacement:
  assumes "replace_row w row0 values e = Inr (replacement, w')" and "f \<noteq> ''revision''"
  shows "f \<notin> fst ` set values \<Longrightarrow> dget replacement f = field row0 f"
    "distinct (map fst values) \<Longrightarrow> (f, v) \<in> set values \<Longrightarrow> dget replacement f = v"
  using assms by (auto elim!: replace_row_InrE simp: replacement_of_def dget_dmerge_other dget_dmerge_in)

lemma replace_row_records_ok:
  assumes "replace_row w row0 values e = Inr (replacement, w')" and "records_ok w"
    and "find_row w (r_id row0) = Some row0"
    and "fst ` set values \<inter> set identity_fields = {}"
  shows "records_ok w'"
proof (rule replace_row_InrE [OF assms(1)])
  fix stored
  assume stored: "find_row w (r_id row0) = Some stored"
    and repl: "replacement = replacement_of row0 values"
    and w': "w' = set_row (stored\<lparr>r_rev := r_rev row0 + 1, r_payload := replacement\<rparr>) w"
  have same: "stored = row0" using stored assms(3) by simp
  have "row_ok row0" using assms(2,3) by (auto simp: records_ok_def dest: find_row_in)
  moreover have "dget (dmerge (r_payload row0) values) f = field row0 f"
    if "f \<in> set identity_fields" for f
    using that assms(4) by (intro dget_dmerge_other) auto
  ultimately have "row_ok (stored\<lparr>r_rev := r_rev row0 + 1, r_payload := replacement\<rparr>)"
    by (simp add: row_ok_def same repl replacement_of_def identity_fields_def)
  then show ?thesis using assms(2) w' records_ok_set_row by simp
qed

text \<open>What writing records and events never touches.\<close>

definition only_records :: "world \<Rightarrow> world \<Rightarrow> bool" where
  "only_records w w' \<longleftrightarrow>
     commands w' = commands w \<and> budgets w' = budgets w \<and> reservations w' = reservations w \<and>
     leases w' = leases w \<and> edges w' = edges w \<and> now w' = now w \<and> effects w' = effects w \<and>
     digest_of w' = digest_of w \<and> sha256_of w' = sha256_of w"

lemma only_records_refl [simp]: "only_records w w"
  by (simp add: only_records_def)

lemma only_records_trans [trans]: "only_records a b \<Longrightarrow> only_records b c \<Longrightarrow> only_records a c"
  by (simp add: only_records_def)

lemma only_records_new_id [simp]: "only_records w (snd (new_id w))"
  by (simp add: only_records_def)

lemma only_records_emit [simp]: "only_records w (emit a op kd ag pl d v) \<longleftrightarrow> only_records w v"
  by (simp add: only_records_def)

lemma only_records_insert: "insert_row w k a d i = Inr (x, w') \<Longrightarrow> only_records w w'"
  using insert_row_frame by (simp add: only_records_def)

lemma only_records_replace: "replace_row w r v e = Inr (x, w') \<Longrightarrow> only_records w w'"
  using replace_row_frame by (simp add: only_records_def)

lemmas only_records_writes = only_records_insert only_records_replace

lemma only_recordsD:
  assumes "only_records w w'"
  shows "now w' = now w" "effects w' = effects w" "leases w' = leases w" "budgets w' = budgets w"
    "reservations w' = reservations w" "edges w' = edges w" "commands w' = commands w"
    "find_lease w' i = find_lease w i"
  using assms by (simp_all add: only_records_def find_lease_def)

text \<open>A row the table holds is found under its id.\<close>

lemma find_row_of_set: "records_ok w \<Longrightarrow> r \<in> set (records w) \<Longrightarrow> find_row w (r_id r) = Some r"
  by (simp add: records_ok_def find_row_def lookup_row_distinct)

section \<open>Attribution\<close>

lemma link_reference_agent:
  assumes "link_reference w actor data ref st = Inr st'" and "pr_role actor = Agent"
  shows "snd st' = snd st"
  using assms
  by (cases st; cases ref) (auto simp: link_reference_def Let_def result_simps split: if_splits)

lemma link_references_agent:
  assumes "link_references w actor data b = Inr st" and "pr_role actor = Agent"
  shows "snd st = b"
proof -
  have "\<exists>l. st = (l, b)" unfolding ex_simps
    by (rule foldE_invariant [where I = "\<lambda>s. \<exists>l. s = (l, b)", OF assms(1) [unfolded link_references_def]])
      (auto dest!: link_reference_agent simp: assms(2))
  then show ?thesis by auto
qed

text \<open>What the loop knows of the record it linked last.\<close>

definition linked_ok :: "world \<Rightarrow> principal \<Rightarrow> dict \<Rightarrow> row \<Rightarrow> bool" where
  "linked_ok w actor data r \<longleftrightarrow>
     find_row w (r_id r) = Some r \<and> r_project r = pr_project actor \<and> in_scope w actor r \<and>
     field r ''experiment_id'' = dget data ''experiment_id''"

lemma link_reference_linked:
  assumes "link_reference w actor data ref st = Inr st'"
    and "\<forall>r. fst st = Some r \<longrightarrow> linked_ok w actor data r"
  shows "\<forall>r. fst st' = Some r \<longrightarrow> linked_ok w actor data r"
proof -
  obtain f k l b where [simp]: "ref = (f, k)" "st = (l, b)" by (cases ref; cases st)
  show ?thesis
  proof (cases "fst st' = l")
    case True
    then show ?thesis using assms(2) by simp
  next
    case False
    then obtain x r where "get_row w k x actor = Inr r" "fst st' = Some r"
        "field r ''experiment_id'' = dget data ''experiment_id''"
      using assms(1) by (auto simp: link_reference_def Let_def result_simps split: if_splits)
    then show ?thesis using get_row_InrD by (fastforce simp: linked_ok_def)
  qed
qed

lemma link_references_linked:
  assumes "link_references w actor data b = Inr (Some r, b')"
  shows "linked_ok w actor data r"
proof -
  have "\<forall>r'. fst (Some r, b') = Some r' \<longrightarrow> linked_ok w actor data r'"
    by (rule foldE_invariant [OF assms [unfolded link_references_def]])
      (simp, rule link_reference_linked)
  then show ?thesis by simp
qed

lemma attribute_record_InrD:
  assumes "attribute_record w k actor data0 = Inr data" and "truthy (dget data0 ''experiment_id'')"
  obtains declared linked b where
    "declared_branch k actor (dput ''origin_actor_id'' (JStr (pr_id actor)) data0) = Inr declared"
    and "link_references w actor (dput ''origin_actor_id'' (JStr (pr_id actor)) data0) declared
      = Inr (linked, b)"
    and "check_branch w actor (dput ''origin_actor_id'' (JStr (pr_id actor)) data0) b = Inr ()"
    and "k \<noteq> Branch \<longrightarrow> dget data ''branch_id'' = b"
    and "pr_role actor = Agent \<and> truthy (dget data ''trusted_input'') \<longrightarrow>
      k = Source \<and> (\<exists>l. linked = Some l \<and> truthy (field l ''trusted_input''))"
proof -
  let ?d = "dput ''origin_actor_id'' (JStr (pr_id actor)) data0"
  from assms obtain declared lb where
      d: "declared_branch k actor ?d = Inr declared"
      and l: "link_references w actor ?d declared = Inr lb"
      and c: "check_branch w actor ?d (snd lb) = Inr ()"
      and e: "(let data1 = (if k \<noteq> Branch then dput ''branch_id'' (snd lb) ?d else ?d)
             in if pr_role actor = Agent \<and> truthy (dget data1 ''trusted_input'')
                then Inl (fail ''TRUSTED_INPUT_AUTHORITY'' 403)
                else Inr
                  (if k = Source \<and>
                      (case fst lb of None \<Rightarrow> False
                       | Some l \<Rightarrow> truthy (field l ''trusted_input''))
                   then dput ''trusted_input'' (JBool True) data1 else data1)) = Inr data"
    by (auto simp: attribute_record_def Let_def bindE_Inr_iff split_def)
  obtain linked b where lb: "lb = (linked, b)" by (cases lb)
  show ?thesis
  proof (rule that [OF d, of linked b])
    show "link_references w actor ?d declared = Inr (linked, b)" "check_branch w actor ?d b = Inr ()"
      using l c lb by simp_all
    show "k \<noteq> Branch \<longrightarrow> dget data ''branch_id'' = b"
      using e by (auto simp: lb Let_def split: if_splits)
    show "pr_role actor = Agent \<and> truthy (dget data ''trusted_input'') \<longrightarrow>
        k = Source \<and> (\<exists>l. linked = Some l \<and> truthy (field l ''trusted_input''))"
      using e by (auto simp: lb Let_def split: if_splits option.splits)
  qed
qed

lemma attribute_record_origin:
  assumes "attribute_record w k actor data0 = Inr data"
  shows "dget data ''origin_actor_id'' = JStr (pr_id actor)"
  using assms
  by (auto simp: attribute_record_def Let_def result_simps split_def split: if_splits)

lemma attribute_record_other:
  assumes "attribute_record w k actor data0 = Inr data"
    and "f \<notin> {''origin_actor_id'', ''branch_id'', ''trusted_input''}"
  shows "dget data f = dget data0 f"
  using assms
  by (auto simp: attribute_record_def Let_def result_simps split_def split: if_splits)

text \<open>Every other field of an inserted record is what the caller passed.\<close>

lemma insert_row_data:
  assumes "insert_row w k actor data0 rid = Inr (record, w')"
    and "f \<notin> {''id'', ''project_id'', ''kind'', ''revision'', ''created_at'', ''origin_actor_id'',
           ''branch_id'', ''trusted_input''}"
  shows "dget record f = dget data0 f"
proof -
  obtain data where "attribute_record w k actor data0 = Inr data" "dget record f = dget data f"
    using insert_row_field [OF assms(1)] assms(2) by auto
  then show ?thesis using attribute_record_other assms(2) by auto
qed

lemma declared_branch_agent:
  "declared_branch k actor data = Inr b \<Longrightarrow> pr_role actor = Agent \<Longrightarrow> k \<notin> {Branch, Task} \<Longrightarrow>
     b = jopt (pr_branch actor)"
  by (auto simp: declared_branch_def Let_def split: if_splits)

text \<open>A readable branch of the record's experiment stands behind every attribution.\<close>

lemma link_reference_branch:
  assumes "link_reference w actor data ref st = Inr st'" and "truthy (snd st)"
  shows "snd st' = snd st"
  using assms
  by (cases st; cases ref) (auto simp: link_reference_def Let_def result_simps split: if_splits)

lemma link_references_branch:
  assumes "link_references w actor data b = Inr st" and "truthy b"
  shows "snd st = b"
proof -
  have "\<exists>l. st = (l, b)" unfolding ex_simps
    by (rule foldE_invariant [where I = "\<lambda>s. \<exists>l. s = (l, b)", OF assms(1) [unfolded link_references_def]])
      (auto dest!: link_reference_branch simp: assms(2))
  then show ?thesis by auto
qed

text \<open>A record declared for a branch is that branch's.\<close>

lemma attribute_record_branch:
  assumes "attribute_record w k actor data0 = Inr data" and "truthy (dget data0 ''experiment_id'')"
    and "truthy (dget data0 ''branch_id'')" and "k \<notin> {Branch, Task}"
  shows "dget data ''branch_id'' = dget data0 ''branch_id''"
proof -
  let ?d = "dput ''origin_actor_id'' (JStr (pr_id actor)) data0"
  obtain declared linked b where d: "declared_branch k actor ?d = Inr declared"
    and l: "link_references w actor ?d declared = Inr (linked, b)"
    and b: "k \<noteq> Branch \<longrightarrow> dget data ''branch_id'' = b"
    using attribute_record_InrD [OF assms(1,2)] by metis
  have "declared = dget data0 ''branch_id''"
    using d assms(3,4) by (auto simp: declared_branch_def Let_def jor_def split: if_splits)
  then show ?thesis using link_references_branch [OF l] b assms(3,4) by simp
qed

lemma check_branch_InrD:
  assumes "check_branch w actor data b = Inr u" and "truthy b"
  obtains branch where "get_row w Branch b actor = Inr branch"
    and "field branch ''experiment_id'' = dget data ''experiment_id''"
  using assms by (auto simp: check_branch_def result_simps split: if_splits)

section \<open>Properties\<close>


definition sample_claim_data :: dict where
  "sample_claim_data = [(''experiment_id'', JStr ''e''), (''statement'', JStr ''lemma'')]"


text \<open>C36. No update is lost: a replace succeeds only against the stored revision, which must be the
  one its row was read at and the one the caller expects, if it expects any; it then writes the next
  revision over that row, keeps every field it does not name and touches no other record. From then
  on, in every world where the stored revision is past the one read, a writer that read that
  revision or an earlier one, or that expects one, gets \<open>REVISION_CONFLICT\<close>.\<close>

theorem no_lost_update:
  assumes "replace_row w row values e = Inr (replacement, w')"
  shows "(\<exists>stored. find_row w (r_id row) = Some stored \<and> r_rev stored = r_rev row \<and>
       (e = None \<or> e = Some (r_rev stored)) \<and>
       find_row w' (r_id row) = Some (stored\<lparr>r_rev := r_rev stored + 1, r_payload := replacement\<rparr>)) \<and>
    dget replacement ''revision'' = JInt (r_rev row + 1) \<and>
    (\<forall>f. f \<noteq> ''revision'' \<longrightarrow> f \<notin> fst ` set values \<longrightarrow> dget replacement f = field row f) \<and>
    (\<forall>j. j \<noteq> r_id row \<longrightarrow> find_row w' j = find_row w j) \<and>
    (\<forall>v current row' values' e'. find_row v (r_id row) = Some current \<and> r_rev row < r_rev current \<and>
       r_id row' = r_id row \<and> (r_rev row' \<le> r_rev row \<or> (\<exists>x \<le> r_rev row. e' = Some x)) \<longrightarrow>
       replace_row v row' values' e' = Inl (fail ''REVISION_CONFLICT'' 409))"
proof -
  have "\<exists>stored. find_row w (r_id row) = Some stored \<and> r_rev stored = r_rev row \<and>
       (e = None \<or> e = Some (r_rev stored)) \<and>
       find_row w' (r_id row) = Some (stored\<lparr>r_rev := r_rev stored + 1, r_payload := replacement\<rparr>)"
    by (rule replace_row_InrE [OF assms]) (auto dest: find_row_id)
  moreover have "dget replacement ''revision'' = JInt (r_rev row + 1)"
    by (rule replace_row_InrE [OF assms]) (simp add: replacement_of_def)
  moreover have "replace_row v row' values' e' = Inl (fail ''REVISION_CONFLICT'' 409)"
    if "find_row v (r_id row) = Some current" "r_rev row < r_rev current" "r_id row' = r_id row"
      "r_rev row' \<le> r_rev row \<or> (\<exists>x \<le> r_rev row. e' = Some x)" for v current row' values' e'
    using that by (auto simp: replace_row_eq)
  ultimately show ?thesis
    using dget_replacement(1) [OF assms] replace_row_found(2) [OF assms] by blast
qed

theorem no_lost_update_witness:
  "\<exists>replacement w'. replace_row sample sample_task [(''status'', JStr ''queued'')] None
      = Inr (replacement, w') \<and>
    (\<forall>r. find_row w' (r_id sample_task) = Some r \<longrightarrow>
       replace_row w' r [(''status'', JStr ''blocked'')] (Some 1)
         = Inl (fail ''REVISION_CONFLICT'' 409))"
proof -
  have "\<not> isl (replace_row sample sample_task [(''status'', JStr ''queued'')] None)" by code_simp
  then obtain rep w' where run: "replace_row sample sample_task [(''status'', JStr ''queued'')] None
      = Inr (rep, w')" by (rule succeedsE)
  have one: "r_rev sample_task = 1" by code_simp
  note lost = no_lost_update [OF run, unfolded one]
  obtain stored where "find_row w' (r_id sample_task) = Some (stored\<lparr>r_rev := r_rev stored + 1, r_payload := rep\<rparr>)"
      "r_rev stored = 1" using lost by blast
  then have new: "r_rev r = 2" if "find_row w' (r_id sample_task) = Some r" for r
    using that by auto
  have "replace_row w' r [(''status'', JStr ''blocked'')] (Some 1) = Inl (fail ''REVISION_CONFLICT'' 409)"
    if r: "find_row w' (r_id sample_task) = Some r" for r
  proof -
    have "1 < r_rev r" "r_id r = r_id sample_task" using new [OF r] find_row_id [OF r] by simp_all
    moreover have "\<exists>x \<le> 1. Some (1::int) = Some x" by blast
    ultimately show ?thesis using lost r by blast
  qed
  with run show ?thesis by blast
qed

end
