(* ===== verification/Commands.thy ===== *)
theory Commands
  imports Records
begin

text \<open>
  The command layer: \<open>_fenced\<close> (\<open>collaboration.py\<close>), \<open>_active\<close>, \<open>_check_worker_effects\<close> and
  \<open>_execute\<close> (\<open>service.py\<close>), and the binding of a worker's effects (\<open>worker_authority.py\<close>). An
  idempotency key names a command of one actor; a stored command is replayed, never run twice, and a
  failing one leaves the world as it was. The effects of a bound worker are checked before the
  command and again after its action, which may have taken \<open>elapsed\<close> microseconds.
\<close>

section \<open>Leases and active experiments\<close>

definition micros :: "int \<Rightarrow> int" where
  "micros seconds = seconds * 1000000"

definition fenced :: "world \<Rightarrow> string \<Rightarrow> string \<Rightarrow> int \<Rightarrow> herr + lease_row" where
  "fenced w task_id holder fence =
     (case find_lease w task_id of
        None \<Rightarrow> Inl (fail ''STALE_LEASE'' 409)
      | Some lease \<Rightarrow>
          if l_holder lease \<noteq> holder \<or> l_fence lease \<noteq> fence \<or> l_expires lease \<le> now w
          then Inl (fail ''STALE_LEASE'' 409) else Inr lease)"

lemma fenced_Inr_iff [result_simps]:
  "fenced w t h f = Inr l \<longleftrightarrow>
     find_lease w t = Some l \<and> l_holder l = h \<and> l_fence l = f \<and> now w < l_expires l"
  by (auto simp: fenced_def split: option.splits if_splits)

text \<open>\<open>datetime.fromisoformat(v)\<close>.\<close>

definition time_of :: "json \<Rightarrow> herr + int" where
  "time_of v = (case v of JTime t \<Rightarrow> Inr t | _ \<Rightarrow> Inl (ValueError ''isoformat''))"

lemma time_of_Inr_iff [result_simps]: "time_of v = Inr t \<longleftrightarrow> v = JTime t"
  by (cases v) (auto simp: time_of_def)

definition active :: "world \<Rightarrow> json \<Rightarrow> principal \<Rightarrow> herr + row" where
  "active w identifier actor =
     bindE (get_row w Experiment identifier actor) (\<lambda>row.
     if truthy (field row ''budget_reconciliation_required'')
     then Inl (fail ''BUDGET_RECONCILIATION_REQUIRED'' 409)
     else bindE (need row ''status'') (\<lambda>status.
     if \<not> in_strings status [''queued'', ''running'']
     then Inl (fail ''EXPERIMENT_NOT_ACTIVE'' 409)
     else bindE (need row ''started_at'') (\<lambda>started_at.
     bindE (time_of started_at) (\<lambda>started.
     bindE (need row ''budget'') (\<lambda>budget.
     if now w - started \<ge> micros (as_int (dget (as_dict budget) ''max_runtime_seconds''))
     then Inl (fail ''EXPERIMENT_DEADLINE'' 409) else Inr row)))))"

lemma active_InrD:
  assumes "active w identifier actor = Inr row"
  shows "get_row w Experiment identifier actor = Inr row"
    "\<not> truthy (field row ''budget_reconciliation_required'')"
    "in_strings (field row ''status'') [''queued'', ''running'']"
    "\<exists>started. field row ''started_at'' = JTime started \<and>
       now w - started < micros (as_int (dget (as_dict (field row ''budget'')) ''max_runtime_seconds''))"
proof -
  from assms obtain status st budget where *: "get_row w Experiment identifier actor = Inr row"
      "\<not> truthy (field row ''budget_reconciliation_required'')"
      "need row ''status'' = Inr status" "in_strings status [''queued'', ''running'']"
      "need row ''started_at'' = Inr (JTime st)" "need row ''budget'' = Inr budget"
      "now w - st < micros (as_int (dget (as_dict budget) ''max_runtime_seconds''))"
    by (auto simp: active_def bindE_Inr_iff if_Inl_Inr_iff time_of_Inr_iff)
  then show "get_row w Experiment identifier actor = Inr row"
    "\<not> truthy (field row ''budget_reconciliation_required'')"
    "in_strings (field row ''status'') [''queued'', ''running'']"
    "\<exists>started. field row ''started_at'' = JTime started \<and>
       now w - started < micros (as_int (dget (as_dict (field row ''budget'')) ''max_runtime_seconds''))"
    using need_field by fastforce+
qed

section \<open>Bound worker effects\<close>

text \<open>\<open>worker_effects(...)\<close>: what a controller may bind, and that a binding is never replaced.\<close>

definition bind_effects ::
  "principal \<Rightarrow> string \<Rightarrow> string \<Rightarrow> int \<Rightarrow> bool \<Rightarrow> world \<Rightarrow> herr + world" where
  "bind_effects actor task_id holder fence require_active w =
     (if pr_role actor \<notin> {Operator, Agent} \<or> task_id = [] \<or> holder = [] \<or> fence < 1 \<or>
         (\<not> require_active \<and> pr_role actor \<noteq> Operator)
      then Inl (fail ''WORKER_EFFECT_SCOPE'' 409)
      else
        let binding = \<lparr>we_actor = actor, we_task = task_id, we_holder = holder, we_fence = fence,
                       we_require_active = require_active\<rparr>
        in if effects w \<noteq> None \<and> effects w \<noteq> Some binding
           then Inl (fail ''WORKER_EFFECT_SCOPE'' 409)
           else Inr (w\<lparr>effects := Some binding\<rparr>))"

definition check_effects :: "world \<Rightarrow> principal \<Rightarrow> herr + unit" where
  "check_effects w actor =
     (case effects w of
        None \<Rightarrow> Inr ()
      | Some binding \<Rightarrow>
          if actor \<noteq> we_actor binding then Inl (fail ''WORKER_EFFECT_SCOPE'' 409)
          else bindE (get_row w Task (JStr (we_task binding)) actor) (\<lambda>task.
            if pr_role actor = Agent \<and>
               (jopt (pr_experiment actor) \<noteq> field task ''experiment_id'' \<or>
                jopt (pr_branch actor) \<noteq> field task ''branch_id'')
            then Inl (fail ''WORKER_EFFECT_SCOPE'' 409)
            else bindE (if we_require_active binding
                        then active w (field task ''experiment_id'') actor
                        else Inr task) (\<lambda>_.
              bindE (fenced w (we_task binding) (we_holder binding) (we_fence binding))
                (\<lambda>_. Inr ()))))"

lemma check_effects_unbound [simp]: "effects w = None \<Longrightarrow> check_effects w actor = Inr ()"
  by (simp add: check_effects_def)

lemma check_effects_boundD:
  assumes "check_effects w actor = Inr ()" and "effects w = Some b"
  shows "actor = we_actor b"
    "\<exists>l. find_lease w (we_task b) = Some l \<and> l_holder l = we_holder b \<and> l_fence l = we_fence b \<and>
       now w < l_expires l"
    "\<exists>task. get_row w Task (JStr (we_task b)) actor = Inr task \<and>
       (pr_role actor = Agent \<longrightarrow> field task ''experiment_id'' = jopt (pr_experiment actor) \<and>
          field task ''branch_id'' = jopt (pr_branch actor)) \<and>
       (we_require_active b \<longrightarrow> (\<exists>ex. active w (field task ''experiment_id'') actor = Inr ex))"
  using assms
  by (auto simp: check_effects_def bindE_Inr_iff fenced_Inr_iff split: if_splits)

section \<open>Commands\<close>

fun role_name :: "role \<Rightarrow> string" where
  "role_name Researcher = ''researcher''"
| "role_name Reviewer = ''reviewer''"
| "role_name Operator = ''operator''"
| "role_name Publisher = ''publisher''"
| "role_name Verifier = ''verifier''"
| "role_name Admin = ''admin''"
| "role_name Agent = ''agent''"

definition command_key :: "world \<Rightarrow> principal \<Rightarrow> string \<Rightarrow> string" where
  "command_key w actor key =
     digest_of w (strings [pr_project actor, pr_id actor, key])"

definition fingerprint_json :: "principal \<Rightarrow> string \<Rightarrow> json \<Rightarrow> json" where
  "fingerprint_json actor operation inputs =
     JList [JStr operation, inputs, JStr (role_name (pr_role actor)), jopt (pr_experiment actor),
            jopt (pr_branch actor), JBool (pr_orchestrator actor)]"

definition fingerprint :: "world \<Rightarrow> principal \<Rightarrow> string \<Rightarrow> json \<Rightarrow> string" where
  "fingerprint w actor operation inputs = digest_of w (fingerprint_json actor operation inputs)"

type_synonym action = "string \<Rightarrow> world \<Rightarrow> herr + (dict \<times> world)"

definition store_command ::
  "string \<Rightarrow> string \<Rightarrow> string \<Rightarrow> string \<Rightarrow> dict \<Rightarrow> world \<Rightarrow> world" where
  "store_command ck project operation_id fp result w =
     w\<lparr>commands := commands w @
        [\<lparr>c_id = ck, c_project = project, c_operation = operation_id, c_fingerprint = fp,
          c_result = JObj result\<rparr>]\<rparr>"

definition execute ::
  "int \<Rightarrow> principal \<Rightarrow> string \<Rightarrow> string \<Rightarrow> json \<Rightarrow> action \<Rightarrow> world \<Rightarrow> herr + (dict \<times> world)" where
  "execute elapsed actor key operation inputs act w =
     (if key = [] \<or> 200 < length key then Inl (fail ''IDEMPOTENCY_KEY_REQUIRED'' 422)
      else
        let ck = command_key w actor key; fp = fingerprint w actor operation inputs;
            (operation_id, w1) = new_id w
        in bindE (check_effects w1 actor) (\<lambda>_.
             case find_command w1 ck of
               Some prior \<Rightarrow>
                 if c_fingerprint prior \<noteq> fp then Inl (fail ''IDEMPOTENCY_CONFLICT'' 409)
                 else Inr (as_dict (c_result prior), w1)
             | None \<Rightarrow>
                 bindE (act operation_id w1) (\<lambda>(result, w2).
                   let w3 = w2\<lparr>now := now w2 + elapsed\<rparr>
                   in bindE (check_effects w3 actor) (\<lambda>_.
                        Inr (result,
                             store_command ck (pr_project actor) operation_id fp result w3)))))"

lemma execute_cases:
  assumes "execute elapsed actor key operation inputs act w = Inr (result, w')"
  obtains
    (Replayed) prior where "find_command w (command_key w actor key) = Some prior"
      and "c_fingerprint prior = fingerprint w actor operation inputs"
      and "result = as_dict (c_result prior)" and "w' = snd (new_id w)"
      and "check_effects (snd (new_id w)) actor = Inr ()"
  | (Ran) w2 where "find_command w (command_key w actor key) = None"
      and "check_effects (snd (new_id w)) actor = Inr ()"
      and "act (fst (new_id w)) (snd (new_id w)) = Inr (result, w2)"
      and "check_effects (w2\<lparr>now := now w2 + elapsed\<rparr>) actor = Inr ()"
      and "w' = store_command (command_key w actor key) (pr_project actor) (fst (new_id w))
             (fingerprint w actor operation inputs) result (w2\<lparr>now := now w2 + elapsed\<rparr>)"
proof (cases "find_command w (command_key w actor key)")
  case None
  then show ?thesis using assms Ran
    by (auto simp: execute_def Let_def split_def bindE_Inr_iff split: if_splits)
next
  case (Some prior)
  then show ?thesis using assms Replayed
    by (auto simp: execute_def Let_def split_def bindE_Inr_iff split: if_splits)
qed

lemma execute_key: "execute elapsed actor key operation inputs act w = Inr r \<Longrightarrow>
    key \<noteq> [] \<and> length key \<le> 200"
  by (auto simp: execute_def split: if_splits)

lemma store_command_simps [simp]:
  "records (store_command ck p op fp res w) = records w"
  "events (store_command ck p op fp res w) = events w"
  "outbox (store_command ck p op fp res w) = outbox w"
  "budgets (store_command ck p op fp res w) = budgets w"
  "reservations (store_command ck p op fp res w) = reservations w"
  "leases (store_command ck p op fp res w) = leases w"
  "edges (store_command ck p op fp res w) = edges w"
  "now (store_command ck p op fp res w) = now w"
  "effects (store_command ck p op fp res w) = effects w"
  "digest_of (store_command ck p op fp res w) = digest_of w"
  "sha256_of (store_command ck p op fp res w) = sha256_of w"
  by (simp_all add: store_command_def)

lemma find_store_command [simp]:
  "find_row (store_command ck p op fp res w) i = find_row w i"
  "find_budget (store_command ck p op fp res w) i = find_budget w i"
  "find_reservation (store_command ck p op fp res w) i = find_reservation w i"
  "find_lease (store_command ck p op fp res w) i = find_lease w i"
  by (simp_all add: find_row_def find_budget_def find_reservation_def find_lease_def)

lemma find_command_store:
  "find_command (store_command ck p op fp res w) k =
     (case find_command w k of Some c \<Rightarrow> Some c
      | None \<Rightarrow> if k = ck then Some \<lparr>c_id = ck, c_project = p, c_operation = op, c_fingerprint = fp,
          c_result = JObj res\<rparr> else None)"
  by (simp add: store_command_def find_command_def lookup_row_append split: option.split)

text \<open>What a relation between worlds must keep to survive a whole command: the three steps around
  the action change no table but the commands.\<close>

definition same_tables :: "world \<Rightarrow> world \<Rightarrow> bool" where
  "same_tables w w' \<longleftrightarrow>
     records w' = records w \<and> events w' = events w \<and> outbox w' = outbox w \<and>
     budgets w' = budgets w \<and> reservations w' = reservations w \<and> leases w' = leases w \<and>
     edges w' = edges w \<and> effects w' = effects w \<and> digest_of w' = digest_of w \<and>
     sha256_of w' = sha256_of w"

lemma same_tables_steps:
  "same_tables w (snd (new_id w))"
  "same_tables w (store_command ck p op fp res (w\<lparr>now := t\<rparr>))"
  by (simp_all add: same_tables_def)

text \<open>A property of worlds that looks at the tables alone and that the action keeps is kept by the
  command.\<close>

lemma execute_preserves:
  assumes "execute elapsed actor key operation inputs act w = Inr (result, w')"
    and "P w" and "\<And>a b. same_tables a b \<Longrightarrow> P a \<Longrightarrow> P b"
    and "\<And>op w1 res w2. P w1 \<Longrightarrow> now w1 = now w \<Longrightarrow> act op w1 = Inr (res, w2) \<Longrightarrow> P w2"
  shows "P w'"
  using assms(1)
proof (cases rule: execute_cases)
  case (Replayed prior)
  then show ?thesis using assms(2,3) same_tables_steps(1) by blast
next
  case (Ran w2)
  have "P (snd (new_id w))" using assms(2,3) same_tables_steps(1) by blast
  then have "P w2" using assms(4) Ran(3) by auto
  then show ?thesis unfolding Ran(5) using assms(3) same_tables_steps(2) by blast
qed

text \<open>A command that is no replay ran its action.\<close>

lemma execute_fresh:
  assumes "execute elapsed actor key operation inputs act w = Inr (result, w')"
    and "find_command w (command_key w actor key) = None"
  obtains w2 where "act (fst (new_id w)) (snd (new_id w)) = Inr (result, w2)"
    and "same_tables w2 w'"
  using assms(1)
proof (cases rule: execute_cases)
  case (Replayed prior)
  then show ?thesis using assms(2) by simp
next
  case (Ran w2)
  then show ?thesis using that same_tables_steps(2) by blast
qed

lemma same_tables_find:
  assumes "same_tables w w'"
  shows "find_row w' i = find_row w i" "find_budget w' i = find_budget w i"
    "find_reservation w' i = find_reservation w i" "find_lease w' i = find_lease w i"
  using assms
  by (simp_all add: same_tables_def find_row_def find_budget_def find_reservation_def find_lease_def)

section \<open>What reading depends on\<close>

text \<open>Reading depends on the tables alone.\<close>

lemma find_same:
  assumes "same_tables w w'"
  shows "find_json w' = find_json w" "find_opt w' = find_opt w"
  using same_tables_find(1) [OF assms]
  by (auto simp: fun_eq_iff find_json_def find_opt_def split: json.split option.split)

lemma in_scope_same:
  assumes "same_tables w w'"
  shows "in_scope w' = in_scope w"
proof -
  have rows: "find_row w' i = find_row w i" "find_lease w' i = find_lease w i" for i
    using assms by (rule same_tables_find)+
  then have opt: "find_json w' = find_json w" "find_opt w' = find_opt w"
    using find_same [OF assms] by simp_all
  have recs: "records w' = records w" "sha256_of w' = sha256_of w" "effects w' = effects w"
    using assms by (simp_all add: same_tables_def)
  have "challenge_digest w' t = challenge_digest w t" for t
    by (simp only: challenge_digest_def recs)
  then have acc: "accepted_receipt w' = accepted_receipt w" "receipt_matches w' = receipt_matches w"
    by (simp_all only: fun_eq_iff accepted_receipt_def receipt_matches_def expected_receipt_def opt
        simp_thms)
  have "accepted_within n w' as ex r = accepted_within n w as ex r" for n as ex r
  proof (induction n arbitrary: r)
    case (Suc n)
    show ?case
      by (simp only: accepted_within.simps Suc.IH acc opt recs)
  qed simp
  then have sharing: "accepted_for_sharing w' r ex = accepted_for_sharing w r ex" for r ex
    by (simp add: accepted_for_sharing_def accepted_evidence_def recs)
  have scope: "scope_body sub w' = scope_body sub w" for sub
    unfolding scope_body_def agent_scope_def agent_branch_ok_def attachments_ok_def reader_scope_def
      delivery_item_ok_def discussion_scope_def grant_scope_def fun_eq_iff opt sharing
    by simp
  show "in_scope w' = in_scope w" by (simp add: in_scope_def fun_eq_iff scope)
qed

lemma get_row_same:
  assumes "same_tables w w'"
  shows "get_row w' k x a = get_row w k x a"
  by (simp only: get_row_def find_same [OF assms] in_scope_same [OF assms])

lemma active_same:
  assumes "same_tables w w'" and "now w' = now w"
  shows "active w' x actor = active w x actor"
  by (simp only: active_def get_row_same [OF assms(1)] assms(2))

lemma check_effects_same:
  assumes "same_tables w w'" and "now w' = now w"
  shows "check_effects w' actor = check_effects w actor"
proof -
  have "effects w' = effects w" using assms(1) by (simp add: same_tables_def)
  then show ?thesis
    by (simp only: check_effects_def active_same [OF assms] fenced_def get_row_same [OF assms(1)]
        same_tables_find [OF assms(1)] assms(2))
qed

lemma in_scope_new_id [simp]: "in_scope (snd (new_id w)) = in_scope w"
  by (rule in_scope_same) (rule same_tables_steps(1))

lemma get_row_new_id [simp]: "get_row (snd (new_id w)) k x a = get_row w k x a"
  by (rule get_row_same) (rule same_tables_steps(1))

lemma active_new_id [simp]: "active (snd (new_id w)) x a = active w x a"
  by (rule active_same) (simp_all add: same_tables_steps(1))

lemma check_effects_new_id [simp]: "check_effects (snd (new_id w)) actor = check_effects w actor"
  by (rule check_effects_same) (simp_all add: same_tables_steps(1))

lemma command_key_eq: "digest_of w' = digest_of w \<Longrightarrow> command_key w' actor key = command_key w actor key"
  by (simp add: command_key_def)

text \<open>Bodies never touch the command table.\<close>

definition keeps_commands :: "action \<Rightarrow> bool" where
  "keeps_commands act \<longleftrightarrow>
     (\<forall>op w1 res w2. act op w1 = Inr (res, w2) \<longrightarrow> commands w2 = commands w1)"

text \<open>The command a successful execution leaves behind.\<close>

lemma execute_stores:
  assumes "execute elapsed actor key operation inputs act w = Inr (result, w')"
    and "keeps_commands act"
  shows "\<exists>c. find_command w' (command_key w actor key) = Some c \<and>
    c_fingerprint c = fingerprint w actor operation inputs \<and> as_dict (c_result c) = result"
  using assms(1)
proof (cases rule: execute_cases)
  case (Replayed prior)
  then show ?thesis by simp
next
  case (Ran w2)
  have "find_command w2 (command_key w actor key) = None"
    using assms(2) Ran(1,3) by (simp add: find_command_def keeps_commands_def)
  then have "find_command (w2\<lparr>now := now w2 + elapsed\<rparr>) (command_key w actor key) = None"
    by (simp add: find_command_def)
  then show ?thesis unfolding Ran(5) by (simp add: find_command_store as_dict_def)
qed

section \<open>Properties\<close>

text \<open>C24. A command runs once: after it succeeded, sending it again with the same key, operation and
  inputs, in any later world that still holds the stored command and lets the actor act, returns the
  same result and changes no table, whatever the action would do now.\<close>

theorem replay_is_idempotent:
  assumes "execute elapsed actor key operation inputs act w = Inr (result, w')"
    and "keeps_commands act"
    and "digest_of v = digest_of w" and "check_effects v actor = Inr ()"
    and "find_command v (command_key w actor key) = find_command w' (command_key w actor key)"
  shows "\<exists>v'. execute elapsed' actor key operation inputs act' v = Inr (result, v') \<and>
    same_tables v v' \<and> commands v' = commands v"
proof -
  obtain c where "find_command v (command_key v actor key) = Some c"
      "c_fingerprint c = fingerprint v actor operation inputs" "as_dict (c_result c) = result"
    using execute_stores [OF assms(1,2)] assms(3,5)
    by (auto simp: command_key_def fingerprint_def)
  then have "execute elapsed' actor key operation inputs act' v = Inr (result, snd (new_id v))"
    using execute_key [OF assms(1)] assms(4)
    by (simp add: execute_def Let_def split_def command_key_def fingerprint_def)
  then show ?thesis using same_tables_steps(1) by auto
qed

text \<open>A command body for the runs: it renews the sample task's lease.\<close>

definition sample_action :: action where
  "sample_action op w =
     bindE (fenced w ''k'' ''h1'' 1) (\<lambda>lease.
     Inr ([(''operation'', JStr op)], set_lease (lease\<lparr>l_expires := now w + micros 60\<rparr>) w))"

lemma sample_action_commands: "keeps_commands sample_action"
  by (auto simp: keeps_commands_def sample_action_def bindE_Inr_iff)

text \<open>The sample project with the task's worker bound.\<close>

definition sample_bound :: world where
  "sample_bound = sample\<lparr>effects := Some \<lparr>we_actor = sample_operator, we_task = ''k'',
     we_holder = ''h1'', we_fence = 1, we_require_active = True\<rparr>\<rparr>"

theorem replay_is_idempotent_witness:
  "\<exists>result w' v'. execute 5 sample_operator ''key'' ''renew'' JNull sample_action sample
      = Inr (result, w') \<and>
    execute 0 sample_operator ''key'' ''renew'' JNull (\<lambda>_ _. Inl IntegrityError) w'
      = Inr (result, v') \<and> same_tables w' v'"
proof -
  let ?m = "execute 5 sample_operator ''key'' ''renew'' JNull sample_action sample"
  have "\<not> isl ?m" by code_simp
  note run = Inr_projr [OF this]
  have "digest_of (snd (projr ?m)) = digest_of sample \<and> effects (snd (projr ?m)) = None"
    by (rule execute_preserves [OF run])
      (auto simp: sample_def same_tables_def sample_action_def bindE_Inr_iff)
  then show ?thesis
    using replay_is_idempotent [OF run sample_action_commands _ check_effects_unbound refl] run
    by blast
qed

text \<open>A key stands for one command: sent again with another operation, other inputs or by the same
  identity in another role or scope, it is refused with \<open>IDEMPOTENCY_CONFLICT\<close>, provided the digest
  tells the two requests apart.\<close>

theorem reused_key_conflicts:
  assumes "execute elapsed actor key operation inputs act w = Inr (result, w')"
    and "keeps_commands act"
    and "digest_of v = digest_of w" and "check_effects v actor' = Inr ()"
    and "find_command v (command_key w actor key) = find_command w' (command_key w actor key)"
    and "pr_project actor' = pr_project actor" and "pr_id actor' = pr_id actor"
    and "digest_of w (fingerprint_json actor' operation' inputs')
      \<noteq> digest_of w (fingerprint_json actor operation inputs)"
  shows "execute elapsed' actor' key operation' inputs' act' v = Inl (fail ''IDEMPOTENCY_CONFLICT'' 409)"
proof -
  obtain c where "find_command v (command_key v actor' key) = Some c"
      "c_fingerprint c = digest_of w (fingerprint_json actor operation inputs)"
    using execute_stores [OF assms(1,2)] assms(3,5,6,7)
    by (auto simp: command_key_def fingerprint_def)
  then show ?thesis
    using execute_key [OF assms(1)] assms(3,4,8)
    by (simp add: execute_def Let_def split_def command_key_def fingerprint_def)
qed

text \<open>The sample project under a digest that tells two requests apart.\<close>

definition sample_digesting :: world where
  "sample_digesting = sample\<lparr>digest_of :=
     (\<lambda>j. if j = fingerprint_json sample_operator ''other'' JNull then ''f2'' else ''f1'')\<rparr>"

theorem reused_key_conflicts_witness:
  "\<exists>result w'. execute 0 sample_operator ''key'' ''renew'' JNull sample_action sample_digesting
      = Inr (result, w') \<and>
    execute 0 sample_operator ''key'' ''other'' JNull sample_action w'
      = Inl (fail ''IDEMPOTENCY_CONFLICT'' 409)"
proof -
  let ?m = "execute 0 sample_operator ''key'' ''renew'' JNull sample_action sample_digesting"
  have "\<not> isl ?m" by code_simp
  note run = Inr_projr [OF this]
  have "digest_of (snd (projr ?m)) = digest_of sample_digesting \<and> effects (snd (projr ?m)) = None"
    by (rule execute_preserves [OF run])
      (auto simp: sample_digesting_def sample_def same_tables_def sample_action_def bindE_Inr_iff)
  moreover have "digest_of sample_digesting (fingerprint_json sample_operator ''other'' JNull)
      \<noteq> digest_of sample_digesting (fingerprint_json sample_operator ''renew'' JNull)"
    by code_simp
  ultimately show ?thesis
    using reused_key_conflicts [OF run sample_action_commands _ check_effects_unbound refl refl refl]
      run by blast
qed

text \<open>C11. A bound worker writes only while it holds its lease: when a command that is no replay
  succeeds under a binding, the actor is the bound one and the bound task's lease, with the bound
  holder and fence, is unexpired at the moment the command commits, however long its action took.\<close>

theorem bound_effects_fenced:
  assumes "execute elapsed actor key operation inputs act w = Inr (result, w')"
    and "find_command w (command_key w actor key) = None" and "effects w' = Some b"
  shows "actor = we_actor b \<and>
    (\<exists>lease. find_lease w' (we_task b) = Some lease \<and> l_holder lease = we_holder b \<and>
       l_fence lease = we_fence b \<and> now w' < l_expires lease)"
  using assms(1)
proof (cases rule: execute_cases)
  case (Replayed prior)
  then show ?thesis using assms(2) by simp
next
  case (Ran w2)
  have "effects (w2\<lparr>now := now w2 + elapsed\<rparr>) = Some b" using assms(3) Ran(5) by simp
  then show ?thesis using check_effects_boundD(1,2) [OF Ran(4)] Ran(5) by auto
qed

theorem bound_effects_fenced_witness:
  "\<exists>result w' lease. execute 5000000 sample_operator ''key'' ''renew'' JNull sample_action sample_bound
      = Inr (result, w') \<and>
    find_lease w' ''k'' = Some lease \<and> l_fence lease = 1 \<and> now w' < l_expires lease"
proof -
  have "\<not> isl (execute 5000000 sample_operator ''key'' ''renew'' JNull sample_action sample_bound)"
    by code_simp
  then obtain r w' where run:
    "execute 5000000 sample_operator ''key'' ''renew'' JNull sample_action sample_bound = Inr (r, w')"
    by (rule succeedsE)
  have new: "find_command sample_bound (command_key sample_bound sample_operator ''key'') = None"
    by code_simp
  have "effects w' = effects sample_bound"
    by (rule execute_preserves [OF run])
      (auto simp: same_tables_def sample_action_def bindE_Inr_iff)
  then have "effects w' = Some \<lparr>we_actor = sample_operator, we_task = ''k'',
     we_holder = ''h1'', we_fence = 1, we_require_active = True\<rparr>"
    by (simp add: sample_bound_def)
  from bound_effects_fenced [OF run new this] run show ?thesis by auto
qed

end
