(* ===== verification/Money.thy ===== *)
theory Money
  imports Json
begin

text \<open>
  Amounts (\<open>service.py\<close>): \<open>money_units\<close> turns a decimal USD amount into whole micro-USD and
  \<open>money_string\<close> turns them back. A finite \<open>Decimal\<close> is a coefficient and an exponent; its product
  with \<open>MICRO_USD\<close> is rounded by the default context of the \<open>decimal\<close> module (28 significant
  digits, half even, exponents up to 999999), as the code's multiplication is.
\<close>

datatype decimal = Dec int int | NotFinite

section \<open>The default context\<close>

fun digit_count :: "int \<Rightarrow> nat" where
  "digit_count n = (if n < 10 then 1 else Suc (digit_count (n div 10)))"

declare digit_count.simps [simp del]

text \<open>Division by a power of ten, half to even.\<close>

definition half_even :: "int \<Rightarrow> nat \<Rightarrow> int" where
  "half_even n k =
     (let p = 10 ^ k; q = n div p; r = n mod p
      in if 2 * r > p \<or> (2 * r = p \<and> odd q) then q + 1 else q)"

definition precision :: nat where
  "precision = 28"

definition emax :: int where
  "emax = 999999"

definition etiny :: int where
  "etiny = - emax - int precision + 1"

text \<open>The result of an operation with the exact value \<open>c * 10 ^ e\<close>: rounded, or an overflow.\<close>

definition in_context :: "int \<Rightarrow> int \<Rightarrow> decimal option" where
  "in_context c e =
     (let n = \<bar>c\<bar>;
          k = max (digit_count n - precision) (nat (etiny - e));
          m = half_even n k; e' = e + int k
      in if m \<noteq> 0 \<and> e' + int (digit_count m) - 1 > emax then None
         else Some (Dec (sgn c * m) e'))"

text \<open>Whether \<open>c * 10 ^ e\<close> is a whole number, and which.\<close>

definition dec_whole :: "int \<Rightarrow> int \<Rightarrow> bool" where
  "dec_whole c e \<longleftrightarrow> 0 \<le> e \<or> 10 ^ nat (- e) dvd c"

definition dec_int :: "int \<Rightarrow> int \<Rightarrow> int" where
  "dec_int c e = (if 0 \<le> e then c * 10 ^ nat e else c div 10 ^ nat (- e))"

section \<open>Micro-USD\<close>

datatype money_error = InvalidAmount | Overflow

definition money_limit :: int where
  "money_limit = 9000000000000000"

text \<open>\<open>money_units\<close>. Its handler turns \<open>ValueError\<close>, \<open>InvalidOperation\<close> and \<open>TypeError\<close> into
  \<open>INVALID_RESOURCE_AMOUNT\<close>; the multiplication's \<open>Overflow\<close> is none of the three.\<close>

definition money_units :: "decimal \<Rightarrow> money_error + int" where
  "money_units amount =
     (case amount of
        NotFinite \<Rightarrow> Inl InvalidAmount
      | Dec c e \<Rightarrow>
          (case in_context (c * 1000000) e of
             Some (Dec sc se) \<Rightarrow>
               if c < 0 \<or> \<not> dec_whole sc se then Inl InvalidAmount
               else if dec_int sc se > money_limit then Inl InvalidAmount
               else Inr (dec_int sc se)
           | _ \<Rightarrow> Inl Overflow))"

text \<open>\<open>Decimal(units) / MICRO_USD\<close>: the quotient with the exponent nearest zero that is exact.\<close>

fun strip_zeros :: "nat \<Rightarrow> int \<Rightarrow> decimal" where
  "strip_zeros 0 c = Dec c 0"
| "strip_zeros (Suc k) c =
     (if c mod 10 = 0 then strip_zeros k (c div 10) else Dec c (- int (Suc k)))"

definition money_dec :: "int \<Rightarrow> decimal" where
  "money_dec units = strip_zeros 6 units"

section \<open>The printed amount\<close>

definition digit_char :: "int \<Rightarrow> char" where
  "digit_char d = ''0123456789'' ! nat d"

fun show_nat :: "int \<Rightarrow> string" where
  "show_nat n = (if n < 10 then [digit_char n] else show_nat (n div 10) @ [digit_char (n mod 10)])"

declare show_nat.simps [simp del]

fun show_padded :: "nat \<Rightarrow> int \<Rightarrow> string" where
  "show_padded 0 n = []"
| "show_padded (Suc k) n = show_padded k (n div 10) @ [digit_char (n mod 10)]"

text \<open>\<open>format(d, "f")\<close> of a nonnegative amount whose exponent is not positive.\<close>

definition format_f :: "decimal \<Rightarrow> string" where
  "format_f d =
     (case d of
        Dec c e \<Rightarrow>
          (let k = nat (- e)
           in show_nat (c div 10 ^ k) @ (if k = 0 then [] else CHR ''.'' # show_padded k (c mod 10 ^ k)))
      | NotFinite \<Rightarrow> ''NaN'')"

definition money_string :: "int \<Rightarrow> string" where
  "money_string units = format_f (money_dec units)"

section \<open>Reading an amount\<close>

text \<open>\<open>Decimal(s)\<close> for a text: white space around it and underscores are dropped, then a sign,
  digits with at most one point, and an exponent; or one of the special values.\<close>

definition is_space :: "char \<Rightarrow> bool" where
  "is_space c \<longleftrightarrow>
     of_char c \<in> {9, 10, 11, 12, 13, 28, 29, 30, 31, 32, 133, 160 :: nat}"

definition strip :: "string \<Rightarrow> string" where
  "strip s = rev (dropWhile is_space (rev (dropWhile is_space s)))"

definition is_digit :: "char \<Rightarrow> bool" where
  "is_digit c \<longleftrightarrow> c \<in> set ''0123456789''"

definition digit_value :: "char \<Rightarrow> int" where
  "digit_value c = int (of_char c) - 48"

definition digits_value :: "string \<Rightarrow> int" where
  "digits_value s = foldl (\<lambda>v c. 10 * v + digit_value c) 0 s"

definition unsigned_dec :: "string \<Rightarrow> (int \<times> int) option" where
  "unsigned_dec s =
     (let i = takeWhile is_digit s; r = dropWhile is_digit s;
          f = (case r of [] \<Rightarrow> [] | c # t \<Rightarrow> t)
      in if (r = [] \<or> hd r = CHR ''.'') \<and> list_all is_digit f \<and> i @ f \<noteq> []
         then Some (digits_value (i @ f), - int (length f)) else None)"

definition signed :: "string \<Rightarrow> int \<times> string" where
  "signed s =
     (case s of [] \<Rightarrow> (1, s)
      | c # t \<Rightarrow> if c = CHR ''-'' then (- 1, t) else if c = CHR ''+'' then (1, t) else (1, s))"

definition exponent_of :: "string \<Rightarrow> int option" where
  "exponent_of s =
     (case s of [] \<Rightarrow> Some 0
      | _ # t \<Rightarrow>
          (let (sg, ds) = signed t
           in if ds \<noteq> [] \<and> list_all is_digit ds then Some (sg * digits_value ds) else None))"

definition lower :: "char \<Rightarrow> char" where
  "lower c =
     (if 65 \<le> (of_char c :: nat) \<and> (of_char c :: nat) \<le> 90 then char_of (of_char c + 32 :: nat)
      else c)"

definition is_special :: "string \<Rightarrow> bool" where
  "is_special s \<longleftrightarrow>
     (let t = map lower s; d = takeWhile (\<lambda>c. \<not> is_digit c) t
      in t \<in> {''inf'', ''infinity''} \<or>
         (d \<in> {''nan'', ''snan''} \<and> list_all is_digit (dropWhile (\<lambda>c. \<not> is_digit c) t)))"

definition decimal_of_string :: "string \<Rightarrow> decimal option" where
  "decimal_of_string text =
     (let (sg, t) = signed (filter (\<lambda>c. c \<noteq> CHR ''_'') (strip text));
          is_e = (\<lambda>c. c = CHR ''e'' \<or> c = CHR ''E'')
      in if is_special t then Some NotFinite
         else case (unsigned_dec (takeWhile (\<lambda>c. \<not> is_e c) t),
                    exponent_of (dropWhile (\<lambda>c. \<not> is_e c) t)) of
             (Some (c, e), Some x) \<Rightarrow> Some (Dec (sg * c) (e + x))
           | _ \<Rightarrow> None)"

text \<open>\<open>money_units\<close> of a text: an \<open>InvalidOperation\<close> of the conversion is caught too.\<close>

definition money_units_text :: "string \<Rightarrow> money_error + int" where
  "money_units_text text =
     (case decimal_of_string text of None \<Rightarrow> Inl InvalidAmount | Some d \<Rightarrow> money_units d)"

section \<open>Facts\<close>

lemma half_even_0 [simp]: "half_even n 0 = n"
  by (simp add: half_even_def)

lemma half_even_multiple: "10 ^ k dvd n \<Longrightarrow> half_even n k = n div 10 ^ k"
  by (auto simp: half_even_def Let_def)

lemma digit_count_bound: "n < 10 ^ k \<Longrightarrow> 0 < k \<Longrightarrow> digit_count n \<le> k"
proof (induction n arbitrary: k rule: digit_count.induct)
  case (1 n)
  show ?case
  proof (cases "n < 10")
    case True
    then show ?thesis using 1(3) by (subst digit_count.simps) simp
  next
    case False
    have "k \<noteq> 1" using 1(2) False by auto
    then obtain k' where k: "k = Suc k'" "0 < k'" using 1(3) by (cases k) auto
    then have "n div 10 < 10 ^ k'" using 1(2) by simp
    then have "digit_count (n div 10) \<le> k'" using 1(1) False k(2) by simp
    then show ?thesis using False k(1) by (subst digit_count.simps) simp
  qed
qed

lemma digit_count_lower: "10 ^ k \<le> n \<Longrightarrow> k < digit_count n"
proof (induction n arbitrary: k rule: digit_count.induct)
  case (1 n)
  show ?case
  proof (cases "n < 10")
    case True
    have "k = 0"
    proof (rule ccontr)
      assume "k \<noteq> 0"
      then have "(10::int) ^ 1 \<le> 10 ^ k" by (intro power_increasing) simp_all
      then show False using 1(2) True by simp
    qed
    then show ?thesis using True by (subst digit_count.simps) simp
  next
    case False
    show ?thesis
    proof (cases k)
      case (Suc k')
      then have "10 ^ k' \<le> n div 10" using 1(2) by simp
      then have "k' < digit_count (n div 10)" using 1(1) False by simp
      then show ?thesis using False Suc by (subst digit_count.simps) simp
    qed (use False in \<open>subst digit_count.simps; simp\<close>)
  qed
qed

lemma digit_count_eq: "10 ^ k \<le> n \<Longrightarrow> n < 10 ^ Suc k \<Longrightarrow> digit_count n = Suc k"
  using digit_count_lower [of k n] digit_count_bound [of n "Suc k"] by simp

text \<open>Within the precision and the exponent range nothing is rounded.\<close>

lemma in_context_exact:
  assumes "\<bar>c\<bar> < 10 ^ 28" and "etiny \<le> e" and "e + 28 \<le> emax"
  shows "in_context c e = Some (Dec c e)"
proof -
  have d: "digit_count \<bar>c\<bar> \<le> 28" using assms(1) by (rule digit_count_bound) simp
  then show ?thesis
    using assms(2,3) by (simp add: in_context_def Let_def precision_def sgn_mult_abs)
qed

text \<open>The exact amounts: \<open>c * 10 ^ e\<close> dollars are \<open>u\<close> micro-USD.\<close>

definition is_micro_usd :: "int \<Rightarrow> int \<Rightarrow> int \<Rightarrow> bool" where
  "is_micro_usd c e u \<longleftrightarrow>
     (if 0 \<le> e then c * 1000000 * 10 ^ nat e = u else c * 1000000 = u * 10 ^ nat (- e))"

lemma dec_int_whole:
  "dec_whole (c * 1000000) e \<and> dec_int (c * 1000000) e = u \<longleftrightarrow> is_micro_usd c e u"
proof (cases "0 \<le> e")
  case False
  have "(10::int) ^ nat (- e) \<noteq> 0" by simp
  then show ?thesis using False
    by (auto simp: dec_whole_def dec_int_def is_micro_usd_def)
qed (auto simp: dec_whole_def dec_int_def is_micro_usd_def)

lemma strip_zeros_exact:
  "strip_zeros k c = Dec c' e \<Longrightarrow> - int k \<le> e \<and> e \<le> 0 \<and> c = c' * 10 ^ (k - nat (- e))"
proof (induction k arbitrary: c)
  case (Suc k)
  show ?case
  proof (cases "c mod 10 = 0")
    case True
    then have *: "- int k \<le> e \<and> e \<le> 0 \<and> c div 10 = c' * 10 ^ (k - nat (- e))"
      using Suc by simp
    have "c = 10 * (c div 10)" using True by auto
    moreover have "Suc k - nat (- e) = Suc (k - nat (- e))" using * by auto
    ultimately show ?thesis using * by auto
  next
    case False
    then show ?thesis using Suc.prems by auto
  qed
qed auto

lemma strip_zeros_Dec: "\<exists>c' e. strip_zeros k c = Dec c' e"
  by (induction k arbitrary: c) auto

text \<open>No negative amount is ever accounted.\<close>

lemma half_even_nonneg: "0 \<le> n \<Longrightarrow> 0 \<le> half_even n k"
  by (simp add: half_even_def Let_def pos_imp_zdiv_nonneg_iff)

lemma in_context_nonneg: "in_context c e = Some (Dec c' e') \<Longrightarrow> 0 \<le> c \<Longrightarrow> 0 \<le> c'"
  using half_even_nonneg [of "\<bar>c\<bar>"]
  by (cases "c = 0") (auto simp: in_context_def Let_def split: if_splits)

lemma money_units_nonneg: "money_units d = Inr u \<Longrightarrow> 0 \<le> u"
proof (cases d)
  case (Dec c e)
  assume "money_units d = Inr u"
  then obtain sc se where "in_context (c * 1000000) e = Some (Dec sc se)" "0 \<le> c" "u = dec_int sc se"
    using Dec by (auto simp: money_units_def split: option.splits decimal.splits if_splits)
  then show "0 \<le> u" using in_context_nonneg by (auto simp: dec_int_def div_int_pos_iff)
qed (simp add: money_units_def)

section \<open>Properties\<close>

text \<open>\<open>money_units\<close> is exact below the context's precision: an amount of at most 22 significant
  digits is accepted exactly when it is a whole number of micro-USD between zero and the accounting
  limit, and then gives that number.\<close>

lemma money_units_exact:
  assumes "\<bar>c\<bar> < 10 ^ 22" and "etiny \<le> e" and "e + 28 \<le> emax"
  shows "money_units (Dec c e) = Inr u \<longleftrightarrow> 0 \<le> c \<and> is_micro_usd c e u \<and> u \<le> money_limit"
proof -
  have "\<bar>c * 1000000\<bar> < 10 ^ 28" using assms(1) by (simp add: abs_mult)
  then have "in_context (c * 1000000) e = Some (Dec (c * 1000000) e)"
    using assms(2,3) by (rule in_context_exact)
  then show ?thesis
    unfolding dec_int_whole [symmetric] by (auto simp: money_units_def not_less)
qed

text \<open>The printed amount reads as the decimal it prints.\<close>

lemma digit_value_char: "0 \<le> d \<Longrightarrow> d < 10 \<Longrightarrow> digit_value (digit_char d) = d \<and> is_digit (digit_char d)"
proof -
  assume d: "0 \<le> d" "d < 10"
  then have "d = 0 \<or> d = 1 \<or> d = 2 \<or> d = 3 \<or> d = 4 \<or> d = 5 \<or> d = 6 \<or> d = 7 \<or> d = 8 \<or> d = 9"
    by presburger
  then show ?thesis
    by (elim disjE) (simp_all add: digit_value_def digit_char_def is_digit_def)
qed

lemma digits_value_append: "digits_value (s @ t) = digits_value s * 10 ^ length t + digits_value t"
proof -
  have "foldl (\<lambda>v c. 10 * v + digit_value c) a t = a * 10 ^ length t + digits_value t" for a
  proof (induction t arbitrary: a)
    case Nil
    show ?case by (simp add: digits_value_def)
  next
    case (Cons c t)
    have "digits_value (c # t) = digit_value c * 10 ^ length t + digits_value t"
      using Cons [of "digit_value c"] by (simp add: digits_value_def)
    then show ?case using Cons [of "10 * a + digit_value c"] by (simp add: distrib_right)
  qed
  from this [of "digits_value s"] show ?thesis
    by (simp only: digits_value_def foldl_append)
qed

lemma digits_value_single [simp]: "digits_value [c] = digit_value c"
  by (simp add: digits_value_def)

lemma show_nat_digits: "0 \<le> n \<Longrightarrow> digits_value (show_nat n) = n \<and> list_all is_digit (show_nat n) \<and> show_nat n \<noteq> []"
proof (induction n rule: show_nat.induct)
  case (1 n)
  show ?case
  proof (cases "n < 10")
    case True
    then have "show_nat n = [digit_char n]" by (subst show_nat.simps) simp
    then show ?thesis using True 1(2) digit_value_char [of n] by simp
  next
    case False
    then have "digits_value (show_nat (n div 10)) = n div 10 \<and> list_all is_digit (show_nat (n div 10))"
      using 1 by simp
    moreover have "digit_value (digit_char (n mod 10)) = n mod 10 \<and> is_digit (digit_char (n mod 10))"
      by (rule digit_value_char) simp_all
    moreover have "show_nat n = show_nat (n div 10) @ [digit_char (n mod 10)]"
      using False by (subst show_nat.simps) simp
    ultimately show ?thesis by (simp add: digits_value_append)
  qed
qed

lemma show_padded_digits:
  "0 \<le> n \<Longrightarrow> n < 10 ^ k \<Longrightarrow>
     digits_value (show_padded k n) = n \<and> list_all is_digit (show_padded k n) \<and>
     length (show_padded k n) = k"
proof (induction k arbitrary: n)
  case 0
  then show ?case by (simp add: digits_value_def)
next
  case (Suc k)
  then have "n div 10 < 10 ^ k" by simp
  then have "digits_value (show_padded k (n div 10)) = n div 10 \<and>
      list_all is_digit (show_padded k (n div 10)) \<and> length (show_padded k (n div 10)) = k"
    using Suc by simp
  moreover have "digit_value (digit_char (n mod 10)) = n mod 10 \<and> is_digit (digit_char (n mod 10))"
    by (rule digit_value_char) simp_all
  ultimately show ?case by (simp add: digits_value_append)
qed

lemma plain_digits:
  assumes "list_all is_digit i" and "list_all is_digit f" and "i \<noteq> []"
  shows "unsigned_dec (i @ (if f = [] then [] else CHR ''.'' # f)) =
    Some (digits_value (i @ f), - int (length f))"
proof -
  have "\<not> is_digit (CHR ''.'')" by (simp add: is_digit_def)
  then have "takeWhile is_digit (i @ (if f = [] then [] else CHR ''.'' # f)) = i"
    "dropWhile is_digit (i @ (if f = [] then [] else CHR ''.'' # f)) = (if f = [] then [] else CHR ''.'' # f)"
    using assms(1) by (simp_all add: takeWhile_append dropWhile_append list_all_iff)
  then show ?thesis using assms(2,3) by (simp add: unsigned_dec_def Let_def)
qed

lemma strip_id: "\<forall>c \<in> set s. \<not> is_space c \<Longrightarrow> strip s = s"
proof -
  assume s: "\<forall>c \<in> set s. \<not> is_space c"
  have "dropWhile is_space xs = xs" if "\<forall>c \<in> set xs. \<not> is_space c" for xs
    using that by (cases xs) auto
  from this [of s] this [of "rev s"] show ?thesis using s by (simp add: strip_def)
qed

lemma decimal_of_string_plain:
  assumes "strip s = s" and "filter (\<lambda>c. c \<noteq> CHR ''_'') s = s" and "signed s = (1, s)"
    and "\<not> is_special s" and "takeWhile (\<lambda>c. \<not> (c = CHR ''e'' \<or> c = CHR ''E'')) s = s"
    and "dropWhile (\<lambda>c. \<not> (c = CHR ''e'' \<or> c = CHR ''E'')) s = []"
    and "unsigned_dec s = Some (c, e)"
  shows "decimal_of_string s = Some (Dec c e)"
  unfolding decimal_of_string_def Let_def assms(1,2,3)
  by (simp only: split assms(4,5,6,7) exponent_of_def list.case option.case prod.case if_False
      mult_1 add_0_right)

lemma decimal_of_plain:
  assumes "list_all is_digit i" and "list_all is_digit f" and "i \<noteq> []"
  shows "decimal_of_string (i @ (if f = [] then [] else CHR ''.'' # f)) =
    Some (Dec (digits_value (i @ f)) (- int (length f)))"
proof -
  let ?s = "i @ (if f = [] then [] else CHR ''.'' # f)"
  have plain: "\<forall>c \<in> set ?s. is_digit c \<or> c = CHR ''.''"
    using assms(1,2) by (auto simp: list_all_iff)
  have ch: "\<not> is_space c \<and> c \<noteq> CHR ''_'' \<and> c \<noteq> CHR ''-'' \<and> c \<noteq> CHR ''+'' \<and>
      c \<noteq> CHR ''e'' \<and> c \<noteq> CHR ''E'' \<and> lower c = c \<and> c \<notin> set ''infatys''"
    if "is_digit c \<or> c = CHR ''.''" for c
    using that by (auto simp: is_digit_def is_space_def lower_def)
  have ne: "?s \<noteq> []" using assms(3) by simp
  have "strip ?s = ?s"
    by (rule strip_id) (use plain ch in blast)
  moreover have "filter (\<lambda>c. c \<noteq> CHR ''_'') ?s = ?s"
    by (rule filter_True) (use plain ch in blast)
  moreover have "signed ?s = (1, ?s)"
  proof -
    obtain c t where cs: "?s = c # t" using ne by (cases ?s) auto
    then have "is_digit c \<or> c = CHR ''.''" using plain by (metis list.set_intros(1))
    then show ?thesis unfolding cs signed_def using ch by simp
  qed
  moreover have "\<not> is_special ?s"
  proof -
    have m: "map lower ?s = ?s" by (rule map_idI) (use plain ch in blast)
    obtain c i' where "i = c # i'" "is_digit c" using assms(1,3) by (cases i) auto
    then have "takeWhile (\<lambda>c. \<not> is_digit c) ?s = []" "c \<notin> set ''infatys''"
      using ch by auto
    then show ?thesis using m \<open>i = c # i'\<close> by (auto simp: is_special_def Let_def)
  qed
  moreover have "takeWhile (\<lambda>c. \<not> (c = CHR ''e'' \<or> c = CHR ''E'')) ?s = ?s"
    "dropWhile (\<lambda>c. \<not> (c = CHR ''e'' \<or> c = CHR ''E'')) ?s = []"
    using plain ch by (auto simp: takeWhile_eq_all_conv dropWhile_eq_Nil_conv)
  ultimately show ?thesis using plain_digits [OF assms] by (rule decimal_of_string_plain)
qed

lemma decimal_of_money_string:
  assumes "0 \<le> u"
  shows "decimal_of_string (money_string u) = Some (money_dec u)"
proof -
  obtain c e where d: "money_dec u = Dec c e" using strip_zeros_Dec [of 6 u] by (auto simp: money_dec_def)
  have e: "e \<le> 0" and u: "u = c * 10 ^ (6 - nat (- e))"
    using strip_zeros_exact [of 6 u c e] d by (auto simp: money_dec_def)
  have c0: "0 \<le> c"
  proof (rule ccontr)
    assume "\<not> 0 \<le> c"
    then have "c * 10 ^ (6 - nat (- e)) < 0" by (intro mult_neg_pos) simp_all
    then show False using assms u by simp
  qed
  let ?k = "nat (- e)"
  let ?f = "show_padded ?k (c mod 10 ^ ?k)"
  have i: "digits_value (show_nat (c div 10 ^ ?k)) = c div 10 ^ ?k \<and>
      list_all is_digit (show_nat (c div 10 ^ ?k)) \<and> show_nat (c div 10 ^ ?k) \<noteq> []"
    by (rule show_nat_digits) (use c0 in \<open>simp add: pos_imp_zdiv_nonneg_iff\<close>)
  have f: "digits_value ?f = c mod 10 ^ ?k \<and> list_all is_digit ?f \<and> length ?f = ?k"
    by (rule show_padded_digits) simp_all
  have "money_string u = show_nat (c div 10 ^ ?k) @ (if ?f = [] then [] else CHR ''.'' # ?f)"
    using f by (auto simp: money_string_def d format_f_def Let_def)
  moreover have "digits_value (show_nat (c div 10 ^ ?k) @ ?f) = c"
    using i f by (simp add: digits_value_append div_mult_mod_eq)
  ultimately show ?thesis
    using decimal_of_plain [of "show_nat (c div 10 ^ ?k)" ?f] i f e d by simp
qed

lemma money_units_money_dec:
  assumes "0 \<le> u" and "u \<le> money_limit"
  shows "money_units (money_dec u) = Inr u"
proof -
  obtain c e where d: "money_dec u = Dec c e" using strip_zeros_Dec [of 6 u] by (auto simp: money_dec_def)
  then have e: "-6 \<le> e" "e \<le> 0" and u: "u = c * 10 ^ (6 - nat (- e))"
    using strip_zeros_exact [of 6 u c e] by (auto simp: money_dec_def)
  have pos: "(0::int) < 10 ^ (6 - nat (- e))" by simp
  have c0: "0 \<le> c" using assms(1) u pos by (simp add: zero_le_mult_iff)
  have "c * 1 \<le> c * 10 ^ (6 - nat (- e))" using c0 by (intro mult_left_mono) simp_all
  then have "c \<le> money_limit" using u assms(2) by simp
  then have "\<bar>c\<bar> < 10 ^ 22" using c0 by (simp add: money_limit_def)
  moreover have "is_micro_usd c e u"
  proof -
    have "(10::int) ^ (6 - nat (- e)) * 10 ^ nat (- e) = 10 ^ 6"
      using e by (simp flip: power_add)
    then have "u * 10 ^ nat (- e) = c * 1000000" using u by simp
    then show ?thesis using e(2) u by (cases "e = 0") (simp_all add: is_micro_usd_def)
  qed
  ultimately show ?thesis
    using e c0 assms(2) money_units_exact [of c e u] d by (simp add: etiny_def emax_def precision_def)
qed

text \<open>C37. Amounts survive their printed form: every accounting amount, printed as the ledger and
  its events print it, reads back as itself.\<close>

theorem money_round_trip:
  assumes "0 \<le> u" and "u \<le> money_limit"
  shows "money_units_text (money_string u) = Inr u"
proof -
  have "decimal_of_string (money_string u) = Some (money_dec u)"
    using assms(1) by (rule decimal_of_money_string)
  then show ?thesis using money_units_money_dec [OF assms] by (simp add: money_units_text_def)
qed

theorem money_round_trip_witness: "money_units_text (money_string 1250000) = Inr 1250000"
  by (rule money_round_trip) (simp_all add: money_limit_def)



text \<open>Beyond 28 digits the multiplication rounds before the check for six decimals: one dollar
  and a fraction of the 35th decimal is accepted as exactly one dollar, and a large enough exponent
  escapes the handler as an overflow.\<close>

lemma money_units_rounds_first:
  "money_units (Dec (10 ^ 35 + 1) (- 35)) = Inr 1000000 \<and> money_units (Dec 1 999999) = Inl Overflow"
proof
  have d: "digit_count 100000000000000000000000000000000001000000 = 42"
    using digit_count_eq [of 41] by simp
  have h: "half_even 100000000000000000000000000000000001000000 14 =
      1000000000000000000000000000"
    by (simp add: half_even_def Let_def)
  have d': "digit_count 1000000000000000000000000000 = 28"
    using digit_count_eq [of 27] by simp
  have "in_context ((10 ^ 35 + 1) * 1000000) (- 35) = Some (Dec (10 ^ 27) (- 21))"
    by (simp add: in_context_def Let_def d d' precision_def etiny_def emax_def h)
  then show "money_units (Dec (10 ^ 35 + 1) (- 35)) = Inr 1000000"
    by (simp add: money_units_def dec_whole_def dec_int_def money_limit_def)
  have d: "digit_count 1000000 = 7" using digit_count_eq [of 6] by simp
  have "in_context 1000000 999999 = None"
    by (simp add: in_context_def Let_def d precision_def etiny_def emax_def)
  then show "money_units (Dec 1 999999) = Inl Overflow"
    by (simp add: money_units_def)
qed

end
