(* ===== verification/Lifecycle.thy ===== *)
theory Lifecycle
  imports Commands Money
begin

text \<open>
  Campaigns, problems, reviews and experiments (\<open>service.py\<close>): their creation, the review that
  approves a target and the experiment's state machine. A request is the dictionary
  \<open>request.model_dump(mode="json")\<close>; the decimal amount of a budget comes beside it.
\<close>

section \<open>Campaigns and problems\<close>

definition create_campaign_action :: "dict \<Rightarrow> principal \<Rightarrow> action" where
  "create_campaign_action data actor op w =
     bindE (insert_row w Campaign actor data None) (\<lambda>(record, w1).
     Inr (record, emit actor op ''campaign.created'' (inserted_id w None) [] False w1))"

definition create_campaign ::
  "dict \<Rightarrow> principal \<Rightarrow> string \<Rightarrow> world \<Rightarrow> herr + (dict \<times> world)" where
  "create_campaign data actor key w =
     bindE (require_role actor [Researcher, Operator]) (\<lambda>_.
     execute 0 actor key ''campaign.create'' (JObj data) (create_campaign_action data actor) w)"

definition create_problem_action :: "dict \<Rightarrow> principal \<Rightarrow> action" where
  "create_problem_action data actor op w =
     bindE (get_row w Campaign (dget data ''campaign_id'') actor) (\<lambda>campaign.
     bindE (need campaign ''programs'') (\<lambda>programs.
     if dget data ''program'' \<notin> set (as_list programs)
     then Inl (fail ''PROGRAM_MISMATCH'' 409)
     else bindE
       (if truthy (dget data ''parent_revision_id'') then
          bindE (get_row w Problem (dget data ''parent_revision_id'') actor) (\<lambda>parent.
          bindE (need parent ''campaign_id'') (\<lambda>c.
          if c \<noteq> dget data ''campaign_id'' then Inl (fail ''REVISION_PARENT_MISMATCH'' 409)
          else Inr ()))
        else Inr ()) (\<lambda>_.
     bindE (insert_row w Problem actor
       (dmerge data [(''target_digest'', JStr (digest_of w (JObj data))),
                     (''semantic_review'', JStr ''pending'')]) None) (\<lambda>(record, w1).
     Inr (record, emit actor op ''problem.proposed'' (inserted_id w None)
       [(''target_digest'', dget record ''target_digest'')] False w1)))))"

definition create_problem ::
  "dict \<Rightarrow> principal \<Rightarrow> string \<Rightarrow> world \<Rightarrow> herr + (dict \<times> world)" where
  "create_problem data actor key w =
     bindE (require_role actor [Researcher, Operator]) (\<lambda>_.
     execute 0 actor key ''problem.create'' (JObj data) (create_problem_action data actor) w)"

section \<open>Reviews\<close>

text \<open>\<open>bool(s.strip())\<close>.\<close>

definition nonblank :: "string \<Rightarrow> bool" where
  "nonblank s \<longleftrightarrow> (\<exists>c \<in> set s. \<not> is_space c)"

definition review_problem_action :: "string \<Rightarrow> string \<Rightarrow> string \<Rightarrow> principal \<Rightarrow> action" where
  "review_problem_action problem_id decision rationale actor op w =
     bindE (get_row w Problem (JStr problem_id) actor) (\<lambda>row.
     bindE (need row ''target_digest'') (\<lambda>digest.
     bindE (insert_row w Review actor
       [(''problem_id'', JStr problem_id), (''scope'', JStr ''target''),
        (''target_digest'', digest), (''decision'', JStr decision),
        (''rationale'', JStr rationale), (''reviewed_by'', JStr (pr_id actor))] None)
       (\<lambda>(review, w1).
     bindE (replace_row w1 row
       [(''semantic_review'', JStr decision), (''review_id'', dget review ''id'')] None) (\<lambda>(_, w2).
     Inr (review, emit actor op ''problem.reviewed'' problem_id
       [(''review_id'', dget review ''id''), (''decision'', JStr decision)] False w2)))))"

definition review_problem ::
  "string \<Rightarrow> string \<Rightarrow> string \<Rightarrow> principal \<Rightarrow> string \<Rightarrow> world \<Rightarrow> herr + (dict \<times> world)" where
  "review_problem problem_id decision rationale actor key w =
     bindE (require_role actor [Reviewer]) (\<lambda>_.
     if decision \<notin> {''approved'', ''rejected''} \<or> \<not> nonblank rationale
     then Inl (fail ''INVALID_REVIEW'' 422)
     else execute 0 actor key ''problem.review''
       (JObj [(''id'', JStr problem_id), (''decision'', JStr decision),
              (''rationale'', JStr rationale)])
       (review_problem_action problem_id decision rationale actor) w)"

section \<open>Experiments\<close>

text \<open>A \<open>None\<close> of an optional part is dropped, so older requests keep their fingerprints.\<close>

definition drop_null :: "string \<Rightarrow> dict \<Rightarrow> dict" where
  "drop_null k d = (if dget d k = JNull then AList.delete k d else d)"

definition money_error_of :: "money_error \<Rightarrow> herr" where
  "money_error_of e =
     (case e of InvalidAmount \<Rightarrow> fail ''INVALID_RESOURCE_AMOUNT'' 422
      | Overflow \<Rightarrow> ValueError ''Overflow'')"

definition units_of :: "decimal \<Rightarrow> herr + int" where
  "units_of amount =
     (case money_units amount of Inl e \<Rightarrow> Inl (money_error_of e) | Inr u \<Rightarrow> Inr u)"

definition add_budget :: "budget_row \<Rightarrow> world \<Rightarrow> herr + world" where
  "add_budget b w =
     (if find_budget w (b_experiment b) \<noteq> None then Inl IntegrityError else Inr (set_budget b w))"

definition new_budget :: "string \<Rightarrow> int \<Rightarrow> dict \<Rightarrow> budget_row" where
  "new_budget experiment_id max_cost limits =
     \<lparr>b_experiment = experiment_id, b_max_cost = max_cost, b_reserved = 0, b_spent = 0,
      b_active_workers = 0, b_max_concurrency = as_int (dget limits ''max_concurrency''),
      b_max_tokens =
        (case dget limits ''max_tokens'' of JInt n \<Rightarrow> Some n | _ \<Rightarrow> None),
      b_tokens_reserved = 0, b_tokens_spent = 0\<rparr>"

definition create_experiment_action :: "dict \<Rightarrow> decimal \<Rightarrow> principal \<Rightarrow> action" where
  "create_experiment_action data max_cost_usd actor op w =
     bindE (get_row w Problem (dget data ''problem_id'') actor) (\<lambda>problem.
     bindE (get_row w Campaign (dget data ''campaign_id'') actor) (\<lambda>_.
     bindE (need problem ''campaign_id'') (\<lambda>c.
     if c \<noteq> dget data ''campaign_id'' then Inl (fail ''CAMPAIGN_MISMATCH'' 409)
     else bindE (need problem ''target_digest'') (\<lambda>digest.
     bindE (insert_row w Experiment actor
       (dmerge data [(''target_digest'', digest), (''status'', JStr ''created'')]) None)
       (\<lambda>(record, w1).
     bindE (units_of max_cost_usd) (\<lambda>max_cost.
     bindE (add_budget
       (new_budget (inserted_id w None) max_cost (as_dict (dget data ''budget''))) w1) (\<lambda>w2.
     Inr (record, emit actor op ''experiment.created'' (inserted_id w None) [] False w2))))))))"

definition create_experiment ::
  "dict \<Rightarrow> decimal \<Rightarrow> principal \<Rightarrow> string \<Rightarrow> world \<Rightarrow> herr + (dict \<times> world)" where
  "create_experiment data0 max_cost_usd actor key w =
     bindE (require_role actor [Researcher, Operator]) (\<lambda>_.
     let data = drop_null ''context_budget'' (drop_null ''society'' data0)
     in execute 0 actor key ''experiment.create'' (JObj data)
          (create_experiment_action data max_cost_usd actor) w)"

text \<open>The experiment's state machine: what each action may leave and where it leads.\<close>

definition transitions :: "(string \<times> string list \<times> string) list" where
  "transitions =
     [(''start'', [''created''], ''queued''),
      (''pause'', [''queued'', ''running''], ''paused''),
      (''resume'', [''paused'', ''blocked''], ''queued''),
      (''cancel'', [''created'', ''queued'', ''running'', ''paused'', ''blocked''],
       ''cancelled'')]"

text \<open>What starting and resuming ask of the target.\<close>

definition target_ready :: "world \<Rightarrow> row \<Rightarrow> principal \<Rightarrow> herr + unit" where
  "target_ready w row actor =
     bindE (need row ''problem_id'') (\<lambda>problem_id.
     bindE (get_row w Problem problem_id actor) (\<lambda>problem.
     bindE (need problem ''semantic_review'') (\<lambda>review.
     if review \<noteq> JStr ''approved'' then Inl (fail ''TARGET_REVIEW_REQUIRED'' 409)
     else bindE (need problem ''target_digest'') (\<lambda>current.
     bindE (need row ''target_digest'') (\<lambda>anchored.
     if current \<noteq> anchored then Inl (fail ''TARGET_CHANGED'' 409) else Inr ())))))"

definition transition_action ::
  "string \<Rightarrow> string \<Rightarrow> int \<Rightarrow> string list \<Rightarrow> string \<Rightarrow> principal \<Rightarrow> action" where
  "transition_action identifier act expected_revision allowed status actor op w =
     bindE (get_row w Experiment (JStr identifier) actor) (\<lambda>row.
     if r_rev row \<noteq> expected_revision then Inl (fail ''REVISION_CONFLICT'' 409)
     else bindE (need row ''status'') (\<lambda>current.
     if \<not> in_strings current allowed then Inl (fail ''INVALID_TRANSITION'' 409)
     else bindE (if act \<in> {''start'', ''resume''} then target_ready w row actor else Inr ()) (\<lambda>_.
     let values = (''status'', JStr status) #
           (if act = ''start'' then [(''started_at'', JTime (now w))] else [])
     in bindE (replace_row w row values (Some expected_revision)) (\<lambda>(record, w1).
     Inr (record, emit actor op (''experiment.'' @ status) identifier
       [(''revision'', dget record ''revision''), (''actor_id'', JStr (pr_id actor))] True w1)))))"

definition transition_experiment ::
  "string \<Rightarrow> string \<Rightarrow> int \<Rightarrow> principal \<Rightarrow> string \<Rightarrow> world \<Rightarrow> herr + (dict \<times> world)" where
  "transition_experiment identifier act expected_revision actor key w =
     bindE (require_role actor [Researcher, Operator]) (\<lambda>_.
     case map_of transitions act of
       None \<Rightarrow> Inl (fail ''INVALID_TRANSITION'' 422)
     | Some (allowed, status) \<Rightarrow>
         execute 0 actor key ''experiment.transition''
           (JObj [(''id'', JStr identifier), (''action'', JStr act),
                  (''expected_revision'', JInt expected_revision)])
           (transition_action identifier act expected_revision allowed status actor) w)"

section \<open>Facts\<close>

lemma target_ready_InrD:
  assumes "target_ready w row actor = Inr u"
  obtains problem where "get_row w Problem (field row ''problem_id'') actor = Inr problem"
    and "field problem ''semantic_review'' = JStr ''approved''"
    and "field problem ''target_digest'' = field row ''target_digest''"
proof -
  from assms obtain pid problem current anchored where "need row ''problem_id'' = Inr pid"
      "get_row w Problem pid actor = Inr problem"
      "need problem ''semantic_review'' = Inr (JStr ''approved'')"
      "need problem ''target_digest'' = Inr current" "need row ''target_digest'' = Inr anchored"
      "current = anchored"
    by (auto simp: target_ready_def bindE_Inr_iff if_Inl_Inr_iff)
  then show ?thesis using that by (auto dest!: need_field)
qed

lemma transition_action_InrD:
  assumes "transition_action identifier act rv allowed status actor op w = Inr (record, w')"
  obtains row w1 where "get_row w Experiment (JStr identifier) actor = Inr row"
    and "r_rev row = rv" and "in_strings (field row ''status'') allowed"
    and "act \<in> {''start'', ''resume''} \<longrightarrow> target_ready w row actor = Inr ()"
    and "replace_row w row ((''status'', JStr status) #
           (if act = ''start'' then [(''started_at'', JTime (now w))] else [])) (Some rv)
         = Inr (record, w1)"
    and "w' = emit actor op (''experiment.'' @ status) identifier
       [(''revision'', dget record ''revision''), (''actor_id'', JStr (pr_id actor))] True w1"
proof -
  from assms obtain row current where
      a: "get_row w Experiment (JStr identifier) actor = Inr row" "r_rev row = rv"
        "need row ''status'' = Inr current" "in_strings current allowed"
        "act \<in> {''start'', ''resume''} \<longrightarrow> target_ready w row actor = Inr ()"
      and b: "bindE (replace_row w row ((''status'', JStr status) #
           (if act = ''start'' then [(''started_at'', JTime (now w))] else [])) (Some rv))
         (\<lambda>(record, w1). Inr (record, emit actor op (''experiment.'' @ status) identifier
       [(''revision'', dget record ''revision''), (''actor_id'', JStr (pr_id actor))] True w1))
       = Inr (record, w')"
    unfolding transition_action_def Let_def
    by (simp only: bindE_Inr_iff if_Inl_Inr_iff) (auto split: if_splits)
  from b obtain w1 where "replace_row w row ((''status'', JStr status) #
           (if act = ''start'' then [(''started_at'', JTime (now w))] else [])) (Some rv)
         = Inr (record, w1)"
      "w' = emit actor op (''experiment.'' @ status) identifier
       [(''revision'', dget record ''revision''), (''actor_id'', JStr (pr_id actor))] True w1"
    unfolding bindE_Inr_iff by (auto split: prod.splits)
  then show ?thesis using that a need_field [OF a(3)] by blast
qed

lemma transitions_lead:
  "map_of transitions act = Some (allowed, status) \<Longrightarrow>
     ''cancelled'' \<notin> set allowed \<and> ''verified'' \<notin> set allowed \<and>
     status \<in> {''queued'', ''paused'', ''cancelled''} \<and>
     (status = ''queued'' \<longleftrightarrow> act \<in> {''start'', ''resume''}) \<and> status \<notin> set allowed"
  by (auto simp: transitions_def split: if_splits)

section \<open>Properties\<close>

text \<open>C25. The experiment's state machine: an accepted transition (that is no replay) leaves a state
  the table allows for its action, from the revision the caller named, never a cancelled or verified
  experiment; it leads to the table's state at the next revision; starting and resuming happen only on
  an approved target whose digest is still the experiment's.\<close>

theorem transition_legal:
  assumes "transition_experiment identifier act rv actor key w = Inr (record, w')"
    and "find_command w (command_key w actor key) = None"
  shows "\<exists>row row' allowed status. find_row w identifier = Some row \<and> r_kind row = Experiment \<and>
    find_row w' identifier = Some row' \<and> r_payload row' = record \<and>
    map_of transitions act = Some (allowed, status) \<and>
    in_strings (field row ''status'') allowed \<and>
    \<not> in_strings (field row ''status'') [''cancelled'', ''verified''] \<and>
    field row' ''status'' = JStr status \<and> r_rev row = rv \<and> r_rev row' = rv + 1 \<and>
    (act \<in> {''start'', ''resume''} \<longrightarrow>
       (\<exists>problem. find_json w (field row ''problem_id'') = Some problem \<and> r_kind problem = Problem \<and>
          field problem ''semantic_review'' = JStr ''approved'' \<and>
          field problem ''target_digest'' = field row ''target_digest'')) \<and>
    (act = ''start'' \<longrightarrow> field row' ''started_at'' = JTime (now w))"
proof -
  obtain allowed status where tab: "map_of transitions act = Some (allowed, status)"
      and ex: "execute 0 actor key ''experiment.transition''
           (JObj [(''id'', JStr identifier), (''action'', JStr act),
                  (''expected_revision'', JInt rv)])
           (transition_action identifier act rv allowed status actor) w = Inr (record, w')"
    using assms(1) by (auto simp: transition_experiment_def bindE_Inr_iff split: option.splits)
  obtain w2 where run: "transition_action identifier act rv allowed status actor (fst (new_id w))
      (snd (new_id w)) = Inr (record, w2)" and same: "same_tables w2 w'"
    by (rule execute_fresh [OF ex assms(2)])
  obtain row w1 where row: "get_row (snd (new_id w)) Experiment (JStr identifier) actor = Inr row"
      "r_rev row = rv" "in_strings (field row ''status'') allowed"
      and ready: "act \<in> {''start'', ''resume''} \<longrightarrow> target_ready (snd (new_id w)) row actor = Inr ()"
      and rep: "replace_row (snd (new_id w)) row ((''status'', JStr status) #
           (if act = ''start'' then [(''started_at'', JTime (now (snd (new_id w))))] else [])) (Some rv)
         = Inr (record, w1)"
      and w2: "w2 = emit actor (fst (new_id w)) (''experiment.'' @ status) identifier
       [(''revision'', dget record ''revision''), (''actor_id'', JStr (pr_id actor))] True w1"
    by (rule transition_action_InrD [OF run])
  have found: "find_row w identifier = Some row" "r_kind row = Experiment"
    using row(1) by (auto simp: get_row_Inr_iff)
  then have id: "r_id row = identifier" by (auto dest: find_row_id)
  define row' where "row' = row\<lparr>r_rev := rv + 1, r_payload := record\<rparr>"
  have "find_row w1 identifier = Some row'"
    using replace_row_found(1) [OF rep] id found row(2) by (auto simp: row'_def)
  then have found': "find_row w' identifier = Some row'"
    using same_tables_find(1) [OF same] w2 by simp
  have st: "field row' ''status'' = JStr status"
    "act = ''start'' \<longrightarrow> field row' ''started_at'' = JTime (now w)"
    unfolding row'_def using dget_replacement(2) [OF rep] by auto
  have "\<exists>problem. find_json w (field row ''problem_id'') = Some problem \<and> r_kind problem = Problem \<and>
          field problem ''semantic_review'' = JStr ''approved'' \<and>
          field problem ''target_digest'' = field row ''target_digest''"
    if "act \<in> {''start'', ''resume''}"
    using ready that by (auto elim!: target_ready_InrD simp: get_row_Inr_iff)
  moreover have "\<not> in_strings (field row ''status'') [''cancelled'', ''verified'']"
    using transitions_lead [OF tab] row(3) by (auto simp: in_strings_iff)
  ultimately show ?thesis
    using found found' row tab st by (auto simp: row'_def)
qed

theorem transition_legal_witness:
  "\<exists>record w'. transition_experiment ''e'' ''pause'' 1 sample_operator ''key'' sample
      = Inr (record, w') \<and>
    (\<exists>row'. find_row w' ''e'' = Some row' \<and> r_rev row' = 2 \<and> r_payload row' = record)"
proof -
  have "\<not> isl (transition_experiment ''e'' ''pause'' 1 sample_operator ''key'' sample)" by code_simp
  then obtain r w' where run:
    "transition_experiment ''e'' ''pause'' 1 sample_operator ''key'' sample = Inr (r, w')"
    by (rule succeedsE)
  have new: "find_command sample (command_key sample sample_operator ''key'') = None" by code_simp
  from transition_legal [OF run new] run show ?thesis by auto
qed

text \<open>A target review binds what was reviewed: after an accepted review (that is no replay) by a
  reviewer the problem carries the decision and the id of a new review record, and that record holds
  the digest the problem had when it was reviewed and the reviewer as its author.\<close>

theorem review_binds_target:
  assumes "review_problem pid decision rationale actor key w = Inr (review, w')"
    and "find_command w (command_key w actor key) = None"
  shows "pr_role actor \<in> {Reviewer, Admin} \<and> decision \<in> {''approved'', ''rejected''} \<and>
    (\<exists>problem problem' rid r. find_row w pid = Some problem \<and> find_row w' pid = Some problem' \<and>
       field problem' ''semantic_review'' = JStr decision \<and>
       field problem' ''review_id'' = JStr rid \<and> find_row w rid = None \<and>
       find_row w' rid = Some r \<and> r_kind r = Review \<and>
       field r ''target_digest'' = field problem ''target_digest'' \<and>
       field problem' ''target_digest'' = field problem ''target_digest'' \<and>
       field r ''problem_id'' = JStr pid \<and> field r ''decision'' = JStr decision \<and>
       field r ''reviewed_by'' = JStr (pr_id actor))"
proof -
  have role: "pr_role actor \<in> {Reviewer, Admin}" "decision \<in> {''approved'', ''rejected''}"
      and ex: "execute 0 actor key ''problem.review''
       (JObj [(''id'', JStr pid), (''decision'', JStr decision),
              (''rationale'', JStr rationale)])
       (review_problem_action pid decision rationale actor) w = Inr (review, w')"
    using assms(1) by (auto simp: review_problem_def bindE_Inr_iff require_role_Inr_iff split: if_splits)
  let ?v = "snd (new_id w)"
  obtain w2 where act: "review_problem_action pid decision rationale actor (fst (new_id w)) ?v
      = Inr (review, w2)" and same: "same_tables w2 w'"
    by (rule execute_fresh [OF ex assms(2)])
  let ?data = "\<lambda>digest. [(''problem_id'', JStr pid), (''scope'', JStr ''target''),
        (''target_digest'', digest), (''decision'', JStr decision),
        (''rationale'', JStr rationale), (''reviewed_by'', JStr (pr_id actor))]"
  obtain problem digest w1 repl w1' where row: "get_row w Problem (JStr pid) actor = Inr problem"
      and dg: "need problem ''target_digest'' = Inr digest"
      and ins: "insert_row ?v Review actor (?data digest) None = Inr (review, w1)"
      and rep: "replace_row w1 problem
       [(''semantic_review'', JStr decision), (''review_id'', dget review ''id'')] None = Inr (repl, w1')"
      and w2: "w2 = emit actor (fst (new_id w)) ''problem.reviewed'' pid
       [(''review_id'', dget review ''id''), (''decision'', JStr decision)] False w1'"
    using act unfolding review_problem_action_def
    by (auto simp: bindE_Inr_iff)
  let ?rid = "inserted_id ?v None"
  have found: "find_row w pid = Some problem" using row by (simp add: get_row_Inr_iff)
  then have pid: "r_id problem = pid" by (rule find_row_id)
  note new = insert_row_found [OF ins]
  have other: "pid \<noteq> ?rid" using new(2) found by auto
  define problem' where "problem' = problem\<lparr>r_rev := r_rev problem + 1, r_payload := repl\<rparr>"
  have p': "find_row w1' pid = Some problem'"
    using replace_row_found(1) [OF rep] pid new(4) [OF other] found by (auto simp: problem'_def)
  have r': "find_row w1' ?rid = find_row w1 ?rid"
    using replace_row_found(2) [OF rep] pid other by auto
  have "attribute_record ?v Review actor (?data digest) =
      Inr (dput ''origin_actor_id'' (JStr (pr_id actor)) (?data digest))"
    by (simp add: attribute_record_def)
  then have review: "dget review f = dget (dput ''origin_actor_id'' (JStr (pr_id actor)) (?data digest)) f"
    if "f \<notin> {''id'', ''project_id'', ''kind'', ''revision'', ''created_at''}" for f
    using insert_row_field [OF ins that] by simp
  have fields: "dget review ''target_digest'' = digest" "dget review ''problem_id'' = JStr pid"
      "dget review ''decision'' = JStr decision" "dget review ''reviewed_by'' = JStr (pr_id actor)"
    by (subst review; simp)+
  have pf: "field problem' ''semantic_review'' = JStr decision"
      "field problem' ''review_id'' = JStr ?rid"
      "field problem' ''target_digest'' = field problem ''target_digest''"
    unfolding problem'_def using dget_replacement [OF rep] new(1) by auto
  show ?thesis
    using role found p' r' new pf fields need_field [OF dg] same_tables_find(1) [OF same] w2
    by auto
qed

theorem review_binds_target_witness:
  "\<exists>review w' rid r. review_problem ''t'' ''rejected'' ''too weak'' sample_reviewer ''key'' sample
      = Inr (review, w') \<and>
    find_row w' rid = Some r \<and> r_kind r = Review \<and> field r ''decision'' = JStr ''rejected''"
proof -
  have "\<not> isl (review_problem ''t'' ''rejected'' ''too weak'' sample_reviewer ''key'' sample)"
    by code_simp
  then obtain r w' where run:
    "review_problem ''t'' ''rejected'' ''too weak'' sample_reviewer ''key'' sample = Inr (r, w')"
    by (rule succeedsE)
  have new: "find_command sample (command_key sample sample_reviewer ''key'') = None" by code_simp
  from review_binds_target [OF run new] run show ?thesis by blast
qed

end
