(* ===== verification/Ledger.thy ===== *)
theory Ledger
  imports Lifecycle
begin

text \<open>
  The resource ledger (\<open>service.py\<close>): \<open>reserve_resources\<close>, \<open>settle_resources\<close> and \<open>ledger\<close>. A
  budget holds what its open reservations hold and what its settled ones cost; \<open>ledger_ok\<close> says so,
  and that the envelope is respected until the experiment is flagged for reconciliation.
\<close>

section \<open>Reserving\<close>

definition nonnegative_counts :: "int \<Rightarrow> int \<Rightarrow> herr + unit" where
  "nonnegative_counts workers tokens =
     (if workers < 0 \<or> tokens < 0 then Inl (fail ''INVALID_RESOURCE_AMOUNT'' 422) else Inr ())"

text \<open>The model task a reservation is bound to: task, holder and fence.\<close>

definition binding_ok ::
  "world \<Rightarrow> string \<Rightarrow> int \<Rightarrow> (string \<times> string \<times> int) option \<Rightarrow> principal \<Rightarrow> herr + unit" where
  "binding_ok w experiment_id workers binding actor =
     (case binding of
        None \<Rightarrow> Inr ()
      | Some (task_id, holder, fence) \<Rightarrow>
          bindE (get_row w Task (JStr task_id) actor) (\<lambda>task.
          bindE (fenced w task_id holder fence) (\<lambda>_.
          if workers \<noteq> 0 \<or> field task ''experiment_id'' \<noteq> JStr experiment_id
          then Inl (fail ''RESERVATION_SCOPE'' 409) else Inr ())))"

definition envelope_allows :: "budget_row \<Rightarrow> int \<Rightarrow> int \<Rightarrow> int \<Rightarrow> herr + unit" where
  "envelope_allows b amount workers tokens =
     (if (case b_max_tokens b of None \<Rightarrow> False
          | Some m \<Rightarrow> b_tokens_spent b + b_tokens_reserved b + tokens > m)
      then Inl (fail ''TOKEN_BUDGET_EXCEEDED'' 409)
      else if b_spent b + b_reserved b + amount > b_max_cost b
      then Inl (fail ''BUDGET_EXCEEDED'' 409)
      else if b_active_workers b + workers > b_max_concurrency b
      then Inl (Harness ''CONCURRENCY_EXCEEDED'' 409 True)
      else Inr ())"

definition need_budget :: "world \<Rightarrow> string \<Rightarrow> herr + budget_row" where
  "need_budget w i = (case find_budget w i of None \<Rightarrow> Inl (KeyError ''budget'') | Some b \<Rightarrow> Inr b)"

definition add_reservation :: "reservation_row \<Rightarrow> world \<Rightarrow> herr + world" where
  "add_reservation v w =
     (if find_reservation w (v_id v) \<noteq> None then Inl IntegrityError
      else Inr (set_reservation v w))"

definition record_binding ::
  "world \<Rightarrow> string \<Rightarrow> string \<Rightarrow> (string \<times> string \<times> int) option \<Rightarrow> principal \<Rightarrow> herr + world" where
  "record_binding w experiment_id reservation_id binding actor =
     (case binding of
        None \<Rightarrow> Inr w
      | Some (task_id, holder, fence) \<Rightarrow>
          bindE (insert_row w ModelReservation actor
            [(''experiment_id'', JStr experiment_id), (''task_id'', JStr task_id),
             (''reservation_id'', JStr reservation_id), (''holder'', JStr holder),
             (''fence'', JInt fence), (''status'', JStr ''active'')] None) (\<lambda>(_, w'). Inr w'))"

definition charge :: "int \<Rightarrow> int \<Rightarrow> int \<Rightarrow> budget_row \<Rightarrow> budget_row" where
  "charge amount workers tokens b =
     b\<lparr>b_reserved := b_reserved b + amount, b_tokens_reserved := b_tokens_reserved b + tokens,
       b_active_workers := b_active_workers b + workers\<rparr>"

definition reserve_action ::
  "string \<Rightarrow> int \<Rightarrow> int \<Rightarrow> int \<Rightarrow> (string \<times> string \<times> int) option \<Rightarrow> principal \<Rightarrow> action" where
  "reserve_action experiment_id amount workers tokens binding actor op w =
     bindE (active w (JStr experiment_id) actor) (\<lambda>_.
     bindE (binding_ok w experiment_id workers binding actor) (\<lambda>_.
     bindE (need_budget w experiment_id) (\<lambda>budget.
     bindE (envelope_allows budget amount workers tokens) (\<lambda>_.
     let reservation_id = fst (new_id w);
         reservation = \<lparr>v_id = reservation_id, v_experiment = experiment_id, v_reserved = amount,
           v_workers = workers, v_state = ''active'', v_actual = None,
           v_tokens_reserved = tokens, v_tokens_actual = None\<rparr>
     in bindE (add_reservation reservation (snd (new_id w))) (\<lambda>w1.
        bindE (record_binding w1 experiment_id reservation_id binding actor) (\<lambda>w2.
        let result =
              [(''id'', JStr reservation_id), (''experiment_id'', JStr experiment_id),
               (''reserved_cost_usd'', JStr (money_string amount)), (''workers'', JInt workers),
               (''state'', JStr ''active'')]
        in Inr (result, emit actor op ''resources.reserved'' experiment_id result False
                  (set_budget (charge amount workers tokens budget) w2))))))))"

definition reserve_resources ::
  "string \<Rightarrow> decimal \<Rightarrow> int \<Rightarrow> int \<Rightarrow> (string \<times> string \<times> int) option \<Rightarrow> principal \<Rightarrow> string \<Rightarrow>
     world \<Rightarrow> herr + (dict \<times> world)"
where
  "reserve_resources experiment_id cost workers tokens binding actor key w =
     bindE (require_role actor [Researcher, Operator]) (\<lambda>_.
     bindE (units_of cost) (\<lambda>amount.
     bindE (nonnegative_counts workers tokens) (\<lambda>_.
     execute 0 actor key ''resources.reserve''
       (JObj [(''experiment_id'', JStr experiment_id), (''amount'', JInt amount),
              (''workers'', JInt workers), (''tokens'', JInt tokens),
              (''model_task_binding'',
               case binding of None \<Rightarrow> JNull
               | Some (t, h, f) \<Rightarrow> JList [JStr t, JStr h, JInt f])])
       (reserve_action experiment_id amount workers tokens binding actor) w)))"

section \<open>Settling\<close>

definition is_overrun :: "budget_row \<Rightarrow> reservation_row \<Rightarrow> int \<Rightarrow> int \<Rightarrow> bool" where
  "is_overrun b v actual actual_tokens \<longleftrightarrow>
     actual > v_reserved v \<or> actual_tokens > v_tokens_reserved v \<or>
     b_spent b + b_reserved b - v_reserved v + actual > b_max_cost b \<or>
     (case b_max_tokens b of None \<Rightarrow> False
      | Some m \<Rightarrow> b_tokens_spent b + b_tokens_reserved b - v_tokens_reserved v + actual_tokens > m)"

definition discharge :: "reservation_row \<Rightarrow> int \<Rightarrow> int \<Rightarrow> budget_row \<Rightarrow> budget_row" where
  "discharge v actual actual_tokens b =
     b\<lparr>b_reserved := b_reserved b - v_reserved v,
       b_tokens_reserved := b_tokens_reserved b - v_tokens_reserved v,
       b_tokens_spent := b_tokens_spent b + actual_tokens,
       b_spent := b_spent b + actual,
       b_active_workers := b_active_workers b - v_workers v\<rparr>"

text \<open>The first settlement of a reservation, with the overrun it may be.\<close>

definition settle_first ::
  "reservation_row \<Rightarrow> row \<Rightarrow> budget_row \<Rightarrow> int \<Rightarrow> int \<Rightarrow> principal \<Rightarrow> string \<Rightarrow> world \<Rightarrow>
     herr + (bool \<times> reservation_row \<times> world)"
where
  "settle_first v experiment budget actual actual_tokens actor op w =
     (let overrun = is_overrun budget v actual actual_tokens;
          v' = v\<lparr>v_tokens_actual := Some actual_tokens, v_actual := Some actual,
                 v_state := ''settled''\<rparr>;
          w1 = set_reservation v' (set_budget (discharge v actual actual_tokens budget) w)
      in bindE
           (if overrun \<and> \<not> truthy (field experiment ''budget_reconciliation_required'') then
              bindE (replace_row w1 experiment [(''budget_reconciliation_required'', JBool True)]
                       (Some (r_rev experiment))) (\<lambda>(_, w2). Inr w2)
            else Inr w1) (\<lambda>w2.
         Inr (overrun, v',
           if overrun then
             emit actor op ''resources.overrun'' (v_experiment v)
               [(''reservation_id'', JStr (v_id v)),
                (''reserved_cost_usd'', JStr (money_string (v_reserved v))),
                (''actual_cost_usd'', JStr (money_string actual)),
                (''reserved_tokens'', JInt (v_tokens_reserved v)),
                (''actual_tokens'', JInt actual_tokens)] False w2
           else w2)))"

definition settle_change ::
  "reservation_row \<Rightarrow> row \<Rightarrow> budget_row \<Rightarrow> int option \<Rightarrow> int \<Rightarrow> bool \<Rightarrow> principal \<Rightarrow> string \<Rightarrow> world \<Rightarrow>
     herr + (bool \<times> reservation_row \<times> world)"
where
  "settle_change v experiment budget actual actual_tokens uncertain actor op w =
     (if v_state v = ''settled'' then
        (if actual \<noteq> v_actual v \<or> Some actual_tokens \<noteq> v_tokens_actual v \<or> uncertain
         then Inl (fail ''SETTLEMENT_CONFLICT'' 409)
         else Inr (truthy (field experiment ''budget_reconciliation_required''), v, w))
      else if uncertain then
        (let v' = v\<lparr>v_state := ''uncertain''\<rparr> in Inr (False, v', set_reservation v' w))
      else settle_first v experiment budget (the actual) actual_tokens actor op w)"

definition settle_action ::
  "string \<Rightarrow> int option \<Rightarrow> int \<Rightarrow> bool \<Rightarrow> principal \<Rightarrow> action" where
  "settle_action reservation_id actual actual_tokens uncertain actor op w =
     (case find_reservation w reservation_id of
        None \<Rightarrow> Inl (fail ''NOT_FOUND'' 404)
      | Some v \<Rightarrow>
          bindE (get_row w Experiment (JStr (v_experiment v)) actor) (\<lambda>experiment.
          if v_experiment v \<noteq> r_id experiment then Inl (fail ''RESERVATION_SCOPE'' 409)
          else bindE (need_budget w (v_experiment v)) (\<lambda>budget.
          bindE (settle_change v experiment budget actual actual_tokens uncertain actor op w)
            (\<lambda>(overrun, v', w1).
          let result =
                [(''id'', JStr (v_id v')), (''state'', JStr (v_state v')),
                 (''actual_cost_usd'',
                  case v_actual v' of None \<Rightarrow> JNull | Some a \<Rightarrow> JStr (money_string a)),
                 (''reconciliation_required'', JBool overrun),
                 (''code'', if overrun then JStr ''BUDGET_RECONCILIATION_REQUIRED'' else JNull)]
          in Inr (result, emit actor op ''resources.settled'' (v_experiment v') result False w1)))))"

definition settle_resources ::
  "string \<Rightarrow> decimal option \<Rightarrow> bool \<Rightarrow> int \<Rightarrow> principal \<Rightarrow> string \<Rightarrow> world \<Rightarrow>
     herr + (dict \<times> world)"
where
  "settle_resources reservation_id actual_cost uncertain actual_tokens actor key w =
     bindE (require_role actor [Operator]) (\<lambda>_.
     if (uncertain \<and> actual_cost \<noteq> None) \<or> (\<not> uncertain \<and> actual_cost = None)
     then Inl (fail ''INVALID_SETTLEMENT'' 422)
     else if actual_tokens < 0 then Inl (fail ''INVALID_SETTLEMENT'' 422)
     else bindE (case actual_cost of None \<Rightarrow> Inr None
                 | Some c \<Rightarrow> bindE (units_of c) (\<lambda>u. Inr (Some u))) (\<lambda>actual.
       execute 0 actor key ''resources.settle''
         (JObj [(''id'', JStr reservation_id),
                (''actual'', case actual of None \<Rightarrow> JNull | Some a \<Rightarrow> JInt a),
                (''uncertain'', JBool uncertain), (''actual_tokens'', JInt actual_tokens)])
         (settle_action reservation_id actual actual_tokens uncertain actor) w))"

section \<open>The ledger's view\<close>

definition ledger :: "string \<Rightarrow> principal \<Rightarrow> world \<Rightarrow> herr + dict" where
  "ledger experiment_id actor w =
     bindE (get_row w Experiment (JStr experiment_id) actor) (\<lambda>_.
     bindE (need_budget w experiment_id) (\<lambda>b.
     let uncertain = length (filter (\<lambda>v. v_experiment v = experiment_id \<and>
           v_state v = ''uncertain'') (reservations w))
     in Inr [(''max_cost_usd'', JStr (money_string (b_max_cost b))),
             (''reserved_cost_usd'', JStr (money_string (b_reserved b))),
             (''spent_cost_usd'', JStr (money_string (b_spent b))),
             (''active_workers'', JInt (b_active_workers b)),
             (''max_concurrency'', JInt (b_max_concurrency b)),
             (''uncertain_operations'', JInt (int uncertain)),
             (''max_tokens'', case b_max_tokens b of None \<Rightarrow> JNull | Some m \<Rightarrow> JInt m),
             (''tokens_reserved'', JInt (b_tokens_reserved b)),
             (''tokens_spent'', JInt (b_tokens_spent b))]))"

section \<open>What the ledger keeps\<close>

definition is_open :: "reservation_row \<Rightarrow> bool" where
  "is_open v \<longleftrightarrow> v_state v \<in> {''active'', ''uncertain''}"

definition sum_over :: "(reservation_row \<Rightarrow> int) \<Rightarrow> world \<Rightarrow> int" where
  "sum_over f w = sum_list (map f (reservations w))"

text \<open>What the open reservations of an experiment hold, and what its settled ones cost.\<close>

definition held :: "(reservation_row \<Rightarrow> int) \<Rightarrow> string \<Rightarrow> world \<Rightarrow> int" where
  "held f i = sum_over (\<lambda>v. if v_experiment v = i \<and> is_open v then f v else 0)"

definition settled_cost :: "(reservation_row \<Rightarrow> int option) \<Rightarrow> string \<Rightarrow> world \<Rightarrow> int" where
  "settled_cost f i =
     sum_over (\<lambda>v. if v_experiment v = i \<and> \<not> is_open v
                  then (case f v of None \<Rightarrow> 0 | Some a \<Rightarrow> a) else 0)"

definition reservation_ok :: "reservation_row \<Rightarrow> bool" where
  "reservation_ok v \<longleftrightarrow>
     v_state v \<in> {''active'', ''uncertain'', ''settled''} \<and>
     0 \<le> v_reserved v \<and> 0 \<le> v_workers v \<and> 0 \<le> v_tokens_reserved v \<and>
     (v_state v = ''settled'' \<longrightarrow> v_actual v \<noteq> None \<and> v_tokens_actual v \<noteq> None)"

definition books_balance :: "world \<Rightarrow> budget_row \<Rightarrow> bool" where
  "books_balance w b \<longleftrightarrow>
     b_reserved b = held v_reserved (b_experiment b) w \<and>
     b_tokens_reserved b = held v_tokens_reserved (b_experiment b) w \<and>
     b_active_workers b = held v_workers (b_experiment b) w \<and>
     b_spent b = settled_cost v_actual (b_experiment b) w \<and>
     b_tokens_spent b = settled_cost v_tokens_actual (b_experiment b) w"

definition within_envelope :: "budget_row \<Rightarrow> bool" where
  "within_envelope b \<longleftrightarrow>
     b_spent b + b_reserved b \<le> b_max_cost b \<and>
     (case b_max_tokens b of None \<Rightarrow> True
      | Some m \<Rightarrow> b_tokens_spent b + b_tokens_reserved b \<le> m)"

text \<open>\<open>flag\<close> tells which experiments are flagged for reconciliation.\<close>

definition ledger_ok_for :: "(string \<Rightarrow> bool) \<Rightarrow> world \<Rightarrow> bool" where
  "ledger_ok_for flag w \<longleftrightarrow>
     distinct (map v_id (reservations w)) \<and> distinct (map b_experiment (budgets w)) \<and>
     (\<forall>v \<in> set (reservations w). reservation_ok v \<and> find_budget w (v_experiment v) \<noteq> None) \<and>
     (\<forall>b \<in> set (budgets w). books_balance w b \<and>
        (\<not> flag (b_experiment b) \<longrightarrow> within_envelope b) \<and>
        b_active_workers b \<le> b_max_concurrency b)"

definition flagged :: "world \<Rightarrow> string \<Rightarrow> bool" where
  "flagged w i =
     (case find_row w i of None \<Rightarrow> False
      | Some r \<Rightarrow> truthy (field r ''budget_reconciliation_required''))"

definition ledger_ok :: "world \<Rightarrow> bool" where
  "ledger_ok w \<longleftrightarrow> ledger_ok_for (flagged w) w"

lemma sum_over_set_reservation_new:
  "find_reservation w (v_id v) = None \<Longrightarrow> sum_over f (set_reservation v w) = sum_over f w + f v"
  by (simp add: sum_over_def set_reservation_def find_reservation_def sum_list_put_row_new
      lookup_row_None_iff)

lemma sum_over_set_reservation_old:
  "distinct (map v_id (reservations w)) \<Longrightarrow> find_reservation w (v_id v) = Some v0 \<Longrightarrow>
     sum_over f (set_reservation v w) = sum_over f w - f v0 + f v"
  by (simp add: sum_over_def set_reservation_def find_reservation_def sum_list_put_row_old)

lemma sum_over_set_budget [simp]: "sum_over f (set_budget b w) = sum_over f w"
  by (simp add: sum_over_def)

lemma books_set_budget [simp]: "books_balance (set_budget b w) = books_balance w"
  by (simp add: fun_eq_iff books_balance_def held_def settled_cost_def)

lemma sum_over_nonneg:
  assumes "\<And>v. v \<in> set (reservations w) \<Longrightarrow> 0 \<le> f v"
  shows "0 \<le> sum_over f w"
  unfolding sum_over_def using assms by (intro sum_list_nonneg) auto

lemma ledger_ok_for_mono:
  assumes "ledger_ok_for F w" and "reservations w' = reservations w" and "budgets w' = budgets w"
    and "\<And>i. F i \<Longrightarrow> F' i"
  shows "ledger_ok_for F' w'"
  using assms
  by (auto simp: ledger_ok_for_def books_balance_def held_def settled_cost_def sum_over_def
      find_budget_def)

text \<open>The rows of the two tables after one of them was written.\<close>

lemma in_reservations_set:
  "distinct (map v_id (reservations w)) \<Longrightarrow>
     x \<in> set (reservations (set_reservation v w)) \<longleftrightarrow>
       x = v \<or> x \<in> set (reservations w) \<and> v_id x \<noteq> v_id v"
  by (simp add: set_reservation_def in_put_row_iff)

lemma in_budgets_set:
  "distinct (map b_experiment (budgets w)) \<Longrightarrow>
     x \<in> set (budgets (set_budget b w)) \<longleftrightarrow>
       x = b \<or> x \<in> set (budgets w) \<and> b_experiment x \<noteq> b_experiment b"
  by (simp add: set_budget_def in_put_row_iff)

lemma distinct_set_reservation:
  "distinct (map v_id (reservations w)) \<Longrightarrow> distinct (map v_id (reservations (set_reservation v w)))"
  by (simp add: set_reservation_def distinct_put_row)

lemma distinct_set_budget:
  "distinct (map b_experiment (budgets w)) \<Longrightarrow>
     distinct (map b_experiment (budgets (set_budget b w)))"
  by (simp add: set_budget_def distinct_put_row)

lemma find_budget_in: "find_budget w i = Some b \<Longrightarrow> b \<in> set (budgets w) \<and> b_experiment b = i"
  unfolding find_budget_def by (rule lookup_row_SomeD)

lemma find_reservation_in:
  "find_reservation w i = Some v \<Longrightarrow> v \<in> set (reservations w) \<and> v_id v = i"
  unfolding find_reservation_def by (rule lookup_row_SomeD)

text \<open>A reservation of one experiment is booked in that experiment's budget alone: the rule every
  ledger operation is an instance of. \<open>b'\<close> is the budget after the operation wrote \<open>v\<close>.\<close>

lemma ledger_ok_for_write:
  assumes ok: "ledger_ok_for F w"
    and b: "find_budget w (v_experiment v) = Some b" "b_experiment b' = v_experiment v"
    and v: "reservation_ok v"
    and same: "\<And>v0. find_reservation w (v_id v) = Some v0 \<Longrightarrow> v_experiment v0 = v_experiment v"
    and balance: "books_balance (set_reservation v w) b'"
    and envelope: "\<not> F' (v_experiment v) \<Longrightarrow> within_envelope b'"
    and workers: "b_active_workers b' \<le> b_max_concurrency b'"
    and grow: "\<And>i. F i \<Longrightarrow> F' i"
  shows "ledger_ok_for F' (set_reservation v (set_budget b' w))"
proof -
  let ?w = "set_reservation v (set_budget b' w)"
  have d: "distinct (map v_id (reservations w))" "distinct (map b_experiment (budgets w))"
    using ok by (simp_all add: ledger_ok_for_def)
  have other: "books_balance ?w x"
    if "x \<in> set (budgets w)" "b_experiment x \<noteq> v_experiment v" for x
  proof -
    have "sum_over f ?w = sum_over f w"
      if "f v = 0" "\<And>u. v_experiment u = v_experiment v \<Longrightarrow> f u = 0" for f
    proof (cases "find_reservation w (v_id v)")
      case None
      then show ?thesis using that(1) by (simp add: sum_over_set_reservation_new)
    next
      case (Some v0)
      then show ?thesis
        using that(1) that(2) [OF same [OF Some]] d(1) by (simp add: sum_over_set_reservation_old)
    qed
    then have "held g (b_experiment x) ?w = held g (b_experiment x) w"
      "settled_cost h (b_experiment x) ?w = settled_cost h (b_experiment x) w" for g h
      using that(2) by (simp_all add: held_def settled_cost_def)
    moreover have "books_balance w x" using ok that(1) by (simp add: ledger_ok_for_def)
    ultimately show ?thesis by (simp add: books_balance_def)
  qed
  have mine: "books_balance ?w b'"
    using balance by (simp add: books_balance_def held_def settled_cost_def sum_over_def
        set_reservation_def)
  have "reservation_ok x \<and> find_budget ?w (v_experiment x) \<noteq> None"
    if "x \<in> set (reservations ?w)" for x
    using that v b ok d
    by (auto simp: in_reservations_set ledger_ok_for_def)
  moreover have "books_balance ?w x \<and> (\<not> F' (b_experiment x) \<longrightarrow> within_envelope x) \<and>
      b_active_workers x \<le> b_max_concurrency x" if "x \<in> set (budgets ?w)" for x
    using that other mine envelope workers b(2) ok d(2) grow
    by (auto simp: in_budgets_set ledger_ok_for_def)
  ultimately show ?thesis
    using d distinct_set_reservation distinct_set_budget by (simp add: ledger_ok_for_def)
qed

section \<open>Flags\<close>

text \<open>Which experiments are flagged only grows: nothing here clears a flag.\<close>

definition flags_grow :: "world \<Rightarrow> world \<Rightarrow> bool" where
  "flags_grow w w' \<longleftrightarrow> (\<forall>i. flagged w i \<longrightarrow> flagged w' i)"

lemma flags_grow_refl [simp]: "flags_grow w w"
  by (simp add: flags_grow_def)

lemma flags_grow_trans: "flags_grow a b \<Longrightarrow> flags_grow b c \<Longrightarrow> flags_grow a c"
  by (simp add: flags_grow_def)

lemma flagged_frames [simp]:
  "flagged (set_budget b w) = flagged w" "flagged (set_reservation v w) = flagged w"
  "flagged (emit a op kd ag pl d w) = flagged w" "flagged (snd (new_id w)) = flagged w"
  by (simp_all add: flagged_def fun_eq_iff)

lemma flagged_same: "same_tables w w' \<Longrightarrow> flagged w' = flagged w"
  by (simp add: flagged_def fun_eq_iff same_tables_find)

lemma insert_row_flags:
  assumes "insert_row w k actor data rid = Inr (record, w')"
  shows "flags_grow w w'"
proof -
  have "flagged w i \<Longrightarrow> i \<noteq> inserted_id w rid" for i
    using insert_row_found(2) [OF assms] by (auto simp: flagged_def)
  then show ?thesis
    using insert_row_found(4) [OF assms] by (auto simp: flags_grow_def flagged_def)
qed

lemma replace_row_flags:
  assumes "replace_row w row values e = Inr (record, w')" and "find_row w (r_id row) = Some row"
    and "''budget_reconciliation_required'' \<notin> fst ` set values"
  shows "flagged w' = flagged w"
proof -
  have "dget record ''budget_reconciliation_required'' = field row ''budget_reconciliation_required''"
    using dget_replacement(1) [OF assms(1)] assms(3) by simp
  then have "flagged w' (r_id row) = flagged w (r_id row)"
    using replace_row_found(1) [OF assms(1)] assms(2) by (auto simp: flagged_def)
  moreover have "flagged w' i = flagged w i" if "i \<noteq> r_id row" for i
    using replace_row_found(2) [OF assms(1) that] by (simp add: flagged_def)
  ultimately have "flagged w' i = flagged w i" for i by (cases "i = r_id row") simp_all
  then show ?thesis by (rule ext)
qed

lemma replace_row_flags_set:
  assumes "replace_row w row [(''budget_reconciliation_required'', JBool True)] e = Inr (record, w')"
  shows "flags_grow w w' \<and> flagged w' (r_id row)"
proof -
  have "dget record ''budget_reconciliation_required'' = JBool True"
    using dget_replacement(2) [OF assms] by simp
  then have "flagged w' (r_id row)"
    using replace_row_found(1) [OF assms] by (auto simp: flagged_def)
  moreover have "flagged w' i" if "flagged w i" "i \<noteq> r_id row" for i
    using that replace_row_found(2) [OF assms] by (simp add: flagged_def)
  ultimately show ?thesis by (auto simp: flags_grow_def)
qed

lemma ledger_ok_frame:
  assumes "ledger_ok w" and "reservations w' = reservations w" and "budgets w' = budgets w"
    and "flags_grow w w'"
  shows "ledger_ok w'"
  using assms ledger_ok_for_mono unfolding ledger_ok_def flags_grow_def by blast

lemma ledger_ok_same:
  assumes "same_tables a b" and "ledger_ok a"
  shows "ledger_ok b"
  using assms(2)
proof (rule ledger_ok_frame)
  show "reservations b = reservations a" "budgets b = budgets a"
    using assms(1) by (simp_all add: same_tables_def)
  show "flags_grow a b" by (simp add: flags_grow_def flagged_same [OF assms(1)])
qed

section \<open>Every operation keeps the books\<close>

lemma ledger_ok_writeI:
  assumes "ledger_ok_for (flagged w) (set_reservation v (set_budget b w))" and "flags_grow w w'"
    and "reservations w' = reservations (set_reservation v w)"
    and "budgets w' = budgets (set_budget b w)"
  shows "ledger_ok w'"
  unfolding ledger_ok_def
proof (rule ledger_ok_for_mono [OF assms(1)])
  show "reservations w' = reservations (set_reservation v (set_budget b w))"
    using assms(3) by (simp add: set_reservation_def)
  show "budgets w' = budgets (set_reservation v (set_budget b w))" using assms(4) by simp
  show "flagged w i \<Longrightarrow> flagged w' i" for i using assms(2) by (simp add: flags_grow_def)
qed

lemma units_of_nonneg: "units_of d = Inr u \<Longrightarrow> 0 \<le> u"
  by (auto simp: units_of_def dest: money_units_nonneg split: sum.splits)

lemma envelope_allows_InrD:
  "envelope_allows b amount workers tokens = Inr u \<Longrightarrow>
     within_envelope (charge amount workers tokens b) \<and>
     b_active_workers b + workers \<le> b_max_concurrency b"
  by (auto simp: envelope_allows_def within_envelope_def charge_def split: if_splits option.splits)

lemma record_binding_frame:
  assumes "record_binding w i r binding actor = Inr w'"
  shows "reservations w' = reservations w" "budgets w' = budgets w" "flags_grow w w'"
proof -
  have "w' = w \<or> (\<exists>data res. insert_row w ModelReservation actor data None = Inr (res, w'))"
    using assms by (cases binding) (auto simp: record_binding_def bindE_Inr_iff)
  then show "reservations w' = reservations w" "budgets w' = budgets w" "flags_grow w w'"
    by (auto dest: insert_row_frame insert_row_flags)
qed

lemma reserve_keeps_books:
  assumes ok: "ledger_ok w" and pos: "0 \<le> amount" "0 \<le> workers" "0 \<le> tokens"
    and run: "reserve_action i amount workers tokens binding actor op w = Inr (result, w')"
  shows "ledger_ok w'"
proof -
  define v where "v = \<lparr>v_id = fst (new_id w), v_experiment = i, v_reserved = amount,
           v_workers = workers, v_state = ''active'', v_actual = None,
           v_tokens_reserved = tokens, v_tokens_actual = None\<rparr>"
  from run obtain b w1 w2 where b: "need_budget w i = Inr b"
      and fits: "envelope_allows b amount workers tokens = Inr ()"
      and w1: "add_reservation v (snd (new_id w)) = Inr w1"
      and w2: "record_binding w1 i (fst (new_id w)) binding actor = Inr w2"
      and w': "\<exists>res. w' = emit actor op ''resources.reserved'' i res False
                  (set_budget (charge amount workers tokens b) w2)"
    unfolding reserve_action_def Let_def v_def by (auto simp: bindE_Inr_iff)
  have fb: "find_budget w i = Some b" using b by (auto simp: need_budget_def split: option.splits)
  have none: "find_reservation w (v_id v) = None" and w1': "w1 = set_reservation v (snd (new_id w))"
    using w1 by (auto simp: add_reservation_def split: if_splits)
  have "ledger_ok_for (flagged w) (set_reservation v (set_budget (charge amount workers tokens b) w))"
  proof (rule ledger_ok_for_write)
    show "ledger_ok_for (flagged w) w" using ok by (simp add: ledger_ok_def)
    show "find_budget w (v_experiment v) = Some b" using fb by (simp add: v_def)
    show "b_experiment (charge amount workers tokens b) = v_experiment v"
      using find_budget_in [OF fb] by (simp add: charge_def v_def)
    show "reservation_ok v" using pos by (simp add: reservation_ok_def v_def)
    show "v_experiment v0 = v_experiment v" if "find_reservation w (v_id v) = Some v0" for v0
      using none that by simp
    have "books_balance w b" using ok find_budget_in [OF fb] by (simp add: ledger_ok_def ledger_ok_for_def)
    then show "books_balance (set_reservation v w) (charge amount workers tokens b)"
      using find_budget_in [OF fb] sum_over_set_reservation_new [OF none]
      by (simp add: books_balance_def held_def settled_cost_def charge_def v_def is_open_def)
    show "within_envelope (charge amount workers tokens b)"
      "b_active_workers (charge amount workers tokens b)
        \<le> b_max_concurrency (charge amount workers tokens b)"
      using envelope_allows_InrD [OF fits] by (simp_all add: charge_def)
  qed
  moreover have "flags_grow w w'"
    using w' record_binding_frame(3) [OF w2] w1' by (auto simp: flags_grow_def)
  moreover have "reservations w' = reservations (set_reservation v w)"
    using w' record_binding_frame(1) [OF w2] w1' by (auto simp: set_reservation_def)
  moreover have "budgets w' = budgets (set_budget (charge amount workers tokens b) w)"
    using w' record_binding_frame(2) [OF w2] w1' by (auto simp: set_budget_def)
  ultimately show ?thesis by (rule ledger_ok_writeI)
qed

lemma settle_first_keeps_books:
  assumes ok: "ledger_ok w" and v: "find_reservation w (v_id v) = Some v" and op: "is_open v"
    and b: "find_budget w (v_experiment v) = Some b" and ex: "r_id experiment = v_experiment v"
      "find_row w (v_experiment v) = Some experiment"
    and run: "settle_first v experiment b actual actual_tokens actor opn w = Inr (ov, v', w')"
  shows "ledger_ok w'" "ov = is_overrun b v actual actual_tokens"
    "find_reservation w' (v_id v) = Some v'" "v_actual v' = Some actual"
    "v_tokens_actual v' = Some actual_tokens" "v_state v' = ''settled''" "v_id v' = v_id v"
proof -
  let ?v = "v\<lparr>v_tokens_actual := Some actual_tokens, v_actual := Some actual,
                 v_state := ''settled''\<rparr>"
  let ?b = "discharge v actual actual_tokens b"
  let ?w1 = "set_reservation ?v (set_budget ?b w)"
  have vok: "reservation_ok v" and bok: "books_balance w b" "b_active_workers b \<le> b_max_concurrency b"
      and d: "distinct (map v_id (reservations w))"
    using ok find_reservation_in [OF v] find_budget_in [OF b]
    by (auto simp: ledger_ok_def ledger_ok_for_def)
  obtain w2 where w2: "(if is_overrun b v actual actual_tokens \<and>
        \<not> truthy (field experiment ''budget_reconciliation_required'')
      then bindE (replace_row ?w1 experiment [(''budget_reconciliation_required'', JBool True)]
                       (Some (r_rev experiment))) (\<lambda>(_, w2). Inr w2)
      else Inr ?w1) = Inr w2"
      and out: "ov = is_overrun b v actual actual_tokens" "v' = ?v"
        "w' = w2 \<or> (\<exists>pl. w' = emit actor opn ''resources.overrun'' (v_experiment v) pl False w2)"
    using run unfolding settle_first_def Let_def bindE_Inr_iff by (auto split: if_splits)
  have flags: "flags_grow w w2" "ov \<Longrightarrow> flagged w2 (v_experiment v)"
      and tabs: "reservations w2 = reservations ?w1" "budgets w2 = budgets ?w1"
  proof -
    have "flags_grow w w2 \<and> (ov \<longrightarrow> flagged w2 (v_experiment v)) \<and>
        reservations w2 = reservations ?w1 \<and> budgets w2 = budgets ?w1"
    proof (cases "ov \<and> \<not> truthy (field experiment ''budget_reconciliation_required'')")
      case True
      then obtain rc where "replace_row ?w1 experiment [(''budget_reconciliation_required'', JBool True)]
                       (Some (r_rev experiment)) = Inr (rc, w2)"
        using w2 out(1) by (auto simp: bindE_Inr_iff)
      then show ?thesis
        using replace_row_flags_set replace_row_frame ex(1) by (fastforce simp: flags_grow_def)
    next
      case False
      then have "w2 = ?w1" using w2 out(1) by auto
      then show ?thesis using False ex by (auto simp: flags_grow_def flagged_def)
    qed
    then show "flags_grow w w2" "ov \<Longrightarrow> flagged w2 (v_experiment v)"
      "reservations w2 = reservations ?w1" "budgets w2 = budgets ?w1" by auto
  qed
  have sums: "sum_over f (set_reservation ?v w) = sum_over f w - f v + f ?v" for f
    using d v by (intro sum_over_set_reservation_old) simp_all
  have closed: "\<not> is_open ?v" by (simp add: is_open_def)
  have "ledger_ok_for (flagged w2) ?w1"
  proof (rule ledger_ok_for_write)
    show "ledger_ok_for (flagged w) w" using ok by (simp add: ledger_ok_def)
    show "find_budget w (v_experiment ?v) = Some b" using b by simp
    show "b_experiment ?b = v_experiment ?v" using find_budget_in [OF b] by (simp add: discharge_def)
    show "reservation_ok ?v" using vok by (simp add: reservation_ok_def)
    show "v_experiment v0 = v_experiment ?v" if "find_reservation w (v_id ?v) = Some v0" for v0
      using v that by simp
    show "books_balance (set_reservation ?v w) ?b"
      using bok(1) find_budget_in [OF b] sums op closed
      by (simp add: books_balance_def held_def settled_cost_def discharge_def)
    show "within_envelope ?b" if "\<not> flagged w2 (v_experiment ?v)"
      using flags(2) that out(1)
      by (auto simp: is_overrun_def within_envelope_def discharge_def split: option.splits)
    show "b_active_workers ?b \<le> b_max_concurrency ?b"
      using bok(2) vok by (simp add: discharge_def reservation_ok_def)
    show "flagged w i \<Longrightarrow> flagged w2 i" for i using flags(1) by (simp add: flags_grow_def)
  qed
  moreover have "reservations w' = reservations w2" "budgets w' = budgets w2" "flagged w' = flagged w2"
    using out(3) by auto
  ultimately show "ledger_ok w'"
    unfolding ledger_ok_def using tabs by (auto elim!: ledger_ok_for_mono)
  show "ov = is_overrun b v actual actual_tokens" by (rule out(1))
  have "find_reservation w' (v_id v) = find_reservation ?w1 (v_id v)"
    using out(3) tabs by (auto simp: find_reservation_def)
  then show "find_reservation w' (v_id v) = Some v'" using out(2) by simp
  show "v_actual v' = Some actual" "v_tokens_actual v' = Some actual_tokens"
    "v_state v' = ''settled''" "v_id v' = v_id v"
    using out(2) by simp_all
qed

lemma mark_uncertain_keeps_books:
  assumes ok: "ledger_ok w" and v: "find_reservation w (v_id v) = Some v" and op: "is_open v"
  shows "ledger_ok (set_reservation (v\<lparr>v_state := ''uncertain''\<rparr>) w)"
proof -
  let ?v = "v\<lparr>v_state := ''uncertain''\<rparr>"
  have "reservation_ok v" "find_budget w (v_experiment v) \<noteq> None"
      and d: "distinct (map v_id (reservations w))" "distinct (map b_experiment (budgets w))"
    using ok find_reservation_in [OF v] by (auto simp: ledger_ok_def ledger_ok_for_def)
  then obtain b where b: "find_budget w (v_experiment v) = Some b" by auto
  have vok: "reservation_ok ?v"
    using \<open>reservation_ok v\<close> by (simp add: reservation_ok_def)
  have bok: "books_balance w b" "b_active_workers b \<le> b_max_concurrency b"
      "\<not> flagged w (b_experiment b) \<Longrightarrow> within_envelope b"
    using ok find_budget_in [OF b] by (auto simp: ledger_ok_def ledger_ok_for_def)
  have sums: "sum_over f (set_reservation ?v w) = sum_over f w - f v + f ?v" for f
    using d v by (intro sum_over_set_reservation_old) simp_all
  have same: "set_budget b w = w"
  proof -
    have "map (\<lambda>x. if b_experiment x = b_experiment b then b else x) bs = bs"
      if "distinct (map b_experiment bs)" "b \<in> set bs" for bs
      using that by (intro map_idI) (auto simp: distinct_map inj_on_def)
    moreover have "b_experiment b \<in> b_experiment ` set (budgets w)"
      using find_budget_in [OF b] by blast
    ultimately show ?thesis
      using d(2) find_budget_in [OF b] by (simp add: set_budget_def put_row_def)
  qed
  have still: "is_open ?v" by (simp add: is_open_def)
  have "ledger_ok_for (flagged w) (set_reservation ?v (set_budget b w))"
  proof (rule ledger_ok_for_write)
    show "ledger_ok_for (flagged w) w" using ok by (simp add: ledger_ok_def)
    show "books_balance (set_reservation ?v w) b"
      using bok(1) sums op still
      by (simp add: books_balance_def held_def settled_cost_def)
  qed (use b vok bok find_budget_in [OF b] v in auto)
  then show ?thesis by (simp add: same ledger_ok_def)
qed

lemma settle_keeps_books:
  assumes ok: "ledger_ok w"
    and run: "settle_action i actual actual_tokens uncertain actor op w = Inr (result, w')"
    and "uncertain \<or> actual \<noteq> None"
  shows "ledger_ok w'"
proof -
  from run obtain v where v: "find_reservation w i = Some v"
    by (auto simp: settle_action_def split: option.splits)
  have vi: "find_reservation w (v_id v) = Some v" using v find_reservation_in [OF v] by simp
  obtain exper b ov v' w1 where ex: "get_row w Experiment (JStr (v_experiment v)) actor = Inr exper"
      and b: "need_budget w (v_experiment v) = Inr b"
      and ch: "settle_change v exper b actual actual_tokens uncertain actor op w = Inr (ov, v', w1)"
      and w': "\<exists>pl. w' = emit actor op ''resources.settled'' (v_experiment v') pl False w1"
    using run v unfolding settle_action_def Let_def
    by (simp add: bindE_Inr_iff if_Inl_Inr_iff) fastforce
  have fb: "find_budget w (v_experiment v) = Some b"
    using b by (auto simp: need_budget_def split: option.splits)
  have fe: "find_row w (v_experiment v) = Some exper" using ex by (simp add: get_row_Inr_iff)
  have vok: "reservation_ok v"
    using ok find_reservation_in [OF v] by (simp add: ledger_ok_def ledger_ok_for_def)
  have "ledger_ok w1"
  proof (cases "v_state v = ''settled''")
    case True
    then show ?thesis using ch ok by (auto simp: settle_change_def split: if_splits)
  next
    case False
    then have op: "is_open v" using vok by (auto simp: reservation_ok_def is_open_def)
    show ?thesis
    proof (cases uncertain)
      case True
      then show ?thesis using ch False mark_uncertain_keeps_books [OF ok vi op]
        by (auto simp: settle_change_def Let_def)
    next
      case False
      then have "settle_first v exper b (the actual) actual_tokens actor op w = Inr (ov, v', w1)"
        using ch \<open>v_state v \<noteq> ''settled''\<close> by (simp add: settle_change_def)
      then show ?thesis
        using settle_first_keeps_books(1) [OF ok vi op fb] find_row_id [OF fe] fe by simp
    qed
  qed
  then show ?thesis using w' by (auto intro: ledger_ok_frame simp: flags_grow_def)
qed

lemma insert_row_keeps_books:
  "insert_row w k actor data rid = Inr (record, w') \<Longrightarrow> ledger_ok w \<Longrightarrow> ledger_ok w'"
  by (erule ledger_ok_frame) (auto dest: insert_row_frame insert_row_flags)

lemma emit_keeps_books [simp]: "ledger_ok (emit a op kd ag pl d w) = ledger_ok w"
proof
  show "ledger_ok (emit a op kd ag pl d w)" if "ledger_ok w"
    using that by (rule ledger_ok_frame) (simp_all add: flags_grow_def)
  show "ledger_ok w" if "ledger_ok (emit a op kd ag pl d w)"
    using that by (rule ledger_ok_frame) (simp_all add: flags_grow_def)
qed

text \<open>The bounds a constructed \<open>ResourceEnvelope\<close> satisfies (\<open>domain.py\<close>).\<close>

definition envelope_valid :: "dict \<Rightarrow> bool" where
  "envelope_valid limits \<longleftrightarrow>
     (case dget limits ''max_concurrency'' of JInt n \<Rightarrow> 1 \<le> n \<and> n \<le> 1000000 | _ \<Rightarrow> False) \<and>
     (case dget limits ''max_runtime_seconds'' of JInt n \<Rightarrow> 1 \<le> n \<and> n \<le> 31536000
      | _ \<Rightarrow> False) \<and>
     (case dget limits ''max_tokens'' of JInt n \<Rightarrow> 1 \<le> n | JNull \<Rightarrow> True | _ \<Rightarrow> False)"

lemma add_budget_keeps_books:
  assumes ok: "ledger_ok w" and valid: "envelope_valid limits" and "0 \<le> max_cost"
    and run: "add_budget (new_budget i max_cost limits) w = Inr w'"
  shows "ledger_ok w'"
proof -
  let ?b = "new_budget i max_cost limits"
  have none: "find_budget w i = None" and w': "w' = set_budget ?b w"
    using run by (auto simp: add_budget_def new_budget_def split: if_splits)
  have d: "distinct (map v_id (reservations w))" "distinct (map b_experiment (budgets w))"
    and v: "\<forall>v \<in> set (reservations w). reservation_ok v \<and> find_budget w (v_experiment v) \<noteq> None"
    and b: "\<forall>b \<in> set (budgets w). books_balance w b \<and>
        (\<not> flagged w (b_experiment b) \<longrightarrow> within_envelope b) \<and>
        b_active_workers b \<le> b_max_concurrency b"
    using ok by (simp_all add: ledger_ok_def ledger_ok_for_def)
  have zero: "sum_over (\<lambda>v. if v_experiment v = i \<and> Q v then f v else 0) w = 0" for Q f
  proof -
    have "\<forall>v \<in> set (reservations w). v_experiment v \<noteq> i" using v none by auto
    then have "map (\<lambda>v. if v_experiment v = i \<and> Q v then f v else 0) (reservations w) =
        map (\<lambda>v. 0) (reservations w)" by (intro map_cong) auto
    then show ?thesis by (simp only: sum_over_def sum_list_0)
  qed
  have "books_balance w ?b"
    by (simp add: books_balance_def held_def settled_cost_def zero new_budget_def)
  moreover have "within_envelope ?b" "b_active_workers ?b \<le> b_max_concurrency ?b"
    using assms(3) valid
    by (auto simp: within_envelope_def new_budget_def envelope_valid_def as_int_def split: json.splits)
  ultimately show ?thesis
    using d v b unfolding ledger_ok_def w'
    by (auto simp: ledger_ok_for_def in_budgets_set distinct_set_budget)
qed

lemma create_experiment_keeps_books:
  assumes "ledger_ok w" and "envelope_valid (as_dict (dget data ''budget''))"
    and run: "create_experiment_action data cost actor op w = Inr (result, w')"
  shows "ledger_ok w'"
proof -
  from run obtain w1 u w2 d where ins: "insert_row w Experiment actor d None = Inr (result, w1)"
      and u: "units_of cost = Inr u"
      and b: "add_budget (new_budget (inserted_id w None) u (as_dict (dget data ''budget''))) w1 = Inr w2"
      and w': "w' = emit actor op ''experiment.created'' (inserted_id w None) [] False w2"
    unfolding create_experiment_action_def by (auto simp: bindE_Inr_iff if_Inl_Inr_iff)
  have "ledger_ok w1" using ins assms(1) by (rule insert_row_keeps_books)
  then have "ledger_ok w2" using assms(2) units_of_nonneg [OF u] b by (rule add_budget_keeps_books)
  then show ?thesis using w' by simp
qed

lemma transition_keeps_books:
  assumes "ledger_ok w" and run: "transition_action i act rv al st actor op w = Inr (result, w')"
  shows "ledger_ok w'"
proof (rule transition_action_InrD [OF run])
  fix row w1
  let ?vals = "(''status'', JStr st) #
    (if act = ''start'' then [(''started_at'', JTime (now w))] else [])"
  assume "get_row w Experiment (JStr i) actor = Inr row"
    and rep: "replace_row w row ?vals (Some rv) = Inr (result, w1)"
    and w': "w' = emit actor op (''experiment.'' @ st) i
       [(''revision'', dget result ''revision''), (''actor_id'', JStr (pr_id actor))] True w1"
  then have "find_row w (r_id row) = Some row" by (auto dest: get_row_InrD)
  then have "flagged w1 = flagged w" by (rule replace_row_flags [OF rep]) auto
  then have "ledger_ok w1"
    using assms(1) replace_row_frame [OF rep] by (auto intro: ledger_ok_frame simp: flags_grow_def)
  then show ?thesis using w' by simp
qed

lemma create_keeps_books:
  "create_campaign_action data actor op w = Inr (r, w') \<Longrightarrow> ledger_ok w \<Longrightarrow> ledger_ok w'"
  "create_problem_action data actor op w = Inr (r, w') \<Longrightarrow> ledger_ok w \<Longrightarrow> ledger_ok w'"
  by (auto simp: create_campaign_action_def create_problem_action_def bindE_Inr_iff if_Inl_Inr_iff
      dest: insert_row_keeps_books)

lemma review_keeps_books:
  assumes run: "review_problem_action i decision rationale actor op w = Inr (r, w')" and "ledger_ok w"
  shows "ledger_ok w'"
proof -
  from run obtain problem d w1 rep w2 where p: "get_row w Problem (JStr i) actor = Inr problem"
      and ins: "insert_row w Review actor d None = Inr (r, w1)"
      and rep: "replace_row w1 problem
        [(''semantic_review'', JStr decision), (''review_id'', dget r ''id'')] None = Inr (rep, w2)"
      and w': "w' = emit actor op ''problem.reviewed'' i
       [(''review_id'', dget r ''id''), (''decision'', JStr decision)] False w2"
    unfolding review_problem_action_def by (auto simp: bindE_Inr_iff)
  have "ledger_ok w1" using ins assms(2) by (rule insert_row_keeps_books)
  have fp: "find_row w (r_id problem) = Some problem" using p by (auto dest: get_row_InrD)
  then have "r_id problem \<noteq> inserted_id w None" using insert_row_found(2) [OF ins] by auto
  then have "find_row w1 (r_id problem) = Some problem"
    using insert_row_found(4) [OF ins] fp by simp
  then have "flagged w2 = flagged w1" by (rule replace_row_flags [OF rep]) auto
  then have "ledger_ok w2"
    using \<open>ledger_ok w1\<close> replace_row_frame [OF rep] by (auto intro: ledger_ok_frame simp: flags_grow_def)
  then show ?thesis using w' by simp
qed

section \<open>The machine\<close>

datatype service_command =
    CreateCampaign dict
  | CreateProblem dict
  | ReviewProblem string string string
  | CreateExperiment dict decimal
  | TransitionExperiment string string int
  | ReserveResources string decimal int int "(string \<times> string \<times> int) option"
  | SettleResources string "decimal option" bool int

fun perform :: "service_command \<Rightarrow> principal \<Rightarrow> string \<Rightarrow> world \<Rightarrow> herr + (dict \<times> world)" where
  "perform (CreateCampaign data) actor key w = create_campaign data actor key w"
| "perform (CreateProblem data) actor key w = create_problem data actor key w"
| "perform (ReviewProblem i d r) actor key w = review_problem i d r actor key w"
| "perform (CreateExperiment data cost) actor key w =
     (if envelope_valid (as_dict (dget data ''budget''))
      then create_experiment data cost actor key w
      else Inl (ValueError ''ResourceEnvelope''))"
| "perform (TransitionExperiment i act rv) actor key w = transition_experiment i act rv actor key w"
| "perform (ReserveResources i cost workers tokens binding) actor key w =
     reserve_resources i cost workers tokens binding actor key w"
| "perform (SettleResources i cost uncertain tokens) actor key w =
     settle_resources i cost uncertain tokens actor key w"

text \<open>One step: a command of an actor under a key, at a time of the clock.\<close>

definition service_step ::
  "service_command \<times> principal \<times> string \<times> int \<Rightarrow> world \<Rightarrow> herr + world" where
  "service_step c w =
     (let (cmd, actor, key, t) = c
      in bindE (perform cmd actor key (w\<lparr>now := t\<rparr>)) (\<lambda>(_, w'). Inr w'))"

lemma budget_drop_null [simp]:
  "k \<noteq> ''budget'' \<Longrightarrow> dget (drop_null k d) ''budget'' = dget d ''budget''"
  by (simp add: drop_null_def dget_def delete_conv')

lemma execute_keeps_books:
  assumes "execute elapsed actor key operation inputs act w = Inr (r, w')" and "ledger_ok w"
    and "\<And>op w1 res w2. ledger_ok w1 \<Longrightarrow> act op w1 = Inr (res, w2) \<Longrightarrow> ledger_ok w2"
  shows "ledger_ok w'"
  using assms(1,2)
proof (rule execute_preserves)
  show "ledger_ok b" if "same_tables a b" "ledger_ok a" for a b using that by (rule ledger_ok_same)
  show "ledger_ok w2" if "ledger_ok w1" "act op w1 = Inr (res, w2)" for op w1 res w2
    using that by (rule assms(3))
qed

lemma perform_keeps_books:
  assumes "perform cmd actor key w = Inr (r, w')" and "ledger_ok w"
  shows "ledger_ok w'"
proof (cases cmd)
  case (CreateCampaign data)
  with assms obtain "execute 0 actor key ''campaign.create'' (JObj data)
      (create_campaign_action data actor) w = Inr (r, w')"
    by (auto simp: create_campaign_def bindE_Inr_iff)
  then show ?thesis using assms(2)
    by (rule execute_keeps_books) (auto intro: create_keeps_books)
next
  case (CreateProblem data)
  with assms obtain "execute 0 actor key ''problem.create'' (JObj data)
      (create_problem_action data actor) w = Inr (r, w')"
    by (auto simp: create_problem_def bindE_Inr_iff)
  then show ?thesis using assms(2)
    by (rule execute_keeps_books) (auto intro: create_keeps_books)
next
  case (ReviewProblem i d t)
  with assms obtain inp where "execute 0 actor key ''problem.review'' inp
      (review_problem_action i d t actor) w = Inr (r, w')"
    by (auto simp: review_problem_def bindE_Inr_iff split: if_splits)
  then show ?thesis using assms(2)
    by (rule execute_keeps_books) (auto intro: review_keeps_books)
next
  case (CreateExperiment data cost)
  let ?data = "drop_null ''context_budget'' (drop_null ''society'' data)"
  from CreateExperiment assms have env: "envelope_valid (as_dict (dget ?data ''budget''))"
    and "execute 0 actor key ''experiment.create'' (JObj ?data)
      (create_experiment_action ?data cost actor) w = Inr (r, w')"
    by (auto simp: create_experiment_def bindE_Inr_iff Let_def split: if_splits)
  from this(2) assms(2) show ?thesis
    by (rule execute_keeps_books) (rule create_experiment_keeps_books [OF _ env])
next
  case (TransitionExperiment i act rv)
  with assms obtain inp al st where "execute 0 actor key ''experiment.transition'' inp
      (transition_action i act rv al st actor) w = Inr (r, w')"
    by (auto simp: transition_experiment_def bindE_Inr_iff split: option.splits)
  then show ?thesis using assms(2)
    by (rule execute_keeps_books) (auto intro: transition_keeps_books)
next
  case (ReserveResources i cost workers tokens binding)
  with assms obtain inp amount where a: "0 \<le> amount" "0 \<le> workers" "0 \<le> tokens"
      and ex: "execute 0 actor key ''resources.reserve'' inp
      (reserve_action i amount workers tokens binding actor) w = Inr (r, w')"
    by (auto simp: reserve_resources_def bindE_Inr_iff nonnegative_counts_def
        dest: units_of_nonneg split: if_splits)
  from ex assms(2) show ?thesis
    by (rule execute_keeps_books) (use a in \<open>auto intro: reserve_keeps_books\<close>)
next
  case (SettleResources i cost uncertain tokens)
  with assms obtain inp actual where a: "uncertain \<or> actual \<noteq> None"
      and ex: "execute 0 actor key ''resources.settle'' inp
      (settle_action i actual tokens uncertain actor) w = Inr (r, w')"
    by (auto simp: settle_resources_def bindE_Inr_iff split: if_splits option.splits)
  from ex assms(2) show ?thesis
    by (rule execute_keeps_books) (use a in \<open>auto intro: settle_keeps_books\<close>)
qed

interpretation service_books: guarded_machine service_step ledger_ok
proof unfold_locales
  fix s c t
  assume "ledger_ok s" and "service_step c s = Inr t"
  moreover have "ledger_ok (s\<lparr>now := x\<rparr>)" for x
    using \<open>ledger_ok s\<close> by (rule ledger_ok_frame) (simp_all add: flags_grow_def flagged_def find_row_def)
  ultimately show "ledger_ok t"
    by (auto simp: service_step_def bindE_Inr_iff split_def intro: perform_keeps_books)
qed

section \<open>Settling twice\<close>

lemma get_row_controller:
  assumes "pr_role actor \<noteq> Agent" and "k \<noteq> DiscussionWithdrawal"
  shows "get_row w k (JStr i) actor =
    (case find_row w i of None \<Rightarrow> Inl (fail ''NOT_FOUND'' 404)
     | Some r \<Rightarrow> if r_project r = pr_project actor \<and> r_kind r = k then Inr r
               else Inl (fail ''NOT_FOUND'' 404))"
proof -
  have "in_scope w actor r" if "r_kind r = k" for r
    using assms that by (simp add: in_scope_def scope_body_def)
  then show ?thesis by (auto simp: get_row_def split: option.splits)
qed

lemma settle_first_rows:
  assumes "settle_first v exper b actual t actor op w = Inr (ov, v', w')"
    and "find_row w (r_id exper) = Some exper"
  shows "\<exists>e. find_row w' (r_id exper) = Some e \<and> r_project e = r_project exper \<and> r_kind e = r_kind exper"
    and "find_budget w' (b_experiment b) = Some (discharge v actual t b)"
    and "ov \<Longrightarrow> flagged w' (r_id exper)"
proof -
  let ?w1 = "set_reservation (v\<lparr>v_tokens_actual := Some t, v_actual := Some actual,
                 v_state := ''settled''\<rparr>) (set_budget (discharge v actual t b) w)"
  obtain w2 where w2: "(if is_overrun b v actual t \<and>
        \<not> truthy (field exper ''budget_reconciliation_required'')
      then bindE (replace_row ?w1 exper [(''budget_reconciliation_required'', JBool True)]
                       (Some (r_rev exper))) (\<lambda>(_, w2). Inr w2)
      else Inr ?w1) = Inr w2"
      and out: "ov = is_overrun b v actual t"
        "w' = w2 \<or> (\<exists>pl. w' = emit actor op ''resources.overrun'' (v_experiment v) pl False w2)"
    using assms(1) unfolding settle_first_def Let_def bindE_Inr_iff by (auto split: if_splits)
  have "(\<exists>e. find_row w2 (r_id exper) = Some e \<and> r_project e = r_project exper \<and>
        r_kind e = r_kind exper) \<and> find_budget w2 (b_experiment b) = Some (discharge v actual t b) \<and>
      (ov \<longrightarrow> flagged w2 (r_id exper))"
  proof (cases "ov \<and> \<not> truthy (field exper ''budget_reconciliation_required'')")
    case True
    then obtain rc where rep: "replace_row ?w1 exper
        [(''budget_reconciliation_required'', JBool True)] (Some (r_rev exper)) = Inr (rc, w2)"
      using w2 out(1) by (auto simp: bindE_Inr_iff)
    have "find_budget w2 (b_experiment b) = find_budget ?w1 (b_experiment b)"
      using replace_row_frame(4) [OF rep] by (simp add: find_budget_def)
    then show ?thesis
      using replace_row_found(1) [OF rep] replace_row_flags_set [OF rep] assms(2)
      by (auto simp: discharge_def)
  next
    case False
    then have "w2 = ?w1" using w2 out(1) by auto
    then show ?thesis using False assms(2) by (auto simp: flagged_def discharge_def)
  qed
  then show "\<exists>e. find_row w' (r_id exper) = Some e \<and> r_project e = r_project exper \<and> r_kind e = r_kind exper"
    "find_budget w' (b_experiment b) = Some (discharge v actual t b)" "ov \<Longrightarrow> flagged w' (r_id exper)"
    using out(2) by auto
qed

text \<open>The parts of an accepted first settlement.\<close>

lemma settle_action_firstE:
  assumes run: "settle_action i (Some a) t False actor op w = Inr (result, w')"
    and v: "find_reservation w i = Some v" "v_state v \<noteq> ''settled''"
  obtains exper b ov v' w1 where
    "get_row w Experiment (JStr (v_experiment v)) actor = Inr exper"
    and "find_budget w (v_experiment v) = Some b"
    and "settle_first v exper b a t actor op w = Inr (ov, v', w1)"
    and "\<exists>pl. w' = emit actor op ''resources.settled'' (v_experiment v') pl False w1"
    and "find_row w (v_experiment v) = Some exper" and "r_id exper = v_experiment v"
proof -
  obtain exper b ov v' w1 where ex: "get_row w Experiment (JStr (v_experiment v)) actor = Inr exper"
      and b: "need_budget w (v_experiment v) = Inr b"
      and ch: "settle_change v exper b (Some a) t False actor op w = Inr (ov, v', w1)"
      and w': "\<exists>pl. w' = emit actor op ''resources.settled'' (v_experiment v') pl False w1"
    using run v(1) unfolding settle_action_def Let_def
    by (simp add: bindE_Inr_iff if_Inl_Inr_iff) fastforce
  have b': "find_budget w (v_experiment v) = Some b"
    using b by (auto simp: need_budget_def split: option.splits)
  have ch': "settle_first v exper b a t actor op w = Inr (ov, v', w1)"
    using ch v(2) by (simp add: settle_change_def)
  have f: "find_row w (v_experiment v) = Some exper" using ex by (simp add: get_row_Inr_iff)
  show ?thesis by (rule that [OF ex b' ch' w' f find_row_id [OF f]])
qed

section \<open>Properties\<close>

text \<open>C1. The books always balance: whatever commands follow, in whatever order and by whatever
  actors, from a world whose ledger is sound (one with no budgets is), every budget's reserved cost,
  tokens and workers are what the experiment's open reservations hold, its spent cost and tokens are
  what the settled ones cost, no more workers run than the envelope allows, and unless the experiment
  is flagged for reconciliation spent plus reserved stays within the cost and token envelope.\<close>

theorem books_always_balance:
  assumes "ledger_ok w" and "find_budget (run service_step cs w) i = Some b"
  shows "b_reserved b = held v_reserved i (run service_step cs w) \<and>
    b_tokens_reserved b = held v_tokens_reserved i (run service_step cs w) \<and>
    b_active_workers b = held v_workers i (run service_step cs w) \<and>
    b_spent b = settled_cost v_actual i (run service_step cs w) \<and>
    b_tokens_spent b = settled_cost v_tokens_actual i (run service_step cs w) \<and>
    b_active_workers b \<le> b_max_concurrency b \<and>
    (\<not> flagged (run service_step cs w) i \<longrightarrow> within_envelope b)"
proof -
  have "ledger_ok (run service_step cs w)" using assms(1) by (rule service_books.run_inv)
  then show ?thesis
    using find_budget_in [OF assms(2)]
    by (auto simp: ledger_ok_def ledger_ok_for_def books_balance_def)
qed

text \<open>The sample project's ledger is sound, and a run of four commands on it.\<close>

lemma sample_ledger_ok: "ledger_ok sample"
proof -
  have "flagged sample ''e'' = False" by code_simp
  moreover have "books_balance sample (hd (budgets sample))" "within_envelope (hd (budgets sample))"
    "reservation_ok (hd (reservations sample))" "find_budget sample ''e'' = Some (hd (budgets sample))"
    by code_simp+
  ultimately show ?thesis
    by (simp add: ledger_ok_def ledger_ok_for_def sample_def)
qed

definition sample_commands :: "(service_command \<times> principal \<times> string \<times> int) list" where
  "sample_commands =
     [(ReserveResources ''e'' (Dec 2 0) 1 50 None, sample_operator, ''k1'', 11000000),
      (SettleResources ''s'' (Some (Dec 5 (- 1))) False 80, sample_operator, ''k2'', 12000000),
      (ReserveResources ''e'' (Dec 9 0) 1 0 None, sample_operator, ''k3'', 13000000),
      (TransitionExperiment ''e'' ''pause'' 1, sample_operator, ''k4'', 14000000)]"

definition sample_final :: budget_row where
  "sample_final =
     \<lparr>b_experiment = ''e'', b_max_cost = 5000000, b_reserved = 2000000, b_spent = 500000,
      b_active_workers = 1, b_max_concurrency = 4, b_max_tokens = Some 1000,
      b_tokens_reserved = 50, b_tokens_spent = 80\<rparr>"

theorem books_always_balance_witness:
  "find_budget (run service_step sample_commands sample) ''e'' = Some sample_final \<and>
   b_reserved sample_final = held v_reserved ''e'' (run service_step sample_commands sample) \<and>
   b_spent sample_final = settled_cost v_actual ''e'' (run service_step sample_commands sample)"
proof -
  have f: "find_budget (run service_step sample_commands sample) ''e'' = Some sample_final"
    by code_simp
  show ?thesis using books_always_balance [OF sample_ledger_ok f] f by blast
qed

text \<open>A reservation settles once: after a first settlement the reservation holds exactly those
  amounts, and settling it again gives the stored outcome and leaves both tables as they are when the
  amounts agree, and \<open>SETTLEMENT_CONFLICT\<close> when anything differs.\<close>

theorem settlement_is_final:
  assumes "ledger_ok w" and "pr_role actor \<noteq> Agent"
    and "find_reservation w i = Some v" and "v_state v \<noteq> ''settled''"
    and "settle_action i (Some a) t False actor op w = Inr (result, w')"
  shows "(\<exists>v'. find_reservation w' i = Some v' \<and> v_state v' = ''settled'' \<and>
      v_actual v' = Some a \<and> v_tokens_actual v' = Some t) \<and>
    (if actual = Some a \<and> t' = t \<and> \<not> uncertain
     then \<exists>result' w''. settle_action i actual t' uncertain actor op' w' = Inr (result', w'') \<and>
       budgets w'' = budgets w' \<and> reservations w'' = reservations w'
     else settle_action i actual t' uncertain actor op' w' = Inl (fail ''SETTLEMENT_CONFLICT'' 409))"
proof -
  have vi: "v_id v = i" using find_reservation_in [OF assms(3)] by simp
  have op: "is_open v"
    using assms(1,4) find_reservation_in [OF assms(3)]
    by (auto simp: ledger_ok_def ledger_ok_for_def reservation_ok_def is_open_def)
  obtain exper b ov v' w1 where ex: "get_row w Experiment (JStr (v_experiment v)) actor = Inr exper"
      and b: "find_budget w (v_experiment v) = Some b"
      and first: "settle_first v exper b a t actor op w = Inr (ov, v', w1)"
      and w': "\<exists>pl. w' = emit actor op ''resources.settled'' (v_experiment v') pl False w1"
      and fe: "find_row w (v_experiment v) = Some exper" "r_id exper = v_experiment v"
    by (rule settle_action_firstE [OF assms(5,3,4)])
  have vi': "find_reservation w (v_id v) = Some v" using assms(3) vi by simp
  note fin = settle_first_keeps_books [OF assms(1) vi' op b fe(2,1) first]
  have v'x: "v_experiment v' = v_experiment v"
    using first by (auto simp: settle_first_def Let_def bindE_Inr_iff)
  have fr: "find_reservation w' i = Some v'" using fin(3) w' vi by auto
  obtain e where e: "find_row w' (v_experiment v) = Some e" "r_project e = r_project exper"
      "r_kind e = r_kind exper"
    using settle_first_rows(1) [OF first] fe w' by auto
  have id: "r_id e = v_experiment v" using e(1) by (rule find_row_id)
  have "get_row w' Experiment (JStr (v_experiment v)) actor = Inr e"
    using e get_row_InrD(3,4) [OF ex] assms(2) by (simp add: get_row_controller)
  moreover have "find_budget w' (v_experiment v) = Some (discharge v a t b)"
    using settle_first_rows(2) [OF first] fe w' find_budget_in [OF b] by auto
  ultimately have "settle_action i actual t' uncertain actor op' w' =
      bindE (settle_change v' e (discharge v a t b) actual t' uncertain actor op' w')
        (\<lambda>(overrun, v', w1).
          let result =
                [(''id'', JStr (v_id v')), (''state'', JStr (v_state v')),
                 (''actual_cost_usd'',
                  case v_actual v' of None \<Rightarrow> JNull | Some a \<Rightarrow> JStr (money_string a)),
                 (''reconciliation_required'', JBool overrun),
                 (''code'', if overrun then JStr ''BUDGET_RECONCILIATION_REQUIRED'' else JNull)]
          in Inr (result, emit actor op' ''resources.settled'' (v_experiment v') result False w1))"
    using fr id by (simp add: settle_action_def need_budget_def v'x)
  then show ?thesis
    using fin(4,5,6) fr by (auto simp: settle_change_def Let_def)
qed

definition sample_reservation :: reservation_row where
  "sample_reservation =
     \<lparr>v_id = ''s'', v_experiment = ''e'', v_reserved = 1000000, v_workers = 1,
      v_state = ''active'', v_actual = None, v_tokens_reserved = 100, v_tokens_actual = None\<rparr>"

theorem settlement_is_final_witness:
  "\<exists>result w'. settle_action ''s'' (Some 700000) 60 False sample_operator ''op'' sample
      = Inr (result, w') \<and>
    settle_action ''s'' (Some 800000) 60 False sample_operator ''op'' w'
      = Inl (fail ''SETTLEMENT_CONFLICT'' 409)"
proof -
  have "\<not> isl (settle_action ''s'' (Some 700000) 60 False sample_operator ''op'' sample)"
    by code_simp
  then obtain r w' where run:
    "settle_action ''s'' (Some 700000) 60 False sample_operator ''op'' sample = Inr (r, w')"
    by (rule succeedsE)
  have "pr_role sample_operator \<noteq> Agent" "find_reservation sample ''s'' = Some sample_reservation"
    "v_state sample_reservation \<noteq> ''settled''" by code_simp+
  from settlement_is_final [OF sample_ledger_ok this run, of "Some 800000" 60 False "''op''"] run
  show ?thesis by auto
qed

text \<open>C39. An overrun stops the experiment: a settlement beyond what was reserved, or beyond the cost
  or token envelope, is recorded in full but flags the experiment, and in any later world where the
  flag stands nobody reserves anything for it.\<close>

theorem overrun_blocks_reservations:
  assumes "find_reservation w i = Some v" and "v_state v \<noteq> ''settled''"
    and "settle_action i (Some a) t False actor op w = Inr (result, w')"
    and "find_budget w (v_experiment v) = Some b" and "is_overrun b v a t"
  shows "flagged w' (v_experiment v) \<and>
    find_budget w' (v_experiment v) = Some (discharge v a t b) \<and>
    (\<forall>u. flagged u (v_experiment v) \<longrightarrow>
      (\<exists>e. reserve_action (v_experiment v) amount workers tokens binding actor' op' u = Inl e))"
proof -
  obtain exper b' ov v' w1 where b': "find_budget w (v_experiment v) = Some b'"
      and first: "settle_first v exper b' a t actor op w = Inr (ov, v', w1)"
      and w': "\<exists>pl. w' = emit actor op ''resources.settled'' (v_experiment v') pl False w1"
      and fe: "find_row w (v_experiment v) = Some exper" "r_id exper = v_experiment v"
    by (rule settle_action_firstE [OF assms(3,1,2)])
  have bb: "b' = b" using b' assms(4) by simp
  have "ov" using first assms(5) bb
    by (auto simp: settle_first_def Let_def bindE_Inr_iff split: if_splits)
  then have "flagged w' (v_experiment v)"
    using settle_first_rows(3) [OF first] fe w' by auto
  moreover have "find_budget w' (v_experiment v) = Some (discharge v a t b)"
    using settle_first_rows(2) [OF first] fe w' find_budget_in [OF assms(4)] bb by auto
  moreover have "\<exists>e. reserve_action (v_experiment v) amount workers tokens binding actor' op' u = Inl e"
    if "flagged u (v_experiment v)" for u
  proof -
    have "\<not> flagged u (v_experiment v)" if a: "active u (JStr (v_experiment v)) actor' = Inr row" for row
      using active_InrD(1,2) [OF a] by (simp add: flagged_def get_row_Inr_iff)
    then have "\<not> (\<exists>row. active u (JStr (v_experiment v)) actor' = Inr row)" using that by blast
    then obtain e where "active u (JStr (v_experiment v)) actor' = Inl e"
      by (metis sum.exhaust)
    then show ?thesis by (simp add: reserve_action_def)
  qed
  ultimately show ?thesis by blast
qed

theorem overrun_blocks_reservations_witness:
  "\<exists>result w'. settle_action ''s'' (Some 6000000) 60 False sample_operator ''op'' sample
      = Inr (result, w') \<and> flagged w' ''e'' \<and>
    (\<exists>e. reserve_action ''e'' 1 0 0 None sample_operator ''op'' w' = Inl e)"
proof -
  have "\<not> isl (settle_action ''s'' (Some 6000000) 60 False sample_operator ''op'' sample)"
    by code_simp
  then obtain r w' where run:
    "settle_action ''s'' (Some 6000000) 60 False sample_operator ''op'' sample = Inr (r, w')"
    by (rule succeedsE)
  have h: "find_reservation sample ''s'' = Some sample_reservation"
    "v_state sample_reservation \<noteq> ''settled''"
    "find_budget sample (v_experiment sample_reservation) = Some (hd (budgets sample))"
    "is_overrun (hd (budgets sample)) sample_reservation 6000000 60" by code_simp+
  have e: "v_experiment sample_reservation = ''e''" by code_simp
  from overrun_blocks_reservations [OF h(1,2) run h(3,4), unfolded e] run show ?thesis by blast
qed

end
