(* ===== verification/Governor.thy ===== *)
theory Governor
  imports Prelude Complex_Main
begin

text \<open>
  The token-rate governor (\<open>execution/admission.py\<close>): one priority token bucket per process. The
  clock is an argument of every operation and exact rationals stand for its floats. A waiter is
  \<open>Waiting\<close> until the pump grants it or its caller is cancelled; the pump returns the waiters it
  granted, and \<open>g_timer\<close> is the instant of the next pump it scheduled.
\<close>

section \<open>State\<close>

record waiter =
  q_key :: string
  q_tokens :: int
  q_priority :: int
  q_sequence :: nat
  q_enqueued :: rat
  q_done :: bool

record governor =
  g_limit :: int
  g_aging :: rat
  g_capacity :: rat
  g_level :: rat
  g_paused_until :: rat
  g_cut_rate :: rat
  g_cut_at :: "rat option"
  g_updated :: "rat option"
  g_waiters :: "waiter list"
  g_sequence :: nat
  g_timer :: "rat option"

record admission =
  a_key :: string
  a_tokens :: int
  a_waited :: rat
  a_enqueued :: rat
  a_open :: bool

definition throttle_rate_factor :: rat where "throttle_rate_factor = 4 / 5"
definition cut_cooldown_seconds :: rat where "cut_cooldown_seconds = 30"
definition recovery_fraction :: rat where "recovery_fraction = 1 / 20"
definition recovery_seconds :: rat where "recovery_seconds = 10"
definition default_burst_seconds :: rat where "default_burst_seconds = 15"

definition new_governor :: "int \<Rightarrow> int option \<Rightarrow> rat \<Rightarrow> governor option" where
  "new_governor tokens_per_minute burst_tokens aging_seconds =
     (if tokens_per_minute < 1 \<or> (case burst_tokens of None \<Rightarrow> False | Some b \<Rightarrow> b < 1) \<or>
         aging_seconds \<le> 0
      then None
      else
        let capacity = (case burst_tokens of
              None \<Rightarrow> of_int tokens_per_minute * default_burst_seconds / 60
            | Some b \<Rightarrow> of_int b)
        in Some \<lparr>g_limit = tokens_per_minute, g_aging = aging_seconds, g_capacity = capacity,
                 g_level = capacity, g_paused_until = 0, g_cut_rate = of_int tokens_per_minute,
                 g_cut_at = None, g_updated = None, g_waiters = [], g_sequence = 0,
                 g_timer = None\<rparr>)"

section \<open>Rate and refill\<close>

definition rate_at :: "rat \<Rightarrow> governor \<Rightarrow> rat" where
  "rate_at t g =
     (case g_cut_at g of
        None \<Rightarrow> of_int (g_limit g)
      | Some ct \<Rightarrow>
          let recovered = recovery_fraction * of_int (g_limit g) * max 0 (t - ct) / recovery_seconds
          in min (of_int (g_limit g)) (g_cut_rate g + recovered))"

definition refill :: "rat \<Rightarrow> governor \<Rightarrow> governor" where
  "refill t g =
     (let level =
        (case g_updated g of
           None \<Rightarrow> g_level g
         | Some u \<Rightarrow>
             let start = max u (g_paused_until g)
             in if t > start
                then min (g_capacity g) (g_level g + (t - start) * rate_at t g / 60)
                else g_level g)
      in g\<lparr>g_level := level, g_updated := Some t\<rparr>)"

section \<open>The pump\<close>

text \<open>The order of the queue: the class, less one for every \<open>aging_seconds\<close> waited, then arrival.\<close>

definition effective_class :: "rat \<Rightarrow> governor \<Rightarrow> waiter \<Rightarrow> int" where
  "effective_class t g q = q_priority q - \<lfloor>(t - q_enqueued q) / g_aging g\<rfloor>"

definition before :: "rat \<Rightarrow> governor \<Rightarrow> waiter \<Rightarrow> waiter \<Rightarrow> bool" where
  "before t g q r \<longleftrightarrow>
     effective_class t g q < effective_class t g r \<or>
     (effective_class t g q = effective_class t g r \<and> q_sequence q < q_sequence r)"

text \<open>\<open>min(waiters, key=...)\<close>: the first of the least.\<close>

fun least_waiter :: "rat \<Rightarrow> governor \<Rightarrow> waiter \<Rightarrow> waiter list \<Rightarrow> waiter" where
  "least_waiter t g q [] = q"
| "least_waiter t g q (r # rs) = least_waiter t g (if before t g r q then r else q) rs"

definition schedule :: "rat \<Rightarrow> rat \<Rightarrow> governor \<Rightarrow> governor" where
  "schedule t delay g = g\<lparr>g_timer := Some (t + max delay (1 / 1000))\<rparr>"

definition need_of :: "governor \<Rightarrow> waiter \<Rightarrow> rat" where
  "need_of g q = min (of_int (q_tokens q)) (g_capacity g)"

text \<open>The loop of \<open>_pump\<close>, with the granted waiters in order. Each round but the last takes one
  waiter out of the queue, so as many rounds as waiters are enough; \<open>pump\<close> gives it one more.\<close>

fun pump_loop :: "nat \<Rightarrow> rat \<Rightarrow> governor \<Rightarrow> waiter list \<times> governor" where
  "pump_loop 0 t g = ([], g)"
| "pump_loop (Suc n) t g =
     (case g_waiters g of
        [] \<Rightarrow> ([], g)
      | q # qs \<Rightarrow>
          if t < g_paused_until g then ([], schedule t (g_paused_until g - t) g)
          else
            let head = least_waiter t g q qs
            in if q_done head then pump_loop n t (g\<lparr>g_waiters := remove1 head (g_waiters g)\<rparr>)
               else if g_level g < need_of g head
               then ([], schedule t ((need_of g head - g_level g) * 60 / rate_at t g) g)
               else
                 let (granted, g') = pump_loop n t
                       (g\<lparr>g_waiters := remove1 head (g_waiters g),
                          g_level := g_level g - of_int (q_tokens head)\<rparr>)
                 in (head # granted, g'))"

definition pump :: "rat \<Rightarrow> governor \<Rightarrow> waiter list \<times> governor" where
  "pump t g =
     (let g' = refill t (g\<lparr>g_timer := None\<rparr>)
      in pump_loop (Suc (length (g_waiters g'))) t g')"

section \<open>Operations\<close>

definition credit :: "rat \<Rightarrow> rat \<Rightarrow> governor \<Rightarrow> waiter list \<times> governor" where
  "credit t tokens g =
     (let g' = refill t g
      in pump t (g'\<lparr>g_level := min (g_capacity g') (g_level g' + tokens)\<rparr>))"

text \<open>The first half of \<open>admit\<close>: the waiter queues and the pump runs. \<open>None\<close> is the \<open>ValueError\<close>.\<close>

definition admit ::
  "rat \<Rightarrow> string \<Rightarrow> int \<Rightarrow> int \<Rightarrow> rat option \<Rightarrow> governor \<Rightarrow> (waiter \<times> waiter list \<times> governor) option"
where
  "admit t key tokens priority enqueued g =
     (if tokens < 0 then None
      else
        let q = \<lparr>q_key = key, q_tokens = tokens, q_priority = priority,
                 q_sequence = g_sequence g,
                 q_enqueued = (case enqueued of None \<Rightarrow> t | Some e \<Rightarrow> e), q_done = False\<rparr>
        in Some (q, pump t (g\<lparr>g_waiters := g_waiters g @ [q], g_sequence := Suc (g_sequence g)\<rparr>)))"

text \<open>The second half: a granted waiter's admission, and its caller's cancellation, before or just as
  it is granted.\<close>

definition admitted :: "rat \<Rightarrow> waiter \<Rightarrow> admission" where
  "admitted t q =
     \<lparr>a_key = q_key q, a_tokens = q_tokens q, a_waited = t - q_enqueued q,
      a_enqueued = q_enqueued q, a_open = True\<rparr>"

definition cancel_admit :: "rat \<Rightarrow> waiter \<Rightarrow> bool \<Rightarrow> governor \<Rightarrow> waiter list \<times> governor" where
  "cancel_admit t q granted g =
     (if q \<in> set (g_waiters g) then pump t (g\<lparr>g_waiters := remove1 q (g_waiters g)\<rparr>)
      else if granted then credit t (of_int (q_tokens q)) g
      else ([], g))"

text \<open>The caller's task is cancelled while it waits: its future is done at once, its own cleanup
  (\<open>cancel_admit\<close>) runs later, and a pump in between drops it from the queue.\<close>

definition cancel_future :: "waiter \<Rightarrow> governor \<Rightarrow> governor" where
  "cancel_future q g =
     g\<lparr>g_waiters := map (\<lambda>r. if r = q then r\<lparr>q_done := True\<rparr> else r) (g_waiters g)\<rparr>"

definition settle_admission ::
  "rat \<Rightarrow> admission \<Rightarrow> int \<Rightarrow> governor \<Rightarrow> admission \<times> waiter list \<times> governor" where
  "settle_admission t a actual_tokens g =
     (if a_open a
      then (a\<lparr>a_open := False\<rparr>, credit t (of_int (a_tokens a - max 0 actual_tokens)) g)
      else (a, [], g))"

definition release_admission ::
  "rat \<Rightarrow> admission \<Rightarrow> governor \<Rightarrow> admission \<times> waiter list \<times> governor" where
  "release_admission t a g =
     (if a_open a then (a\<lparr>a_open := False\<rparr>, credit t (of_int (a_tokens a)) g)
      else (a, [], g))"

definition throttled :: "rat \<Rightarrow> rat \<Rightarrow> governor \<Rightarrow> waiter list \<times> governor" where
  "throttled t wait_seconds g =
     (let g1 = refill t g;
          cuts = t \<ge> g_paused_until g1 \<and>
            (case g_cut_at g1 of None \<Rightarrow> True | Some c \<Rightarrow> t - c \<ge> cut_cooldown_seconds);
          g2 = (if cuts
                then g1\<lparr>g_cut_rate := max 1 (rate_at t g1 * throttle_rate_factor),
                        g_cut_at := Some t\<rparr>
                else g1)
      in pump t (g2\<lparr>g_level := min (g_level g2) 0,
                    g_paused_until := max (g_paused_until g2) (t + max 0 wait_seconds)\<rparr>))"

text \<open>\<open>round(x)\<close>, to the even neighbour of a half, and \<open>int(x)\<close>.\<close>

definition round_even :: "rat \<Rightarrow> int" where
  "round_even x =
     (let f = \<lfloor>x\<rfloor>; d = x - of_int f
      in if d < 1 / 2 then f else if 1 / 2 < d then f + 1 else if even f then f else f + 1)"

definition whole :: "rat \<Rightarrow> int" where
  "whole x = (if 0 \<le> x then \<lfloor>x\<rfloor> else \<lceil>x\<rceil>)"

record governor_view =
  view_limit :: int
  view_rate :: int
  view_level :: int
  view_waiting :: nat
  view_paused :: rat

definition snapshot :: "rat \<Rightarrow> governor \<Rightarrow> governor_view \<times> governor" where
  "snapshot t g =
     (let g' = refill t g
      in (\<lparr>view_limit = g_limit g', view_rate = round_even (rate_at t g'),
           view_level = whole (g_level g'), view_waiting = length (g_waiters g'),
           view_paused = of_int (round_even (1000 * max 0 (g_paused_until g' - t))) / 1000\<rparr>, g'))"

section \<open>The events of a run\<close>

datatype gov_event =
    Admit string int int "rat option"
  | Future_Cancelled waiter
  | Cancelled waiter bool
  | Settle admission int
  | Release admission
  | Throttled rat
  | TimerFired
  | Snapshot

text \<open>What an event grants and leaves; a refused \<open>admit\<close> leaves the governor as it is.\<close>

fun gov_event_step :: "rat \<Rightarrow> gov_event \<Rightarrow> governor \<Rightarrow> waiter list \<times> governor" where
  "gov_event_step t (Admit key tokens priority enqueued) g =
     (case admit t key tokens priority enqueued g of None \<Rightarrow> ([], g) | Some (_, r) \<Rightarrow> r)"
| "gov_event_step t (Future_Cancelled q) g = ([], cancel_future q g)"
| "gov_event_step t (Cancelled q granted) g = cancel_admit t q granted g"
| "gov_event_step t (Settle a actual) g = snd (settle_admission t a actual g)"
| "gov_event_step t (Release a) g = snd (release_admission t a g)"
| "gov_event_step t (Throttled wait) g = throttled t wait g"
| "gov_event_step t TimerFired g = pump t g"
| "gov_event_step t Snapshot g = ([], snd (snapshot t g))"

section \<open>Invariant\<close>

definition gov_ok :: "governor \<Rightarrow> bool" where
  "gov_ok g \<longleftrightarrow>
     1 \<le> g_limit g \<and> 0 < g_aging g \<and> 0 < g_capacity g \<and> g_level g \<le> g_capacity g \<and>
     1 \<le> g_cut_rate g \<and> g_cut_rate g \<le> of_int (g_limit g) \<and>
     (\<forall>q \<in> set (g_waiters g). 0 \<le> q_tokens q \<and> q_sequence q < g_sequence g) \<and>
     distinct (map q_sequence (g_waiters g))"

lemma rate_bounds:
  assumes "gov_ok g"
  shows "1 \<le> rate_at t g" "rate_at t g \<le> of_int (g_limit g)"
proof -
  have l: "(1::rat) \<le> of_int (g_limit g)" "1 \<le> g_cut_rate g"
    using assms by (simp_all add: gov_ok_def)
  moreover have "0 \<le> recovery_fraction * of_int (g_limit g) * max 0 (t - c) / recovery_seconds" for c
    using l(1) by (simp add: recovery_fraction_def recovery_seconds_def)
  ultimately show "1 \<le> rate_at t g" "rate_at t g \<le> of_int (g_limit g)"
    by (auto simp: rate_at_def Let_def split: option.split intro: add_increasing2)
qed

lemma refill_fields [simp]:
  "g_limit (refill t g) = g_limit g" "g_aging (refill t g) = g_aging g"
  "g_capacity (refill t g) = g_capacity g" "g_paused_until (refill t g) = g_paused_until g"
  "g_cut_rate (refill t g) = g_cut_rate g" "g_cut_at (refill t g) = g_cut_at g"
  "g_waiters (refill t g) = g_waiters g" "g_sequence (refill t g) = g_sequence g"
  "g_updated (refill t g) = Some t" "g_timer (refill t g) = g_timer g"
  by (simp_all add: refill_def Let_def)

lemma refill_ok: "gov_ok g \<Longrightarrow> gov_ok (refill t g)"
  by (auto simp: gov_ok_def refill_def Let_def split: option.split)

lemma schedule_fields [simp]:
  "g_limit (schedule t d g) = g_limit g" "g_aging (schedule t d g) = g_aging g"
  "g_capacity (schedule t d g) = g_capacity g" "g_paused_until (schedule t d g) = g_paused_until g"
  "g_cut_rate (schedule t d g) = g_cut_rate g" "g_cut_at (schedule t d g) = g_cut_at g"
  "g_waiters (schedule t d g) = g_waiters g" "g_sequence (schedule t d g) = g_sequence g"
  "g_level (schedule t d g) = g_level g" "g_updated (schedule t d g) = g_updated g"
  by (simp_all add: schedule_def)

lemma schedule_ok: "gov_ok g \<Longrightarrow> gov_ok (schedule t d g)"
  by (simp add: gov_ok_def)

lemma least_waiter_in: "least_waiter t g q rs \<in> insert q (set rs)"
proof (induction rs arbitrary: q)
  case (Cons r rs)
  show ?case using Cons [of q] Cons [of r] by auto
qed simp

lemma distinct_remove1_map:
  "distinct (map f xs) \<Longrightarrow> distinct (map f (remove1 q xs))"
proof (induction xs)
  case (Cons x xs)
  moreover have "set (remove1 q xs) \<subseteq> set xs" by (rule set_remove1_subset)
  ultimately show ?case by auto
qed simp

lemma remove1_ok:
  assumes "gov_ok g" and "l \<le> g_level g"
  shows "gov_ok (g\<lparr>g_waiters := remove1 q (g_waiters g), g_level := l\<rparr>)"
    "gov_ok (g\<lparr>g_waiters := remove1 q (g_waiters g)\<rparr>)"
proof -
  have "set (remove1 q (g_waiters g)) \<subseteq> set (g_waiters g)" by (rule set_remove1_subset)
  then show "gov_ok (g\<lparr>g_waiters := remove1 q (g_waiters g), g_level := l\<rparr>)"
    "gov_ok (g\<lparr>g_waiters := remove1 q (g_waiters g)\<rparr>)"
    using assms distinct_remove1_map by (auto simp: gov_ok_def)
qed

text \<open>The order is total on waiters of different sequence numbers, and \<open>least_waiter\<close> is its least.\<close>

lemma before_trans: "before t g p q \<Longrightarrow> before t g q r \<Longrightarrow> before t g p r"
  by (auto simp: before_def)

lemma before_total: "q_sequence q \<noteq> q_sequence r \<Longrightarrow> before t g q r \<or> before t g r q"
  by (auto simp: before_def)

lemma before_irrefl: "\<not> before t g q q"
  by (simp add: before_def)

lemma least_waiter_least:
  "x \<in> insert q (set rs) \<Longrightarrow> \<not> before t g x (least_waiter t g q rs)"
proof (induction rs arbitrary: q x)
  case Nil
  then show ?case by (simp add: before_irrefl)
next
  case (Cons r rs)
  let ?m = "if before t g r q then r else q"
  have m: "\<not> before t g ?m (least_waiter t g q (r # rs))" using Cons.IH [of ?m ?m] by simp
  show ?case
  proof (cases "x \<in> set rs \<or> x = ?m")
    case True
    then show ?thesis using Cons.IH [of x ?m] by auto
  next
    case False
    then have "x = (if before t g r q then q else r)" using Cons.prems by (auto split: if_splits)
    then have "\<not> before t g x ?m" by (auto simp: before_def)
    then show ?thesis using m by (auto simp: before_def split: if_splits)
  qed
qed

lemma effective_class_cong: "g_aging g = g_aging g' \<Longrightarrow> before t g = before t g'"
  by (simp add: fun_eq_iff before_def effective_class_def)

section \<open>What the pump does\<close>

definition tokens_of :: "waiter list \<Rightarrow> rat" where
  "tokens_of qs = sum_list (map (\<lambda>q. of_int (q_tokens q)) qs)"

lemma tokens_of_simps [simp]:
  "tokens_of [] = 0" "tokens_of (q # qs) = of_int (q_tokens q) + tokens_of qs"
  "tokens_of (qs @ rs) = tokens_of qs + tokens_of rs"
  by (simp_all add: tokens_of_def)

text \<open>What a pump leaves: everything but the queue, the level and the timer, with the level lower by
  exactly what was granted.\<close>

definition pumped :: "governor \<Rightarrow> waiter list \<Rightarrow> governor \<Rightarrow> bool" where
  "pumped g granted g' \<longleftrightarrow>
     g_limit g' = g_limit g \<and> g_aging g' = g_aging g \<and> g_capacity g' = g_capacity g \<and>
     g_paused_until g' = g_paused_until g \<and> g_cut_rate g' = g_cut_rate g \<and>
     g_cut_at g' = g_cut_at g \<and> g_updated g' = g_updated g \<and> g_sequence g' = g_sequence g \<and>
     set granted \<subseteq> set (g_waiters g) \<and> set (g_waiters g') \<subseteq> set (g_waiters g) \<and>
     (\<forall>q \<in> set granted. \<not> q_done q) \<and>
     tokens_of granted + g_level g' = g_level g"

lemma pump_loop_pumped:
  "pump_loop n t g = (granted, g') \<Longrightarrow> gov_ok g \<Longrightarrow> pumped g granted g' \<and> gov_ok g'"
proof (induction n arbitrary: g granted g')
  case 0
  then show ?case by (simp add: pumped_def)
next
  case (Suc n)
  show ?case
  proof (cases "g_waiters g")
    case Nil
    then show ?thesis using Suc.prems by (auto simp: pumped_def)
  next
    case (Cons q qs)
    let ?h = "least_waiter t g q qs"
    let ?rest = "g\<lparr>g_waiters := remove1 ?h (g_waiters g)\<rparr>"
    let ?served = "?rest\<lparr>g_level := g_level g - of_int (q_tokens ?h)\<rparr>"
    have h: "?h \<in> set (g_waiters g)" using least_waiter_in [of t g q qs] Cons by auto
    then have tok: "0 \<le> q_tokens ?h" using Suc.prems(2) by (simp add: gov_ok_def)
    have sub: "set (remove1 ?h (g_waiters g)) \<subseteq> set (g_waiters g)" by (rule set_remove1_subset)
    consider (paused) "t < g_paused_until g" | (finished) "\<not> t < g_paused_until g" "q_done ?h"
      | (short) "\<not> t < g_paused_until g" "\<not> q_done ?h" "g_level g < need_of g ?h"
      | (serve) "\<not> t < g_paused_until g" "\<not> q_done ?h" "\<not> g_level g < need_of g ?h" by blast
    then show ?thesis
    proof cases
      case paused
      then show ?thesis using Suc.prems Cons schedule_ok by (auto simp: pumped_def)
    next
      case finished
      then have "pump_loop n t ?rest = (granted, g')" using Suc.prems(1) Cons by (simp add: Let_def)
      then have "pumped ?rest granted g' \<and> gov_ok g'"
        using Suc.IH remove1_ok(2) [OF Suc.prems(2) order_refl] by blast
      then show ?thesis using sub by (auto simp: pumped_def)
    next
      case short
      then show ?thesis using Suc.prems Cons schedule_ok by (auto simp: pumped_def Let_def)
    next
      case serve
      then obtain gr where gr: "pump_loop n t ?served = (gr, g')" "granted = ?h # gr"
        using Suc.prems(1) Cons by (auto simp: Let_def split: prod.splits)
      have "gov_ok ?served"
        using remove1_ok(1) [OF Suc.prems(2), of "g_level g - of_int (q_tokens ?h)"] tok by simp
      then have "pumped ?served gr g' \<and> gov_ok g'" using Suc.IH gr(1) by blast
      then show ?thesis using sub h serve(2) gr(2) by (auto simp: pumped_def)
    qed
  qed
qed

lemma pump_pumped:
  assumes "pump t g = (granted, g')" and "gov_ok g"
  shows "pumped (refill t g) granted g'" "gov_ok g'"
proof -
  have "gov_ok (g\<lparr>g_timer := None\<rparr>)" using assms(2) by (simp add: gov_ok_def)
  then have ok: "gov_ok (refill t (g\<lparr>g_timer := None\<rparr>))" by (rule refill_ok)
  have "pump_loop (Suc (length (g_waiters (refill t (g\<lparr>g_timer := None\<rparr>))))) t
      (refill t (g\<lparr>g_timer := None\<rparr>)) = (granted, g')"
    using assms(1) by (simp only: pump_def Let_def)
  note * = pump_loop_pumped [OF this ok]
  have "rate_at t (g\<lparr>g_timer := None\<rparr>) = rate_at t g"
    by (cases "g_cut_at g") (simp_all add: rate_at_def)
  then have "g_level (refill t (g\<lparr>g_timer := None\<rparr>)) = g_level (refill t g)"
    by (cases "g_updated g") (auto simp: refill_def Let_def)
  then show "pumped (refill t g) granted g'" using * by (simp add: pumped_def)
  show "gov_ok g'" using * by simp
qed

text \<open>Whoever is granted goes before everybody who keeps waiting.\<close>

lemma pump_loop_order:
  assumes "pump_loop n t g = (granted, g')" and "gov_ok g"
    and "r \<in> set granted" and "q \<in> set (g_waiters g')"
  shows "before t g r q"
  using assms
proof (induction n arbitrary: g granted)
  case (Suc n)
  obtain p ps where Cons: "g_waiters g = p # ps" and notpaused: "\<not> t < g_paused_until g"
    using Suc.prems(1,3) by (cases "g_waiters g") (auto split: if_splits)
  let ?h = "least_waiter t g p ps"
  let ?rest = "g\<lparr>g_waiters := remove1 ?h (g_waiters g)\<rparr>"
  let ?served = "?rest\<lparr>g_level := g_level g - of_int (q_tokens ?h)\<rparr>"
  have h: "?h \<in> set (g_waiters g)" using least_waiter_in [of t g p ps] Cons by auto
  then have tok: "0 \<le> q_tokens ?h" using Suc.prems(2) by (simp add: gov_ok_def)
  have dist: "distinct (map q_sequence (g_waiters g))" using Suc.prems(2) by (simp add: gov_ok_def)
  have same: "before t ?rest = before t g" "before t ?served = before t g"
    by (rule effective_class_cong; simp)+
  show ?case
  proof (cases "q_done ?h")
    case True
    then have "pump_loop n t ?rest = (granted, g')"
      using Suc.prems(1) Cons notpaused by (simp add: Let_def)
    then show ?thesis
      using Suc.IH remove1_ok(2) [OF Suc.prems(2) order_refl] Suc.prems(3,4) same by metis
  next
    case False
    then obtain gr where gr: "pump_loop n t ?served = (gr, g')" "granted = ?h # gr"
      using Suc.prems(1,3) Cons notpaused by (auto simp: Let_def split: prod.splits if_splits)
    have ok: "gov_ok ?served"
      using remove1_ok(1) [OF Suc.prems(2), of "g_level g - of_int (q_tokens ?h)"] tok by simp
    show ?thesis
    proof (cases "r = ?h")
      case True
      have "q \<in> set (remove1 ?h (g_waiters g))"
        using pump_loop_pumped [OF gr(1) ok] Suc.prems(4) by (auto simp: pumped_def)
      moreover have "distinct (g_waiters g)" using dist by (simp add: distinct_map)
      ultimately have q: "q \<in> set (g_waiters g)" "q \<noteq> ?h" by auto
      then have "q_sequence q \<noteq> q_sequence ?h"
        using dist h by (auto simp: distinct_map inj_on_def)
      moreover have "\<not> before t g q ?h" using q(1) Cons by (intro least_waiter_least) auto
      ultimately show ?thesis using before_total True by blast
    next
      case False
      then show ?thesis using Suc.IH [OF gr(1) ok _ Suc.prems(4)] Suc.prems(3) gr(2) same by auto
    qed
  qed
qed simp

text \<open>The pump stops only at an empty queue, a pause or a head it cannot serve, with a timer set.\<close>

lemma pump_loop_stops:
  assumes "pump_loop n t g = (granted, g')" and "length (g_waiters g) < n" and "g_waiters g' \<noteq> []"
  shows "g_timer g' \<noteq> None \<and> (t < g_paused_until g' \<or>
    (\<exists>h \<in> set (g_waiters g'). \<not> q_done h \<and> g_level g' < need_of g' h \<and>
       (\<forall>q \<in> set (g_waiters g'). \<not> before t g' q h)))"
  using assms
proof (induction n arbitrary: g granted)
  case (Suc n)
  show ?case
  proof (cases "g_waiters g")
    case Nil
    then show ?thesis using Suc.prems by simp
  next
    case (Cons p ps)
    let ?h = "least_waiter t g p ps"
    have h: "?h \<in> set (g_waiters g)" using least_waiter_in [of t g p ps] Cons by auto
    have len: "length (remove1 ?h (g_waiters g)) < n"
    proof -
      have "length (remove1 ?h (g_waiters g)) = length (g_waiters g) - 1"
        using h by (simp add: length_remove1)
      moreover have "length (g_waiters g) = Suc (length ps)" using Cons by simp
      ultimately show ?thesis using Suc.prems(2) by linarith
    qed
    consider (paused) "t < g_paused_until g" | (finished) "\<not> t < g_paused_until g" "q_done ?h"
      | (short) "\<not> t < g_paused_until g" "\<not> q_done ?h" "g_level g < need_of g ?h"
      | (serve) "\<not> t < g_paused_until g" "\<not> q_done ?h" "\<not> g_level g < need_of g ?h" by blast
    then show ?thesis
    proof cases
      case paused
      then show ?thesis using Suc.prems(1) Cons by (auto simp: schedule_def)
    next
      case finished
      then have "pump_loop n t (g\<lparr>g_waiters := remove1 ?h (g_waiters g)\<rparr>) = (granted, g')"
        using Suc.prems(1) Cons by (simp add: Let_def)
      then show ?thesis using Suc.IH len Suc.prems(3) by simp
    next
      case short
      then have g': "g' = schedule t ((need_of g ?h - g_level g) * 60 / rate_at t g) g"
        using Suc.prems(1) Cons by (simp add: Let_def)
      have "\<not> before t g q ?h" if "q \<in> set (g_waiters g)" for q
        using that Cons by (intro least_waiter_least) auto
      moreover have "before t g' = before t g" unfolding g' by (rule effective_class_cong) simp
      ultimately show ?thesis using short h g' by (auto simp: schedule_def need_of_def)
    next
      case serve
      then obtain gr where "pump_loop n t (g\<lparr>g_waiters := remove1 ?h (g_waiters g),
          g_level := g_level g - of_int (q_tokens ?h)\<rparr>) = (gr, g')"
        using Suc.prems(1) Cons by (auto simp: Let_def split: prod.splits)
      then show ?thesis using Suc.IH len Suc.prems(3) by simp
    qed
  qed
qed simp

section \<open>Every event keeps the bounds\<close>

definition credit_of :: "gov_event \<Rightarrow> rat" where
  "credit_of e =
     (case e of
        Cancelled q granted \<Rightarrow> if granted then of_int (q_tokens q) else 0
      | Settle a actual \<Rightarrow> if a_open a then of_int (a_tokens a - max 0 actual) else 0
      | Release a \<Rightarrow> if a_open a then of_int (a_tokens a) else 0
      | _ \<Rightarrow> 0)"

text \<open>Callers hand back what they were given: a waiter and an admission of no negative tokens.\<close>

definition event_ok :: "gov_event \<Rightarrow> bool" where
  "event_ok e \<longleftrightarrow> (case e of Cancelled q _ \<Rightarrow> 0 \<le> q_tokens q | _ \<Rightarrow> True)"

text \<open>What refilling adds: at most the limit's rate over the time since the last refill.\<close>

definition accrued :: "rat \<Rightarrow> governor \<Rightarrow> rat" where
  "accrued t g =
     (case g_updated g of None \<Rightarrow> 0 | Some u \<Rightarrow> of_int (g_limit g) * max 0 (t - u) / 60)"

lemma refill_accrues:
  assumes "gov_ok g"
  shows "g_level (refill t g) \<le> g_level g + accrued t g" "0 \<le> accrued t g"
proof -
  have l: "(1::rat) \<le> of_int (g_limit g)" using assms by (simp add: gov_ok_def)
  then show "0 \<le> accrued t g" by (simp add: accrued_def split: option.split)
  have r: "1 \<le> rate_at t g" "rate_at t g \<le> of_int (g_limit g)" using rate_bounds [OF assms] by auto
  show "g_level (refill t g) \<le> g_level g + accrued t g"
  proof (cases "g_updated g")
    case (Some u)
    let ?s = "max u (g_paused_until g)"
    have "(t - ?s) * rate_at t g \<le> max 0 (t - u) * of_int (g_limit g)" if "?s < t"
      using that r by (intro mult_mono) auto
    then show ?thesis
      using Some l by (auto simp: refill_def Let_def accrued_def mult.commute intro: min.coboundedI2)
  qed (simp add: refill_def accrued_def)
qed

lemma refill_twice: "g_updated g = Some t \<Longrightarrow> g_level (refill t g) = g_level g"
  by (simp add: refill_def Let_def)

text \<open>One pump, at the governor's own instant or later.\<close>

lemma pump_books:
  assumes "pump t g = (granted, g')" and "gov_ok g"
  shows "tokens_of granted + g_level g' \<le> g_level g + accrued t g"
    "g_updated g = Some t \<Longrightarrow> tokens_of granted + g_level g' = g_level g"
    "g_updated g' = Some t" "g_limit g' = g_limit g"
  using pump_pumped(1) [OF assms] refill_accrues(1) [OF assms(2), of t] refill_twice [of g t]
  by (auto simp: pumped_def)

lemma credit_ok:
  assumes "credit t c g = (granted, g')" and "gov_ok g"
  shows "gov_ok g'" "g_limit g' = g_limit g" "g_updated g' = Some t"
    "tokens_of granted + g_level g' \<le> g_level g + accrued t g + c"
proof -
  let ?r = "refill t g"
  let ?c = "?r\<lparr>g_level := min (g_capacity ?r) (g_level ?r + c)\<rparr>"
  have ok: "gov_ok ?c" using refill_ok [OF assms(2)] by (simp add: gov_ok_def)
  have p: "pump t ?c = (granted, g')" using assms(1) by (simp add: credit_def Let_def)
  show "gov_ok g'" using pump_pumped(2) [OF p ok] .
  show "g_limit g' = g_limit g" "g_updated g' = Some t" using pump_books [OF p ok] by simp_all
  have "tokens_of granted + g_level g' = g_level ?c" using pump_books(2) [OF p ok] by simp
  also have "\<dots> \<le> g_level ?r + c" by simp
  also have "\<dots> \<le> g_level g + accrued t g + c" using refill_accrues(1) [OF assms(2)] by simp
  finally show "tokens_of granted + g_level g' \<le> g_level g + accrued t g + c" .
qed

lemma throttled_ok:
  assumes "throttled t x g = (granted, g')" and "gov_ok g"
  shows "gov_ok g'" "g_limit g' = g_limit g" "g_updated g' = Some t"
    "tokens_of granted + g_level g' \<le> g_level g + accrued t g"
    "g_capacity g' = g_capacity g"
proof -
  let ?r = "refill t g"
  have r: "gov_ok ?r" using assms(2) by (rule refill_ok)
  define g2 where "g2 = (if t \<ge> g_paused_until ?r \<and>
        (case g_cut_at ?r of None \<Rightarrow> True | Some c \<Rightarrow> t - c \<ge> cut_cooldown_seconds)
      then ?r\<lparr>g_cut_rate := max 1 (rate_at t ?r * throttle_rate_factor), g_cut_at := Some t\<rparr>
      else ?r)"
  have "rate_at t ?r * throttle_rate_factor \<le> of_int (g_limit ?r)"
    using rate_bounds [OF r, of t] by (simp add: throttle_rate_factor_def)
  then have g2: "gov_ok g2" using r by (auto simp: g2_def gov_ok_def)
  have same: "g_level g2 = g_level ?r" "g_limit g2 = g_limit g" "g_updated g2 = Some t"
      "g_capacity g2 = g_capacity g"
    by (simp_all add: g2_def)
  let ?g3 = "g2\<lparr>g_level := min (g_level g2) 0,
                    g_paused_until := max (g_paused_until g2) (t + max 0 x)\<rparr>"
  have ok: "gov_ok ?g3" using g2 by (auto simp: gov_ok_def min_def)
  have p: "pump t ?g3 = (granted, g')"
    using assms(1) by (simp only: throttled_def Let_def g2_def)
  show "gov_ok g'" using pump_pumped(2) [OF p ok] .
  show "g_limit g' = g_limit g" "g_updated g' = Some t" using pump_books [OF p ok] same by simp_all
  show "g_capacity g' = g_capacity g" using pump_pumped(1) [OF p ok] same by (simp add: pumped_def)
  have "tokens_of granted + g_level g' = g_level ?g3" using pump_books(2) [OF p ok] same by simp
  also have "\<dots> \<le> g_level ?r" using same by simp
  also have "\<dots> \<le> g_level g + accrued t g" using refill_accrues(1) [OF assms(2)] by simp
  finally show "tokens_of granted + g_level g' \<le> g_level g + accrued t g" .
qed

lemma add_waiter_ok:
  assumes "gov_ok g" and "0 \<le> q_tokens q" and "q_sequence q = g_sequence g"
  shows "gov_ok (g\<lparr>g_waiters := g_waiters g @ [q], g_sequence := Suc (g_sequence g)\<rparr>)"
  using assms by (auto simp: gov_ok_def less_Suc_eq)

lemma accrued_fields [simp]:
  "accrued t (g\<lparr>g_waiters := qs\<rparr>) = accrued t g" "accrued t (g\<lparr>g_sequence := n\<rparr>) = accrued t g"
  by (cases "g_updated g"; simp add: accrued_def)+

lemma cancel_future_fields [simp]:
  "g_limit (cancel_future q g) = g_limit g" "g_level (cancel_future q g) = g_level g"
  "g_updated (cancel_future q g) = g_updated g" "g_capacity (cancel_future q g) = g_capacity g"
  by (simp_all add: cancel_future_def)

lemma cancel_future_ok: "gov_ok g \<Longrightarrow> gov_ok (cancel_future q g)"
proof -
  have "map q_sequence (map (\<lambda>r. if r = q then r\<lparr>q_done := True\<rparr> else r) ws) = map q_sequence ws" for ws
    by auto
  then show "gov_ok g \<Longrightarrow> gov_ok (cancel_future q g)"
    by (auto simp: gov_ok_def cancel_future_def simp del: map_map)
qed

text \<open>Every event keeps the invariant, moves the clock to its instant or leaves it, and grants no more
  than the level it uses up, what accrued and what its caller gives back.\<close>

lemma event_books:
  assumes "gov_event_step t e g = (granted, g')" and "gov_ok g" and "event_ok e"
  shows "gov_ok g' \<and> g_limit g' = g_limit g \<and>
    (g_updated g' = Some t \<or> g_updated g' = g_updated g) \<and>
    tokens_of granted + g_level g' \<le>
      g_level g + (if g_updated g' = Some t then accrued t g else 0) + credit_of e"
proof (cases e)
  case (Admit key tokens priority enqueued)
  show ?thesis
  proof (cases "tokens < 0")
    case True
    then show ?thesis using assms Admit refill_accrues(2) [OF assms(2)]
      by (simp add: admit_def credit_of_def)
  next
    case False
    let ?q = "\<lparr>q_key = key, q_tokens = tokens, q_priority = priority, q_sequence = g_sequence g,
      q_enqueued = (case enqueued of None \<Rightarrow> t | Some e \<Rightarrow> e), q_done = False\<rparr>"
    let ?g = "g\<lparr>g_waiters := g_waiters g @ [?q], g_sequence := Suc (g_sequence g)\<rparr>"
    have p: "pump t ?g = (granted, g')" using assms(1) Admit False by (simp add: admit_def Let_def)
    have ok: "gov_ok ?g" using False by (intro add_waiter_ok assms(2)) simp_all
    show ?thesis
      using pump_books(1,3,4) [OF p ok] pump_pumped(2) [OF p ok] Admit by (simp add: credit_of_def)
  qed
next
  case (Future_Cancelled q)
  then show ?thesis
    using assms cancel_future_ok refill_accrues(2) [OF assms(2), of t] by (auto simp: credit_of_def)
next
  case (Cancelled q gd)
  show ?thesis
  proof (cases "q \<in> set (g_waiters g)")
    case True
    let ?g = "g\<lparr>g_waiters := remove1 q (g_waiters g)\<rparr>"
    have p: "pump t ?g = (granted, g')"
      using assms(1) Cancelled True by (simp add: cancel_admit_def)
    have ok: "gov_ok ?g" using remove1_ok(2) [OF assms(2) order_refl] .
    have "0 \<le> credit_of e" using Cancelled assms(3) by (simp add: credit_of_def event_ok_def)
    then show ?thesis
      using pump_books(1,3,4) [OF p ok] pump_pumped(2) [OF p ok] by simp
  next
    case False
    then show ?thesis
      using assms Cancelled credit_ok [of t "of_int (q_tokens q)" g granted g'] refill_accrues(2) [OF assms(2)]
      by (auto simp: cancel_admit_def credit_of_def split: if_splits)
  qed
next
  case (Settle a actual)
  then show ?thesis
    using assms credit_ok [of t "of_int (a_tokens a - max 0 actual)" g granted g']
      refill_accrues(2) [OF assms(2)]
    by (auto simp: settle_admission_def credit_of_def split: if_splits)
next
  case (Release a)
  then show ?thesis
    using assms credit_ok [of t "of_int (a_tokens a)" g granted g'] refill_accrues(2) [OF assms(2)]
    by (auto simp: release_admission_def credit_of_def split: if_splits)
next
  case (Throttled x)
  then show ?thesis
    using assms throttled_ok [of t x g granted g'] by (simp add: credit_of_def)
next
  case TimerFired
  then show ?thesis
    using assms pump_books [of t g granted g'] pump_pumped(2) [of t g granted g']
    by (simp add: credit_of_def)
next
  case Snapshot
  then show ?thesis
    using assms refill_ok [OF assms(2)] refill_accrues(1) [OF assms(2), of t]
    by (auto simp: snapshot_def Let_def credit_of_def)
qed

section \<open>Every grant was covered\<close>

text \<open>Whom the pump grants, the level covered, or filled the bucket, after all it granted before.\<close>

lemma pump_loop_covers:
  assumes "pump_loop n t g = (xs @ q # ys, g')" and "gov_ok g"
  shows "tokens_of xs + need_of g q \<le> g_level g"
  using assms
proof (induction n arbitrary: g xs)
  case (Suc n)
  obtain p ps where Cons: "g_waiters g = p # ps" and notpaused: "\<not> t < g_paused_until g"
    using Suc.prems(1) by (cases "g_waiters g") (auto split: if_splits)
  let ?h = "least_waiter t g p ps"
  let ?rest = "g\<lparr>g_waiters := remove1 ?h (g_waiters g)\<rparr>"
  let ?served = "?rest\<lparr>g_level := g_level g - of_int (q_tokens ?h)\<rparr>"
  have h: "?h \<in> set (g_waiters g)" using least_waiter_in [of t g p ps] Cons by auto
  then have tok: "0 \<le> q_tokens ?h" using Suc.prems(2) by (simp add: gov_ok_def)
  show ?case
  proof (cases "q_done ?h")
    case True
    then have "pump_loop n t ?rest = (xs @ q # ys, g')"
      using Suc.prems(1) Cons notpaused by (simp add: Let_def)
    from Suc.IH [OF this remove1_ok(2) [OF Suc.prems(2) order_refl]] show ?thesis
      by (simp add: need_of_def)
  next
    case False
    then obtain gr where gr: "pump_loop n t ?served = (gr, g')" "xs @ q # ys = ?h # gr"
      and covered: "need_of g ?h \<le> g_level g"
      using Suc.prems(1) Cons notpaused by (auto simp: Let_def not_less split: prod.splits if_splits)
    have ok: "gov_ok ?served"
      using remove1_ok(1) [OF Suc.prems(2), of "g_level g - of_int (q_tokens ?h)"] tok by simp
    show ?thesis
    proof (cases xs)
      case Nil
      then show ?thesis using gr(2) covered by simp
    next
      case (Cons x zs)
      then have "x = ?h" and "gr = zs @ q # ys" using gr(2) by simp_all
      with Suc.IH [OF gr(1) [unfolded \<open>gr = zs @ q # ys\<close>] ok] Cons show ?thesis
        by (simp add: need_of_def)
    qed
  qed
qed simp

lemma pump_covers:
  assumes "pump t g = (xs @ q # ys, g')" and "gov_ok g"
  shows "tokens_of xs + need_of g q \<le> g_level (refill t g)"
proof -
  let ?g = "refill t (g\<lparr>g_timer := None\<rparr>)"
  have "gov_ok (g\<lparr>g_timer := None\<rparr>)" using assms(2) by (simp add: gov_ok_def)
  then have ok: "gov_ok ?g" by (rule refill_ok)
  have "pump_loop (Suc (length (g_waiters ?g))) t ?g = (xs @ q # ys, g')"
    using assms(1) by (simp only: pump_def Let_def)
  note * = pump_loop_covers [OF this ok]
  have "rate_at t (g\<lparr>g_timer := None\<rparr>) = rate_at t g"
    by (cases "g_cut_at g") (simp_all add: rate_at_def)
  then have "g_level ?g = g_level (refill t g)"
    by (cases "g_updated g") (auto simp: refill_def Let_def)
  then show ?thesis using * by (simp add: need_of_def)
qed

lemma pump_covered:
  assumes "pump t g = (xs @ q # ys, g')" and "gov_ok g"
  shows "tokens_of xs + need_of g q \<le> g_level g + accrued t g"
    "g_updated g = Some t \<Longrightarrow> tokens_of xs + need_of g q \<le> g_level g"
  using pump_covers [OF assms] refill_accrues(1) [OF assms(2), of t] refill_twice [of g t] by auto

lemma credit_covers:
  assumes "credit t c g = (xs @ q # ys, g')" and "gov_ok g"
  shows "tokens_of xs + need_of g q \<le> g_level g + accrued t g + c"
proof -
  let ?r = "refill t g"
  let ?c = "?r\<lparr>g_level := min (g_capacity ?r) (g_level ?r + c)\<rparr>"
  have ok: "gov_ok ?c" using refill_ok [OF assms(2)] by (simp add: gov_ok_def)
  have p: "pump t ?c = (xs @ q # ys, g')" using assms(1) by (simp add: credit_def Let_def)
  have "tokens_of xs + need_of ?c q \<le> g_level ?c" using pump_covered(2) [OF p ok] by simp
  also have "\<dots> \<le> g_level ?r + c" by simp
  also have "\<dots> \<le> g_level g + accrued t g + c" using refill_accrues(1) [OF assms(2)] by simp
  finally show ?thesis by (simp add: need_of_def)
qed

lemma throttled_covers:
  assumes "throttled t x g = (xs @ q # ys, g')" and "gov_ok g"
  shows "tokens_of xs + need_of g q \<le> g_level g + accrued t g"
proof -
  let ?r = "refill t g"
  have r: "gov_ok ?r" using assms(2) by (rule refill_ok)
  define g2 where "g2 = (if t \<ge> g_paused_until ?r \<and>
        (case g_cut_at ?r of None \<Rightarrow> True | Some c \<Rightarrow> t - c \<ge> cut_cooldown_seconds)
      then ?r\<lparr>g_cut_rate := max 1 (rate_at t ?r * throttle_rate_factor), g_cut_at := Some t\<rparr>
      else ?r)"
  have "rate_at t ?r * throttle_rate_factor \<le> of_int (g_limit ?r)"
    using rate_bounds [OF r, of t] by (simp add: throttle_rate_factor_def)
  then have g2: "gov_ok g2" using r by (auto simp: g2_def gov_ok_def)
  have same: "g_level g2 = g_level ?r" "g_capacity g2 = g_capacity g" "g_updated g2 = Some t"
    by (simp_all add: g2_def)
  let ?g3 = "g2\<lparr>g_level := min (g_level g2) 0,
                    g_paused_until := max (g_paused_until g2) (t + max 0 x)\<rparr>"
  have ok: "gov_ok ?g3" using g2 by (auto simp: gov_ok_def min_def)
  have p: "pump t ?g3 = (xs @ q # ys, g')"
    using assms(1) by (simp only: throttled_def Let_def g2_def)
  have "tokens_of xs + need_of ?g3 q \<le> g_level ?g3" using pump_covered(2) [OF p ok] same by simp
  also have "\<dots> \<le> g_level ?r" using same by simp
  also have "\<dots> \<le> g_level g + accrued t g" using refill_accrues(1) [OF assms(2)] by simp
  finally show ?thesis using same by (simp add: need_of_def)
qed

lemma event_covers:
  assumes "gov_event_step t e g = (xs @ q # ys, g')" and "gov_ok g" and "event_ok e"
  shows "tokens_of xs + need_of g q \<le> g_level g + accrued t g + credit_of e"
proof (cases e)
  case (Admit key tokens priority enqueued)
  let ?q = "\<lparr>q_key = key, q_tokens = tokens, q_priority = priority, q_sequence = g_sequence g,
    q_enqueued = (case enqueued of None \<Rightarrow> t | Some e \<Rightarrow> e), q_done = False\<rparr>"
  let ?g = "g\<lparr>g_waiters := g_waiters g @ [?q], g_sequence := Suc (g_sequence g)\<rparr>"
  have t: "\<not> tokens < 0" and p: "pump t ?g = (xs @ q # ys, g')"
    using assms(1) Admit by (auto simp: admit_def Let_def split: if_splits)
  have ok: "gov_ok ?g" using t by (intro add_waiter_ok assms(2)) simp_all
  show ?thesis using pump_covered(1) [OF p ok] Admit by (simp add: credit_of_def need_of_def)
next
  case (Cancelled c gd)
  show ?thesis
  proof (cases "c \<in> set (g_waiters g)")
    case True
    let ?g = "g\<lparr>g_waiters := remove1 c (g_waiters g)\<rparr>"
    have p: "pump t ?g = (xs @ q # ys, g')"
      using assms(1) Cancelled True by (simp add: cancel_admit_def)
    have "0 \<le> credit_of e" using Cancelled assms(3) by (simp add: credit_of_def event_ok_def)
    then show ?thesis
      using pump_covered(1) [OF p remove1_ok(2) [OF assms(2) order_refl]] by (simp add: need_of_def)
  next
    case False
    then show ?thesis
      using assms Cancelled credit_covers by (auto simp: cancel_admit_def credit_of_def split: if_splits)
  qed
next
  case (Settle a actual)
  then show ?thesis using assms credit_covers
    by (auto simp: settle_admission_def credit_of_def split: if_splits)
next
  case (Release a)
  then show ?thesis using assms credit_covers
    by (auto simp: release_admission_def credit_of_def split: if_splits)
next
  case (Throttled x)
  then show ?thesis using assms throttled_covers by (simp add: credit_of_def)
next
  case TimerFired
  then show ?thesis using assms pump_covered(1) by (simp add: credit_of_def)
qed (use assms(1) in simp_all)

text \<open>The bucket keeps its size.\<close>

lemma pump_capacity: "gov_ok g \<Longrightarrow> g_capacity (snd (pump t g)) = g_capacity g"
  using pump_pumped(1) [of t g "fst (pump t g)" "snd (pump t g)"] by (simp add: pumped_def)

lemma event_capacity:
  assumes "gov_ok g" and "event_ok e"
  shows "g_capacity (snd (gov_event_step t e g)) = g_capacity g"
proof -
  have credit: "g_capacity (snd (credit t c g)) = g_capacity g" for c
  proof -
    have "gov_ok (refill t g\<lparr>g_level := min (g_capacity (refill t g)) (g_level (refill t g) + c)\<rparr>)"
      using refill_ok [OF assms(1)] by (simp add: gov_ok_def)
    from pump_capacity [OF this] show ?thesis by (simp add: credit_def Let_def)
  qed
  have throttled: "g_capacity (snd (throttled t x g)) = g_capacity g" for x
    using throttled_ok(5) [OF _ assms(1), of t x] by (metis prod.collapse)
  show ?thesis
  proof (cases e)
    case (Admit key tokens priority enqueued)
    have "gov_ok (g\<lparr>g_waiters := g_waiters g @ [q], g_sequence := Suc (g_sequence g)\<rparr>)"
      if "0 \<le> q_tokens q" "q_sequence q = g_sequence g" for q
      using assms(1) that by (rule add_waiter_ok)
    then show ?thesis using Admit pump_capacity by (simp add: admit_def Let_def not_less)
  next
    case (Cancelled q gd)
    show ?thesis
      using Cancelled credit pump_capacity [OF remove1_ok(2) [OF assms(1) order_refl, of q]]
      by (simp add: cancel_admit_def)
  next
    case (Settle a n)
    then show ?thesis using credit by (simp add: settle_admission_def)
  next
    case (Release a)
    then show ?thesis using credit by (simp add: release_admission_def)
  next
    case (Throttled x)
    then show ?thesis using throttled by simp
  next
    case TimerFired
    then show ?thesis using pump_capacity [OF assms(1)] by simp
  qed (simp_all add: snapshot_def Let_def)
qed

section \<open>Runs\<close>

definition gov_step :: "rat \<times> gov_event \<Rightarrow> governor \<Rightarrow> unit + governor" where
  "gov_step te g =
     (if event_ok (snd te) then Inr (snd (gov_event_step (fst te) (snd te) g)) else Inl ())"

interpretation gov_machine: guarded_machine gov_step gov_ok
proof unfold_locales
  fix g te g'
  assume "gov_ok g" and "gov_step te g = Inr g'"
  moreover obtain granted g'' where "gov_event_step (fst te) (snd te) g = (granted, g'')" by fastforce
  ultimately show "gov_ok g'" using event_books by (auto simp: gov_step_def split: if_splits)
qed

text \<open>A run that keeps the grants, and what its callers give back.\<close>

fun gov_run :: "(rat \<times> gov_event) list \<Rightarrow> governor \<Rightarrow> waiter list \<times> governor" where
  "gov_run [] g = ([], g)"
| "gov_run ((t, e) # es) g =
     (let (granted, g1) = gov_event_step t e g; (more, g2) = gov_run es g1 in (granted @ more, g2))"

definition credits :: "(rat \<times> gov_event) list \<Rightarrow> rat" where
  "credits es = sum_list (map (\<lambda>te. credit_of (snd te)) es)"

text \<open>The instants of a run never go back.\<close>

fun chronological :: "rat \<Rightarrow> (rat \<times> gov_event) list \<Rightarrow> bool" where
  "chronological u [] = True"
| "chronological u ((t, e) # es) = (u \<le> t \<and> chronological t es)"

lemma gov_run_covers:
  assumes "gov_run es g = (earlier, g1)" and "gov_event_step t e g1 = (xs @ q # ys, g2)"
    and "gov_ok g" and "g_updated g = Some v" and "v \<le> u" and "chronological u (es @ [(t, e)])"
    and "\<forall>te \<in> set (es @ [(t, e)]). event_ok (snd te)"
  shows "tokens_of (earlier @ xs) + need_of g q \<le>
    g_level g + of_int (g_limit g) * (t - v) / 60 + credits (es @ [(t, e)])"
  using assms
proof (induction es arbitrary: g earlier u v)
  case Nil
  have "tokens_of xs + need_of g q \<le> g_level g + accrued t g + credit_of e"
    using event_covers Nil.prems by simp
  moreover have "accrued t g = of_int (g_limit g) * (t - v) / 60"
    using Nil.prems(4,5,6) by (simp add: accrued_def)
  ultimately show ?case using Nil.prems(1) by (simp add: credits_def)
next
  case (Cons te es)
  obtain s d where te: "te = (s, d)" by (cases te)
  obtain gr h more where step: "gov_event_step s d g = (gr, h)"
      and rest: "gov_run es h = (more, g1)" and earlier: "earlier = gr @ more"
    using Cons.prems(1) te by (auto simp: Let_def split: prod.splits)
  have dok: "event_ok d" using Cons.prems(7) te by simp
  note books = event_books [OF step Cons.prems(3) dok]
  have tail: "chronological s (es @ [(t, e)])" "\<forall>te \<in> set (es @ [(t, e)]). event_ok (snd te)" "u \<le> s"
    using Cons.prems(6,7) te by simp_all
  have sum: "credits ((te # es) @ [(t, e)]) = credit_of d + credits (es @ [(t, e)])"
    by (simp add: credits_def te)
  have acc: "accrued s g = of_int (g_limit g) * (s - v) / 60"
    using Cons.prems(4,5) tail(3) by (simp add: accrued_def)
  have need: "need_of h q = need_of g q"
    using event_capacity [OF Cons.prems(3) dok, of s] step by (simp add: need_of_def)
  show ?case
  proof (cases "g_updated h = Some s")
    case True
    have "tokens_of (more @ xs) + need_of h q \<le>
        g_level h + of_int (g_limit h) * (t - s) / 60 + credits (es @ [(t, e)])"
      using Cons.IH [OF rest Cons.prems(2) _ True order_refl tail(1,2)] books by blast
    moreover have "tokens_of gr + g_level h \<le> g_level g + accrued s g + credit_of d"
      and "g_limit h = g_limit g" using books True by simp_all
    moreover have "of_int (g_limit g) * (t - v) / 60 =
        of_int (g_limit g) * (s - v) / 60 + of_int (g_limit g) * (t - s) / 60"
      by (simp add: field_simps)
    ultimately show ?thesis using acc sum need earlier by (simp add: add_divide_distrib)
  next
    case False
    then have h: "g_updated h = Some v" using books Cons.prems(4) by simp
    have "v \<le> s" using Cons.prems(5) tail(3) by simp
    then have "tokens_of (more @ xs) + need_of h q \<le>
        g_level h + of_int (g_limit h) * (t - v) / 60 + credits (es @ [(t, e)])"
      using Cons.IH [OF rest Cons.prems(2) _ h _ tail(1,2)] books by blast
    moreover have "tokens_of gr + g_level h \<le> g_level g + credit_of d"
      and "g_limit h = g_limit g" using books False by simp_all
    ultimately show ?thesis using sum need earlier by simp
  qed
qed

section \<open>Properties\<close>

text \<open>The governor's bounds hold from the start and through every run of events at any
  instants: the level never exceeds the bucket, and the effective rate stays between one token and
  the limit, however often the provider throttles.\<close>

theorem governor_bounds:
  assumes "new_governor limit burst aging = Some g"
  shows "g_level (run gov_step es g) \<le> g_capacity (run gov_step es g) \<and>
    1 \<le> rate_at t (run gov_step es g) \<and>
    rate_at t (run gov_step es g) \<le> of_int (g_limit (run gov_step es g))"
proof -
  have "gov_ok g"
    using assms by (auto simp: new_governor_def gov_ok_def Let_def default_burst_seconds_def
        split: if_splits option.splits)
  then have "gov_ok (run gov_step es g)" by (rule gov_machine.run_inv)
  then show ?thesis using rate_bounds by (auto simp: gov_ok_def)
qed

theorem governor_bounds_witness:
  "g_level (run gov_step [(1, Throttled 5), (9, TimerFired)] (the (new_governor 600 None 30)))
     \<le> g_capacity (run gov_step [(1, Throttled 5), (9, TimerFired)] (the (new_governor 600 None 30)))"
proof -
  have "new_governor 600 None 30 = Some (the (new_governor 600 None 30))"
    by (simp add: new_governor_def Let_def)
  from governor_bounds [OF this] show ?thesis by blast
qed

text \<open>C21. The rate limit: a request is granted only when the bucket covers it, or is full if the
  request is larger than the bucket. So whenever one is granted, in any run of events at
  non-decreasing instants, the tokens of all requests granted before it and what this one needs of the
  bucket (its tokens, or the whole bucket) are together at most the level at the start, what the limit
  allows for the time that passed, and what callers gave back by settling, releasing or being
  cancelled.\<close>

theorem granted_tokens_bounded:
  assumes "gov_run es g = (earlier, g1)" and "gov_event_step t e g1 = (xs @ q # ys, g2)"
    and "gov_ok g" and "g_updated g = Some u" and "chronological u (es @ [(t, e)])"
    and "\<forall>te \<in> set (es @ [(t, e)]). event_ok (snd te)"
  shows "tokens_of (earlier @ xs) + min (of_int (q_tokens q)) (g_capacity g) \<le>
    g_level g + of_int (g_limit g) * (t - u) / 60 + credits (es @ [(t, e)])"
  using gov_run_covers [OF assms(1-4) order_refl assms(5,6)] by (simp add: need_of_def)

definition sample_governor :: governor where
  "sample_governor =
     \<lparr>g_limit = 600, g_aging = 30, g_capacity = 150, g_level = 150, g_paused_until = 0,
      g_cut_rate = 600, g_cut_at = None, g_updated = Some 0, g_waiters = [], g_sequence = 0,
      g_timer = None\<rparr>"

definition sample_requests :: "(rat \<times> gov_event) list" where
  "sample_requests = [(1, Admit ''x'' 100 1 None), (2, Admit ''y'' 200 1 None)]"

text \<open>Two hundred tokens of a bucket of a hundred and fifty: granted when it has filled.\<close>

theorem granted_tokens_bounded_witness:
  "\<exists>earlier g1 q g2. gov_run sample_requests sample_governor = (earlier, g1) \<and>
     gov_event_step 20 TimerFired g1 = ([q], g2) \<and> q_tokens q = 200 \<and>
     tokens_of earlier + 150 \<le> 150 + 600 * 20 / 60"
proof -
  obtain earlier g1 where run: "gov_run sample_requests sample_governor = (earlier, g1)" by fastforce
  have "(case gov_event_step 20 TimerFired (snd (gov_run sample_requests sample_governor)) of
      ([q], _) \<Rightarrow> q_tokens q = 200 | _ \<Rightarrow> False)"
    by code_simp
  then obtain q g2 where step: "gov_event_step 20 TimerFired g1 = ([] @ q # [], g2)" "q_tokens q = 200"
    using run by (auto split: prod.splits list.splits)
  have ok: "gov_ok sample_governor" "g_updated sample_governor = Some 0"
    by (simp_all add: gov_ok_def sample_governor_def)
  have es: "chronological 0 (sample_requests @ [(20, TimerFired)])"
      "\<forall>te \<in> set (sample_requests @ [(20, TimerFired)]). event_ok (snd te)"
      "credits (sample_requests @ [(20, TimerFired)]) = 0"
    by (simp_all add: sample_requests_def event_ok_def credits_def credit_of_def)
  from granted_tokens_bounded [OF run step(1) ok es(1,2)] es(3) step run show ?thesis
    by (auto simp: sample_governor_def)
qed

text \<open>Service order and no starvation: when a pump grants \<open>r\<close> while \<open>q\<close> keeps waiting, \<open>r\<close> came
  first by class and arrival; in particular \<open>q\<close> had not been waiting longer than \<open>r\<close> by
  \<open>aging_seconds\<close> for every class between them, unless \<open>r\<close> also queued earlier. And a pump that
  leaves somebody waiting has a timer set and is either paused or lacks the tokens its first waiter
  needs.\<close>

theorem pump_serves_in_order:
  assumes "pump t g = (granted, g')" and "gov_ok g"
  shows "(\<forall>r \<in> set granted. \<forall>q \<in> set (g_waiters g').
      before t g r q \<and>
      (q_enqueued q + g_aging g * of_int (q_priority q - q_priority r) \<le> q_enqueued r \<longrightarrow>
         q_sequence r < q_sequence q)) \<and>
    (g_waiters g' \<noteq> [] \<longrightarrow> g_timer g' \<noteq> None \<and>
       (t < g_paused_until g' \<or>
        (\<exists>h \<in> set (g_waiters g'). \<not> q_done h \<and> g_level g' < need_of g' h)))"
proof -
  let ?g = "refill t (g\<lparr>g_timer := None\<rparr>)"
  have "gov_ok (g\<lparr>g_timer := None\<rparr>)" using assms(2) by (simp add: gov_ok_def)
  then have ok: "gov_ok ?g" by (rule refill_ok)
  have loop: "pump_loop (Suc (length (g_waiters ?g))) t ?g = (granted, g')"
    using assms(1) by (simp only: pump_def Let_def)
  have same: "before t ?g = before t g" by (rule effective_class_cong) simp
  have order: "before t g r q" if "r \<in> set granted" "q \<in> set (g_waiters g')" for r q
    using pump_loop_order [OF loop ok that] same by simp
  moreover have "q_sequence r < q_sequence q"
    if b: "before t g r q"
      and late: "q_enqueued q + g_aging g * of_int (q_priority q - q_priority r) \<le> q_enqueued r" for r q
  proof -
    have A: "0 < g_aging g" using assms(2) by (simp add: gov_ok_def)
    have "t - q_enqueued r \<le> t - q_enqueued q - g_aging g * of_int (q_priority q - q_priority r)"
      using late by simp
    then have "(t - q_enqueued r) / g_aging g \<le>
        (t - q_enqueued q - g_aging g * of_int (q_priority q - q_priority r)) / g_aging g"
      using A by (simp add: divide_right_mono)
    also have "\<dots> = (t - q_enqueued q) / g_aging g - of_int (q_priority q - q_priority r)"
      using A by (simp add: diff_divide_distrib)
    finally have "\<lfloor>(t - q_enqueued r) / g_aging g\<rfloor> \<le>
        \<lfloor>(t - q_enqueued q) / g_aging g\<rfloor> - (q_priority q - q_priority r)"
      by (metis floor_diff_of_int floor_mono)
    then show ?thesis using b by (auto simp: before_def effective_class_def)
  qed
  moreover have "g_timer g' \<noteq> None \<and> (t < g_paused_until g' \<or>
        (\<exists>h \<in> set (g_waiters g'). \<not> q_done h \<and> g_level g' < need_of g' h))"
    if "g_waiters g' \<noteq> []"
    using pump_loop_stops [OF loop _ that] by auto
  ultimately show ?thesis by blast
qed

theorem pump_serves_in_order_witness:
  "\<exists>granted g'. pump 1 sample_governor = (granted, g') \<and>
     (g_waiters g' \<noteq> [] \<longrightarrow> g_timer g' \<noteq> None)"
proof -
  obtain granted g' where p: "pump 1 sample_governor = (granted, g')" by fastforce
  have "gov_ok sample_governor" by (simp add: gov_ok_def sample_governor_def)
  from pump_serves_in_order [OF p this] p show ?thesis by blast
qed

text \<open>Settling or releasing an admission closes it, and a closed one gives nothing back again.\<close>

lemma admission_returns_once:
  "\<not> a_open (fst (settle_admission t a n g))" "\<not> a_open (fst (release_admission t a g))"
  "\<not> a_open a \<Longrightarrow> settle_admission t a n g = (a, [], g)"
  "\<not> a_open a \<Longrightarrow> release_admission t a g = (a, [], g)"
  by (auto simp: settle_admission_def release_admission_def)

end
