(* ===== verification/Stagnation.thy ===== *)
theory Stagnation
  imports Json Money
begin

text \<open>
  Repeated reads without new work (\<open>execution/stagnation.py\<close>). A state is kept between calls as a
  dictionary whose absent keys read as defaults; \<open>stagnation\<close> is that dictionary read with its
  defaults, \<open>state_dict\<close> writes it and \<open>validate_state\<close> reads it back. The hash of a JSON value (the
  hex SHA-256 of its canonical text) is the parameter \<open>h\<close>. \<open>None\<close> is the exception of a command
  whose \<open>argv\<close> holds no text where the code strips it, or of a value that has no hash.
\<close>

section \<open>Tables\<close>

definition read_tools :: "string list" where
  "read_tools =
     [''read_scientific_record'', ''history_page'', ''index_page'', ''research_graph_page'',
      ''read_artifact'', ''read_artifact_chunk'', ''restart_brief'', ''working_context'',
      ''mailbox_page'', ''read_dependency_bundle'', ''search_knowledge'', ''child_task_status'',
      ''inspect_verification'', ''wait_for_verification'', ''read_workspace_file'',
      ''search_library_source'', ''lookup_library_source'', ''lookup_library_declaration'',
      ''check_lean_type'', ''joined_children'', ''discussion_page'', ''discussion_posts'',
      ''read_discussion_post'', ''read_research_message'', ''discussion_updates'',
      ''research_directory'', ''research_capacity'', ''commons_query'', ''commons_read'',
      ''inbox'', ''read_file'', ''search_library'', ''read_source'', ''search_literature'',
      ''fetch_source'', ''verification_status'', ''load_skill'', ''recall_output'',
      ''find_declaration'', ''commons_fetch'']"

definition terminal_reads :: "string list" where
  "terminal_reads = [''tail'', ''cat'', ''head'', ''sed'', ''rg'', ''grep'', ''awk'']"

definition work_commands :: "string list" where
  "work_commands =
     [''lean'', ''lake'', ''python'', ''python3'', ''pytest'', ''cargo'', ''make'', ''cmake'']"

definition non_progress_tools :: "string list" where
  "non_progress_tools = read_tools @
     [''checkpoint_context'', ''checkpoint_research_notes'', ''restore_context'',
      ''wait_for_tasks'', ''request_handoff'', ''checkpoint_workspace'',
      ''subscribe_discussion'', ''acknowledge_discussion_updates'',
      ''publish_research_profile'', ''join_research_team'', ''request_research_capacity'',
      ''notebook'', ''commons_claim'', ''wait'', ''library_notes'']"

definition command_tools :: "string list" where
  "command_tools = [''run_command'', ''shell'']"

definition state_keys :: "string list" where
  "state_keys =
     [''progress_epoch'', ''read_counts'', ''seen_work'', ''warned'', ''recovery_requested'',
      ''recovery_attempted'', ''exhausted'', ''unavailable_calls'', ''unavailable_warned'']"

definition max_fingerprints :: nat where "max_fingerprints = 64"

definition volatile_fields :: "string list" where
  "volatile_fields =
     [''operation_id'', ''execution_id'', ''request_id'', ''created_at'', ''updated_at'', ''id'',
      ''receipt_id'', ''record_id'', ''artifact_id'']"

section \<open>State\<close>

record stagnation =
  progress_epoch :: int
  read_counts :: "(string \<times> int) list"
  seen_work :: "string list"
  warned :: bool
  recovery_requested :: bool
  recovery_attempted :: bool
  exhausted :: bool
  unavailable_calls :: int
  unavailable_warned :: bool

definition fresh_state :: stagnation where
  "fresh_state =
     \<lparr>progress_epoch = 0, read_counts = [], seen_work = [], warned = False,
      recovery_requested = False, recovery_attempted = False, exhausted = False,
      unavailable_calls = 0, unavailable_warned = False\<rparr>"

definition state_dict :: "stagnation \<Rightarrow> dict" where
  "state_dict s =
     [(''progress_epoch'', JInt (progress_epoch s)),
      (''read_counts'', JObj (map (\<lambda>(k, n). (k, JInt n)) (read_counts s))),
      (''seen_work'', strings (seen_work s)), (''warned'', JBool (warned s)),
      (''recovery_requested'', JBool (recovery_requested s)),
      (''recovery_attempted'', JBool (recovery_attempted s)),
      (''exhausted'', JBool (exhausted s)),
      (''unavailable_calls'', JInt (unavailable_calls s)),
      (''unavailable_warned'', JBool (unavailable_warned s))]"

section \<open>Validation\<close>

definition is_fingerprint :: "string \<Rightarrow> bool" where
  "is_fingerprint s \<longleftrightarrow> length s = 64 \<and> list_all (\<lambda>c. c \<in> set ''0123456789abcdef'') s"

definition int_within :: "json \<Rightarrow> int \<Rightarrow> int option" where
  "int_within j lo =
     (case j of JInt n \<Rightarrow> if lo \<le> n \<and> n \<le> 1000000 then Some n else None | _ \<Rightarrow> None)"

definition flag_of :: "dict \<Rightarrow> string \<Rightarrow> bool option" where
  "flag_of d k = (case dget_or d k (JBool False) of JBool b \<Rightarrow> Some b | _ \<Rightarrow> None)"

definition count_of :: "string \<times> json \<Rightarrow> (string \<times> int) option" where
  "count_of p =
     (if is_fingerprint (fst p)
      then (case int_within (snd p) 1 of None \<Rightarrow> None | Some n \<Rightarrow> Some (fst p, n)) else None)"

definition seen_of :: "json \<Rightarrow> string option" where
  "seen_of j = (case j of JStr s \<Rightarrow> if is_fingerprint s then Some s else None | _ \<Rightarrow> None)"

fun all_of :: "('a \<Rightarrow> 'b option) \<Rightarrow> 'a list \<Rightarrow> 'b list option" where
  "all_of f [] = Some []"
| "all_of f (x # xs) =
     (case f x of None \<Rightarrow> None
      | Some y \<Rightarrow> (case all_of f xs of None \<Rightarrow> None | Some ys \<Rightarrow> Some (y # ys)))"

definition counts_of :: "json \<Rightarrow> (string \<times> int) list option" where
  "counts_of j =
     (case j of JObj d \<Rightarrow> if max_fingerprints < length d then None else all_of count_of d
      | _ \<Rightarrow> None)"

definition work_of :: "json \<Rightarrow> string list option" where
  "work_of j =
     (case j of JList xs \<Rightarrow>
        if max_fingerprints < length xs \<or> \<not> distinct xs then None else all_of seen_of xs
      | _ \<Rightarrow> None)"

text \<open>\<open>None\<close> is the \<open>ValueError\<close>; the keys of a dictionary are distinct.\<close>

definition validate_state :: "dict \<Rightarrow> stagnation option" where
  "validate_state d =
     (if \<not> list_all (\<lambda>(k, _). k \<in> set state_keys) d then None
      else case (int_within (dget_or d ''progress_epoch'' (JInt 0)) 0,
                 counts_of (dget_or d ''read_counts'' (JObj [])),
                 work_of (dget_or d ''seen_work'' (JList [])),
                 flag_of d ''warned'', flag_of d ''recovery_requested'',
                 flag_of d ''recovery_attempted'', flag_of d ''exhausted'',
                 flag_of d ''unavailable_warned'',
                 int_within (dget_or d ''unavailable_calls'' (JInt 0)) 0) of
          (Some epoch, Some counts, Some seen, Some w, Some rr, Some ra, Some ex, Some uw, Some uc) \<Rightarrow>
            Some \<lparr>progress_epoch = epoch, read_counts = counts, seen_work = seen, warned = w,
                  recovery_requested = rr, recovery_attempted = ra, exhausted = ex,
                  unavailable_calls = uc, unavailable_warned = uw\<rparr>
        | _ \<Rightarrow> None)"

section \<open>What an observation is\<close>

fun scientific :: "json \<Rightarrow> json" where
  "scientific (JObj d) =
     JObj (filter (\<lambda>(k, _). k \<notin> set volatile_fields) (map (\<lambda>(k, v). (k, scientific v)) d))"
| "scientific (JList xs) = JList (map scientific xs)"
| "scientific v = v"

definition read_target :: "dict \<Rightarrow> dict" where
  "read_target arguments =
     filter (\<lambda>(k, _). k \<notin> {''operation_id'', ''execution_id'', ''request_id''}) arguments"

definition work_identity :: "(json \<Rightarrow> string) \<Rightarrow> string \<Rightarrow> dict \<Rightarrow> dict \<Rightarrow> string" where
  "work_identity h name arguments result =
     (if name \<in> {''write_workspace_file'', ''write_file'', ''store_artifact''}
      then h (JObj [(''name'', JStr name), (''content'', dget arguments ''content'')])
      else if name = ''submit_candidate''
      then h (JObj [(''name'', JStr name), (''source'', dget arguments ''source'')])
      else if name = ''verify_candidate''
      then h (JObj [(''name'', JStr name), (''artifact_id'', dget arguments ''artifact_id'')])
      else h (JObj [(''name'', JStr name), (''arguments'', JObj arguments),
                    (''result'', scientific (JObj result))]))"

definition is_unavailable :: "dict \<Rightarrow> bool" where
  "is_unavailable result \<longleftrightarrow>
     (case dget result ''error'' of JObj e \<Rightarrow> dget e ''code'' = JStr ''TOOL_UNAVAILABLE''
      | _ \<Rightarrow> False)"

text \<open>\<open>s.rsplit("/", 1)[-1]\<close> and the first word of a stripped text.\<close>

definition base_name :: "string \<Rightarrow> string" where
  "base_name s = rev (takeWhile (\<lambda>c. c \<noteq> CHR ''/'') (rev s))"

definition first_word :: "string \<Rightarrow> string" where
  "first_word s = takeWhile (\<lambda>c. \<not> is_space c) (strip s)"

text \<open>A list or a dictionary has no hash, so testing it against a set raises.\<close>

fun hashable :: "json \<Rightarrow> bool" where
  "hashable (JList xs) = False"
| "hashable (JObj d) = False"
| "hashable v = True"

definition command_name :: "dict \<Rightarrow> string option" where
  "command_name arguments =
     (case dget arguments ''argv'' of
        JList (JStr a # rest) \<Rightarrow>
          (let command = base_name a
           in if command \<in> {''sh'', ''bash'', ''zsh''} \<and> 2 \<le> length rest
              then (if \<not> hashable (rest ! 0) then None
                    else if rest ! 0 \<in> {JStr ''-c'', JStr ''-lc''}
                    then (case rest ! 1 of JStr line \<Rightarrow> Some (base_name (first_word line))
                          | _ \<Rightarrow> None)
                    else Some command)
              else Some command)
      | _ \<Rightarrow> Some [])"

definition terminal_read :: "string \<Rightarrow> dict \<Rightarrow> dict \<Rightarrow> bool option" where
  "terminal_read name arguments result =
     (let no_error = \<not> dhas result ''error''
      in if name \<in> {''discussion_updates'', ''inbox''}
         then Some (truthy (dget result ''items'') \<and> no_error)
         else if name \<in> {''inspect_verification'', ''wait_for_verification'', ''verification_status''}
         then (if hashable (dget result ''status'')
               then Some (in_strings (dget result ''status'')
                      [''blocked'', ''rejected'', ''verified'', ''completed'', ''failed''])
               else None)
         else if name = ''joined_children''
         then Some ((case dget result ''children'' of JList xs \<Rightarrow> xs \<noteq> [] | _ \<Rightarrow> False) \<and>
                dget result ''pending_ids'' = JList [] \<and> no_error)
         else if name = ''child_task_status''
         then Some (dget result ''all_terminal'' = JBool True \<and>
                truthy (dget result ''children'') \<and> no_error)
         else if name \<in> set command_tools
         then (case command_name arguments of None \<Rightarrow> None
               | Some c \<Rightarrow> Some (c \<in> set terminal_reads \<and>
                   dget result ''exit_code'' \<in> {JInt 0, JBool False}))
         else Some (name \<in> set read_tools \<and> no_error))"

text \<open>Whether a call that is no terminal read counts as work.\<close>

definition counts_as_work :: "string \<Rightarrow> dict \<Rightarrow> dict \<Rightarrow> bool option" where
  "counts_as_work name arguments result =
     (if name \<in> set non_progress_tools \<or> dhas result ''error'' then Some False
      else if name \<notin> set command_tools then Some True
      else (case command_name arguments of None \<Rightarrow> None
            | Some c \<Rightarrow> Some (c \<in> set work_commands)))"

section \<open>Observing\<close>

datatype signal = StagnationWarning | RecoveryRequested | RecoveryExhausted

text \<open>\<open>_escalate\<close> under its own warning flag: \<open>unavailable\<close> tells which.\<close>

definition escalate :: "stagnation \<Rightarrow> int \<Rightarrow> bool \<Rightarrow> signal option \<times> stagnation" where
  "escalate s repeats unavailable =
     (if recovery_attempted s \<and> 8 \<le> repeats then
        (if exhausted s then (None, s) else (Some RecoveryExhausted, s\<lparr>exhausted := True\<rparr>))
      else if 8 \<le> repeats \<and> \<not> recovery_requested s \<and> \<not> recovery_attempted s
      then (Some RecoveryRequested, s\<lparr>recovery_requested := True\<rparr>)
      else if 4 \<le> repeats \<and> \<not> (if unavailable then unavailable_warned s else warned s)
      then (Some StagnationWarning,
            if unavailable then s\<lparr>unavailable_warned := True\<rparr> else s\<lparr>warned := True\<rparr>)
      else (None, s))"

text \<open>The last 64 of the work seen.\<close>

definition keep_last :: "nat \<Rightarrow> 'a list \<Rightarrow> 'a list" where
  "keep_last n xs = drop (length xs - n) xs"

definition note_work :: "string \<Rightarrow> stagnation \<Rightarrow> stagnation" where
  "note_work work s =
     (if work \<in> set (seen_work s) then s
      else s\<lparr>seen_work := keep_last max_fingerprints (seen_work s @ [work]),
             progress_epoch := progress_epoch s + 1, read_counts := [], warned := False,
             recovery_requested := False, recovery_attempted := False, exhausted := False\<rparr>)"

definition count_read :: "string \<Rightarrow> (string \<times> int) list \<Rightarrow> (string \<times> int) list" where
  "count_read fp counts =
     (let c = (if map_of counts fp = None \<and> length counts = max_fingerprints then tl counts
               else counts)
      in AList.update fp ((case map_of c fp of None \<Rightarrow> 0 | Some n \<Rightarrow> n) + 1) c)"

definition read_fingerprint :: "(json \<Rightarrow> string) \<Rightarrow> string \<Rightarrow> dict \<Rightarrow> dict \<Rightarrow> string" where
  "read_fingerprint h name arguments result =
     h (JObj [(''name'', JStr name), (''target'', JObj (read_target arguments)),
              (''result'', scientific (JObj result))])"

definition observe ::
  "(json \<Rightarrow> string) \<Rightarrow> string \<Rightarrow> dict \<Rightarrow> dict \<Rightarrow> stagnation \<Rightarrow> (signal option \<times> stagnation) option"
where
  "observe h name arguments result s =
     (if is_unavailable result then
        (let n = unavailable_calls s + 1 in Some (escalate (s\<lparr>unavailable_calls := n\<rparr>) n True))
      else case terminal_read name arguments result of
        None \<Rightarrow> None
      | Some False \<Rightarrow>
          (case counts_as_work name arguments result of
             None \<Rightarrow> None
           | Some w \<Rightarrow>
               Some (None, if w then note_work (work_identity h name arguments result) s else s))
      | Some True \<Rightarrow>
          (let fp = read_fingerprint h name arguments result;
               counts = count_read fp (read_counts s)
           in Some (escalate (s\<lparr>read_counts := counts\<rparr>) (the (map_of counts fp)) False)))"

definition successor_state :: "stagnation \<Rightarrow> stagnation" where
  "successor_state s =
     (let r = s\<lparr>unavailable_calls := 0, unavailable_warned := False\<rparr>
      in if recovery_requested r
         then r\<lparr>recovery_requested := False, recovery_attempted := True, read_counts := [],
                warned := False\<rparr>
         else r)"

section \<open>Sessions\<close>

text \<open>One native session after another, each a sequence of calls: the signals in order and the last
  state.\<close>

datatype session_event = Called string dict dict | NewSession

definition session_step ::
  "(json \<Rightarrow> string) \<Rightarrow> session_event \<Rightarrow> stagnation \<Rightarrow> (signal option \<times> stagnation) option"
where
  "session_step h e s =
     (case e of Called name arguments result \<Rightarrow> observe h name arguments result s
      | NewSession \<Rightarrow> Some (None, successor_state s))"

definition emitted :: "signal option \<Rightarrow> signal list" where
  "emitted sig = (case sig of None \<Rightarrow> [] | Some x \<Rightarrow> [x])"

lemma emitted_simps [simp]: "emitted None = []" "emitted (Some x) = [x]"
  by (simp_all add: emitted_def)

inductive watched ::
  "(json \<Rightarrow> string) \<Rightarrow> stagnation \<Rightarrow> session_event list \<Rightarrow> signal list \<Rightarrow> stagnation \<Rightarrow> bool"
  for h :: "json \<Rightarrow> string"
where
  idle: "watched h s [] [] s"
| call: "session_step h e s = Some (sig, t) \<Longrightarrow> watched h t events signals u \<Longrightarrow>
         watched h s (e # events) (emitted sig @ signals) u"

inductive_simps watched_simps:
  "watched h s [] signals u"
  "watched h s (e # events) signals u"

text \<open>The same run computed.\<close>

fun watch ::
  "(json \<Rightarrow> string) \<Rightarrow> stagnation \<Rightarrow> session_event list \<Rightarrow> (signal list \<times> stagnation) option"
where
  "watch h s [] = Some ([], s)"
| "watch h s (e # events) =
     (case session_step h e s of None \<Rightarrow> None
      | Some (sig, t) \<Rightarrow>
          (case watch h t events of None \<Rightarrow> None
           | Some (signals, u) \<Rightarrow> Some (emitted sig @ signals, u)))"

lemma watched_iff: "watched h s events signals u \<longleftrightarrow> watch h s events = Some (signals, u)"
  by (induction events arbitrary: s signals)
    (auto simp: watched_simps split: option.splits)

section \<open>The state stays valid\<close>

text \<open>What validation accepts, with the counters at most \<open>n\<close>.\<close>

definition stagnation_ok :: "int \<Rightarrow> stagnation \<Rightarrow> bool" where
  "stagnation_ok n s \<longleftrightarrow>
     0 \<le> progress_epoch s \<and> progress_epoch s \<le> n \<and>
     0 \<le> unavailable_calls s \<and> unavailable_calls s \<le> n \<and>
     length (read_counts s) \<le> max_fingerprints \<and> distinct (map fst (read_counts s)) \<and>
     (\<forall>(k, c) \<in> set (read_counts s). is_fingerprint k \<and> 1 \<le> c \<and> c \<le> n) \<and>
     length (seen_work s) \<le> max_fingerprints \<and> distinct (seen_work s) \<and>
     (\<forall>k \<in> set (seen_work s). is_fingerprint k)"

lemma all_of_map:
  "(\<And>x. x \<in> set xs \<Longrightarrow> f (g x) = Some x) \<Longrightarrow> all_of f (map g xs) = Some xs"
  by (induction xs) auto

lemma counts_of_dict:
  assumes "length xs \<le> max_fingerprints"
    and "\<forall>(k, c) \<in> set xs. is_fingerprint k \<and> 1 \<le> c \<and> c \<le> 1000000"
  shows "counts_of (JObj (map (\<lambda>(k, c). (k, JInt c)) xs)) = Some xs"
proof -
  have "all_of count_of (map (\<lambda>(k, c). (k, JInt c)) xs) = Some xs"
    by (rule all_of_map) (use assms(2) in \<open>auto simp: count_of_def int_within_def\<close>)
  then show ?thesis using assms(1) by (simp add: counts_of_def)
qed

lemma work_of_list:
  assumes "length xs \<le> max_fingerprints" "distinct xs" "\<forall>k \<in> set xs. is_fingerprint k"
  shows "work_of (strings xs) = Some xs"
proof -
  have "all_of seen_of (map JStr xs) = Some xs"
    by (rule all_of_map) (use assms(3) in \<open>auto simp: seen_of_def\<close>)
  then show ?thesis
    using assms(1,2) by (simp add: work_of_def strings_def distinct_map inj_on_def)
qed

lemma stagnation_ok_validates:
  assumes "stagnation_ok n s" "n \<le> 1000000"
  shows "validate_state (state_dict s) = Some s"
proof -
  have c: "counts_of (JObj (map (\<lambda>(k, c). (k, JInt c)) (read_counts s))) = Some (read_counts s)"
    by (rule counts_of_dict) (use assms in \<open>auto simp: stagnation_ok_def\<close>)
  have w: "work_of (strings (seen_work s)) = Some (seen_work s)"
    by (rule work_of_list) (use assms in \<open>auto simp: stagnation_ok_def\<close>)
  have keys: "list_all (\<lambda>(k, _). k \<in> set state_keys) (state_dict s)"
    by (simp add: state_dict_def state_keys_def)
  have reads:
    "dget_or (state_dict s) ''progress_epoch'' (JInt 0) = JInt (progress_epoch s)"
    "dget_or (state_dict s) ''read_counts'' (JObj []) =
       JObj (map (\<lambda>(k, c). (k, JInt c)) (read_counts s))"
    "dget_or (state_dict s) ''seen_work'' (JList []) = strings (seen_work s)"
    "dget_or (state_dict s) ''unavailable_calls'' (JInt 0) = JInt (unavailable_calls s)"
    "flag_of (state_dict s) ''warned'' = Some (warned s)"
    "flag_of (state_dict s) ''recovery_requested'' = Some (recovery_requested s)"
    "flag_of (state_dict s) ''recovery_attempted'' = Some (recovery_attempted s)"
    "flag_of (state_dict s) ''exhausted'' = Some (exhausted s)"
    "flag_of (state_dict s) ''unavailable_warned'' = Some (unavailable_warned s)"
    by (simp_all add: state_dict_def dget_or_def flag_of_def)
  have bounds: "int_within (JInt (progress_epoch s)) 0 = Some (progress_epoch s)"
    "int_within (JInt (unavailable_calls s)) 0 = Some (unavailable_calls s)"
    using assms by (auto simp: int_within_def stagnation_ok_def)
  show ?thesis
    by (simp add: validate_state_def keys reads bounds c w)
qed

lemma escalate_fields:
  assumes "escalate s n b = (sig, t)"
  shows "progress_epoch t = progress_epoch s \<and> read_counts t = read_counts s \<and>
    seen_work t = seen_work s \<and> unavailable_calls t = unavailable_calls s"
  using assms by (auto simp: escalate_def split: if_splits)

lemma stagnation_ok_mono: "stagnation_ok m s \<Longrightarrow> m \<le> n \<Longrightarrow> stagnation_ok n s"
  by (auto simp: stagnation_ok_def)

lemma stagnation_ok_escalate:
  "escalate s n b = (sig, t) \<Longrightarrow> stagnation_ok m s \<Longrightarrow> stagnation_ok m t"
  by (drule escalate_fields) (simp add: stagnation_ok_def)

lemma stagnation_ok_note_work:
  assumes "stagnation_ok n s" "is_fingerprint w" "0 \<le> n"
  shows "stagnation_ok (n + 1) (note_work w s)"
proof (cases "w \<in> set (seen_work s)")
  case True
  then show ?thesis using assms(1) by (simp add: note_work_def stagnation_ok_mono)
next
  case False
  have "set (keep_last max_fingerprints (seen_work s @ [w])) \<subseteq> insert w (set (seen_work s))"
    using set_drop_subset [of "length (seen_work s @ [w]) - max_fingerprints" "seen_work s @ [w]"]
    by (simp add: keep_last_def del: drop_append)
  moreover have "distinct (keep_last max_fingerprints (seen_work s @ [w]))"
    using assms(1) False by (auto simp: keep_last_def stagnation_ok_def distinct_drop simp del: drop_append)
  moreover have "length (keep_last max_fingerprints (seen_work s @ [w])) \<le> max_fingerprints"
    by (simp add: keep_last_def)
  ultimately show ?thesis
    using False assms by (auto simp: note_work_def stagnation_ok_def)
qed

lemma length_update_le:
  "length (AList.update k v xs) = (if k \<in> fst ` set xs then length xs else Suc (length xs))"
  by (induction xs) auto

lemma counts_tail:
  assumes "distinct (map fst xs)"
  shows "set (tl xs) \<subseteq> set xs" "distinct (map fst (tl xs))" "length (tl xs) \<le> length xs"
  using assms by (cases xs; auto)+

lemma stagnation_ok_count_read:
  assumes ok: "stagnation_ok n s" and fp: "is_fingerprint fp" and n: "0 \<le> n"
  shows "stagnation_ok (n + 1) (s\<lparr>read_counts := count_read fp (read_counts s)\<rparr>)"
proof -
  define c where "c = (if map_of (read_counts s) fp = None \<and> length (read_counts s) = max_fingerprints
    then tl (read_counts s) else read_counts s)"
  define k where "k = (case map_of c fp of None \<Rightarrow> 0 | Some m \<Rightarrow> m) + 1"
  have new: "count_read fp (read_counts s) = AList.update fp k c"
    by (simp add: count_read_def c_def k_def Let_def)
  have d: "distinct (map fst c)" and sub: "set c \<subseteq> set (read_counts s)"
    and len: "length c \<le> max_fingerprints"
    and room: "map_of c fp = None \<Longrightarrow> length c < max_fingerprints"
    using ok counts_tail [of "read_counts s"]
    by (auto simp: c_def stagnation_ok_def max_fingerprints_def split: if_splits)
  have each: "is_fingerprint x \<and> 1 \<le> m \<and> m \<le> n" if "(x, m) \<in> set c" for x m
    using that sub ok by (auto simp: stagnation_ok_def)
  have kb: "1 \<le> k \<and> k \<le> n + 1"
    using n by (auto simp: k_def dest!: map_of_SomeD dest: each split: option.splits)
  have "length (AList.update fp k c) \<le> max_fingerprints"
  proof (cases "map_of c fp")
    case None
    then have "fp \<notin> fst ` set c" by (simp add: map_of_eq_None_iff)
    then show ?thesis using room [OF None] by (simp add: length_update_le)
  next
    case (Some m)
    then have "fp \<in> fst ` set c" by (metis map_of_eq_None_iff option.distinct(1))
    then show ?thesis using len by (simp add: length_update_le)
  qed
  moreover have "is_fingerprint x \<and> 1 \<le> m \<and> m \<le> n + 1" if "(x, m) \<in> set (AList.update fp k c)" for x m
  proof -
    have "map_of (AList.update fp k c) x = Some m"
      using that d by (simp add: distinct_update)
    then show ?thesis
      using fp kb each by (fastforce simp: update_conv' split: if_splits dest: map_of_SomeD)
  qed
  ultimately show ?thesis
    using ok d by (auto simp: stagnation_ok_def new distinct_update)
qed

lemma stagnation_ok_observe:
  assumes h: "\<forall>v. is_fingerprint (h v)" and ok: "stagnation_ok n s" and n: "0 \<le> n"
    and step: "observe h name arguments result s = Some (sig, t)"
  shows "stagnation_ok (n + 1) t"
proof (cases "is_unavailable result")
  case True
  have "stagnation_ok (n + 1) (s\<lparr>unavailable_calls := unavailable_calls s + 1\<rparr>)"
    using ok by (auto simp: stagnation_ok_def)
  then show ?thesis
    using step True by (auto simp: observe_def Let_def elim: stagnation_ok_escalate)
next
  case available: False
  have work: "is_fingerprint (work_identity h name arguments result)"
    using h by (simp add: work_identity_def)
  have "is_fingerprint (read_fingerprint h name arguments result)"
    using h by (simp add: read_fingerprint_def)
  then have count: "stagnation_ok (n + 1) (s\<lparr>read_counts :=
      count_read (read_fingerprint h name arguments result) (read_counts s)\<rparr>)"
    by (rule stagnation_ok_count_read [OF ok _ n])
  show ?thesis
    using step available stagnation_ok_note_work [OF ok work n] count stagnation_ok_mono [OF ok]
    by (auto simp: observe_def Let_def elim: stagnation_ok_escalate split: option.splits bool.splits if_splits)
qed

lemma stagnation_ok_successor: "stagnation_ok n s \<Longrightarrow> stagnation_ok (n + 1) (successor_state s)"
  by (auto simp: stagnation_ok_def successor_state_def Let_def)

lemma stagnation_ok_step:
  "\<forall>v. is_fingerprint (h v) \<Longrightarrow> stagnation_ok n s \<Longrightarrow> 0 \<le> n \<Longrightarrow> session_step h e s = Some (sig, t) \<Longrightarrow>
   stagnation_ok (n + 1) t"
  by (cases e) (auto simp: session_step_def stagnation_ok_observe stagnation_ok_successor)

lemma stagnation_ok_watched:
  assumes "watched h s events signals u" "\<forall>v. is_fingerprint (h v)" "stagnation_ok n s" "0 \<le> n"
  shows "stagnation_ok (n + int (length events)) u"
  using assms
proof (induction arbitrary: n rule: watched.induct)
  case (call e s sig t events signals u)
  then have "stagnation_ok (n + 1) t" using stagnation_ok_step by blast
  then show ?case using call.IH [of "n + 1"] call.prems by (simp add: algebra_simps)
qed simp

text \<open>C30. What the harness stores after a session is a state it accepts again: after at most a million
  calls from a fresh state, under a hash that yields SHA-256 digests, reading the written dictionary
  back with \<open>validate_state\<close> succeeds and gives the state that was written. The 64 entry limits,
  the distinctness of the seen work and the counter bounds all hold by construction.\<close>

theorem stored_state_validates:
  assumes "watched h fresh_state events signals s" "\<forall>v. is_fingerprint (h v)"
    and "length events \<le> 1000000"
  shows "validate_state (state_dict s) = Some s"
proof -
  have "stagnation_ok 0 fresh_state"
    by (simp add: stagnation_ok_def fresh_state_def)
  then have "stagnation_ok (int (length events)) s"
    using stagnation_ok_watched [OF assms(1,2), of 0] by simp
  then show ?thesis using assms(3) by (intro stagnation_ok_validates) auto
qed

section \<open>The recovery ladder\<close>

text \<open>What an epoch still allows: one recovery request, one report that it is exhausted.\<close>

definition requests_left :: "stagnation \<Rightarrow> nat" where
  "requests_left s = (if recovery_requested s \<or> recovery_attempted s then 0 else 1)"

definition reports_left :: "stagnation \<Rightarrow> nat" where
  "reports_left s = (if exhausted s then 0 else 1)"

text \<open>A report a request has paid for.\<close>

definition reports_due :: "stagnation \<Rightarrow> nat" where
  "reports_due s = (if (recovery_requested s \<or> recovery_attempted s) \<and> \<not> exhausted s then 1 else 0)"

lemmas ladder_defs = requests_left_def reports_left_def reports_due_def

text \<open>A run spends what its epochs allow.\<close>

definition ladder_total :: "stagnation \<Rightarrow> signal list \<Rightarrow> stagnation \<Rightarrow> bool" where
  "ladder_total s signals u \<longleftrightarrow>
     int (count_list signals RecoveryRequested) + int (requests_left u) + progress_epoch s \<le>
       progress_epoch u + int (requests_left s) \<and>
     int (count_list signals RecoveryExhausted) + int (reports_left u) + progress_epoch s \<le>
       progress_epoch u + int (reports_left s) \<and>
     count_list signals RecoveryExhausted + reports_due u \<le>
       count_list signals RecoveryRequested + reports_due s"

abbreviation ladder_step :: "stagnation \<Rightarrow> signal option \<Rightarrow> stagnation \<Rightarrow> bool" where
  "ladder_step s sig t \<equiv> ladder_total s (emitted sig) t"

lemma ladder_escalate:
  "escalate s n b = (sig, t) \<Longrightarrow> ladder_step s sig t"
  by (cases "recovery_requested s"; cases "recovery_attempted s"; cases "exhausted s")
    (simp_all add: escalate_def ladder_total_def ladder_defs split: if_splits prod.splits, auto)

lemma ladder_successor: "ladder_step s None (successor_state s)"
  by (auto simp: successor_state_def ladder_total_def ladder_defs Let_def)

lemma ladder_note_work: "ladder_step s None (note_work w s)"
  by (auto simp: note_work_def ladder_total_def ladder_defs)

lemma ladder_start:
  "ladder_step (s\<lparr>unavailable_calls := n\<rparr>) sig t = ladder_step s sig t"
  "ladder_step (s\<lparr>read_counts := c\<rparr>) sig t = ladder_step s sig t"
  by (simp_all add: ladder_total_def ladder_defs)

lemma ladder_observe:
  assumes "observe h name arguments result s = Some (sig, t)"
  shows "ladder_step s sig t"
proof -
  have same: "ladder_step s None s" by (simp add: ladder_total_def)
  show ?thesis
    using assms same ladder_note_work
    by (auto simp: observe_def Let_def ladder_start dest!: ladder_escalate
        split: if_splits option.splits bool.splits)
qed

lemma ladder_session_step: "session_step h e s = Some (sig, t) \<Longrightarrow> ladder_step s sig t"
  using ladder_successor [of s]
  by (cases e) (auto simp: session_step_def ladder_observe simp del: emitted_simps)

lemma ladder_watched:
  assumes "watched h s events signals u"
  shows "int (count_list signals RecoveryRequested) + int (requests_left u) + progress_epoch s \<le>
      progress_epoch u + int (requests_left s)"
    and "int (count_list signals RecoveryExhausted) + int (reports_left u) + progress_epoch s \<le>
      progress_epoch u + int (reports_left s)"
    and "count_list signals RecoveryExhausted + reports_due u \<le>
      count_list signals RecoveryRequested + reports_due s"
proof -
  have "ladder_total s signals u" if "watched h s events signals u"
    using that
  proof (induction rule: watched.induct)
    case (call e s sig t events signals u)
    have "ladder_step s sig t" using call.hyps(1) by (rule ladder_session_step)
    then show ?case
      using call.IH by (simp add: ladder_total_def count_list_append)
  qed (simp add: ladder_total_def)
  with assms show
    "int (count_list signals RecoveryRequested) + int (requests_left u) + progress_epoch s \<le>
      progress_epoch u + int (requests_left s)"
    "int (count_list signals RecoveryExhausted) + int (reports_left u) + progress_epoch s \<le>
      progress_epoch u + int (reports_left s)"
    "count_list signals RecoveryExhausted + reports_due u \<le>
      count_list signals RecoveryRequested + reports_due s"
    by (simp_all add: ladder_total_def)
qed

text \<open>C22. Recovery is bounded by new work: over any calls and native sessions from a fresh state, the
  harness asks for a recovery at most once per progress epoch (an epoch starts only with work it has
  not seen), reports exhaustion at most once per epoch, and never reports more exhaustions than it
  asked for recoveries.\<close>

theorem recovery_is_bounded:
  assumes "watched h fresh_state events signals u"
  shows "int (count_list signals RecoveryRequested) \<le> progress_epoch u + 1 \<and>
    int (count_list signals RecoveryExhausted) \<le> progress_epoch u + 1 \<and>
    count_list signals RecoveryExhausted \<le> count_list signals RecoveryRequested"
  using ladder_watched [OF assms] by (simp add: fresh_state_def ladder_defs)

text \<open>A call whose terminal result is read again without change.\<close>

definition rereads :: "string \<Rightarrow> dict \<Rightarrow> dict \<Rightarrow> bool" where
  "rereads name arguments result \<longleftrightarrow>
     \<not> is_unavailable result \<and> terminal_read name arguments result = Some True"

definition reading :: "string \<Rightarrow> int \<Rightarrow> stagnation \<Rightarrow> stagnation" where
  "reading fp k s = s\<lparr>read_counts := if k = 0 then [] else [(fp, k)]\<rparr>"

lemma reread_step:
  fixes h :: "json \<Rightarrow> string"
  assumes "rereads name arguments result" "0 \<le> k"
  defines "fp \<equiv> read_fingerprint h name arguments result"
  shows "session_step h (Called name arguments result) (reading fp k s) =
    Some (escalate (reading fp (k + 1) s) (k + 1) False)"
  using assms
  by (auto simp: session_step_def rereads_def observe_def count_read_def Let_def reading_def
      max_fingerprints_def)

lemma escalate_reading:
  "escalate (reading fp k s) n b = (fst (escalate s n b), reading fp k (snd (escalate s n b)))"
  by (simp add: escalate_def reading_def)

lemma watch_reread:
  fixes h :: "json \<Rightarrow> string"
  assumes "rereads name arguments result" "0 \<le> k"
  defines "fp \<equiv> read_fingerprint h name arguments result"
  shows "watch h (reading fp k s) (Called name arguments result # events) =
    (case watch h (reading fp (k + 1) (snd (escalate s (k + 1) False))) events of None \<Rightarrow> None
     | Some (signals, u) \<Rightarrow> Some (emitted (fst (escalate s (k + 1) False)) @ signals, u))"
  using reread_step [OF assms(1,2), of h s] by (simp add: fp_def escalate_reading)

text \<open>The ladder of one unchanged read: eight reads of the same terminal result give a warning at
  the fourth and one recovery request at the eighth; in the next native session the same eight reads
  warn again and then report exhaustion, and further reads are silent.\<close>

theorem unchanged_reads_escalate:
  assumes "rereads name arguments result"
  shows "\<exists>s u. watched h fresh_state (replicate 8 (Called name arguments result))
      [StagnationWarning, RecoveryRequested] s \<and>
    watched h s (NewSession # replicate 9 (Called name arguments result))
      [StagnationWarning, RecoveryExhausted] u"
proof -
  define fp where "fp = read_fingerprint h name arguments result"
  note run = watch_reread [OF assms, where h = h, folded fp_def] escalate_def numeral_eq_Suc
  define s where "s = reading fp 8 (fresh_state\<lparr>warned := True, recovery_requested := True\<rparr>)"
  have start: "fresh_state = reading fp 0 fresh_state"
    by (simp add: reading_def fresh_state_def)
  have first: "watch h fresh_state (replicate 8 (Called name arguments result)) =
      Some ([StagnationWarning, RecoveryRequested], s)"
    by (subst start) (simp add: run fresh_state_def s_def del: watch.simps(2))
  define t where "t = fresh_state\<lparr>recovery_attempted := True\<rparr>"
  have next_session: "session_step h NewSession s = Some (None, reading fp 0 t)"
    by (simp add: session_step_def successor_state_def s_def t_def reading_def fresh_state_def)
  have second: "watch h (reading fp 0 t) (replicate 9 (Called name arguments result)) =
      Some ([StagnationWarning, RecoveryExhausted],
            reading fp 9 (t\<lparr>warned := True, exhausted := True\<rparr>))"
    by (simp add: run t_def fresh_state_def del: watch.simps(2))
  show ?thesis
    using first second next_session by (auto simp: watched_iff)
qed

lemma unchanged_reads_escalate_witness:
  "\<exists>s u. watched (\<lambda>_. replicate 64 CHR ''a'') fresh_state (replicate 8 (Called ''read_file'' [] []))
      [StagnationWarning, RecoveryRequested] s \<and>
    watched (\<lambda>_. replicate 64 CHR ''a'') s (NewSession # replicate 9 (Called ''read_file'' [] []))
      [StagnationWarning, RecoveryExhausted] u"
proof -
  have "rereads ''read_file'' [] []" by code_simp
  then show ?thesis by (rule unchanged_reads_escalate)
qed

text \<open>A session of eight reads of a source, then another with some work and eight more.\<close>

definition sample_session :: "session_event list" where
  "sample_session = replicate 8 (Called ''read_source'' [] []) @ [NewSession] @
     [Called ''shell'' [(''argv'', JList [JStr ''/usr/bin/lake'', JStr ''build''])] [(''exit_code'', JInt 0)]] @
     replicate 8 (Called ''read_source'' [] [])"

definition sample_hash :: "json \<Rightarrow> string" where
  "sample_hash v = replicate 64 (if v = JNull then CHR ''a'' else CHR ''b'')"

lemma sample_session_watched: "\<exists>signals u. watched sample_hash fresh_state sample_session signals u"
proof -
  have "watch sample_hash fresh_state sample_session \<noteq> None" by code_simp
  then show ?thesis by (auto simp: watched_iff)
qed

lemma sample_hash_ok: "\<forall>v. is_fingerprint (sample_hash v)"
  by (simp add: sample_hash_def is_fingerprint_def list_all_iff)

lemma stored_state_validates_witness:
  "\<exists>signals s. watched sample_hash fresh_state sample_session signals s \<and>
    validate_state (state_dict s) = Some s"
proof -
  obtain signals s where w: "watched sample_hash fresh_state sample_session signals s"
    using sample_session_watched by blast
  have "length sample_session \<le> 1000000" by (simp add: sample_session_def)
  from stored_state_validates [OF w sample_hash_ok this] w show ?thesis by blast
qed

lemma recovery_is_bounded_witness:
  "\<exists>signals u. watched sample_hash fresh_state sample_session signals u \<and>
    count_list signals RecoveryExhausted \<le> count_list signals RecoveryRequested"
proof -
  obtain signals u where w: "watched sample_hash fresh_state sample_session signals u"
    using sample_session_watched by blast
  from recovery_is_bounded [OF w] w show ?thesis by blast
qed

end
