(* ===== verification/Subscriptions.thy ===== *)
theory Subscriptions
  imports Commands
begin

text \<open>
  Society experiments and discussion readers: the society policy of an experiment
  (\<open>commons.py\<close>), when a node's status is open (\<open>commons_models.py\<close>), referee branches
  (\<open>commons_review.py\<close>), topics and a reader's subscriptions (\<open>discussion.py\<close>). A reader has a key,
  \<open>branch:<id>\<close> or \<open>actor:<id>\<close>, one subscription record per topic and at most 100 active ones.
\<close>

section \<open>Society experiments\<close>

definition platform :: "string \<Rightarrow> principal" where
  "platform project =
     \<lparr>pr_id = ''commons-platform'', pr_project = project, pr_role = Operator,
      pr_experiment = None, pr_branch = None, pr_orchestrator = False\<rparr>"

definition legacy_open_statuses :: "string list" where
  "legacy_open_statuses = [''informal'', ''refereed'', ''formally_stated'', ''compiles_locally'']"

definition public_status :: "json \<Rightarrow> json" where
  "public_status s = (if in_strings s legacy_open_statuses then JStr ''open'' else s)"

definition is_open :: "json \<Rightarrow> bool" where
  "is_open s \<longleftrightarrow> public_status s = JStr ''open''"

definition commons_experiment :: "world \<Rightarrow> json \<Rightarrow> principal \<Rightarrow> bool \<Rightarrow> herr + row" where
  "commons_experiment w experiment_id actor must_be_active =
     bindE (get_row w Experiment experiment_id actor) (\<lambda>experiment.
     if \<not> truthy (field experiment ''society'') \<or> field experiment ''sharing'' \<noteq> JStr ''ideas''
     then Inl (fail ''SOCIETY_DISABLED'' 409)
     else if must_be_active
     then bindE (active w experiment_id actor) (\<lambda>_. Inr experiment)
     else Inr experiment)"

definition commons_node :: "world \<Rightarrow> json \<Rightarrow> principal \<Rightarrow> json \<Rightarrow> herr + row" where
  "commons_node w node_id actor experiment_id =
     bindE (get_row w CommonsNode node_id actor) (\<lambda>row.
     if field row ''experiment_id'' \<noteq> experiment_id then Inl (fail ''NOT_FOUND'' 404)
     else Inr row)"

definition is_referee_branch :: "world \<Rightarrow> json \<Rightarrow> bool" where
  "is_referee_branch w branch_id =
     (case (if truthy branch_id then find_json w branch_id else None) of
        None \<Rightarrow> False
      | Some branch \<Rightarrow> r_kind branch = Branch \<and> field branch ''hat'' = referee_hat)"

section \<open>Readers and topics\<close>

definition branch_key :: "string \<Rightarrow> string" where
  "branch_key b = ''branch:'' @ b"

definition discussion_reader_key :: "principal \<Rightarrow> herr + string" where
  "discussion_reader_key actor =
     (if pr_role actor = Agent then
        (if \<not> opt_true (pr_branch actor) \<or> pr_orchestrator actor
         then Inl (fail ''BRANCH_AUTHORITY'' 403)
         else Inr (branch_key (the (pr_branch actor))))
      else Inr (''actor:'' @ pr_id actor))"

definition discussion_experiment :: "world \<Rightarrow> json \<Rightarrow> principal \<Rightarrow> herr + (row \<times> row)" where
  "discussion_experiment w experiment_id actor =
     bindE (get_row w Experiment experiment_id actor) (\<lambda>experiment.
     bindE (need experiment ''problem_id'') (\<lambda>problem_id.
     case find_json w problem_id of
       None \<Rightarrow> Inl (fail ''TARGET_CHANGED'' 409)
     | Some target \<Rightarrow>
         if r_project target \<noteq> pr_project actor \<or> r_kind target \<noteq> Problem \<or>
            field target ''target_digest'' \<noteq> field experiment ''target_digest''
         then Inl (fail ''TARGET_CHANGED'' 409) else Inr (experiment, target)))"

definition discussion_pins :: "row \<Rightarrow> row \<Rightarrow> herr + dict" where
  "discussion_pins experiment target =
     bindE (need experiment ''target_digest'') (\<lambda>digest.
     bindE (need target ''environment_digest'') (\<lambda>environment.
     Inr [(''problem_revision_id'', JStr (r_id target)), (''target_digest'', digest),
          (''environment_digest'', environment)]))"

definition discussion_topic :: "world \<Rightarrow> json \<Rightarrow> principal \<Rightarrow> herr + (row \<times> row \<times> row)" where
  "discussion_topic w topic_id actor =
     bindE (get_row w DiscussionTopic topic_id actor) (\<lambda>topic.
     bindE (need topic ''experiment_id'') (\<lambda>e.
     bindE (discussion_experiment w e actor) (\<lambda>(experiment, target).
     bindE (discussion_pins experiment target) (\<lambda>pins.
     if \<exists>(k, v) \<in> set pins. field topic k \<noteq> v then Inl (fail ''TARGET_CHANGED'' 409)
     else Inr (topic, experiment, target)))))"

definition max_sequence :: "world \<Rightarrow> int" where
  "max_sequence w = foldr (\<lambda>e m. max (e_sequence e) m) (events w) 0"

section \<open>Subscriptions\<close>

definition max_subscriptions :: nat where "max_subscriptions = 100"

definition of_reader :: "string \<Rightarrow> json \<Rightarrow> string \<Rightarrow> row \<Rightarrow> bool" where
  "of_reader project experiment_id reader_key r \<longleftrightarrow>
     r_project r = project \<and> r_kind r = DiscussionSubscription \<and>
     field r ''experiment_id'' = experiment_id \<and> field r ''reader_key'' = JStr reader_key"

definition subscribed_rows :: "string \<Rightarrow> json \<Rightarrow> string \<Rightarrow> world \<Rightarrow> row list" where
  "subscribed_rows project experiment_id reader_key w =
     select_rows (\<lambda>r. of_reader project experiment_id reader_key r \<and>
                      field r ''subscribed'' = JBool True) w"

definition prior_subscription :: "string \<Rightarrow> json \<Rightarrow> string \<Rightarrow> string \<Rightarrow> world \<Rightarrow> row option" where
  "prior_subscription project experiment_id reader_key topic_id w =
     find (\<lambda>r. of_reader project experiment_id reader_key r \<and> field r ''topic_id'' = JStr topic_id)
       (records w)"

text \<open>Writing the subscription: over the prior record or as a new one.\<close>

definition write_subscription ::
  "row \<Rightarrow> json \<Rightarrow> string \<Rightarrow> string option \<Rightarrow> row option \<Rightarrow> bool \<Rightarrow> principal \<Rightarrow> world \<Rightarrow>
   herr + (dict \<times> world)"
where
  "write_subscription topic experiment_id reader_key branch_id prior subscribed actor w =
     (case prior of
        Some p \<Rightarrow>
          bindE (if subscribed then Inr (JInt (max_sequence w)) else need p ''start_sequence'')
            (\<lambda>start. replace_row w p
               [(''subscribed'', JBool subscribed), (''start_sequence'', start)] None)
      | None \<Rightarrow>
          insert_row w DiscussionSubscription actor
            [(''experiment_id'', experiment_id), (''topic_id'', JStr (r_id topic)),
             (''reader_key'', JStr reader_key),
             (''branch_id'', if opt_true branch_id then jopt branch_id else jopt (pr_branch actor)),
             (''subscribed'', JBool subscribed), (''start_sequence'', JInt (max_sequence w))] None)"

definition subscription_unchanged :: "row option \<Rightarrow> bool \<Rightarrow> herr + bool" where
  "subscription_unchanged prior subscribed =
     (case prior of None \<Rightarrow> Inr False
      | Some p \<Rightarrow> bindE (need p ''subscribed'') (\<lambda>state. Inr (state = JBool subscribed)))"

text \<open>The part after the prior record is read.\<close>

definition change_subscription ::
  "string \<Rightarrow> row \<Rightarrow> json \<Rightarrow> string \<Rightarrow> string option \<Rightarrow> row option \<Rightarrow> bool \<Rightarrow> principal \<Rightarrow> world \<Rightarrow>
   herr + (dict \<times> world)"
where
  "change_subscription op topic experiment_id reader_key branch_id prior subscribed actor w =
     bindE (subscription_unchanged prior subscribed) (\<lambda>unchanged.
     if unchanged then Inr (r_payload (the prior), w)
     else if subscribed \<and>
       max_subscriptions \<le> length (subscribed_rows (r_project topic) experiment_id reader_key w)
     then Inl (fail ''SUBSCRIPTION_LIMIT'' 422)
     else bindE (write_subscription topic experiment_id reader_key branch_id prior subscribed actor w)
       (\<lambda>(result, w1).
       Inr (result, emit actor op ''discussion.subscription_changed'' (r_id topic)
         [(''experiment_id'', experiment_id), (''subscribed'', JBool subscribed)] False w1)))"

definition set_subscription ::
  "string \<Rightarrow> row \<Rightarrow> string option \<Rightarrow> bool \<Rightarrow> principal \<Rightarrow> world \<Rightarrow> herr + (dict \<times> world)"
where
  "set_subscription op topic branch_id subscribed actor w =
     (if subscribed \<and>
         is_referee_branch w (jor (jopt branch_id) (jopt (pr_branch actor)))
      then Inl (fail ''REFEREE_ISOLATED'' 403)
      else bindE (need topic ''experiment_id'') (\<lambda>experiment_id.
        bindE (if opt_true branch_id then Inr (branch_key (the branch_id))
               else discussion_reader_key actor) (\<lambda>reader_key.
        change_subscription op topic experiment_id reader_key branch_id
          (prior_subscription (r_project topic) experiment_id reader_key (r_id topic) w)
          subscribed actor w)))"

definition discussion_reader :: "world \<Rightarrow> json \<Rightarrow> string \<Rightarrow> principal \<Rightarrow> row option" where
  "discussion_reader w experiment_id reader_key actor =
     find (\<lambda>r. r_project r = pr_project actor \<and> r_kind r = DiscussionReader \<and>
               field r ''experiment_id'' = experiment_id \<and>
               field r ''reader_key'' = JStr reader_key) (records w)"

text \<open>\<open>_discussion_reader(..., create=True)\<close>.\<close>

definition ensure_reader ::
  "json \<Rightarrow> string \<Rightarrow> principal \<Rightarrow> world \<Rightarrow> herr + (dict \<times> world)" where
  "ensure_reader experiment_id reader_key actor w =
     (case discussion_reader w experiment_id reader_key actor of
        Some r \<Rightarrow> Inr (r_payload r, w)
      | None \<Rightarrow>
          insert_row w DiscussionReader actor
            [(''experiment_id'', experiment_id), (''reader_key'', JStr reader_key),
             (''ack_sequence'', JInt 0), (''pending_delivery_id'', JNull)] None)"

definition subscribe_action :: "string \<Rightarrow> bool \<Rightarrow> principal \<Rightarrow> action" where
  "subscribe_action topic_id subscribed actor op w =
     bindE (discussion_topic w (JStr topic_id) actor) (\<lambda>(topic, experiment, _).
     bindE (discussion_reader_key actor) (\<lambda>reader_key.
     bindE (ensure_reader (JStr (r_id experiment)) reader_key actor w) (\<lambda>(reader, w1).
     if truthy (dget reader ''pending_delivery_id'') then Inl (fail ''DELIVERY_PENDING'' 409)
     else set_subscription op topic None subscribed actor w1)))"

definition subscribe_discussion ::
  "int \<Rightarrow> string \<Rightarrow> bool \<Rightarrow> principal \<Rightarrow> string \<Rightarrow> world \<Rightarrow> herr + (dict \<times> world)" where
  "subscribe_discussion elapsed topic_id subscribed actor key w =
     bindE (research_role actor) (\<lambda>_.
     execute elapsed actor key ''discussion.subscribe''
       (JObj [(''topic_id'', JStr topic_id), (''subscribed'', JBool subscribed)])
       (subscribe_action topic_id subscribed actor) w)"

section \<open>Automatic subscriptions\<close>

text \<open>\<open>_try_subscribe\<close>: only the limit is swallowed.\<close>

definition try_subscribe ::
  "string \<Rightarrow> row \<Rightarrow> string \<Rightarrow> principal \<Rightarrow> world \<Rightarrow> herr + (bool \<times> world)" where
  "try_subscribe op topic branch_id writer w =
     (case set_subscription op topic (Some branch_id) True writer w of
        Inr (_, w1) \<Rightarrow> Inr (True, w1)
      | Inl e \<Rightarrow>
          (case e of Harness code st re \<Rightarrow>
             if code = ''SUBSCRIPTION_LIMIT'' then Inr (False, w) else Inl e
           | _ \<Rightarrow> Inl e))"

section \<open>What subscribing leaves alone\<close>

lemma change_subscription_only:
  assumes "change_subscription op topic e k b prior subscribed actor w = Inr (record, w')"
  shows "only_records w w'"
  using assms
  by (auto simp: change_subscription_def write_subscription_def bindE_Inr_iff
      split: if_splits option.splits dest: only_records_writes)

lemma set_subscription_only:
  assumes "set_subscription op topic b subscribed actor w = Inr (record, w')"
  shows "only_records w w'"
  using assms change_subscription_only
  unfolding set_subscription_def if_Inl_Inr_iff bindE_Inr_iff by blast

lemma try_subscribe_only:
  assumes "try_subscribe op topic b writer w = Inr (x, w')"
  shows "only_records w w'"
  using assms set_subscription_only
  by (auto simp: try_subscribe_def split: sum.splits herr.splits if_splits)

section \<open>At most a hundred subscriptions\<close>

text \<open>The key a subscription counts for, and the room a key has.\<close>

definition counts_for :: "string \<Rightarrow> json \<Rightarrow> string \<Rightarrow> row \<Rightarrow> bool" where
  "counts_for project experiment_id reader_key r \<longleftrightarrow>
     of_reader project experiment_id reader_key r \<and> field r ''subscribed'' = JBool True"

definition subscriptions_ok :: "world \<Rightarrow> bool" where
  "subscriptions_ok w \<longleftrightarrow>
     records_ok w \<and> (\<forall>p e k. length (subscribed_rows p e k w) \<le> max_subscriptions)"

lemma length_filter_put_row:
  assumes "distinct (map key rows)"
  shows "length (filter P (put_row key r rows)) \<le> length (filter P rows) + (if P r then 1 else 0)"
    and "lookup_row key (key r) rows = Some r0 \<Longrightarrow> P r0 \<Longrightarrow>
      length (filter P (put_row key r rows)) \<le> length (filter P rows)"
proof -
  let ?f = "\<lambda>x. if P x then 1 else (0 :: int)"
  have count: "int (length (filter P xs)) = sum_list (map ?f xs)" for xs
    by (induction xs) auto
  show "length (filter P (put_row key r rows)) \<le> length (filter P rows) + (if P r then 1 else 0)"
  proof (cases "lookup_row key (key r) rows")
    case None
    then have "key r \<notin> key ` set rows" by (simp add: lookup_row_None_iff)
    then show ?thesis by (simp add: put_row_def)
  next
    case (Some r1)
    have "int (length (filter P (put_row key r rows))) = int (length (filter P rows)) - ?f r1 + ?f r"
      unfolding count using assms Some by (rule sum_list_put_row_old)
    then show ?thesis by (auto split: if_splits)
  qed
  assume "lookup_row key (key r) rows = Some r0" "P r0"
  then have "int (length (filter P (put_row key r rows))) = int (length (filter P rows)) - 1 + ?f r"
    unfolding count using sum_list_put_row_old [OF assms, of r r0 ?f] by simp
  then show "length (filter P (put_row key r rows)) \<le> length (filter P rows)"
    by (auto split: if_splits)
qed

lemma subscribed_set_row:
  assumes "records_ok w"
  shows "length (subscribed_rows p e k (set_row r w)) \<le>
      length (subscribed_rows p e k w) + (if counts_for p e k r then 1 else 0)"
    and "find_row w (r_id r) = Some r0 \<Longrightarrow> counts_for p e k r0 \<Longrightarrow>
      length (subscribed_rows p e k (set_row r w)) \<le> length (subscribed_rows p e k w)"
  using length_filter_put_row [where key = r_id and rows = "records w" and P = "counts_for p e k"]
    assms
  by (auto simp: subscribed_rows_def select_rows_def set_row_def records_ok_def find_row_def
      simp flip: counts_for_def)

lemma subscriptions_ok_same: "same_tables a b \<Longrightarrow> subscriptions_ok a \<Longrightarrow> subscriptions_ok b"
  by (simp add: subscriptions_ok_def records_ok_def subscribed_rows_def select_rows_def
      same_tables_def)

lemma subscriptions_ok_emit [simp]:
  "subscriptions_ok (emit a op kd ag pl d w) = subscriptions_ok w"
  by (simp add: subscriptions_ok_def records_ok_def subscribed_rows_def select_rows_def)

lemma subscriptions_ok_new_id [simp]: "subscriptions_ok (snd (new_id w)) = subscriptions_ok w"
  by (simp add: subscriptions_ok_def records_ok_def subscribed_rows_def select_rows_def)

lemma subscriptions_ok_set_row:
  assumes "subscriptions_ok w" "row_ok r"
    and "\<And>p e k. counts_for p e k r \<Longrightarrow>
      length (subscribed_rows p e k w) < max_subscriptions \<or>
      (\<exists>r0. find_row w (r_id r) = Some r0 \<and> counts_for p e k r0)"
  shows "subscriptions_ok (set_row r w)"
proof -
  have ok: "records_ok w" using assms(1) by (simp add: subscriptions_ok_def)
  have "length (subscribed_rows p e k (set_row r w)) \<le> max_subscriptions" for p e k
  proof (cases "counts_for p e k r")
    case True
    from assms(3) [OF True] show ?thesis
    proof
      assume "length (subscribed_rows p e k w) < max_subscriptions"
      then show ?thesis using subscribed_set_row(1) [OF ok, of p e k r] True by simp
    next
      assume "\<exists>r0. find_row w (r_id r) = Some r0 \<and> counts_for p e k r0"
      then show ?thesis using subscribed_set_row(2) [OF ok] assms(1)
        by (meson le_trans subscriptions_ok_def)
    qed
  next
    case False
    then show ?thesis
      using subscribed_set_row(1) [OF ok, of p e k r] assms(1)
      by (auto simp: subscriptions_ok_def intro: le_trans)
  qed
  then show ?thesis using records_ok_set_row [OF ok assms(2)] by (simp add: subscriptions_ok_def)
qed

text \<open>Records of every other kind leave the count alone.\<close>

lemma insert_row_subscriptions:
  assumes "insert_row w k actor data rid = Inr (record, w')" "subscriptions_ok w"
    and "k = DiscussionSubscription \<Longrightarrow>
      dget data ''subscribed'' = JBool True \<Longrightarrow> dget data ''reader_key'' = JStr key \<Longrightarrow>
      length (subscribed_rows (pr_project actor) (dget data ''experiment_id'') key w)
        < max_subscriptions"
    and "k = DiscussionSubscription \<Longrightarrow> dget data ''reader_key'' = JStr key"
  shows "subscriptions_ok w'"
proof (rule insert_row_InrE [OF assms(1)])
  let ?r = "\<lparr>r_id = inserted_id w rid, r_project = pr_project actor, r_kind = k, r_rev = 1,
             r_payload = record\<rparr>"
  fix d
  assume recd: "record = inserted_record w k actor d rid"
    and w': "w' = set_row ?r (snd (new_id w))"
  note fields = insert_row_data [OF assms(1)]
  have "row_ok ?r" by (simp add: row_ok_def recd)
  moreover have "length (subscribed_rows p e x (snd (new_id w))) < max_subscriptions"
    if "counts_for p e x ?r" for p e x
  proof -
    have "k = DiscussionSubscription" "p = pr_project actor" "e = dget data ''experiment_id''"
      "dget data ''reader_key'' = JStr x" "dget data ''subscribed'' = JBool True"
      using that fields by (auto simp: counts_for_def of_reader_def)
    then show ?thesis
      using assms(3,4) by (simp add: subscribed_rows_def select_rows_def)
  qed
  ultimately show ?thesis unfolding w' using assms(2)
    by (intro subscriptions_ok_set_row) auto
qed

lemma replace_row_subscriptions:
  assumes "replace_row w row vals e = Inr (record, w')" "subscriptions_ok w"
    and "find_row w (r_id row) = Some row" "fst ` set vals \<inter> set identity_fields = {}"
    and "r_kind row \<noteq> DiscussionSubscription"
  shows "subscriptions_ok w'"
proof -
  have ok: "records_ok w'"
    using replace_row_records_ok [OF assms(1) _ assms(3,4)] assms(2)
    by (simp add: subscriptions_ok_def)
  obtain stored where s: "find_row w (r_id row) = Some stored"
    "w' = set_row (stored\<lparr>r_rev := r_rev row + 1, r_payload := record\<rparr>) w"
    by (rule replace_row_InrE [OF assms(1)])
  define r where "r = stored\<lparr>r_rev := r_rev row + 1, r_payload := record\<rparr>"
  have r: "r_kind r = r_kind row" "w' = set_row r w" using s assms(3) by (simp_all add: r_def)
  have "length (subscribed_rows p x k w') \<le> length (subscribed_rows p x k w)" for p x k
    using subscribed_set_row(1) [of w p x k r] assms(2,5) r
    by (auto simp: subscriptions_ok_def counts_for_def of_reader_def)
  then show ?thesis using ok assms(2) unfolding subscriptions_ok_def by (meson le_trans)
qed

text \<open>The write itself keeps the bound when there is room, or when it unsubscribes.\<close>

lemma prior_subscription_SomeD:
  assumes "prior_subscription project e k topic w = Some p" "records_ok w"
  shows "of_reader project e k p" "find_row w (r_id p) = Some p"
proof -
  from find_SomeD [OF assms(1) [unfolded prior_subscription_def]]
  have "p \<in> set (records w)" "of_reader project e k p" by simp_all
  then show "of_reader project e k p" "find_row w (r_id p) = Some p"
    using assms(2) lookup_row_distinct [of r_id "records w" p]
    by (simp_all add: records_ok_def find_row_def)
qed

lemma write_subscription_ok:
  assumes run: "write_subscription topic e k branch_id
        (prior_subscription project e k (r_id topic) w) subscribed actor w = Inr (record, w')"
    and ok: "subscriptions_ok w" and project: "project = pr_project actor"
    and room: "subscribed \<Longrightarrow> length (subscribed_rows project e k w) < max_subscriptions"
  shows "subscriptions_ok w'"
proof (cases "prior_subscription project e k (r_id topic) w")
  case None
  then show ?thesis
    using run insert_row_subscriptions [OF _ ok] room project
    by (force simp: write_subscription_def)
next
  case (Some p)
  have recs: "records_ok w" using ok by (simp add: subscriptions_ok_def)
  note p = prior_subscription_SomeD [OF Some recs]
  from run Some obtain start where rep: "replace_row w p
      [(''subscribed'', JBool subscribed), (''start_sequence'', start)] None = Inr (record, w')"
    by (auto simp: write_subscription_def bindE_Inr_iff)
  have new: "dget record ''subscribed'' = JBool subscribed"
    "dget record ''experiment_id'' = e" "dget record ''reader_key'' = JStr k"
    using dget_replacement [OF rep] p(1) by (auto simp: of_reader_def)
  obtain stored where "find_row w (r_id p) = Some stored"
      "w' = set_row (stored\<lparr>r_rev := r_rev p + 1, r_payload := record\<rparr>) w"
    by (rule replace_row_InrE [OF rep])
  then have w': "w' = set_row (p\<lparr>r_rev := r_rev p + 1, r_payload := record\<rparr>) w"
    using p(2) by simp
  have "records_ok w'"
    by (rule replace_row_records_ok [OF rep recs p(2)]) (simp add: identity_fields_def)
  then have "row_ok (p\<lparr>r_rev := r_rev p + 1, r_payload := record\<rparr>)"
    using find_row_in [of w' "r_id p"] unfolding w' by (fastforce simp: records_ok_def)
  then show ?thesis unfolding w' using room new p(1)
    by (intro subscriptions_ok_set_row [OF ok]) (auto simp: counts_for_def of_reader_def)
qed

lemma change_subscription_ok:
  assumes run: "change_subscription op topic e k branch_id
        (prior_subscription (r_project topic) e k (r_id topic) w) subscribed actor w = Inr (record, w')"
    and ok: "subscriptions_ok w" and project: "r_project topic = pr_project actor"
  shows "subscriptions_ok w'"
proof -
  let ?prior = "prior_subscription (r_project topic) e k (r_id topic) w"
  obtain unchanged where "subscription_unchanged ?prior subscribed = Inr unchanged"
    using run by (auto simp only: change_subscription_def bindE_Inr_iff)
  show ?thesis
  proof (cases unchanged)
    case True
    then show ?thesis
      using run ok \<open>subscription_unchanged ?prior subscribed = Inr unchanged\<close>
      by (simp add: change_subscription_def)
  next
    case False
    then obtain w1 where
      "write_subscription topic e k branch_id ?prior subscribed actor w = Inr (record, w1)"
      and "subscribed \<Longrightarrow> length (subscribed_rows (r_project topic) e k w) < max_subscriptions"
      and "subscriptions_ok w' = subscriptions_ok w1"
      using run \<open>subscription_unchanged ?prior subscribed = Inr unchanged\<close>
      by (auto simp: change_subscription_def bindE_Inr_iff split: if_splits)
    then show ?thesis using write_subscription_ok [OF _ ok project] by auto
  qed
qed

lemma set_subscription_ok:
  assumes "set_subscription op topic branch_id subscribed actor w = Inr (record, w')"
    and "subscriptions_ok w" and "r_project topic = pr_project actor"
  shows "subscriptions_ok w'"
proof -
  obtain e k where "change_subscription op topic e k branch_id
      (prior_subscription (r_project topic) e k (r_id topic) w) subscribed actor w = Inr (record, w')"
    using assms(1) unfolding set_subscription_def if_Inl_Inr_iff bindE_Inr_iff by blast
  then show ?thesis using change_subscription_ok assms(2,3) by blast
qed

lemma ensure_reader_ok:
  assumes "ensure_reader e k actor w = Inr (record, w')" "subscriptions_ok w"
  shows "subscriptions_ok w'"
  using assms insert_row_subscriptions [OF _ assms(2)]
  by (fastforce simp: ensure_reader_def split: option.splits)

lemma try_subscribe_ok:
  assumes "try_subscribe op topic b writer w = Inr (x, w')" "subscriptions_ok w"
    and "r_project topic = pr_project writer"
  shows "subscriptions_ok w'"
proof (cases "set_subscription op topic (Some b) True writer w")
  case (Inl e)
  then show ?thesis using assms by (cases e) (auto simp: try_subscribe_def split: if_splits)
next
  case (Inr r)
  then show ?thesis using assms set_subscription_ok [of op topic "Some b" True writer w]
    by (cases r) (auto simp: try_subscribe_def)
qed

lemma subscribe_action_ok:
  assumes "subscribe_action topic_id subscribed actor op w = Inr (record, w')" "subscriptions_ok w"
  shows "subscriptions_ok w'"
proof -
  obtain topic ex tgt k reader w1 where
    t: "discussion_topic w (JStr topic_id) actor = Inr (topic, ex, tgt)"
    and r: "ensure_reader (JStr (r_id ex)) k actor w = Inr (reader, w1)"
    and s: "set_subscription op topic None subscribed actor w1 = Inr (record, w')"
    using assms(1) by (auto simp: subscribe_action_def bindE_Inr_iff split: if_splits)
  have "r_project topic = pr_project actor"
    using t by (auto simp: discussion_topic_def bindE_Inr_iff split: if_splits dest: get_row_InrD)
  then show ?thesis using set_subscription_ok [OF s] ensure_reader_ok [OF r assms(2)] by simp
qed

end
