(* ===== verification/Claims.thy ===== *)
theory Claims
  imports Subscriptions Money
begin

text \<open>
  Work claims on commons nodes and the automatic subscriptions that go with them
  (\<open>commons_discourse.py\<close>). A claim is one record per node and branch; it is live while it is not
  released and its \<open>expires_at\<close> lies ahead of the clock, and a time box caps every renewal.
\<close>

section \<open>Reading claims\<close>

definition max_live_claims :: nat where "max_live_claims = 1000"

definition later_than :: "json \<Rightarrow> int \<Rightarrow> bool" where
  "later_than v t = (case v of JTime e \<Rightarrow> t < e | _ \<Rightarrow> False)"

text \<open>\<open>_claim_live\<close>; a missing field is a \<open>KeyError\<close>, an expiry that is no time a type error.\<close>

definition claim_live :: "row \<Rightarrow> int \<Rightarrow> herr + bool" where
  "claim_live claim t =
     bindE (need claim ''released'') (\<lambda>released.
     if truthy released then Inr False
     else bindE (need claim ''expires_at'') (\<lambda>e.
     case e of JTime x \<Rightarrow> Inr (t < x) | _ \<Rightarrow> Inl (ValueError ''expires_at'')))"

definition live_row ::
  "string \<Rightarrow> json \<Rightarrow> int \<Rightarrow> string option \<Rightarrow> string option \<Rightarrow> row \<Rightarrow> bool" where
  "live_row project experiment_id t node_id branch_id r \<longleftrightarrow>
     r_project r = project \<and> r_kind r = CommonsClaim \<and>
     field r ''experiment_id'' = experiment_id \<and> field r ''released'' = JBool False \<and>
     later_than (field r ''expires_at'') t \<and>
     (node_id = None \<or> field r ''node_id'' = jopt node_id) \<and>
     (branch_id = None \<or> field r ''branch_id'' = jopt branch_id)"

definition live_claim_rows ::
  "world \<Rightarrow> string \<Rightarrow> json \<Rightarrow> int \<Rightarrow> string option \<Rightarrow> string option \<Rightarrow> row list" where
  "live_claim_rows w project experiment_id t node_id branch_id =
     take max_live_claims (select_sorted (live_row project experiment_id t node_id branch_id) w)"

definition claim_row :: "world \<Rightarrow> row \<Rightarrow> string \<Rightarrow> herr + row option" where
  "claim_row w node branch_id =
     bindE (need node ''experiment_id'') (\<lambda>e.
     Inr (case select_sorted (\<lambda>r. r_project r = r_project node \<and> r_kind r = CommonsClaim \<and>
             field r ''experiment_id'' = e \<and> field r ''node_id'' = JStr (r_id node) \<and>
             field r ''branch_id'' = JStr branch_id) w of [] \<Rightarrow> None | r # _ \<Rightarrow> Some r))"

definition text_of :: "json \<Rightarrow> string" where
  "text_of j = (case j of JStr s \<Rightarrow> s | _ \<Rightarrow> [])"

definition claim_view :: "row \<Rightarrow> herr + dict" where
  "claim_view r =
     bindE (need r ''branch_id'') (\<lambda>b. bindE (need r ''task_id'') (\<lambda>t.
     bindE (need r ''expires_at'') (\<lambda>e.
     Inr [(''branch_id'', b), (''task_id'', t), (''expires_at'', e),
          (''route'', field r ''route''), (''time_box_until'', field r ''time_box_until'')])))"

fun mapE :: "('a \<Rightarrow> 'e + 'b) \<Rightarrow> 'a list \<Rightarrow> 'e + 'b list" where
  "mapE f [] = Inr []"
| "mapE f (x # xs) = bindE (f x) (\<lambda>y. bindE (mapE f xs) (\<lambda>ys. Inr (y # ys)))"

definition active_claims :: "world \<Rightarrow> json \<Rightarrow> int \<Rightarrow> herr + dict list" where
  "active_claims w node_id t =
     (case find_json w node_id of
        None \<Rightarrow> Inr []
      | Some node \<Rightarrow>
          if r_kind node \<noteq> CommonsNode then Inr []
          else bindE (need node ''experiment_id'') (\<lambda>e.
            bindE (mapE claim_view (live_claim_rows w (r_project node) e t (Some (r_id node)) None))
              (\<lambda>claims. Inr (sort_key (\<lambda>c. text_of (dget c ''branch_id'')) claims))))"

text \<open>The routes compared: case-folded (ASCII letters), whitespace collapsed.\<close>

fun words_of :: "string \<Rightarrow> string \<Rightarrow> string list" where
  "words_of acc [] = (if acc = [] then [] else [rev acc])"
| "words_of acc (c # cs) =
     (if is_space c then (if acc = [] then words_of [] cs else rev acc # words_of [] cs)
      else words_of (c # acc) cs)"

fun join_with :: "string \<Rightarrow> string list \<Rightarrow> string" where
  "join_with sep [] = []"
| "join_with sep [x] = x"
| "join_with sep (x # xs) = x @ sep @ join_with sep xs"

definition one_line :: "string \<Rightarrow> string" where
  "one_line s = join_with '' '' (words_of [] s)"

definition route_key :: "json \<Rightarrow> string option" where
  "route_key route = (if truthy route then Some (one_line (map lower (text_of route))) else None)"

text \<open>Per node, the live claims that crowd it.\<close>

definition live_claim_counts :: "world \<Rightarrow> row \<Rightarrow> int \<Rightarrow> json \<Rightarrow> nat" where
  "live_claim_counts w experiment t node =
     (let claims = map (\<lambda>r. (field r ''node_id'', route_key (field r ''route'')))
            (live_claim_rows w (r_project experiment) (JStr (r_id experiment)) t None None)
      in length (filter (\<lambda>(n, route). n = node \<and>
           (route = None \<or> 1 < count_list claims (n, route))) claims))"

section \<open>Freeing a subscription\<close>

definition claimed_nodes :: "world \<Rightarrow> string \<Rightarrow> json \<Rightarrow> string \<Rightarrow> json list" where
  "claimed_nodes w project experiment_id branch_id =
     map (\<lambda>r. field r ''node_id'')
       (live_claim_rows w project experiment_id (now w) None (Some branch_id))"

definition node_topic :: "world \<Rightarrow> string \<Rightarrow> json \<Rightarrow> row \<Rightarrow> row option" where
  "node_topic w project experiment_id subscription =
     (case find_json w (field subscription ''topic_id'') of
        None \<Rightarrow> None
      | Some t \<Rightarrow> if r_project t = project \<and> r_kind t = DiscussionTopic \<and>
            field t ''experiment_id'' = experiment_id \<and> truthy (field t ''node_id'')
          then Some t else None)"

text \<open>\<open>rank\<close>: 0 for a closed node, 1 for another branch's unclaimed open node.\<close>

definition eviction_tier :: "world \<Rightarrow> string \<Rightarrow> json \<Rightarrow> string \<Rightarrow> row \<Rightarrow> int option" where
  "eviction_tier w project experiment_id branch_id topic =
     (case find_json w (field topic ''node_id'') of
        None \<Rightarrow> None
      | Some node \<Rightarrow>
          if r_project node \<noteq> project \<or> r_kind node \<noteq> CommonsNode then None
          else if \<not> is_open (field node ''status'') then Some 0
          else if field node ''branch_id'' \<noteq> JStr branch_id \<and>
             JStr (r_id node) \<notin> set (claimed_nodes w project experiment_id branch_id)
          then Some 1 else None)"

definition evictable :: "world \<Rightarrow> string \<Rightarrow> json \<Rightarrow> string \<Rightarrow> row \<Rightarrow> (int \<times> row \<times> row) option" where
  "evictable w project experiment_id branch_id subscription =
     (case node_topic w project experiment_id subscription of
        None \<Rightarrow> None
      | Some topic \<Rightarrow>
          (case eviction_tier w project experiment_id branch_id topic of
             None \<Rightarrow> None | Some tier \<Rightarrow> Some (tier, subscription, topic)))"

definition evicted_before :: "int \<times> row \<times> row \<Rightarrow> int \<times> row \<times> row \<Rightarrow> bool" where
  "evicted_before x y \<longleftrightarrow>
     (let (a, r, _) = x; (b, s, _) = y;
          i = as_int (field r ''start_sequence''); j = as_int (field s ''start_sequence'')
      in a < b \<or> (a = b \<and> (i < j \<or> (i = j \<and> r_id r < r_id s))))"

definition first_evicted :: "(int \<times> row \<times> row) list \<Rightarrow> (int \<times> row \<times> row) option" where
  "first_evicted xs =
     (case xs of [] \<Rightarrow> None
      | y # ys \<Rightarrow> Some (fold (\<lambda>x best. if evicted_before x best then x else best) ys y))"

definition release_evictable ::
  "string \<Rightarrow> json \<Rightarrow> string \<Rightarrow> principal \<Rightarrow> world \<Rightarrow> herr + (bool \<times> world)" where
  "release_evictable op experiment_id branch_id writer w =
     (let subscriptions =
            take 101 (subscribed_rows (pr_project writer) experiment_id (branch_key branch_id) w);
          candidates =
            List.map_filter (evictable w (pr_project writer) experiment_id branch_id) subscriptions
      in case first_evicted candidates of
           None \<Rightarrow> Inr (False, w)
         | Some (_, _, topic) \<Rightarrow>
             bindE (set_subscription op topic (Some branch_id) False writer w)
               (\<lambda>(_, w1). Inr (True, w1)))"

text \<open>Subscribe, if need be after freeing a slot.\<close>

definition subscribe_or_free ::
  "string \<Rightarrow> row \<Rightarrow> string \<Rightarrow> principal \<Rightarrow> world \<Rightarrow> herr + (bool \<times> world)" where
  "subscribe_or_free op topic branch_id writer w =
     bindE (try_subscribe op topic branch_id writer w) (\<lambda>(subscribed, w1).
     if subscribed then Inr (True, w1)
     else bindE (need topic ''experiment_id'') (\<lambda>e.
       bindE (release_evictable op e branch_id writer w1) (\<lambda>(freed, w2).
       if \<not> freed then Inr (False, w2)
       else try_subscribe op topic branch_id writer w2)))"

definition auto_subscribe ::
  "string \<Rightarrow> json \<Rightarrow> string option \<Rightarrow> principal \<Rightarrow> world \<Rightarrow> herr + (bool \<times> world)" where
  "auto_subscribe op topic_id branch_id actor w =
     (if \<not> truthy topic_id \<or> \<not> opt_true branch_id \<or> is_referee_branch w (jopt branch_id)
      then Inr (False, w)
      else case find_json w topic_id of
        None \<Rightarrow> Inr (False, w)
      | Some topic \<Rightarrow>
          if r_kind topic \<noteq> DiscussionTopic then Inr (False, w)
          else if (case find_json w (jor (field topic ''node_id'') (JStr [])) of
                     None \<Rightarrow> False | Some node \<Rightarrow> field node ''node_type'' = JStr ''goal'')
          then Inr (False, w)
          else subscribe_or_free op topic (the branch_id)
            (if pr_branch actor = branch_id then actor else platform (r_project topic)) w)"

section \<open>Claiming\<close>

definition expiry :: "int \<Rightarrow> int \<Rightarrow> json \<Rightarrow> int" where
  "expiry t ttl box = (case box of JTime b \<Rightarrow> min (t + ttl) b | _ \<Rightarrow> t + ttl)"

definition claim_event ::
  "principal \<Rightarrow> string \<Rightarrow> dict \<Rightarrow> string \<Rightarrow> bool \<Rightarrow> world \<Rightarrow> world" where
  "claim_event actor op claim act new_claimant w =
     emit actor op ''commons.node_claim'' (text_of (dget claim ''node_id''))
       [(''experiment_id'', dget claim ''experiment_id''), (''node_id'', dget claim ''node_id''),
        (''branch_id'', dget claim ''branch_id''), (''action'', JStr act),
        (''expires_at'', dget claim ''expires_at''), (''new_claimant'', JBool new_claimant)]
       False w"

text \<open>\<open>experiment.payload["society"]["claim_ttl_seconds"]\<close>.\<close>

definition claim_ttl :: "row \<Rightarrow> herr + int" where
  "claim_ttl experiment =
     bindE (need experiment ''society'') (\<lambda>society.
     case map_of (as_dict society) ''claim_ttl_seconds'' of
       None \<Rightarrow> Inl (KeyError ''claim_ttl_seconds'')
     | Some v \<Rightarrow> Inr (micros (as_int v)))"

text \<open>The task a claim is kept for: the bound one, else the one that held it.\<close>

definition claim_task :: "world \<Rightarrow> row option \<Rightarrow> bool \<Rightarrow> herr + json" where
  "claim_task w prior held =
     (case effects w of
        Some b \<Rightarrow> Inr (JStr (we_task b))
      | None \<Rightarrow> if held then need (the prior) ''task_id'' else Inr JNull)"

definition claim_values ::
  "world \<Rightarrow> row \<Rightarrow> string \<Rightarrow> row option \<Rightarrow> bool \<Rightarrow> string option \<Rightarrow> int option \<Rightarrow> bool \<Rightarrow>
   herr + dict"
where
  "claim_values w experiment act prior held route minutes keep_route =
     bindE (claim_task w prior held) (\<lambda>task_id.
     let base = [(''task_id'', task_id), (''released'', JBool False)];
         kept = (case prior of Some p \<Rightarrow> if keep_route then field p ''route'' else JNull
                 | None \<Rightarrow> JNull);
         box = (if act = ''claim''
                then (case minutes of None \<Rightarrow> JNull | Some m \<Rightarrow> JTime (now w + micros (60 * m)))
                else field (the prior) ''time_box_until'');
         named = (if act = ''claim''
                  then [(''route'', jor (jopt route) kept), (''claimed_at'', JTime (now w)),
                        (''time_box_until'', box)]
                  else [])
     in bindE (claim_ttl experiment) (\<lambda>ttl.
        Inr (base @ named @ [(''expires_at'', JTime (expiry (now w) ttl box))])))"

definition write_claim ::
  "world \<Rightarrow> principal \<Rightarrow> row \<Rightarrow> row \<Rightarrow> string \<Rightarrow> row option \<Rightarrow> dict \<Rightarrow> herr + (dict \<times> world)"
where
  "write_claim w actor experiment node branch_id prior vals =
     (case prior of
        None \<Rightarrow> insert_row w CommonsClaim actor
          ([(''experiment_id'', JStr (r_id experiment)), (''node_id'', JStr (r_id node)),
            (''branch_id'', JStr branch_id)] @ vals) None
      | Some p \<Rightarrow> replace_row w p vals None)"

text \<open>Releasing, or claiming and renewing: the record written and whether the claim was held.\<close>

definition change_claim ::
  "world \<Rightarrow> principal \<Rightarrow> row \<Rightarrow> row \<Rightarrow> string \<Rightarrow> string \<Rightarrow> string option \<Rightarrow> int option \<Rightarrow> bool \<Rightarrow>
   herr + (dict \<times> bool \<times> world)"
where
  "change_claim w actor experiment node branch_id act route minutes keep_route =
     bindE (claim_row w node branch_id) (\<lambda>prior.
     bindE (case prior of None \<Rightarrow> Inr False | Some p \<Rightarrow> claim_live p (now w)) (\<lambda>held.
     if act = ''release'' then
       (case prior of
          None \<Rightarrow> Inl (fail ''CLAIM_NOT_HELD'' 409)
        | Some p \<Rightarrow>
            bindE (replace_row w p [(''released'', JBool True)] None)
              (\<lambda>(claim, w1). Inr (claim, held, w1)))
     else if act = ''renew'' \<and> \<not> held then Inl (fail ''CLAIM_NOT_HELD'' 409)
     else bindE (claim_values w experiment act prior held route minutes keep_route) (\<lambda>vals.
       bindE (write_claim w actor experiment node branch_id prior vals)
         (\<lambda>(claim, w1). Inr (claim, held, w1)))))"

definition co_claimants :: "world \<Rightarrow> row \<Rightarrow> string \<Rightarrow> herr + json" where
  "co_claimants w node branch_id =
     bindE (active_claims w (JStr (r_id node)) (now w)) (\<lambda>claims.
     Inr (JList (map (\<lambda>c. JObj (map (\<lambda>k. (k, dget c k)) [''branch_id'', ''expires_at'', ''route'']))
            (filter (\<lambda>c. dget c ''branch_id'' \<noteq> JStr branch_id) claims))))"

text \<open>The node a claim is made on and its experiment.\<close>

definition claim_target :: "world \<Rightarrow> string \<Rightarrow> string \<Rightarrow> principal \<Rightarrow> herr + (row \<times> row)" where
  "claim_target w node_id act actor =
     bindE (get_row w CommonsNode (JStr node_id) actor) (\<lambda>node.
     bindE (need node ''experiment_id'') (\<lambda>e.
     bindE (commons_experiment w e actor True) (\<lambda>experiment.
     bindE (need node ''node_type'') (\<lambda>node_type.
     if act \<noteq> ''release'' \<and> node_type = JStr ''goal''
     then Inl (fail ''GOAL_NOT_CLAIMABLE'' 409)
     else bindE (need node ''status'') (\<lambda>status.
     if act \<noteq> ''release'' \<and> \<not> is_open status then Inl (fail ''NODE_CLOSED'' 409)
     else Inr (node, experiment))))))"

text \<open>What the command shows of a claim beside its record.\<close>

definition claim_shown ::
  "world \<Rightarrow> row \<Rightarrow> string \<Rightarrow> string \<Rightarrow> bool \<Rightarrow> dict \<Rightarrow> herr + dict" where
  "claim_shown w node branch_id act subscribed claim =
     bindE (if act = ''release'' then Inr claim
            else bindE (co_claimants w node branch_id)
              (\<lambda>others. Inr (dput ''co_claimants'' others claim))) (\<lambda>shown.
     Inr (if act = ''claim'' then dput ''auto_subscribed'' (JBool subscribed) shown else shown))"

definition claim_action ::
  "string \<Rightarrow> string \<Rightarrow> string \<Rightarrow> string option \<Rightarrow> int option \<Rightarrow> bool \<Rightarrow> principal \<Rightarrow> action"
where
  "claim_action node_id act branch_id route minutes keep_route actor op w =
     bindE (claim_target w node_id act actor) (\<lambda>(node, experiment).
     bindE (if act = ''claim''
            then auto_subscribe op (field node ''topic_id'') (Some branch_id) actor w
            else Inr (False, w)) (\<lambda>(subscribed, w1).
     bindE (change_claim w1 actor experiment node branch_id act route minutes keep_route)
       (\<lambda>(claim, held, w2).
     let w3 = claim_event actor op claim act (act = ''claim'' \<and> \<not> held) w2
     in bindE (claim_shown w3 node branch_id act subscribed claim) (\<lambda>shown.
        Inr (shown, w3)))))"

definition claim_inputs ::
  "string \<Rightarrow> string \<Rightarrow> string option \<Rightarrow> int option \<Rightarrow> bool \<Rightarrow> json" where
  "claim_inputs node_id act route minutes keep_route =
     JObj ([(''node_id'', JStr node_id), (''action'', JStr act), (''route'', jopt route),
            (''time_box_minutes'', case minutes of None \<Rightarrow> JNull | Some m \<Rightarrow> JInt m)] @
           (if keep_route then [(''keep_route'', JBool True)] else []))"

definition claim_node ::
  "int \<Rightarrow> string \<Rightarrow> string \<Rightarrow> string option \<Rightarrow> int option \<Rightarrow> bool \<Rightarrow> principal \<Rightarrow> string \<Rightarrow> world \<Rightarrow>
   herr + (dict \<times> world)"
where
  "claim_node elapsed node_id act route0 minutes keep_route actor key w =
     bindE (research_role actor) (\<lambda>_.
     if act \<notin> {''claim'', ''renew'', ''release''} then Inl (fail ''INVALID_CLAIM_ACTION'' 422)
     else
       let route = map_option strip route0
       in if (case route of None \<Rightarrow> False | Some r \<Rightarrow> \<not> (1 \<le> length r \<and> length r \<le> 200))
          then Inl (fail ''INVALID_CLAIM'' 422)
          else if (case minutes of None \<Rightarrow> False | Some m \<Rightarrow> \<not> (5 \<le> m \<and> m \<le> 240))
          then Inl (fail ''INVALID_CLAIM'' 422)
          else if \<not> opt_true (pr_branch actor) then Inl (fail ''BRANCH_AUTHORITY'' 403)
          else execute elapsed actor key ''commons.claim''
            (claim_inputs node_id act route minutes keep_route)
            (claim_action node_id act (the (pr_branch actor)) route minutes keep_route actor) w)"

section \<open>Claims that end with their task\<close>

definition release_one ::
  "principal \<Rightarrow> string \<Rightarrow> row \<Rightarrow> row \<Rightarrow> world \<Rightarrow> herr + world" where
  "release_one actor op task claim w =
     bindE (case find_row w (r_id claim) of None \<Rightarrow> Inl (ValueError ''refresh'') | Some r \<Rightarrow> Inr r)
       (\<lambda>row.
     bindE (claim_live row (now w)) (\<lambda>live.
     if \<not> live \<or> field row ''task_id'' \<notin> {JStr (r_id task), JNull} then Inr w
     else bindE (replace_row w row [(''released'', JBool True)] None) (\<lambda>(written, w1).
       Inr (claim_event actor op written ''release'' False w1))))"

definition release_task_claims :: "principal \<Rightarrow> string \<Rightarrow> row \<Rightarrow> world \<Rightarrow> herr + world" where
  "release_task_claims actor op task w =
     bindE (need task ''experiment_id'') (\<lambda>e.
     case find_json w e of
       None \<Rightarrow> Inr w
     | Some experiment \<Rightarrow>
         if \<not> truthy (field experiment ''society'') then Inr w
         else bindE (need task ''branch_id'') (\<lambda>b.
           foldE (release_one actor op task)
             (live_claim_rows w (r_project task) (JStr (r_id experiment)) (now w) None
               (Some (text_of b))) w))"

text \<open>\<open>_touch_node\<close>: activity on a node extends the actor's live claim on it.\<close>

definition touch_node :: "row \<Rightarrow> principal \<Rightarrow> string \<Rightarrow> world \<Rightarrow> herr + world" where
  "touch_node node actor op w =
     bindE (replace_row w node [(''last_activity_at'', JTime (now w))] None) (\<lambda>(_, w1).
     bindE (need node ''status'') (\<lambda>status.
     if \<not> opt_true (pr_branch actor) \<or> \<not> is_open status then Inr w1
     else bindE (claim_row w1 node (the (pr_branch actor))) (\<lambda>prior.
       case prior of
         None \<Rightarrow> Inr w1
       | Some claim \<Rightarrow>
           bindE (claim_live claim (now w)) (\<lambda>live.
           if \<not> live then Inr w1
           else case find_json w1 (field node ''experiment_id'') of
             None \<Rightarrow> Inl (ValueError ''experiment'')
           | Some experiment \<Rightarrow>
               bindE (claim_ttl experiment) (\<lambda>ttl.
               bindE (replace_row w1 claim [(''expires_at'',
                   JTime (expiry (now w) ttl (field claim ''time_box_until'')))] None)
                 (\<lambda>(written, w2).
                 Inr (claim_event actor op written ''renew'' False w2)))))))"

section \<open>What claims keep\<close>

lemma evictable_project:
  "evictable w project e b sub = Some (tier, sub', topic) \<Longrightarrow> r_project topic = project"
  by (auto simp: evictable_def node_topic_def split: option.splits if_splits)

lemma first_evicted_in: "first_evicted xs = Some c \<Longrightarrow> c \<in> set xs"
proof -
  have "fold (\<lambda>x best. if evicted_before x best then x else best) ys y \<in> insert y (set ys)" for y ys
    by (induction ys arbitrary: y) auto
  then show "first_evicted xs = Some c \<Longrightarrow> c \<in> set xs"
    by (auto simp: first_evicted_def split: list.splits)
qed

lemma release_evictable_ok:
  assumes "release_evictable op e b writer w = Inr (y, w')" "subscriptions_ok w"
  shows "subscriptions_ok w'"
proof -
  have "r_project topic = pr_project writer"
    if "first_evicted (List.map_filter (evictable w (pr_project writer) e b) subs) =
      Some (tier, sub, topic)" for subs tier sub topic
    using first_evicted_in [OF that] evictable_project by (fastforce simp: List.map_filter_def)
  then show ?thesis
    using assms set_subscription_ok
    by (auto simp: release_evictable_def Let_def bindE_Inr_iff split: option.splits)
qed

lemma platform_simps [simp]: "pr_project (platform p) = p" "pr_role (platform p) = Operator"
  by (simp_all add: platform_def)

lemma subscribe_or_free_ok:
  assumes run: "subscribe_or_free op topic b writer w = Inr (x, w')" and ok: "subscriptions_ok w"
    and project: "r_project topic = pr_project writer"
  shows "subscriptions_ok w'"
proof -
  obtain subscribed w1 where t: "try_subscribe op topic b writer w = Inr (subscribed, w1)"
    using run unfolding subscribe_or_free_def bindE_Inr_iff by auto
  then have w1: "subscriptions_ok w1" using try_subscribe_ok ok project by blast
  show ?thesis
  proof (cases subscribed)
    case True
    then show ?thesis using run t w1 by (simp add: subscribe_or_free_def)
  next
    case False
    then obtain e freed w2 where "release_evictable op e b writer w1 = Inr (freed, w2)"
      and "w' = w2 \<or> try_subscribe op topic b writer w2 = Inr (x, w')"
      using run t by (auto simp: subscribe_or_free_def bindE_Inr_iff split: if_splits)
    then show ?thesis using release_evictable_ok w1 try_subscribe_ok project by blast
  qed
qed

lemma auto_subscribe_ok:
  assumes run: "auto_subscribe op t b actor w = Inr (x, w')" and ok: "subscriptions_ok w"
    and own: "\<And>topic. find_json w t = Some topic \<Longrightarrow> r_project topic = pr_project actor"
  shows "subscriptions_ok w'"
proof -
  have "w' = w \<or> (\<exists>topic. find_json w t = Some topic \<and> subscribe_or_free op topic (the b)
      (if pr_branch actor = b then actor else platform (r_project topic)) w = Inr (x, w'))"
    using run unfolding auto_subscribe_def by (auto split: if_splits option.splits)
  then show ?thesis using ok own subscribe_or_free_ok by (fastforce split: if_splits)
qed

lemma release_evictable_only:
  "release_evictable op e b writer w = Inr (x, w') \<Longrightarrow> only_records w w'"
  by (auto simp: release_evictable_def Let_def bindE_Inr_iff split: option.splits
      dest: set_subscription_only)

lemma subscribe_or_free_only:
  assumes "subscribe_or_free op topic b writer w = Inr (x, w')"
  shows "only_records w w'"
proof -
  obtain subscribed w1 where t: "try_subscribe op topic b writer w = Inr (subscribed, w1)"
    using assms unfolding subscribe_or_free_def bindE_Inr_iff by auto
  then have w1: "only_records w w1" by (rule try_subscribe_only)
  show ?thesis
  proof (cases subscribed)
    case True
    then show ?thesis using assms t w1 by (simp add: subscribe_or_free_def)
  next
    case False
    then obtain e freed w2 where "release_evictable op e b writer w1 = Inr (freed, w2)"
      and "w' = w2 \<or> try_subscribe op topic b writer w2 = Inr (x, w')"
      using assms t by (auto simp: subscribe_or_free_def bindE_Inr_iff split: if_splits)
    then show ?thesis
      using release_evictable_only try_subscribe_only only_records_trans w1 by metis
  qed
qed

lemma auto_subscribe_only:
  "auto_subscribe op t b actor w = Inr (x, w') \<Longrightarrow> only_records w w'"
  by (auto simp: auto_subscribe_def split: if_splits option.splits dest: subscribe_or_free_only)

lemma claim_rowD:
  assumes "claim_row w node b = Inr (Some p)" "records_ok w"
  shows "find_row w (r_id p) = Some p" "r_kind p = CommonsClaim" "r_project p = r_project node"
    "field p ''node_id'' = JStr (r_id node)" "field p ''branch_id'' = JStr b"
proof -
  have "\<exists>e. p \<in> set (select_sorted (\<lambda>r. r_project r = r_project node \<and> r_kind r = CommonsClaim \<and>
             field r ''experiment_id'' = e \<and> field r ''node_id'' = JStr (r_id node) \<and>
             field r ''branch_id'' = JStr b) w)"
    using assms(1) unfolding claim_row_def bindE_Inr_iff
    by (metis (no_types, lifting) list.case_eq_if list.set_sel(1) option.distinct(1) option.inject
        sum.inject(2))
  then show "find_row w (r_id p) = Some p" "r_kind p = CommonsClaim" "r_project p = r_project node"
    "field p ''node_id'' = JStr (r_id node)" "field p ''branch_id'' = JStr b"
    using find_row_of_set [OF assms(2)] by (auto simp: set_select_sorted)
qed

lemma claim_values_InrD:
  assumes "claim_values w ex act prior held route minutes keep = Inr vals"
  obtains ttl box where "claim_ttl ex = Inr ttl" "distinct (map fst vals)"
    "fst ` set vals \<inter> (set identity_fields \<union> {''node_id'', ''branch_id'', ''experiment_id''}) = {}"
    "(''released'', JBool False) \<in> set vals"
    "(''expires_at'', JTime (expiry (now w) ttl box)) \<in> set vals"
    "if act = ''claim'' then (''time_box_until'', box) \<in> set vals
     else ''time_box_until'' \<notin> fst ` set vals \<and> box = field (the prior) ''time_box_until''"
  using assms
  by (auto simp: claim_values_def Let_def bindE_Inr_iff identity_fields_def split: if_splits)

text \<open>A claim of a branch on a node, not released, that expires as its time box and the policy say.\<close>

definition boxed_claim :: "row \<Rightarrow> row \<Rightarrow> string \<Rightarrow> int \<Rightarrow> row \<Rightarrow> bool" where
  "boxed_claim ex node b t r \<longleftrightarrow>
     r_kind r = CommonsClaim \<and> field r ''node_id'' = JStr (r_id node) \<and>
     field r ''branch_id'' = JStr b \<and> field r ''released'' = JBool False \<and>
     (\<exists>ttl. claim_ttl ex = Inr ttl \<and>
        field r ''expires_at'' = JTime (expiry t ttl (field r ''time_box_until'')))"

lemma inserted_claim:
  assumes vals: "claim_values w ex ''claim'' None held route minutes keep = Inr vals"
    and run: "write_claim w actor ex node b None vals = Inr (claim, w')"
    and b: "b \<noteq> []" "r_id ex \<noteq> []"
  shows "\<exists>r \<in> set (records w'). r_payload r = claim \<and> boxed_claim ex node b (now w) r"
proof -
  obtain ttl box where v: "claim_ttl ex = Inr ttl" "distinct (map fst vals)"
    "fst ` set vals \<inter> (set identity_fields \<union> {''node_id'', ''branch_id'', ''experiment_id''}) = {}"
    "(''released'', JBool False) \<in> set vals"
    "(''expires_at'', JTime (expiry (now w) ttl box)) \<in> set vals"
    "(''time_box_until'', box) \<in> set vals"
    by (rule claim_values_InrD [OF vals]) simp
  let ?data = "[(''experiment_id'', JStr (r_id ex)), (''node_id'', JStr (r_id node)),
    (''branch_id'', JStr b)] @ vals"
  have ins: "insert_row w CommonsClaim actor ?data None = Inr (claim, w')"
    using run by (simp add: write_claim_def)
  have get: "dget ?data f = x" if "(f, x) \<in> set vals" for f x
  proof -
    have "map_of vals f = Some x" using v(2) that by (rule map_of_is_SomeI)
    moreover have "f \<in> fst ` set vals" using that by (rule image_eqI [rotated]) simp
    then have "f \<noteq> ''experiment_id''" "f \<noteq> ''node_id''" "f \<noteq> ''branch_id''"
      using v(3) by blast+
    ultimately show ?thesis by (simp add: dget_def)
  qed
  obtain data where "attribute_record w CommonsClaim actor ?data = Inr data"
    and "dget claim ''branch_id'' = dget data ''branch_id''"
    using insert_row_field [OF ins, of "''branch_id''"] by auto
  then have branch: "dget claim ''branch_id'' = JStr b"
    using attribute_record_branch [of w CommonsClaim actor ?data data] b by simp
  note fields = insert_row_data [OF ins]
  define r where "r = \<lparr>r_id = inserted_id w None, r_project = pr_project actor,
    r_kind = CommonsClaim, r_rev = 1, r_payload = claim\<rparr>"
  have "find_row w' (inserted_id w None) = Some r"
    using insert_row_found(3) [OF ins] by (simp add: r_def)
  then have "r \<in> set (records w')" "r_payload r = claim" "r_kind r = CommonsClaim"
    using find_row_in by (auto simp: r_def)
  then show ?thesis
    using fields branch get [OF v(4)] get [OF v(5)] get [OF v(6)] v(1)
    by (intro bexI [of _ r]) (auto simp: boxed_claim_def)
qed

lemma replaced_claim:
  assumes vals: "claim_values w ex act (Some p) held route minutes keep = Inr vals"
    and run: "write_claim w actor ex node b (Some p) vals = Inr (claim, w')"
    and p: "find_row w (r_id p) = Some p" "r_kind p = CommonsClaim"
      "field p ''node_id'' = JStr (r_id node)" "field p ''branch_id'' = JStr b"
  shows "\<exists>r \<in> set (records w'). r_payload r = claim \<and> boxed_claim ex node b (now w) r"
proof -
  obtain ttl box where v: "claim_ttl ex = Inr ttl" "distinct (map fst vals)"
    "fst ` set vals \<inter> (set identity_fields \<union> {''node_id'', ''branch_id'', ''experiment_id''}) = {}"
    "(''released'', JBool False) \<in> set vals"
    "(''expires_at'', JTime (expiry (now w) ttl box)) \<in> set vals"
    and box: "if act = ''claim'' then (''time_box_until'', box) \<in> set vals
     else ''time_box_until'' \<notin> fst ` set vals \<and> box = field p ''time_box_until''"
    by (rule claim_values_InrD [OF vals]) simp
  have rep: "replace_row w p vals None = Inr (claim, w')"
    using run by (simp add: write_claim_def)
  note old = dget_replacement(1) [OF rep] and new = dget_replacement(2) [OF rep _ v(2)]
  have "dget claim ''time_box_until'' = box"
    using box old [of "''time_box_until''"] new [of "''time_box_until''" box]
    by (auto split: if_splits)
  moreover have "dget claim ''node_id'' = JStr (r_id node)" "dget claim ''branch_id'' = JStr b"
    using old v(3) p(3,4) by auto
  moreover have "dget claim ''released'' = JBool False"
    "dget claim ''expires_at'' = JTime (expiry (now w) ttl box)"
    using new v(4,5) by auto
  moreover obtain stored where "find_row w (r_id p) = Some stored" and
    r: "find_row w' (r_id p) = Some (stored\<lparr>r_rev := r_rev p + 1, r_payload := claim\<rparr>)"
    using replace_row_found(1) [OF rep] by blast
  ultimately show ?thesis
    using p(1,2) v(1) find_row_in [OF r]
    by (intro bexI [of _ "stored\<lparr>r_rev := r_rev p + 1, r_payload := claim\<rparr>"])
      (auto simp: boxed_claim_def)
qed

lemma change_claim_boxed:
  assumes run: "change_claim w actor ex node b act route minutes keep = Inr (claim, held, w')"
    and act: "act \<in> {''claim'', ''renew''}" and ok: "records_ok w" and b: "b \<noteq> []" "r_id ex \<noteq> []"
  shows "\<exists>r \<in> set (records w'). r_payload r = claim \<and> boxed_claim ex node b (now w) r"
proof -
  obtain prior vals where p: "claim_row w node b = Inr prior"
    and held: "(case prior of None \<Rightarrow> Inr False | Some p \<Rightarrow> claim_live p (now w)) = Inr held"
    and vals: "claim_values w ex act prior held route minutes keep = Inr vals"
    and wr: "write_claim w actor ex node b prior vals = Inr (claim, w')"
    and "act = ''renew'' \<longrightarrow> held"
    using run act by (auto simp: change_claim_def bindE_Inr_iff split: if_splits)
  show ?thesis
  proof (cases prior)
    case None
    then have "act = ''claim''" using held \<open>act = ''renew'' \<longrightarrow> held\<close> act by auto
    then show ?thesis using inserted_claim vals wr None b by blast
  next
    case (Some p')
    then show ?thesis using replaced_claim vals wr claim_rowD [OF _ ok] p by metis
  qed
qed

lemma change_claim_subscriptions:
  assumes run: "change_claim w actor ex node b act route minutes keep = Inr (claim, held, w')"
    and ok: "subscriptions_ok w"
  shows "subscriptions_ok w'"
proof -
  have recs: "records_ok w" using ok by (simp add: subscriptions_ok_def)
  have repl: "subscriptions_ok w'"
    if "replace_row w p vals None = Inr (claim, w')" "claim_row w node b = Inr (Some p)"
      "fst ` set vals \<inter> set identity_fields = {}" for p vals
    using replace_row_subscriptions [OF that(1) ok] claim_rowD [OF that(2) recs] that(3) by auto
  obtain prior where p: "claim_row w node b = Inr prior"
    and alt: "(\<exists>q. prior = Some q \<and> replace_row w q [(''released'', JBool True)] None = Inr (claim, w')) \<or>
      (\<exists>vals. claim_values w ex act prior held route minutes keep = Inr vals \<and>
        write_claim w actor ex node b prior vals = Inr (claim, w'))"
    using run by (auto simp: change_claim_def bindE_Inr_iff split: if_splits option.splits)
  from alt show ?thesis
  proof (elim disjE exE conjE)
    fix q assume "prior = Some q" "replace_row w q [(''released'', JBool True)] None = Inr (claim, w')"
    then show ?thesis using repl p by (auto simp: identity_fields_def)
  next
    fix vals assume v: "claim_values w ex act prior held route minutes keep = Inr vals"
      and wr: "write_claim w actor ex node b prior vals = Inr (claim, w')"
    have "fst ` set vals \<inter> set identity_fields = {}"
      by (rule claim_values_InrD [OF v]) blast
    then show ?thesis
      using wr repl p insert_row_subscriptions [OF _ ok]
      by (fastforce simp: write_claim_def split: option.splits)
  qed
qed

section \<open>The claim command\<close>

lemma expiry_bounds:
  "expiry t ttl box \<le> t + ttl" "box = JTime b \<Longrightarrow> expiry t ttl box \<le> b"
  by (auto simp: expiry_def split: json.splits)

text \<open>Threads belong to the project of their node.\<close>

definition threads_local :: "world \<Rightarrow> bool" where
  "threads_local w \<longleftrightarrow>
     (\<forall>node \<in> set (records w). r_kind node = CommonsNode \<longrightarrow>
        (case find_json w (field node ''topic_id'') of None \<Rightarrow> True
         | Some topic \<Rightarrow> r_project topic = r_project node))"

text \<open>What a successful claim action did, step by step.\<close>

lemma claim_target_InrD:
  assumes "claim_target w i act actor = Inr (node, ex)"
  shows "get_row w CommonsNode (JStr i) actor = Inr node"
    "commons_experiment w (field node ''experiment_id'') actor True = Inr ex"
  using assms
  by (auto simp: claim_target_def bindE_Inr_iff split: if_splits dest!: need_field)

lemma claim_action_InrE:
  assumes "claim_action i act b route minutes keep actor op w = Inr (shown, w')"
  obtains node ex subscribed w1 claim held w2 where
    "get_row w CommonsNode (JStr i) actor = Inr node"
    "commons_experiment w (field node ''experiment_id'') actor True = Inr ex"
    "(if act = ''claim'' then auto_subscribe op (field node ''topic_id'') (Some b) actor w
      else Inr (False, w)) = Inr (subscribed, w1)"
    "change_claim w1 actor ex node b act route minutes keep = Inr (claim, held, w2)"
    "w' = claim_event actor op claim act (act = ''claim'' \<and> \<not> held) w2"
proof -
  from assms obtain node ex subscribed w1 claim held w2 where
    t: "claim_target w i act actor = Inr (node, ex)"
    and rest: "(if act = ''claim'' then auto_subscribe op (field node ''topic_id'') (Some b) actor w
      else Inr (False, w)) = Inr (subscribed, w1)"
      "change_claim w1 actor ex node b act route minutes keep = Inr (claim, held, w2)"
      "w' = claim_event actor op claim act (act = ''claim'' \<and> \<not> held) w2"
    unfolding claim_action_def bindE_Inr_iff Let_def split_paired_Ex prod.case by auto
  show ?thesis by (rule that [OF claim_target_InrD [OF t] rest])
qed

lemma claim_event_simps [simp]:
  "records (claim_event a op c act n w) = records w"
  "subscriptions_ok (claim_event a op c act n w) = subscriptions_ok w"
  by (simp_all add: claim_event_def)

lemma claim_action_facts:
  assumes run: "claim_action i act b route minutes keep actor op w = Inr (shown, w')"
    and ok: "subscriptions_ok w" and threads: "threads_local w"
  shows "subscriptions_ok w'"
    and "act \<in> {''claim'', ''renew''} \<Longrightarrow> b \<noteq> [] \<Longrightarrow> find_row w [] = None \<Longrightarrow>
      \<exists>node ex r. find_row w i = Some node \<and> find_json w (field node ''experiment_id'') = Some ex \<and>
        r \<in> set (records w') \<and> boxed_claim ex node b (now w) r"
proof -
  obtain node ex subscribed w1 claim held w2 where
    node: "get_row w CommonsNode (JStr i) actor = Inr node"
    and ex: "commons_experiment w (field node ''experiment_id'') actor True = Inr ex"
    and sub: "(if act = ''claim'' then auto_subscribe op (field node ''topic_id'') (Some b) actor w
      else Inr (False, w)) = Inr (subscribed, w1)"
    and chg: "change_claim w1 actor ex node b act route minutes keep = Inr (claim, held, w2)"
    and w': "w' = claim_event actor op claim act (act = ''claim'' \<and> \<not> held) w2"
    by (rule claim_action_InrE [OF run])
  note n = get_row_InrD [OF node]
  have "r_project topic = pr_project actor"
    if "find_json w (field node ''topic_id'') = Some topic" for topic
    using threads find_row_in [OF n(2)] n(3,4) that by (auto simp: threads_local_def)
  then have w1: "subscriptions_ok w1" "only_records w w1"
    using sub ok auto_subscribe_ok auto_subscribe_only by (auto split: if_splits)
  show "subscriptions_ok w'"
    using change_claim_subscriptions [OF chg w1(1)] w' by simp
  assume act: "act \<in> {''claim'', ''renew''}" and b: "b \<noteq> []" and empty: "find_row w [] = None"
  have e: "find_json w (field node ''experiment_id'') = Some ex"
    using ex by (auto simp: commons_experiment_def bindE_Inr_iff get_row_Inr_iff split: if_splits)
  then have "r_id ex \<noteq> []" using find_json_SomeD empty by fastforce
  then obtain r where "r \<in> set (records w2)" "boxed_claim ex node b (now w1) r"
    using change_claim_boxed [OF chg act _ b] w1(1) by (auto simp: subscriptions_ok_def)
  then show "\<exists>node ex r. find_row w i = Some node \<and>
      find_json w (field node ''experiment_id'') = Some ex \<and>
      r \<in> set (records w') \<and> boxed_claim ex node b (now w) r"
    using n(1,2) e w' only_recordsD(1) [OF w1(2)] by auto
qed

lemma claim_node_runs:
  assumes "claim_node elapsed i act route minutes keep actor key w = Inr (shown, w')"
  shows "\<exists>route'. execute elapsed actor key ''commons.claim'' (claim_inputs i act route' minutes keep)
      (claim_action i act (the (pr_branch actor)) route' minutes keep actor) w = Inr (shown, w')"
    "opt_true (pr_branch actor)"
  using assms unfolding claim_node_def Let_def if_Inl_Inr_iff bindE_Inr_iff by auto

lemma threads_local_same: "same_tables a b \<Longrightarrow> threads_local a \<Longrightarrow> threads_local b"
  by (simp add: threads_local_def same_tables_def find_json_def find_row_def split: json.splits)

lemma subscribe_discussion_runs:
  assumes "subscribe_discussion elapsed topic_id subscribed actor key w = Inr (shown, w')"
  shows "execute elapsed actor key ''discussion.subscribe''
    (JObj [(''topic_id'', JStr topic_id), (''subscribed'', JBool subscribed)])
    (subscribe_action topic_id subscribed actor) w = Inr (shown, w')"
  using assms unfolding subscribe_discussion_def bindE_Inr_iff by auto

section \<open>Releasing a task's claims\<close>

text \<open>The live claims a finished task must not keep.\<close>

definition held_by :: "row \<Rightarrow> row \<Rightarrow> world \<Rightarrow> row \<Rightarrow> bool" where
  "held_by ex task w r \<longleftrightarrow>
     live_row (r_project task) (JStr (r_id ex)) (now w) None
       (Some (text_of (field task ''branch_id''))) r \<and>
     field r ''task_id'' \<in> {JStr (r_id task), JNull}"

lemma release_one_frame:
  assumes "release_one actor op task claim w = Inr w'"
  shows "only_records w w'" "j \<noteq> r_id claim \<Longrightarrow> find_row w' j = find_row w j"
proof -
  obtain row where row: "find_row w (r_id claim) = Some row"
    using assms by (auto simp: release_one_def bindE_Inr_iff split: option.splits)
  have "w' = w \<or> (\<exists>written w1. replace_row w row [(''released'', JBool True)] None = Inr (written, w1) \<and>
      w' = claim_event actor op written ''release'' False w1)"
    using assms row by (auto simp: release_one_def bindE_Inr_iff split: if_splits)
  then show "only_records w w'" "j \<noteq> r_id claim \<Longrightarrow> find_row w' j = find_row w j"
    using replace_row_found(2) find_row_id [OF row]
    by (auto simp: claim_event_def dest: only_records_replace)
qed

lemma release_one_records_ok:
  assumes "release_one actor op task claim w = Inr w'" "records_ok w"
  shows "records_ok w'"
proof -
  obtain row where row: "find_row w (r_id claim) = Some row"
    using assms by (auto simp: release_one_def bindE_Inr_iff split: option.splits)
  then have own: "find_row w (r_id row) = Some row" using find_row_id by fastforce
  have "w' = w \<or> (\<exists>written w1. replace_row w row [(''released'', JBool True)] None = Inr (written, w1) \<and>
      w' = claim_event actor op written ''release'' False w1)"
    using assms row by (auto simp: release_one_def bindE_Inr_iff split: if_splits)
  then show ?thesis
  proof (elim disjE exE conjE)
    fix written w1
    assume r: "replace_row w row [(''released'', JBool True)] None = Inr (written, w1)"
      and w': "w' = claim_event actor op written ''release'' False w1"
    have "records_ok w1"
      by (rule replace_row_records_ok [OF r assms(2) own]) (simp add: identity_fields_def)
    then show ?thesis by (simp add: w' records_ok_def)
  qed (use assms(2) in simp)
qed

lemma claim_live_iff:
  assumes "claim_live r t = Inr live" "field r ''released'' = JBool False"
    "field r ''expires_at'' = JTime e"
  shows "live \<longleftrightarrow> t < e"
  using assms by (auto simp: claim_live_def need_def dget_def bindE_Inr_iff split: option.splits)

text \<open>After the loop's body the row in hand is released, or never was the task's.\<close>

lemma release_one_done:
  assumes run: "release_one actor op task claim w = Inr w'"
    and r: "find_row w' (r_id claim) = Some r"
  shows "\<not> held_by ex task w r"
proof -
  obtain row live where row: "find_row w (r_id claim) = Some row"
    and live: "claim_live row (now w) = Inr live"
    using run by (auto simp: release_one_def bindE_Inr_iff split: option.splits)
  show ?thesis
  proof (cases "\<not> live \<or> field row ''task_id'' \<notin> {JStr (r_id task), JNull}")
    case True
    then have "w' = w" using run row live by (simp add: release_one_def)
    then have "r = row" using r row by simp
    then show ?thesis using True claim_live_iff [OF live]
      by (auto simp: held_by_def live_row_def later_than_def split: json.splits)
  next
    case False
    then obtain written w1 where rep: "replace_row w row [(''released'', JBool True)] None = Inr (written, w1)"
      and w': "w' = claim_event actor op written ''release'' False w1"
      using run row live by (auto simp: release_one_def bindE_Inr_iff)
    have "dget written ''released'' = JBool True"
      using dget_replacement(2) [OF rep] by simp
    moreover have "r_payload r = written"
      using replace_row_found(1) [OF rep] r find_row_id [OF row]
      by (auto simp: w' claim_event_def)
    ultimately show ?thesis by (simp add: held_by_def live_row_def)
  qed
qed

lemma held_by_same: "now a = now b \<Longrightarrow> held_by ex task a = held_by ex task b"
  by (simp add: held_by_def fun_eq_iff)

lemma release_one_keeps:
  assumes "release_one actor op task claim w = Inr w'" "find_row w j = Some r"
    and "field r ''task_id'' \<notin> {JStr (r_id task), JNull}"
  shows "find_row w' j = Some r"
proof (cases "j = r_id claim")
  case True
  then have "w' = w"
    using assms by (auto simp: release_one_def bindE_Inr_iff split: if_splits)
  then show ?thesis using assms(2) by simp
next
  case False
  then show ?thesis using release_one_frame(2) [OF assms(1)] assms(2) by simp
qed

text \<open>The loop over distinct claims leaves none of them held and touches no other row.\<close>

lemma release_all:
  assumes "foldE (release_one actor op task) claims w = Inr w'" "records_ok w"
    and "distinct (map r_id claims)"
  shows "records_ok w' \<and> only_records w w' \<and>
    (\<forall>j. j \<notin> r_id ` set claims \<longrightarrow> find_row w' j = find_row w j) \<and>
    (\<forall>j r. find_row w j = Some r \<and> field r ''task_id'' \<notin> {JStr (r_id task), JNull} \<longrightarrow>
       find_row w' j = Some r) \<and>
    (\<forall>c \<in> set claims. \<forall>r. find_row w' (r_id c) = Some r \<longrightarrow> \<not> held_by ex task w r)"
  using assms
proof (induction claims arbitrary: w)
  case (Cons c cs)
  then obtain v where v: "release_one actor op task c w = Inr v"
    and rest: "foldE (release_one actor op task) cs v = Inr w'" by (auto simp: bindE_Inr_iff)
  note fr = release_one_frame [OF v] and ok = release_one_records_ok [OF v Cons.prems(2)]
  have ih: "records_ok w' \<and> only_records v w' \<and>
    (\<forall>j. j \<notin> r_id ` set cs \<longrightarrow> find_row w' j = find_row v j) \<and>
    (\<forall>j r. find_row v j = Some r \<and> field r ''task_id'' \<notin> {JStr (r_id task), JNull} \<longrightarrow>
       find_row w' j = Some r) \<and>
    (\<forall>c \<in> set cs. \<forall>r. find_row w' (r_id c) = Some r \<longrightarrow> \<not> held_by ex task v r)"
    using Cons.IH [OF rest ok] Cons.prems(3) by simp
  have "held_by ex task v = held_by ex task w"
    using fr(1) by (intro held_by_same) (simp add: only_records_def)
  moreover have "r_id c \<notin> r_id ` set cs" using Cons.prems(3) by simp
  moreover have "only_records w w'" using fr(1) ih only_records_trans by blast
  ultimately show ?case
    using ih fr(2) release_one_done [OF v] release_one_keeps [OF v] by auto
qed simp

section \<open>Properties\<close>

text \<open>C31. A claim never outlives its time box or its policy: a fresh claim or renewal that succeeds
  leaves an unreleased claim of the caller's branch on the node whose expiry is at most the policy's
  time to live away and, when a time box was declared, no later than the box.\<close>

theorem claim_lives_within_box:
  assumes "claim_node elapsed i act route minutes keep actor key w = Inr (shown, w')"
    and "act \<in> {''claim'', ''renew''}" and "find_command w (command_key w actor key) = None"
    and "subscriptions_ok w" and "threads_local w" and "find_row w [] = None"
  shows "\<exists>node ex r ttl e. find_row w i = Some node \<and>
    find_json w (field node ''experiment_id'') = Some ex \<and> claim_ttl ex = Inr ttl \<and>
    r \<in> set (records w') \<and> r_kind r = CommonsClaim \<and> field r ''node_id'' = JStr i \<and>
    field r ''branch_id'' = jopt (pr_branch actor) \<and> field r ''released'' = JBool False \<and>
    field r ''expires_at'' = JTime e \<and> e \<le> now w + ttl \<and>
    (\<forall>b. field r ''time_box_until'' = JTime b \<longrightarrow> e \<le> b)"
proof -
  obtain route' where run: "execute elapsed actor key ''commons.claim''
      (claim_inputs i act route' minutes keep)
      (claim_action i act (the (pr_branch actor)) route' minutes keep actor) w = Inr (shown, w')"
    and b: "opt_true (pr_branch actor)" using claim_node_runs [OF assms(1)] by blast
  obtain w2 where act: "claim_action i act (the (pr_branch actor)) route' minutes keep actor
      (fst (new_id w)) (snd (new_id w)) = Inr (shown, w2)" and same: "same_tables w2 w'"
    by (rule execute_fresh [OF run assms(3)])
  have pre: "subscriptions_ok (snd (new_id w))" "threads_local (snd (new_id w))"
    using assms(4,5) threads_local_same [OF same_tables_steps(1)] by simp_all
  obtain br where br: "pr_branch actor = Some br" "br \<noteq> []" using b by (cases "pr_branch actor") auto
  have json: "find_json (snd (new_id w)) x = find_json w x" for x
    by (cases x) (simp_all add: find_json_def)
  obtain node ex r where n: "find_row w i = Some node"
      "find_json w (field node ''experiment_id'') = Some ex" "r \<in> set (records w2)"
    and boxed: "boxed_claim ex node br (now w) r"
    using claim_action_facts(2) [OF act pre assms(2)] br assms(6) by (auto simp: json)
  obtain ttl where "claim_ttl ex = Inr ttl"
    "field r ''expires_at'' = JTime (expiry (now w) ttl (field r ''time_box_until''))"
    using boxed by (auto simp: boxed_claim_def)
  moreover have "r \<in> set (records w')" using n(3) same by (simp add: same_tables_def)
  ultimately show ?thesis
    using n(1,2) boxed br(1) find_row_id [OF n(1)] expiry_bounds by (auto simp: boxed_claim_def)
qed

text \<open>C32. No reader ever has more than a hundred subscriptions: claiming a node, which subscribes its
  branch to the node's thread and frees another thread when the branch is full, and subscribing by
  hand both keep every reader of the store at or under the limit.\<close>

theorem subscriptions_stay_bounded:
  assumes "claim_node elapsed i act route minutes keep actor key w = Inr (shown, w') \<or>
      subscribe_discussion elapsed topic_id subscribed actor key w = Inr (shown, w')"
    and "subscriptions_ok w" and "threads_local w"
  shows "length (subscribed_rows project experiment_id reader_key w') \<le> 100"
proof -
  have "subscriptions_ok w'"
    using assms(1)
  proof
    assume "claim_node elapsed i act route minutes keep actor key w = Inr (shown, w')"
    then obtain route' where "execute elapsed actor key ''commons.claim''
      (claim_inputs i act route' minutes keep)
      (claim_action i act (the (pr_branch actor)) route' minutes keep actor) w = Inr (shown, w')"
      using claim_node_runs(1) by blast
    then show ?thesis
    proof (cases rule: execute_cases)
      case (Replayed prior)
      then show ?thesis using assms(2) by simp
    next
      case (Ran w2)
      have "subscriptions_ok w2"
        by (rule claim_action_facts(1) [OF Ran(3)])
          (use assms(2,3) threads_local_same [OF same_tables_steps(1)] in simp_all)
      then show ?thesis unfolding Ran(5) by (rule subscriptions_ok_same [OF same_tables_steps(2)])
    qed
  next
    assume "subscribe_discussion elapsed topic_id subscribed actor key w = Inr (shown, w')"
    from subscribe_discussion_runs [OF this] show ?thesis
      by (rule execute_preserves [where P = subscriptions_ok])
        (use assms(2) subscriptions_ok_same subscribe_action_ok in blast)+
  qed
  then show ?thesis by (simp add: subscriptions_ok_def max_subscriptions_def)
qed

text \<open>A finished task keeps no claim: once its claims are released, no live claim of its branch is
  the task's or nobody's, whatever the order of the rows, and no claim of another task or branch was
  touched.\<close>

theorem finished_task_holds_no_claim:
  assumes "release_task_claims actor op task w = Inr w'" and "records_ok w"
    and "find_json w (field task ''experiment_id'') = Some ex" and "truthy (field ex ''society'')"
    and "length (live_claim_rows w (r_project task) (JStr (r_id ex)) (now w) None
           (Some (text_of (field task ''branch_id'')))) < max_live_claims"
  shows "(\<forall>r \<in> set (records w'). \<not> held_by ex task w r) \<and>
    (\<forall>r \<in> set (records w). \<not> held_by ex task w r \<longrightarrow> r \<in> set (records w'))"
proof -
  let ?b = "text_of (field task ''branch_id'')"
  let ?live = "live_row (r_project task) (JStr (r_id ex)) (now w) None (Some ?b)"
  let ?claims = "live_claim_rows w (r_project task) (JStr (r_id ex)) (now w) None (Some ?b)"
  have loop: "foldE (release_one actor op task) ?claims w = Inr w'"
    using assms(1,3,4)
    by (auto simp: release_task_claims_def bindE_Inr_iff dest!: need_field)
  have all: "?claims = select_sorted ?live w"
    using assms(5) by (simp add: live_claim_rows_def)
  have "distinct (map r_id ?claims)"
    unfolding all using assms(2)
    by (simp add: select_sorted_def records_ok_def distinct_map distinct_filter inj_on_def)
  note loop_facts = release_all [OF loop assms(2) this, of ex]
  have ids: "r_id r \<in> r_id ` set ?claims \<longleftrightarrow> ?live r" if "r \<in> set (records w)" for r
    using that assms(2) unfolding all set_select_sorted
    by (auto simp: records_ok_def distinct_map dest: inj_onD)
  show ?thesis
  proof (intro conjI ballI impI)
    fix r assume r: "r \<in> set (records w')"
    then have f: "find_row w' (r_id r) = Some r" using loop_facts find_row_of_set by blast
    show "\<not> held_by ex task w r"
    proof (cases "r_id r \<in> r_id ` set ?claims")
      case True
      then show ?thesis using loop_facts f by auto
    next
      case False
      then have "r \<in> set (records w)" using loop_facts f find_row_in by metis
      then show ?thesis using ids False by (auto simp: held_by_def)
    qed
  next
    fix r assume r: "r \<in> set (records w)" and h: "\<not> held_by ex task w r"
    have f: "find_row w (r_id r) = Some r" using r assms(2) find_row_of_set by blast
    have "find_row w' (r_id r) = Some r"
    proof (cases "?live r")
      case True
      then show ?thesis using loop_facts f h by (auto simp: held_by_def)
    next
      case False
      then show ?thesis using loop_facts f ids [OF r] by auto
    qed
    then show "r \<in> set (records w')" by (rule find_row_in)
  qed
qed

section \<open>Runs\<close>

lemma society_ok: "records_ok society"
  by code_simp

lemma society_subscriptions: "subscriptions_ok society"
proof -
  have "\<forall>r \<in> set (records society). r_kind r \<noteq> DiscussionSubscription" by code_simp
  then have "subscribed_rows p e k society = []" for p e k
    by (auto simp: subscribed_rows_def select_rows_def of_reader_def filter_empty_conv)
  then show ?thesis by (simp add: subscriptions_ok_def society_ok)
qed

lemma society_threads: "threads_local society"
  by code_simp

text \<open>The first branch claims the lemma for half an hour.\<close>

lemma sample_claim:
  obtains shown w' where "claim_node 0 ''nd'' ''claim'' (Some ''try'') (Some 30) False sample_agent
    ''k1'' society = Inr (shown, w')"
proof -
  have "\<not> isl (claim_node 0 ''nd'' ''claim'' (Some ''try'') (Some 30) False sample_agent ''k1'' society)"
    by code_simp
  then show ?thesis using that by (rule succeedsE)
qed

theorem claim_lives_within_box_witness:
  "\<exists>shown w' r e. claim_node 0 ''nd'' ''claim'' (Some ''try'') (Some 30) False sample_agent ''k1''
      society = Inr (shown, w') \<and> r \<in> set (records w') \<and> r_kind r = CommonsClaim \<and>
    field r ''expires_at'' = JTime e \<and> (\<forall>b. field r ''time_box_until'' = JTime b \<longrightarrow> e \<le> b)"
proof -
  obtain shown w' where run: "claim_node 0 ''nd'' ''claim'' (Some ''try'') (Some 30) False
    sample_agent ''k1'' society = Inr (shown, w')" by (rule sample_claim)
  have "find_command society (command_key society sample_agent ''k1'') = None"
    "find_row society [] = None" by code_simp+
  from claim_lives_within_box [OF run _ this(1) society_subscriptions society_threads this(2)] run
  show ?thesis by blast
qed

theorem subscriptions_stay_bounded_witness:
  "\<exists>shown w'. claim_node 0 ''nd'' ''claim'' (Some ''try'') (Some 30) False sample_agent ''k1''
      society = Inr (shown, w') \<and>
    length (subscribed_rows ''p'' (JStr ''e'') ''branch:b1'' w') \<le> 100"
proof -
  obtain shown w' where run: "claim_node 0 ''nd'' ''claim'' (Some ''try'') (Some 30) False
    sample_agent ''k1'' society = Inr (shown, w')" by (rule sample_claim)
  have "length (subscribed_rows ''p'' (JStr ''e'') ''branch:b1'' w') \<le> 100"
    by (rule subscriptions_stay_bounded [OF disjI1 [OF run] society_subscriptions society_threads])
  then show ?thesis using run by blast
qed

text \<open>The same store with a live claim of the running task.\<close>

definition claimed :: world where
  "claimed = society\<lparr>records := records society @
     [sample_row CommonsClaim ''cl''
        [(''experiment_id'', JStr ''e''), (''node_id'', JStr ''nd''), (''branch_id'', JStr ''b1''),
         (''task_id'', JStr ''k''), (''released'', JBool False), (''expires_at'', JTime 20000000)]]\<rparr>"

theorem finished_task_holds_no_claim_witness:
  "\<exists>w'. release_task_claims sample_operator ''o'' sample_task claimed = Inr w' \<and>
    (\<forall>r \<in> set (records w'). \<not> held_by society_experiment sample_task claimed r) \<and>
    (\<exists>r \<in> set (records claimed). held_by society_experiment sample_task claimed r)"
proof -
  have "\<not> isl (release_task_claims sample_operator ''o'' sample_task claimed)" by code_simp
  then obtain w' where run: "release_task_claims sample_operator ''o'' sample_task claimed = Inr w'"
    by (cases "release_task_claims sample_operator ''o'' sample_task claimed") auto
  have "records_ok claimed" by code_simp
  moreover have "find_json claimed (field sample_task ''experiment_id'') = Some society_experiment"
    by code_simp
  moreover have "truthy (field society_experiment ''society'')" by code_simp
  moreover have "length (live_claim_rows claimed (r_project sample_task)
      (JStr (r_id society_experiment)) (now claimed) None
      (Some (text_of (field sample_task ''branch_id'')))) = 1" by code_simp
  moreover have "\<exists>r \<in> set (records claimed). held_by society_experiment sample_task claimed r"
    by code_simp
  ultimately show ?thesis
    using finished_task_holds_no_claim [OF run] run by (simp add: max_live_claims_def)
qed

end
