(* ===== verification/Workforce.thy ===== *)
theory Workforce
  imports Claims
begin

text \<open>
  Admission of research tasks and recruitment (\<open>workforce.py\<close>): the task caps of a legacy
  experiment, the budget floor of a society, the operator's policy, branches made together with
  their first task, and the registry of components. A new task's model is priced by the recorded
  prices of the service (\<open>prices\<close> of the world).
\<close>

section \<open>Amounts and limits\<close>

text \<open>\<open>int(Decimal(str(value)) * 1_000_000)\<close>; what is no decimal raises.\<close>

definition micro :: "string \<Rightarrow> herr + int" where
  "micro value =
     (case decimal_of_string value of
        Some (Dec c e) \<Rightarrow>
          (case in_context (c * 1000000) e of
             Some (Dec c' e') \<Rightarrow> Inr (dec_int c' e')
           | _ \<Rightarrow> Inl (ValueError ''decimal''))
      | _ \<Rightarrow> Inl (ValueError ''decimal''))"

definition default_task_cap :: int where "default_task_cap = 10000"

definition cap_of :: "json \<Rightarrow> int option" where
  "cap_of j = (case j of JInt n \<Rightarrow> Some n | _ \<Rightarrow> None)"

text \<open>\<open>_task_caps\<close>: the total and the pending cap.\<close>

definition task_caps :: "row \<Rightarrow> row option \<Rightarrow> int option \<times> int option" where
  "task_caps experiment policy =
     (let stored = (case policy of None \<Rightarrow> [] | Some p \<Rightarrow> r_payload p);
          total = cap_of (dget stored ''max_total_tasks'');
          pending = cap_of (dget stored ''max_pending_tasks'')
      in if truthy (field experiment ''society'') then (total, pending)
         else (Some (case total of None \<Rightarrow> default_task_cap | Some n \<Rightarrow> n),
               Some (case pending of None \<Rightarrow> default_task_cap | Some n \<Rightarrow> n)))"

text \<open>\<open>experiment.payload["models"]\<close> and its first entry.\<close>

definition models_of :: "row \<Rightarrow> herr + json list" where
  "models_of experiment = bindE (need experiment ''models'') (\<lambda>m. Inr (as_list m))"

definition default_model :: "row \<Rightarrow> herr + json" where
  "default_model experiment =
     bindE (models_of experiment) (\<lambda>ms.
     case ms of [] \<Rightarrow> Inl (ValueError ''index'') | m # _ \<Rightarrow> Inr m)"

definition inherited_model :: "row \<Rightarrow> row option \<Rightarrow> herr + json" where
  "inherited_model experiment branch =
     (case branch of
        Some b \<Rightarrow> if r_kind b = Branch \<and> field b ''experiment_id'' = JStr (r_id experiment) \<and>
            truthy (field b ''model_configuration'')
          then Inr (field b ''model_configuration'') else default_model experiment
      | None \<Rightarrow> default_model experiment)"

definition branch_model :: "row \<Rightarrow> nat option \<Rightarrow> row option \<Rightarrow> herr + json" where
  "branch_model experiment model_index branch =
     bindE (models_of experiment) (\<lambda>ms.
     case model_index of
       Some i \<Rightarrow> if i < length ms then Inr (ms ! i) else inherited_model experiment branch
     | None \<Rightarrow> inherited_model experiment branch)"

text \<open>\<open>_cap_reached\<close>: only the pending cap frees up.\<close>

definition cap_reached :: "string \<Rightarrow> herr" where
  "cap_reached code = Harness code 409 (code = ''TASK_PENDING_CAP'')"

definition workforce_policy :: "world \<Rightarrow> json \<Rightarrow> principal \<Rightarrow> row option" where
  "workforce_policy w experiment_id actor =
     find (\<lambda>r. r_project r = pr_project actor \<and> r_kind r = WorkforcePolicy \<and>
               field r ''experiment_id'' = experiment_id) (records w)"

text \<open>\<open>RuntimeLimits.model_validate(d)\<close>, on whole numbers: the output limit, or \<open>None\<close> where it is
  refused.\<close>

definition limit_in :: "dict \<Rightarrow> string \<Rightarrow> int \<Rightarrow> int option \<Rightarrow> bool" where
  "limit_in d k lo hi =
     (case map_of d k of
        None \<Rightarrow> True
      | Some (JInt n) \<Rightarrow> lo \<le> n \<and> (case hi of None \<Rightarrow> True | Some h \<Rightarrow> n \<le> h)
      | Some _ \<Rightarrow> False)"

definition runtime_output_limit :: "dict \<Rightarrow> int option" where
  "runtime_output_limit d =
     (if set (map fst d) \<subseteq> {''max_turns'', ''max_output_tokens'', ''max_total_tokens'',
          ''max_context_tokens'', ''timeout_seconds''} \<and>
         limit_in d ''max_turns'' 1 (Some 1000) \<and> limit_in d ''max_output_tokens'' 1 None \<and>
         (map_of d ''max_total_tokens'' = Some JNull \<or> limit_in d ''max_total_tokens'' 1 None) \<and>
         (map_of d ''max_context_tokens'' = Some JNull \<or> limit_in d ''max_context_tokens'' 1 None) \<and>
         limit_in d ''timeout_seconds'' 1 (Some 86400)
      then Some (case map_of d ''max_output_tokens'' of Some (JInt n) \<Rightarrow> n | _ \<Rightarrow> 4096)
      else None)"

definition output_reservation :: "world \<Rightarrow> row \<Rightarrow> json \<Rightarrow> herr + int" where
  "output_reservation w experiment model =
     (case map_of (as_dict model) ''model'' of
        None \<Rightarrow> Inl (KeyError ''model'')
      | Some name \<Rightarrow>
          (case map_of (prices w) (text_of name) of
             None \<Rightarrow> Inr 0
           | Some price \<Rightarrow>
               (case runtime_output_limit
                   (as_dict (jor (field experiment ''runtime_limits'') (JObj []))) of
                  None \<Rightarrow> Inr 0
                | Some tokens \<Rightarrow>
                    (case reservation_cost price 0 tokens of
                       None \<Rightarrow> Inl (ValueError ''tokens'') | Some c \<Rightarrow> Inr c))))"

section \<open>Admission\<close>

fun sumE :: "('a \<Rightarrow> 'e + int) \<Rightarrow> 'a list \<Rightarrow> 'e + int" where
  "sumE f [] = Inr 0"
| "sumE f (x # xs) = bindE (f x) (\<lambda>n. bindE (sumE f xs) (\<lambda>m. Inr (n + m)))"

definition admission_floor :: "row option \<Rightarrow> herr + int" where
  "admission_floor policy =
     micro (text_of (jor (case policy of None \<Rightarrow> JNull | Some p \<Rightarrow> field p ''admission_floor_usd'')
                         (JStr ''0'')))"

definition admit_by_budget :: "world \<Rightarrow> row \<Rightarrow> row option \<Rightarrow> json list \<Rightarrow> herr + unit" where
  "admit_by_budget w experiment policy models =
     (case find_budget w (r_id experiment) of
        None \<Rightarrow> Inl (ValueError ''budget'')
      | Some budget \<Rightarrow>
          bindE (admission_floor policy) (\<lambda>floor_units.
          bindE (sumE (output_reservation w experiment) models) (\<lambda>minimum.
          let needed = max minimum 1;
              remaining = max 0 (b_max_cost budget - b_spent budget - b_reserved budget)
          in if remaining - floor_units < needed
             then Inl (Harness ''ADMISSION_BUDGET'' 409
               (0 < b_reserved budget \<and>
                needed \<le> b_max_cost budget - b_spent budget - floor_units))
             else Inr ())))"

definition counted_task :: "principal \<Rightarrow> json \<Rightarrow> bool \<Rightarrow> row \<Rightarrow> bool" where
  "counted_task actor experiment_id is_society r \<longleftrightarrow>
     r_project r = pr_project actor \<and> r_kind r = Task \<and> field r ''experiment_id'' = experiment_id \<and>
     (is_society \<longrightarrow> field r ''hat'' \<noteq> referee_hat)"

definition task_total :: "principal \<Rightarrow> json \<Rightarrow> bool \<Rightarrow> world \<Rightarrow> int" where
  "task_total actor experiment_id is_society w =
     int (length (select_rows (counted_task actor experiment_id is_society) w))"

definition task_pending :: "principal \<Rightarrow> json \<Rightarrow> bool \<Rightarrow> world \<Rightarrow> int" where
  "task_pending actor experiment_id is_society w =
     int (length (select_rows (\<lambda>r. counted_task actor experiment_id is_society r \<and>
        in_strings (field r ''status'') [''queued'', ''running'']) w))"

definition within_cap :: "int option \<Rightarrow> int \<Rightarrow> bool" where
  "within_cap cap n = (case cap of None \<Rightarrow> True | Some limit \<Rightarrow> n \<le> limit)"

definition admit_counts ::
  "world \<Rightarrow> principal \<Rightarrow> json \<Rightarrow> row \<Rightarrow> row option \<Rightarrow> int \<Rightarrow> herr + unit" where
  "admit_counts w actor experiment_id experiment policy count =
     (let (total_limit, pending_limit) = task_caps experiment policy;
          is_society = truthy (field experiment ''society'')
      in if \<not> within_cap total_limit (task_total actor experiment_id is_society w + count)
         then Inl (cap_reached ''TASK_TOTAL_CAP'')
         else if \<not> within_cap pending_limit (task_pending actor experiment_id is_society w + count)
         then Inl (cap_reached ''TASK_PENDING_CAP'')
         else Inr ())"

definition admit_research_tasks ::
  "world \<Rightarrow> json \<Rightarrow> principal \<Rightarrow> int \<Rightarrow> bool \<Rightarrow> json list \<Rightarrow> herr + unit" where
  "admit_research_tasks w experiment_id actor count referee models =
     bindE (active w experiment_id actor) (\<lambda>experiment.
     let policy = workforce_policy w experiment_id actor
     in if truthy (field experiment ''society'') then
          bindE (default_model experiment) (\<lambda>default.
          let chosen = (if models = [] then replicate (nat count) default
                        else map (\<lambda>m. jor m default) models)
          in bindE (admit_by_budget w experiment policy chosen) (\<lambda>_.
             if referee then Inr ()
             else admit_counts w actor experiment_id experiment policy count))
        else admit_counts w actor experiment_id experiment policy count)"

section \<open>The operator's policy\<close>

record workforce_request =
  q_max_total :: "int option"
  q_max_pending :: "int option"
  q_expected_revision :: "int option"
  q_synthesis_interval :: int
  q_floor :: "decimal option"

text \<open>The field bounds and \<open>valid_caps\<close>.\<close>

definition workforce_request_ok :: "workforce_request \<Rightarrow> bool" where
  "workforce_request_ok q \<longleftrightarrow>
     (\<forall>c \<in> {q_max_total q, q_max_pending q}.
        case c of None \<Rightarrow> True | Some n \<Rightarrow> 1 \<le> n \<and> n \<le> 100000) \<and>
     (case q_expected_revision q of None \<Rightarrow> True | Some n \<Rightarrow> 1 \<le> n) \<and>
     0 \<le> q_synthesis_interval q \<and> q_synthesis_interval q \<le> 100 \<and>
     (case (q_max_pending q, q_max_total q) of (Some p, Some t) \<Rightarrow> p \<le> t | _ \<Rightarrow> True) \<and>
     \<not> (0 < q_synthesis_interval q \<and> q_synthesis_interval q < 4)"

definition jint :: "int option \<Rightarrow> json" where
  "jint x = (case x of None \<Rightarrow> JNull | Some n \<Rightarrow> JInt n)"

definition policy_values :: "workforce_request \<Rightarrow> row option \<Rightarrow> dict" where
  "policy_values q existing =
     [(''max_total_tasks'', jint (q_max_total q)), (''max_pending_tasks'', jint (q_max_pending q)),
      (''synthesis_interval_posts'', JInt (q_synthesis_interval q))] @
     (case q_floor q of
        Some f \<Rightarrow> [(''admission_floor_usd'', JStr (format_f f))]
      | None \<Rightarrow>
          (case existing of
             Some p \<Rightarrow> if field p ''admission_floor_usd'' \<noteq> JNull
                       then [(''admission_floor_usd'', JNull)] else []
           | None \<Rightarrow> []))"

definition configure_workforce_action ::
  "string \<Rightarrow> workforce_request \<Rightarrow> principal \<Rightarrow> action" where
  "configure_workforce_action experiment_id q actor op w =
     bindE (active w (JStr experiment_id) actor) (\<lambda>experiment.
     let is_society = truthy (field experiment ''society'')
     in if q_floor q \<noteq> None \<and> \<not> is_society
        then Inl (fail ''ADMISSION_FLOOR_REQUIRES_SOCIETY'' 422)
        else if \<not> is_society \<and> (q_max_total q = None \<or> q_max_pending q = None)
        then Inl (fail ''WORKFORCE_CAPS_REQUIRED'' 422)
        else if find_budget w experiment_id = None then Inl (fail ''NOT_FOUND'' 404)
        else
          let existing = workforce_policy w (JStr experiment_id) actor;
              settings = policy_values q existing
          in bindE (case existing of
               Some p \<Rightarrow>
                 if q_expected_revision q = None then Inl (fail ''REVISION_REQUIRED'' 409)
                 else replace_row w p settings (q_expected_revision q)
             | None \<Rightarrow>
                 if q_expected_revision q \<noteq> None then Inl (fail ''REVISION_CONFLICT'' 409)
                 else insert_row w WorkforcePolicy actor
                   ([(''experiment_id'', JStr experiment_id), (''last_synthesis_sequence'', JInt 0),
                     (''pending_synthesis_post_ids'', JList []),
                     (''pending_synthesis_post_count'', JInt 0)] @ settings) None)
             (\<lambda>(written, w1).
               Inr (written, emit actor op ''workforce.configured'' (text_of (dget written ''id''))
                 [(''experiment_id'', JStr experiment_id)] False w1)))"

definition workforce_inputs :: "string \<Rightarrow> workforce_request \<Rightarrow> json" where
  "workforce_inputs experiment_id q =
     JObj ([(''max_total_tasks'', jint (q_max_total q)),
            (''max_pending_tasks'', jint (q_max_pending q)),
            (''expected_revision'', jint (q_expected_revision q)),
            (''synthesis_interval_posts'', JInt (q_synthesis_interval q))] @
           (case q_floor q of None \<Rightarrow> [] | Some f \<Rightarrow> [(''admission_floor_usd'', JStr (format_f f))]) @
           [(''experiment_id'', JStr experiment_id)])"

definition configure_workforce ::
  "int \<Rightarrow> string \<Rightarrow> workforce_request \<Rightarrow> principal \<Rightarrow> string \<Rightarrow> world \<Rightarrow> herr + (dict \<times> world)"
where
  "configure_workforce elapsed experiment_id q actor key w =
     (if pr_role actor \<notin> {Operator, Admin} then Inl (fail ''FORBIDDEN'' 403)
      else execute elapsed actor key ''workforce.configure'' (workforce_inputs experiment_id q)
        (configure_workforce_action experiment_id q actor) w)"

section \<open>New branches with their first task\<close>

definition insert_edge :: "edge_row \<Rightarrow> world \<Rightarrow> herr + world" where
  "insert_edge e w =
     (if find_edge w (d_source e) (d_target e) (d_relation e) \<noteq> None then Inl IntegrityError
      else Inr (w\<lparr>edges := edges w @ [e]\<rparr>))"

record branch_work =
  k_title :: string
  k_objective :: string
  k_parent :: "string option"
  k_relation :: string
  k_model :: "nat option"
  k_refs :: "string list"
  k_synthesis :: bool
  k_synthesis_scope :: json
  k_detached :: bool
  k_summary :: "string option"
  k_task_extra :: "dict option"
  k_branch_extra :: "dict option"

text \<open>\<open>_extended\<close>: platform fields never replace canonical ones.\<close>

definition extended :: "dict \<Rightarrow> dict option \<Rightarrow> herr + dict" where
  "extended payload extra =
     (case extra of
        None \<Rightarrow> Inr payload
      | Some e \<Rightarrow>
          if set (map fst payload) \<inter> set (map fst e) \<noteq> {} then Inl (ValueError ''extra'')
          else Inr (dmerge payload e))"

definition parent_branch ::
  "world \<Rightarrow> row \<Rightarrow> principal \<Rightarrow> string option \<Rightarrow> herr + row option" where
  "parent_branch w experiment actor parent_id =
     (if \<not> opt_true parent_id then Inr None
      else bindE (writable_branch w (jopt parent_id) actor False) (\<lambda>parent.
        bindE (need parent ''experiment_id'') (\<lambda>e.
        if e \<noteq> JStr (r_id experiment) then Inl (fail ''BRANCH_EXPERIMENT_MISMATCH'' 409)
        else if pr_role actor = Agent \<and> parent_id \<noteq> pr_branch actor
        then Inl (fail ''BRANCH_AUTHORITY'' 403)
        else bindE (guard_referee_branch parent actor) (\<lambda>_. Inr (Some parent)))))"

text \<open>The binding an agent recruits under; joined recruitment needs one.\<close>

definition recruiting_task :: "world \<Rightarrow> principal \<Rightarrow> branch_work \<Rightarrow> herr + worker_effects option" where
  "recruiting_task w actor k =
     (let binding = (if pr_role actor = Agent then effects w else None)
      in if pr_role actor = Agent \<and> opt_true (k_parent k) \<and> \<not> k_detached k \<and> binding = None
         then Inl (fail ''PARENT_TASK_REQUIRED'' 409) else Inr binding)"

definition selected_model :: "row \<Rightarrow> row option \<Rightarrow> nat option \<Rightarrow> herr + json" where
  "selected_model experiment parent model_index =
     bindE (models_of experiment) (\<lambda>ms.
     case model_index of
       Some i \<Rightarrow> Inr (ms ! i)
     | None \<Rightarrow> (case parent of
          Some p \<Rightarrow> need p ''model_configuration'' | None \<Rightarrow> default_model experiment))"

definition jnat :: "nat option \<Rightarrow> json" where
  "jnat x = (case x of None \<Rightarrow> JNull | Some n \<Rightarrow> JInt (int n))"

definition insert_branch ::
  "world \<Rightarrow> row \<Rightarrow> principal \<Rightarrow> branch_work \<Rightarrow> json \<Rightarrow> herr + (dict \<times> world)" where
  "insert_branch w experiment actor k model =
     (let (branch_id, w1) = new_id w; (identity, w2) = new_id w1
      in bindE (need experiment ''target_digest'') (\<lambda>digest.
         bindE (extended
           [(''title'', JStr (k_title k)), (''objective'', JStr (k_objective k)),
            (''relation'', JStr (k_relation k)), (''parent_id'', jopt (k_parent k)),
            (''reply_to_parent'', jopt (k_parent k)), (''checkpoint_id'', JNull),
            (''model_index'', jnat (k_model k)), (''experiment_id'', JStr (r_id experiment)),
            (''target_digest'', digest), (''status'', JStr ''open''),
            (''execution_identity'', JStr identity), (''model_configuration'', model)]
           (k_branch_extra k)) (\<lambda>data. insert_row w2 Branch actor data (Some branch_id))))"

definition link_parent ::
  "principal \<Rightarrow> branch_work \<Rightarrow> dict \<Rightarrow> world \<Rightarrow> herr + world" where
  "link_parent actor k branch w =
     (if \<not> opt_true (k_parent k) then Inr w
      else insert_edge \<lparr>d_source = text_of (dget branch ''id''), d_target = the (k_parent k),
             d_relation = k_relation k, d_project = pr_project actor\<rparr> w)"

definition first_task ::
  "row \<Rightarrow> principal \<Rightarrow> branch_work \<Rightarrow> worker_effects option \<Rightarrow> dict \<Rightarrow> dict" where
  "first_task experiment actor k binding branch =
     (let by = (case binding of Some b \<Rightarrow> if opt_true (k_parent k) then JStr (we_task b) else JNull
                | None \<Rightarrow> JNull)
      in [(''branch_id'', dget branch ''id''), (''objective'', JStr (k_objective k)),
          (''dependency_ids'', JList []), (''detached'', JBool (k_detached k)),
          (''experiment_id'', JStr (r_id experiment)), (''status'', JStr ''queued''),
          (''evidence_ids'', JList []), (''created_by'', JStr (pr_id actor)),
          (''reply_to_parent_task_id'', if k_detached k then JNull else by),
          (''delegated_from_task_id'', by), (''discussion_refs'', strings (k_refs k)),
          (''synthesis'', JBool (k_synthesis k)), (''synthesis_scope'', k_synthesis_scope k)])"

text \<open>The bounded summary a recruiter publishes for the new branch, added as it is.\<close>

definition publish_summary ::
  "row \<Rightarrow> principal \<Rightarrow> branch_work \<Rightarrow> dict \<Rightarrow> world \<Rightarrow> herr + world" where
  "publish_summary experiment actor k branch w =
     (if \<not> opt_true (k_summary k) then Inr w
      else
        let (profile, w1) = make_record w WorkforceProfile actor
              [(''experiment_id'', JStr (r_id experiment)), (''branch_id'', dget branch ''id''),
               (''published'', JBool True), (''summary'', jopt (k_summary k)),
               (''assignment'', JStr []), (''interests'', JList []),
               (''origin_actor_id'', JStr (pr_id actor))];
            i = text_of (dget profile ''id'')
        in if find_row w1 i \<noteq> None then Inl IntegrityError
           else Inr (set_row \<lparr>r_id = i, r_project = pr_project actor, r_kind = WorkforceProfile,
                       r_rev = 1, r_payload = profile\<rparr> w1))"

definition new_branch_task ::
  "string \<Rightarrow> row \<Rightarrow> principal \<Rightarrow> branch_work \<Rightarrow> world \<Rightarrow> herr + (dict \<times> world)" where
  "new_branch_task op experiment actor k w =
     bindE (models_of experiment) (\<lambda>ms.
     if (case k_model k of None \<Rightarrow> False | Some i \<Rightarrow> length ms \<le> i)
     then Inl (fail ''MODEL_NOT_ALLOWED'' 409)
     else bindE (parent_branch w experiment actor (k_parent k)) (\<lambda>parent.
     bindE (recruiting_task w actor k) (\<lambda>binding.
     bindE (selected_model experiment parent (k_model k)) (\<lambda>model.
     bindE (insert_branch w experiment actor k model) (\<lambda>(branch, w1).
     bindE (link_parent actor k branch w1) (\<lambda>w2.
     bindE (extended (first_task experiment actor k binding branch) (k_task_extra k)) (\<lambda>data.
     bindE (insert_row w2 Task actor data None) (\<lambda>(task, w3).
     bindE (publish_summary experiment actor k branch w3) (\<lambda>w4.
     let about = [(''experiment_id'', JStr (r_id experiment))];
         w5 = emit actor op ''branch.created'' (text_of (dget branch ''id'')) about False w4;
         w6 = emit actor op ''task.queued'' (text_of (dget task ''id'')) about True w5
     in Inr ([(''branch'', JObj branch), (''task'', JObj task)], w6))))))))))"

section \<open>Seeding a portfolio\<close>

record portfolio_root =
  o_title :: string
  o_objective :: string
  o_model :: "nat option"
  o_summary :: "string option"

definition portfolio_root_ok :: "portfolio_root \<Rightarrow> bool" where
  "portfolio_root_ok r \<longleftrightarrow>
     1 \<le> length (o_title r) \<and> length (o_title r) \<le> 200 \<and>
     1 \<le> length (o_objective r) \<and> length (o_objective r) \<le> 20000 \<and>
     (case o_model r of None \<Rightarrow> True | Some i \<Rightarrow> i \<le> 99) \<and>
     strip (o_title r) \<noteq> [] \<and> strip (o_objective r) \<noteq> [] \<and>
     (case o_summary r of None \<Rightarrow> True | Some t \<Rightarrow> length t \<le> 1000 \<and> strip t \<noteq> [])"

definition root_work :: "portfolio_root \<Rightarrow> branch_work" where
  "root_work r =
     \<lparr>k_title = o_title r, k_objective = o_objective r, k_parent = None,
      k_relation = ''competing'', k_model = o_model r, k_refs = [], k_synthesis = False,
      k_synthesis_scope = JNull, k_detached = False, k_summary = o_summary r,
      k_task_extra = None, k_branch_extra = None\<rparr>"

definition seed_root ::
  "string \<Rightarrow> row \<Rightarrow> principal \<Rightarrow> portfolio_root \<Rightarrow> json list \<times> world \<Rightarrow> herr + (json list \<times> world)"
where
  "seed_root op experiment actor r st =
     bindE (new_branch_task op experiment actor (root_work r) (snd st)) (\<lambda>(made, w').
     Inr (fst st @ [JObj made], w'))"

definition seed_portfolio_action ::
  "string \<Rightarrow> portfolio_root list \<Rightarrow> principal \<Rightarrow> action" where
  "seed_portfolio_action experiment_id roots actor op w =
     bindE (active w (JStr experiment_id) actor) (\<lambda>experiment.
     bindE (mapE (\<lambda>r. branch_model experiment (o_model r) None) roots) (\<lambda>models.
     bindE (admit_research_tasks w (JStr experiment_id) actor (int (length roots)) False models)
       (\<lambda>_.
     bindE (foldE (seed_root op experiment actor) roots ([], w)) (\<lambda>(made, w1).
     Inr ([(''experiment_id'', JStr experiment_id), (''roots'', JList made)], w1)))))"

definition root_json :: "portfolio_root \<Rightarrow> json" where
  "root_json r =
     JObj [(''title'', JStr (o_title r)), (''objective'', JStr (o_objective r)),
           (''model_index'', jnat (o_model r)), (''public_summary'', jopt (o_summary r))]"

definition seed_portfolio ::
  "int \<Rightarrow> string \<Rightarrow> portfolio_root list \<Rightarrow> principal \<Rightarrow> string \<Rightarrow> world \<Rightarrow> herr + (dict \<times> world)"
where
  "seed_portfolio elapsed experiment_id roots actor key w =
     (if pr_role actor \<notin> {Operator, Admin} then Inl (fail ''FORBIDDEN'' 403)
      else execute elapsed actor key ''workforce.seed''
        (JObj [(''roots'', JList (map root_json roots)), (''experiment_id'', JStr experiment_id)])
        (seed_portfolio_action experiment_id roots actor) w)"

section \<open>The registry of components\<close>

definition component_valid :: "string \<Rightarrow> string \<Rightarrow> string list \<Rightarrow> bool" where
  "component_valid component_key statement artifact_ids \<longleftrightarrow>
     strip component_key \<noteq> [] \<and> length component_key \<le> 120 \<and>
     strip statement \<noteq> [] \<and> length statement \<le> 2000 \<and> length artifact_ids \<le> 20"

definition evidence_of :: "world \<Rightarrow> principal \<Rightarrow> json \<Rightarrow> string \<Rightarrow> string \<Rightarrow> herr + unit" where
  "evidence_of w actor experiment_id code identifier =
     bindE (get_row w Artifact (JStr identifier) actor) (\<lambda>artifact.
     if field artifact ''experiment_id'' \<noteq> experiment_id then Inl (fail code 409) else Inr ())"

definition existing_component ::
  "world \<Rightarrow> principal \<Rightarrow> string \<Rightarrow> json \<Rightarrow> string \<Rightarrow> row option" where
  "existing_component w actor experiment_id branch_id component_key =
     find (\<lambda>r. r_project r = pr_project actor \<and> r_kind r = ComponentRegistry \<and>
               field r ''experiment_id'' = JStr experiment_id \<and> field r ''branch_id'' = branch_id \<and>
               field r ''component_key'' = JStr component_key) (records w)"

definition register_component_action ::
  "string \<Rightarrow> string \<Rightarrow> string \<Rightarrow> string \<Rightarrow> string list \<Rightarrow> int option \<Rightarrow> principal \<Rightarrow> action"
where
  "register_component_action experiment_id component_key statement owner_task_id artifact_ids
     expected_revision actor op w =
     bindE (get_row w Experiment (JStr experiment_id) actor) (\<lambda>experiment.
     bindE (get_row w Task (JStr owner_task_id) actor) (\<lambda>owner.
     if field owner ''experiment_id'' \<noteq> JStr (r_id experiment)
     then Inl (fail ''COMPONENT_SCOPE'' 409)
     else bindE (need owner ''branch_id'') (\<lambda>branch_id.
     bindE (writable_branch w branch_id actor False) (\<lambda>_.
     bindE (checkE (evidence_of w actor (JStr (r_id experiment)) ''COMPONENT_SCOPE'') artifact_ids)
       (\<lambda>_.
     let settings =
           [(''experiment_id'', JStr experiment_id), (''branch_id'', branch_id),
            (''component_key'', JStr (strip component_key)), (''statement'', JStr (strip statement)),
            (''owner_task_id'', JStr owner_task_id), (''artifact_ids'', strings (dedup artifact_ids)),
            (''proof_status'', JStr ''unverified'')]
     in bindE (case existing_component w actor experiment_id branch_id (strip component_key) of
          Some p \<Rightarrow>
            if expected_revision = None then Inl (fail ''REVISION_REQUIRED'' 409)
            else replace_row w p settings expected_revision
        | None \<Rightarrow>
            if expected_revision \<noteq> None then Inl (fail ''REVISION_CONFLICT'' 409)
            else insert_row w ComponentRegistry actor settings None)
        (\<lambda>(written, w1).
          Inr (written, emit actor op ''component.registered'' (text_of (dget written ''id''))
            [(''experiment_id'', JStr experiment_id),
             (''component_key'', JStr (strip component_key))] False w1)))))))"

definition register_component ::
  "int \<Rightarrow> string \<Rightarrow> string \<Rightarrow> string \<Rightarrow> string \<Rightarrow> string list \<Rightarrow> int option \<Rightarrow> principal \<Rightarrow> string \<Rightarrow>
   world \<Rightarrow> herr + (dict \<times> world)"
where
  "register_component elapsed experiment_id component_key statement owner_task_id artifact_ids
     expected_revision actor key w =
     bindE (research_role actor) (\<lambda>_.
     if \<not> component_valid component_key statement artifact_ids
     then Inl (fail ''COMPONENT_INVALID'' 409)
     else execute elapsed actor key ''component.register''
       (JObj [(''experiment_id'', JStr experiment_id), (''component_key'', JStr component_key),
              (''statement'', JStr statement), (''owner_task_id'', JStr owner_task_id),
              (''artifact_ids'', strings artifact_ids),
              (''expected_revision'', jint expected_revision)])
       (register_component_action experiment_id component_key statement owner_task_id artifact_ids
          expected_revision actor) w)"

text \<open>What the directory shows of an owner task.\<close>

definition ideas_shared :: "world \<Rightarrow> principal \<Rightarrow> bool" where
  "ideas_shared w actor =
     (case (if opt_true (pr_experiment actor) then find_opt w (pr_experiment actor) else None) of
        None \<Rightarrow> False | Some e \<Rightarrow> field e ''sharing'' = JStr ''ideas'')"

definition owner_status :: "world \<Rightarrow> string \<Rightarrow> row option \<Rightarrow> string" where
  "owner_status w task_id owner =
     (let status = (case owner of None \<Rightarrow> JNull | Some t \<Rightarrow> field t ''status'')
      in if in_strings status [''completed'', ''failed'', ''blocked''] \<or> status = JNull then ''stale''
         else if status = JStr ''running'' then
           (case find_lease w task_id of
              Some l \<Rightarrow> if now w < l_expires l then ''running'' else ''stale''
            | None \<Rightarrow> ''stale'')
         else ''queued'')"

definition component_item :: "world \<Rightarrow> principal \<Rightarrow> row \<Rightarrow> herr + dict" where
  "component_item w actor r =
     bindE (need r ''owner_task_id'') (\<lambda>owner_id.
     let owner = find_json w owner_id
     in bindE (need r ''component_key'') (\<lambda>component_key.
        bindE (need r ''statement'') (\<lambda>statement.
        bindE (need r ''branch_id'') (\<lambda>branch_id.
        bindE (need r ''artifact_ids'') (\<lambda>artifact_ids.
        Inr [(''id'', JStr (r_id r)), (''component_key'', component_key),
             (''revision'', JInt (r_rev r)), (''statement'', statement), (''branch_id'', branch_id),
             (''owner_task_id'', owner_id),
             (''owner_status'', JStr (owner_status w (text_of owner_id) owner)),
             (''owner_strategy'', case owner of None \<Rightarrow> JNull
                | Some t \<Rightarrow> if in_scope w actor t \<or> ideas_shared w actor
                            then field t ''strategy'' else JNull),
             (''artifact_ids'', JList (filter (\<lambda>i. case find_json w i of None \<Rightarrow> False
                | Some a \<Rightarrow> in_scope w actor a) (as_list artifact_ids))),
             (''proof_status'', JStr ''unverified'')])))))"

section \<open>Counting records\<close>

definition count_rows :: "(row \<Rightarrow> bool) \<Rightarrow> world \<Rightarrow> nat" where
  "count_rows P w = length (select_rows P w)"

lemma count_rows_cong: "records w' = records w \<Longrightarrow> count_rows P w' = count_rows P w"
  by (simp add: count_rows_def select_rows_def)

lemma count_rows_emit [simp]: "count_rows P (emit a op kd ag pl d w) = count_rows P w"
  by (rule count_rows_cong) simp

lemma count_rows_new_id [simp]: "count_rows P (snd (new_id w)) = count_rows P w"
  by (rule count_rows_cong) simp

lemma count_rows_new_row:
  "find_row w (r_id r) = None \<Longrightarrow> count_rows P (set_row r w) = count_rows P w + (if P r then 1 else 0)"
  by (simp add: count_rows_def select_rows_def set_row_def put_row_def find_row_def lookup_row_None_iff)

lemma insert_row_count:
  assumes "insert_row w k actor data rid = Inr (made, w')"
  shows "count_rows P w' \<le> count_rows P w + 1"
    and "(\<And>r. P r \<Longrightarrow> r_kind r \<noteq> k) \<Longrightarrow> count_rows P w' = count_rows P w"
proof -
  let ?r = "\<lparr>r_id = inserted_id w rid, r_project = pr_project actor, r_kind = k, r_rev = 1,
             r_payload = made\<rparr>"
  have "find_row w (inserted_id w rid) = None" "w' = set_row ?r (snd (new_id w))"
    by (rule insert_row_InrE [OF assms]; simp)+
  then have "count_rows P w' = count_rows P w + (if P ?r then 1 else 0)"
    by (simp add: count_rows_new_row)
  moreover have "(\<And>r. P r \<Longrightarrow> r_kind r \<noteq> k) \<Longrightarrow> \<not> P ?r" by force
  ultimately show "count_rows P w' \<le> count_rows P w + 1"
    "(\<And>r. P r \<Longrightarrow> r_kind r \<noteq> k) \<Longrightarrow> count_rows P w' = count_rows P w" by auto
qed

lemma publish_summary_count:
  assumes "publish_summary ex actor k branch w = Inr w'" and "\<And>r. P r \<Longrightarrow> r_kind r = Task"
  shows "count_rows P w' = count_rows P w"
proof (cases "opt_true (k_summary k)")
  case True
  then obtain profile w1 where m: "make_record w WorkforceProfile actor
      [(''experiment_id'', JStr (r_id ex)), (''branch_id'', dget branch ''id''),
       (''published'', JBool True), (''summary'', jopt (k_summary k)), (''assignment'', JStr []),
       (''interests'', JList []), (''origin_actor_id'', JStr (pr_id actor))] = (profile, w1)"
    by (meson surj_pair)
  then have w1: "w1 = snd (new_id w)" using make_record_simps(1) by (metis snd_conv)
  let ?r = "\<lparr>r_id = text_of (dget profile ''id''), r_project = pr_project actor,
    r_kind = WorkforceProfile, r_rev = 1, r_payload = profile\<rparr>"
  have "find_row w1 (r_id ?r) = None" "w' = set_row ?r w1"
    using assms(1) True m by (auto simp: publish_summary_def Let_def split: if_splits)
  moreover have "\<not> P ?r" using assms(2) by force
  ultimately show ?thesis by (simp add: count_rows_new_row w1)
next
  case False
  then show ?thesis using assms(1) by (simp add: publish_summary_def)
qed

lemma link_parent_records:
  "link_parent actor k branch w = Inr w' \<Longrightarrow> records w' = records w"
  by (auto simp: link_parent_def insert_edge_def split: if_splits)

lemma insert_branch_count:
  assumes "insert_branch w ex actor k model = Inr (branch, w')" and "\<And>r. P r \<Longrightarrow> r_kind r = Task"
  shows "count_rows P w' = count_rows P w"
proof -
  obtain data rid where "insert_row (snd (new_id (snd (new_id w)))) Branch actor data rid = Inr (branch, w')"
    using assms(1) by (auto simp: insert_branch_def split_def Let_def bindE_Inr_iff)
  then have "count_rows P w' = count_rows P (snd (new_id (snd (new_id w))))"
    by (rule insert_row_count(2)) (use assms(2) in fastforce)
  then show ?thesis by simp
qed

lemma new_branch_task_InrE:
  assumes "new_branch_task op ex actor k w = Inr (made, w')"
  obtains branch model w1 w2 w3 w4 data task where
    "insert_branch w ex actor k model = Inr (branch, w1)" "link_parent actor k branch w1 = Inr w2"
    "insert_row w2 Task actor data None = Inr (task, w3)"
    "publish_summary ex actor k branch w3 = Inr w4" "records w' = records w4"
    "made = [(''branch'', JObj branch), (''task'', JObj task)]"
proof -
  from assms obtain branch model w1 w2 w3 w4 data task where s:
    "insert_branch w ex actor k model = Inr (branch, w1)" "link_parent actor k branch w1 = Inr w2"
    "insert_row w2 Task actor data None = Inr (task, w3)"
    "publish_summary ex actor k branch w3 = Inr w4" "records w' = records w4"
    "made = [(''branch'', JObj branch), (''task'', JObj task)]"
    unfolding new_branch_task_def bindE_Inr_iff if_Inl_Inr_iff Let_def split_paired_Ex prod.case
    by auto
  show ?thesis by (rule that [OF s])
qed

lemma new_branch_task_count:
  assumes "new_branch_task op ex actor k w = Inr (made, w')" and "\<And>r. P r \<Longrightarrow> r_kind r = Task"
  shows "count_rows P w' \<le> count_rows P w + 1"
proof (rule new_branch_task_InrE [OF assms(1)])
  fix branch model w1 w2 w3 w4 data task
  assume s: "insert_branch w ex actor k model = Inr (branch, w1)" "link_parent actor k branch w1 = Inr w2"
    "insert_row w2 Task actor data None = Inr (task, w3)"
    "publish_summary ex actor k branch w3 = Inr w4" "records w' = records w4"
  have "count_rows P w' = count_rows P w3"
    using publish_summary_count [OF s(4) assms(2)] count_rows_cong [OF s(5)] by simp
  also have "\<dots> \<le> count_rows P w2 + 1" by (rule insert_row_count(1) [OF s(3)])
  also have "count_rows P w2 = count_rows P w"
    using count_rows_cong [OF link_parent_records [OF s(2)]] insert_branch_count [OF s(1) assms(2)]
    by simp
  finally show ?thesis .
qed

lemma seed_roots_count:
  assumes "foldE (seed_root op ex actor) roots st = Inr (made, w')" and "\<And>r. P r \<Longrightarrow> r_kind r = Task"
  shows "count_rows P w' \<le> count_rows P (snd st) + length roots"
  using assms(1)
proof (induction roots arbitrary: st)
  case (Cons r roots)
  then obtain st' where one: "seed_root op ex actor r st = Inr st'"
    and rest: "foldE (seed_root op ex actor) roots st' = Inr (made, w')"
    by (auto simp only: foldE.simps bindE_Inr_iff)
  obtain m v where v: "new_branch_task op ex actor (root_work r) (snd st) = Inr (m, v)"
    and st': "st' = (fst st @ [JObj m], v)"
    using one unfolding seed_root_def bindE_Inr_iff split_paired_Ex by auto
  show ?case using Cons.IH [OF rest] new_branch_task_count [OF v, of P, OF assms(2)] by (simp add: st')
qed simp

section \<open>Properties\<close>

lemma admit_research_tasks_caps:
  assumes "admit_research_tasks w e actor n False models = Inr u" "active w e actor = Inr ex"
  shows "within_cap (fst (task_caps ex (workforce_policy w e actor)))
      (task_total actor e (truthy (field ex ''society'')) w + n)"
    "within_cap (snd (task_caps ex (workforce_policy w e actor)))
      (task_pending actor e (truthy (field ex ''society'')) w + n)"
proof -
  have "admit_counts w actor e ex (workforce_policy w e actor) n = Inr ()"
    using assms by (auto simp: admit_research_tasks_def Let_def bindE_Inr_iff split: if_splits)
  then show "within_cap (fst (task_caps ex (workforce_policy w e actor)))
      (task_total actor e (truthy (field ex ''society'')) w + n)"
    "within_cap (snd (task_caps ex (workforce_policy w e actor)))
      (task_pending actor e (truthy (field ex ''society'')) w + n)"
    by (auto simp: admit_counts_def split_def Let_def split: if_splits)
qed

lemma within_cap_mono: "within_cap c n \<Longrightarrow> m \<le> n \<Longrightarrow> within_cap c m"
  by (auto simp: within_cap_def split: option.splits)

lemma task_counts:
  "task_total actor e soc w = int (count_rows (counted_task actor e soc) w)"
  "task_pending actor e soc w = int (count_rows (\<lambda>r. counted_task actor e soc r \<and>
     in_strings (field r ''status'') [''queued'', ''running'']) w)"
  by (simp_all add: task_total_def task_pending_def count_rows_def)

lemma seed_portfolio_action_caps:
  assumes "seed_portfolio_action e roots actor op w = Inr (made, w')"
    and "active w (JStr e) actor = Inr ex"
  defines "soc \<equiv> truthy (field ex ''society'')"
  shows "within_cap (fst (task_caps ex (workforce_policy w (JStr e) actor)))
      (task_total actor (JStr e) soc w') \<and>
    within_cap (snd (task_caps ex (workforce_policy w (JStr e) actor)))
      (task_pending actor (JStr e) soc w')"
proof -
  obtain models shown where
    a: "admit_research_tasks w (JStr e) actor (int (length roots)) False models = Inr ()"
    and f: "foldE (seed_root op ex actor) roots ([], w) = Inr (shown, w')"
    using assms(1,2) by (auto simp: seed_portfolio_action_def bindE_Inr_iff)
  have "count_rows P w' \<le> count_rows P w + length roots" if "\<And>r. P r \<Longrightarrow> r_kind r = Task" for P
    using seed_roots_count [OF f, of P] that by simp
  then have "task_total actor (JStr e) soc w' \<le> task_total actor (JStr e) soc w + int (length roots)"
    "task_pending actor (JStr e) soc w' \<le> task_pending actor (JStr e) soc w + int (length roots)"
    unfolding task_counts by (force simp: counted_task_def simp flip: of_nat_add)+
  then show ?thesis
    using admit_research_tasks_caps [OF a assms(2)] within_cap_mono unfolding soc_def by blast
qed

text \<open>Seeding respects the task caps: after the operator's roots are in, the experiment's tasks, and
  its queued and running ones, are within the caps the policy set (ten thousand each where a legacy
  experiment set none, no cap where a society set none). Nothing made along the way, the branches and
  the published summaries, counts.\<close>

theorem seeding_respects_caps:
  assumes "seed_portfolio elapsed e roots actor key w = Inr (made, w')"
    and "find_command w (command_key w actor key) = None" and "active w (JStr e) actor = Inr ex"
  shows "within_cap (fst (task_caps ex (workforce_policy w (JStr e) actor)))
      (task_total actor (JStr e) (truthy (field ex ''society'')) w') \<and>
    within_cap (snd (task_caps ex (workforce_policy w (JStr e) actor)))
      (task_pending actor (JStr e) (truthy (field ex ''society'')) w')"
proof -
  have run: "execute elapsed actor key ''workforce.seed''
      (JObj [(''roots'', JList (map root_json roots)), (''experiment_id'', JStr e)])
      (seed_portfolio_action e roots actor) w = Inr (made, w')"
    using assms(1) by (auto simp: seed_portfolio_def split: if_splits)
  obtain w2 where act: "seed_portfolio_action e roots actor (fst (new_id w)) (snd (new_id w)) =
      Inr (made, w2)" and same: "same_tables w2 w'"
    by (rule execute_fresh [OF run assms(2)])
  have "active (snd (new_id w)) (JStr e) actor = Inr ex" using assms(3) by simp
  from seed_portfolio_action_caps [OF act this] show ?thesis
    using same by (simp add: workforce_policy_def task_counts count_rows_def select_rows_def same_tables_def)
qed

definition sample_root :: portfolio_root where
  "sample_root = \<lparr>o_title = ''direct'', o_objective = ''prove it'', o_model = None,
     o_summary = Some ''a direct proof''\<rparr>"

theorem seeding_respects_caps_witness:
  "\<exists>made w'. seed_portfolio 0 ''e'' [sample_root] sample_operator ''k1'' sample = Inr (made, w') \<and>
    within_cap (Some 10000) (task_total sample_operator (JStr ''e'') False w')"
proof -
  have "\<not> isl (seed_portfolio 0 ''e'' [sample_root] sample_operator ''k1'' sample)" by code_simp
  then obtain made w' where run: "seed_portfolio 0 ''e'' [sample_root] sample_operator ''k1'' sample =
    Inr (made, w')" by (rule succeedsE)
  have ac: "active sample (JStr ''e'') sample_operator = Inr sample_experiment" by code_simp
  have "find_command sample (command_key sample sample_operator ''k1'') = None" by code_simp
  from seeding_respects_caps [OF run this ac]
  have "within_cap (fst (task_caps sample_experiment (workforce_policy sample (JStr ''e'') sample_operator)))
    (task_total sample_operator (JStr ''e'') (truthy (field sample_experiment ''society'')) w')"
    by simp
  moreover have "fst (task_caps sample_experiment (workforce_policy sample (JStr ''e'') sample_operator)) =
    Some 10000" "truthy (field sample_experiment ''society'') = False" by code_simp+
  ultimately show ?thesis using run by auto
qed

end
