(* ===== verification/Canonical.thy ===== *)
theory Canonical
  imports Json Money "HOL-Library.Multiset"
begin

text \<open>
  The canonical text of a JSON value (\<open>domain.canonical_json\<close>): keys sorted, no blanks, characters
  above the control range kept as they are. An instant is printed by the parameter \<open>stamp\<close>, the
  ISO text of a time.
\<close>

definition hex_digit :: "nat \<Rightarrow> char" where
  "hex_digit n = ''0123456789abcdef'' ! n"

definition escape_char :: "char \<Rightarrow> string" where
  "escape_char c =
     (if c = CHR 0x22 then [CHR 0x5C, CHR 0x22]
      else if c = CHR 0x5C then [CHR 0x5C, CHR 0x5C]
      else if c = CHR 0x0A then [CHR 0x5C, CHR ''n'']
      else if c = CHR 0x0D then [CHR 0x5C, CHR ''r'']
      else if c = CHR 0x09 then [CHR 0x5C, CHR ''t'']
      else if c = CHR 0x08 then [CHR 0x5C, CHR ''b'']
      else if c = CHR 0x0C then [CHR 0x5C, CHR ''f'']
      else
        let n = (of_char c :: nat)
        in if n < 32 then CHR 0x5C # ''u00'' @ [hex_digit (n div 16), hex_digit (n mod 16)]
           else [c])"

definition quoted :: "string \<Rightarrow> string" where
  "quoted s = CHR 0x22 # concat (map escape_char s) @ [CHR 0x22]"

definition show_int :: "int \<Rightarrow> string" where
  "show_int n = (if n < 0 then CHR ''-'' # show_nat (- n) else show_nat n)"

fun comma_join :: "string list \<Rightarrow> string" where
  "comma_join [] = []"
| "comma_join [x] = x"
| "comma_join (x # xs) = x @ CHR '','' # comma_join xs"

fun canonical :: "(int \<Rightarrow> string) \<Rightarrow> json \<Rightarrow> string" where
  "canonical stamp JNull = ''null''"
| "canonical stamp (JBool b) = (if b then ''true'' else ''false'')"
| "canonical stamp (JInt n) = show_int n"
| "canonical stamp (JTime t) = quoted (stamp t)"
| "canonical stamp (JStr s) = quoted s"
| "canonical stamp (JList xs) = CHR ''['' # comma_join (map (canonical stamp) xs) @ '']''"
| "canonical stamp (JObj d) =
     CHR ''{'' # comma_join (map (\<lambda>(k, text). quoted k @ CHR '':'' # text)
       (sort_key fst (map (\<lambda>(k, v). (k, canonical stamp v)) d))) @ ''}''"

section \<open>Sorting by key\<close>

text \<open>Sorting by a key that is unique in the list depends on the elements alone.\<close>

lemma short_lists: "mset xs = mset ys \<Longrightarrow> length ys \<le> 1 \<Longrightarrow> xs = ys"
  by (cases ys) auto

lemma sort_key_unique:
  assumes "mset xs = mset ys" and "distinct (map f xs)"
  shows "sort_key f xs = sort_key f ys"
proof (rule properties_for_sort_key)
  show "mset (sort_key f ys) = mset xs" using assms(1) by simp
  show "sorted (map f (sort_key f ys))" by simp
  show "filter (\<lambda>y. f x = f y) (sort_key f ys) = filter (\<lambda>y. f x = f y) xs"
    if "x \<in> set (sort_key f ys)" for x
  proof -
    have one: "length (filter (\<lambda>y. f x = f y) zs) \<le> 1" if "distinct (map f zs)" for zs
      using that by (induction zs) (auto simp: filter_empty_conv image_iff)
    have dy: "distinct (map f ys)"
      using assms by (metis mset_map mset_eq_imp_distinct_iff)
    have "mset (filter (\<lambda>y. f x = f y) (sort_key f ys)) = mset (filter (\<lambda>y. f x = f y) xs)"
      using assms(1) by (simp add: mset_filter)
    moreover have "length (filter (\<lambda>y. f x = f y) xs) \<le> 1" by (rule one) (rule assms(2))
    ultimately show ?thesis
      using short_lists by metis
  qed
qed

section \<open>Properties\<close>

text \<open>The canonical text of a dictionary does not depend on the order its keys were written in: two
  dictionaries with the same entries and distinct keys have the same text, so the same digest, key
  and fingerprint.\<close>

theorem canonical_ignores_order:
  assumes "mset d = mset e" and "distinct (map fst d)"
  shows "canonical stamp (JObj d) = canonical stamp (JObj e)"
proof -
  let ?f = "\<lambda>(k, v). (k, canonical stamp v)"
  have "map fst (map ?f d) = map fst d" by (induction d) auto
  then have keys: "distinct (map fst (map ?f d))" using assms(2) by metis
  have "mset (map ?f d) = mset (map ?f e)" unfolding mset_map assms(1) ..
  then have "sort_key fst (map ?f d) = sort_key fst (map ?f e)" using keys by (rule sort_key_unique)
  then show ?thesis by simp
qed

theorem canonical_ignores_order_witness:
  "canonical (\<lambda>t. []) (JObj [(''b'', JInt 1), (''a'', JNull)]) =
     canonical (\<lambda>t. []) (JObj [(''a'', JNull), (''b'', JInt 1)])"
  by (rule canonical_ignores_order) simp_all

end
