(* ===== verification/Tasks.thy ===== *)
theory Tasks
  imports Workforce Canonical
begin

text \<open>
  Tasks and their execution leases (\<open>collaboration.py\<close>): delegation with its joined lineage, leases
  with a fence that a new holder raises, renewal, completion with evidence and its notice to the
  parent, results of joined children, amended objectives and the retirement of queued tasks whose
  target is already verified.
\<close>

section \<open>Creating tasks\<close>

record task_create =
  t_branch :: string
  t_objective :: string
  t_dependencies :: "string list"
  t_detached :: bool
  t_strategy :: "string option"

definition task_create_ok :: "task_create \<Rightarrow> bool" where
  "task_create_ok q \<longleftrightarrow>
     1 \<le> length (t_objective q) \<and> length (t_objective q) \<le> 20000 \<and>
     length (t_dependencies q) \<le> 1000 \<and>
     (case t_strategy q of None \<Rightarrow> True | Some s \<Rightarrow> length s \<le> 500)"

text \<open>
  The loop over the ancestors of joined work. The number bounds it: it is given one more than the
  records there are, so that only a cycle of parents, on which the code loops for ever, runs out.
\<close>

fun check_ancestors ::
  "nat \<Rightarrow> world \<Rightarrow> principal \<Rightarrow> json \<Rightarrow> string list \<Rightarrow> json \<Rightarrow> herr + unit" where
  "check_ancestors 0 w actor experiment_id dependencies ancestor_id =
     Inl (ValueError ''unending lineage'')"
| "check_ancestors (Suc n) w actor experiment_id dependencies ancestor_id =
     (if \<not> truthy ancestor_id then Inr ()
      else if in_strings ancestor_id dependencies
      then Inl (fail ''JOIN_DEPENDENCY_CYCLE'' 422)
      else case find_json w ancestor_id of
        None \<Rightarrow> Inl (fail ''TASK_SCOPE'' 409)
      | Some ancestor \<Rightarrow>
          if r_kind ancestor \<noteq> Task \<or> r_project ancestor \<noteq> pr_project actor \<or>
             field ancestor ''experiment_id'' \<noteq> experiment_id
          then Inl (fail ''TASK_SCOPE'' 409)
          else check_ancestors n w actor experiment_id dependencies
            (field ancestor ''reply_to_parent_task_id''))"

definition lineage_check ::
  "world \<Rightarrow> principal \<Rightarrow> json \<Rightarrow> string list \<Rightarrow> json \<Rightarrow> herr + unit" where
  "lineage_check w actor experiment_id dependencies ancestor_id =
     check_ancestors (Suc (Suc (length (records w)))) w actor experiment_id dependencies ancestor_id"

definition dependency_ok :: "world \<Rightarrow> principal \<Rightarrow> json \<Rightarrow> string \<Rightarrow> herr + unit" where
  "dependency_ok w actor experiment_id identifier =
     bindE (get_row w Task (JStr identifier) actor) (\<lambda>dependency.
     bindE (need dependency ''experiment_id'') (\<lambda>e.
     if e \<noteq> experiment_id then Inl (fail ''DEPENDENCY_SCOPE'' 409) else Inr ()))"

definition task_data :: "task_create \<Rightarrow> json \<Rightarrow> dict" where
  "task_data q delegated =
     [(''branch_id'', JStr (t_branch q)), (''objective'', JStr (t_objective q)),
      (''dependency_ids'', strings (t_dependencies q)), (''detached'', JBool (t_detached q))] @
     (case t_strategy q of None \<Rightarrow> [] | Some s \<Rightarrow> [(''strategy'', JStr s)]) @
     (if truthy delegated then [(''delegated_from_task_id'', delegated)] else [])"

definition require_edge ::
  "principal \<Rightarrow> string \<Rightarrow> string \<Rightarrow> world \<Rightarrow> herr + world" where
  "require_edge actor source identifier w =
     insert_edge \<lparr>d_source = source, d_target = identifier, d_relation = ''requires'',
       d_project = pr_project actor\<rparr> w"

definition create_task_action :: "task_create \<Rightarrow> json \<Rightarrow> principal \<Rightarrow> action" where
  "create_task_action q delegated actor op w =
     bindE (writable_branch w (JStr (t_branch q)) actor True) (\<lambda>branch.
     bindE (need branch ''experiment_id'') (\<lambda>experiment_id.
     bindE (admit_research_tasks w experiment_id actor 1 False
              [field branch ''model_configuration'']) (\<lambda>_.
     if \<not> distinct (t_dependencies q) then Inl (fail ''DUPLICATE_DEPENDENCY'' 422)
     else bindE (if truthy delegated \<and> \<not> t_detached q
                 then lineage_check w actor experiment_id (t_dependencies q) delegated
                 else Inr ()) (\<lambda>_.
     bindE (checkE (dependency_ok w actor experiment_id) (t_dependencies q)) (\<lambda>_.
     bindE (insert_row w Task actor
       (dmerge (task_data q delegated)
         [(''experiment_id'', experiment_id), (''status'', JStr ''queued''),
          (''evidence_ids'', JList []), (''created_by'', JStr (pr_id actor)),
          (''reply_to_parent_task_id'', if t_detached q then JNull else delegated)]) None)
       (\<lambda>(made, w1).
     bindE (foldE (require_edge actor (text_of (dget made ''id''))) (t_dependencies q) w1) (\<lambda>w2.
     Inr (made, emit actor op ''task.queued'' (text_of (dget made ''id''))
       [(''experiment_id'', experiment_id)] True w2))))))))"

definition create_task ::
  "int \<Rightarrow> task_create \<Rightarrow> principal \<Rightarrow> string \<Rightarrow> world \<Rightarrow> herr + (dict \<times> world)" where
  "create_task elapsed q actor key w =
     bindE (research_role actor) (\<lambda>_.
     let delegated = (case effects w of
           Some b \<Rightarrow> if pr_role actor = Agent then JStr (we_task b) else JNull | None \<Rightarrow> JNull)
     in if \<not> truthy delegated \<and> t_detached q \<and> pr_role actor = Agent
        then Inl (fail ''DETACHED_SCOPE'' 409)
        else execute elapsed actor key ''task.create'' (JObj (task_data q delegated))
          (create_task_action q delegated actor) w)"

section \<open>Leases\<close>

definition lease_json :: "string \<Rightarrow> string \<Rightarrow> int \<Rightarrow> int \<Rightarrow> dict" where
  "lease_json task_id holder fence expires =
     [(''task_id'', JStr task_id), (''holder'', JStr holder), (''fence'', JInt fence),
      (''expires_at'', JTime expires)]"

definition dependency_done :: "world \<Rightarrow> principal \<Rightarrow> json \<Rightarrow> herr + unit" where
  "dependency_done w actor identifier =
     bindE (get_row w Task identifier actor) (\<lambda>dependency.
     bindE (need dependency ''status'') (\<lambda>status.
     if status \<noteq> JStr ''completed'' then Inl (Harness ''DEPENDENCIES_PENDING'' 409 True)
     else Inr ()))"

definition acquire_task_action :: "string \<Rightarrow> string \<Rightarrow> int \<Rightarrow> principal \<Rightarrow> action" where
  "acquire_task_action task_id holder ttl actor op w =
     bindE (get_row w Task (JStr task_id) actor) (\<lambda>task.
     bindE (need task ''experiment_id'') (\<lambda>e.
     bindE (active w e actor) (\<lambda>_.
     bindE (need task ''status'') (\<lambda>status.
     if \<not> in_strings status [''queued'', ''running'']
     then Inl (fail ''TASK_NOT_RUNNABLE'' 409)
     else bindE (need task ''dependency_ids'') (\<lambda>dependencies.
     bindE (checkE (dependency_done w actor) (as_list dependencies)) (\<lambda>_.
     let lease = find_lease w task_id;
         fence = (case lease of None \<Rightarrow> 1 | Some l \<Rightarrow> l_fence l + 1);
         expires = now w + micros ttl
     in if (case lease of None \<Rightarrow> False | Some l \<Rightarrow> now w < l_expires l)
        then Inl (Harness ''LEASE_HELD'' 409 True)
        else
          let w1 = set_lease \<lparr>l_task = task_id, l_holder = holder, l_fence = fence,
                              l_expires = expires\<rparr> w;
              result = lease_json task_id holder fence expires
          in bindE (replace_row w1 task
               [(''status'', JStr ''running''), (''holder'', JStr holder), (''fence'', JInt fence)]
               None) (\<lambda>(_, w2).
             Inr (result, emit actor op ''task.leased'' task_id result False w2))))))))"

definition acquire_task ::
  "int \<Rightarrow> string \<Rightarrow> string \<Rightarrow> int \<Rightarrow> principal \<Rightarrow> string \<Rightarrow> world \<Rightarrow> herr + (dict \<times> world)" where
  "acquire_task elapsed task_id holder ttl actor key w =
     bindE (controller_only actor) (\<lambda>_.
     if holder = [] \<or> \<not> (1 \<le> ttl \<and> ttl \<le> 300) then Inl (fail ''INVALID_LEASE'' 422)
     else execute elapsed actor key ''task.acquire''
       (JObj [(''task_id'', JStr task_id), (''holder'', JStr holder), (''ttl_seconds'', JInt ttl)])
       (acquire_task_action task_id holder ttl actor) w)"

definition renewed_json :: "string \<Rightarrow> int \<Rightarrow> int \<Rightarrow> dict" where
  "renewed_json task_id fence expires =
     [(''task_id'', JStr task_id), (''fence'', JInt fence), (''expires_at'', JTime expires)]"

definition renew_task_action :: "string \<Rightarrow> string \<Rightarrow> int \<Rightarrow> int \<Rightarrow> principal \<Rightarrow> action" where
  "renew_task_action task_id holder fence ttl actor op w =
     bindE (get_row w Task (JStr task_id) actor) (\<lambda>task.
     bindE (need task ''experiment_id'') (\<lambda>e.
     bindE (active w e actor) (\<lambda>_.
     bindE (fenced w task_id holder fence) (\<lambda>lease.
     let expires = now w + micros ttl
     in Inr (renewed_json task_id fence expires, set_lease (lease\<lparr>l_expires := expires\<rparr>) w)))))"

definition renew_task ::
  "int \<Rightarrow> string \<Rightarrow> string \<Rightarrow> int \<Rightarrow> int \<Rightarrow> principal \<Rightarrow> string \<Rightarrow> world \<Rightarrow> herr + (dict \<times> world)" where
  "renew_task elapsed task_id holder fence ttl actor key w =
     bindE (controller_only actor) (\<lambda>_.
     if \<not> (1 \<le> ttl \<and> ttl \<le> 300) then Inl (fail ''INVALID_LEASE'' 422)
     else execute elapsed actor key ''task.renew''
       (JObj [(''task_id'', JStr task_id), (''holder'', JStr holder), (''fence'', JInt fence),
              (''ttl_seconds'', JInt ttl)])
       (renew_task_action task_id holder fence ttl actor) w)"

text \<open>Renewal for cleanup: the exact worker slot, and a workspace of the holder still open.\<close>

definition slot_ok :: "world \<Rightarrow> row \<Rightarrow> row \<Rightarrow> string option \<Rightarrow> herr + unit" where
  "slot_ok w task experiment slot_id =
     (if \<not> opt_true slot_id then Inr ()
      else
        let slot = find_reservation w (the slot_id)
        in if field task ''worker_slot_id'' \<noteq> jopt slot_id \<or>
              (case slot of None \<Rightarrow> True
               | Some v \<Rightarrow> v_state v \<noteq> ''active'' \<or> v_workers v \<noteq> 1 \<or> v_experiment v \<noteq> r_id experiment)
           then Inl (fail ''WORKER_SLOT_AUTHORITY'' 409) else Inr ())"

definition open_workspace ::
  "world \<Rightarrow> principal \<Rightarrow> string \<Rightarrow> string \<Rightarrow> string \<Rightarrow> int \<Rightarrow> string option \<Rightarrow> bool" where
  "open_workspace w actor experiment_id task_id holder fence slot_id =
     (\<exists>r \<in> set (records w). r_project r = pr_project actor \<and> r_kind r = Workspace \<and>
        field r ''experiment_id'' = JStr experiment_id \<and> field r ''task_id'' = JStr task_id \<and>
        field r ''status'' = JStr ''ready'' \<and> field r ''holder'' = JStr holder \<and>
        field r ''fence'' = JInt fence \<and> field r ''shared_worker_slot_id'' = jopt slot_id)"

definition cleanup_renew_action ::
  "string \<Rightarrow> string \<Rightarrow> int \<Rightarrow> string option \<Rightarrow> int \<Rightarrow> principal \<Rightarrow> action" where
  "cleanup_renew_action task_id holder fence slot_id ttl actor op w =
     bindE (get_row w Task (JStr task_id) actor) (\<lambda>task.
     bindE (need task ''experiment_id'') (\<lambda>e.
     bindE (get_row w Experiment e actor) (\<lambda>experiment.
     bindE (fenced w task_id holder fence) (\<lambda>lease.
     bindE (slot_ok w task experiment slot_id) (\<lambda>_.
     if \<not> open_workspace w actor (r_id experiment) task_id holder fence slot_id
     then Inl (fail ''CLEANUP_SCOPE'' 409)
     else
       let expires = max (l_expires lease) (now w + micros ttl)
       in Inr (renewed_json task_id fence expires, set_lease (lease\<lparr>l_expires := expires\<rparr>) w))))))"

definition renew_task_for_cleanup ::
  "int \<Rightarrow> string \<Rightarrow> string \<Rightarrow> int \<Rightarrow> string option \<Rightarrow> int \<Rightarrow> principal \<Rightarrow> string \<Rightarrow> world \<Rightarrow>
   herr + (dict \<times> world)"
where
  "renew_task_for_cleanup elapsed task_id holder fence slot_id ttl actor key w =
     bindE (controller_only actor) (\<lambda>_.
     if \<not> (1 \<le> ttl \<and> ttl \<le> 300) then Inl (fail ''INVALID_LEASE'' 422)
     else execute elapsed actor key ''task.cleanup-renew''
       (JObj [(''task_id'', JStr task_id), (''holder'', JStr holder), (''fence'', JInt fence),
              (''worker_slot_id'', jopt slot_id), (''ttl_seconds'', JInt ttl)])
       (cleanup_renew_action task_id holder fence slot_id ttl actor) w)"

section \<open>Completion\<close>

definition settled_statuses :: "string list" where
  "settled_statuses = [''completed'', ''failed'', ''blocked'']"

text \<open>A joined child of the task that has not settled.\<close>

definition pending_child :: "principal \<Rightarrow> string \<Rightarrow> row \<Rightarrow> bool" where
  "pending_child actor task_id r \<longleftrightarrow>
     r_project r = pr_project actor \<and> r_kind r = Task \<and>
     field r ''reply_to_parent_task_id'' = JStr task_id \<and>
     field r ''status'' \<noteq> JNull \<and> \<not> in_strings (field r ''status'') settled_statuses"

text \<open>The loop over the evidence; the state is the output summary found so far.\<close>

definition read_evidence ::
  "world \<Rightarrow> principal \<Rightarrow> row \<Rightarrow> string \<Rightarrow> string option \<Rightarrow> herr + string option" where
  "read_evidence w actor task identifier summary =
     bindE (get_row w Artifact (JStr identifier) actor) (\<lambda>artifact.
     bindE (need task ''experiment_id'') (\<lambda>e.
     if field artifact ''experiment_id'' \<noteq> e then Inl (fail ''EVIDENCE_SCOPE'' 409)
     else bindE (need artifact ''sha256'') (\<lambda>sha.
     bindE (artifact_text w (text_of sha)) (\<lambda>content.
     if summary \<noteq> None \<or> field artifact ''artifact_kind'' \<noteq> JStr ''research_output''
     then Inr summary
     else bindE (need task ''branch_id'') (\<lambda>b.
       Inr (if field artifact ''branch_id'' = b then Some (take 4000 content) else None))))))"

text \<open>The result a joined child returns, over what it returned before.\<close>

definition returned_result :: "row \<Rightarrow> string \<Rightarrow> string list \<Rightarrow> string option \<Rightarrow> dict" where
  "returned_result task status evidence_ids summary =
     (let prior = as_dict (jor (field task ''return_result'') (JObj []));
          earlier = as_list (dget_or prior ''artifact_ids'' (JList []))
      in dmerge prior
        [(''execution_status'', JStr status),
         (''artifact_ids'', JList (dedup (earlier @ map JStr evidence_ids))),
         (''summary'', jor (dget prior ''summary'') (jopt summary)),
         (''execution_failure'',
            if status = ''completed'' then dget prior ''execution_failure''
            else JObj [(''status'', JStr status), (''artifact_ids'', strings evidence_ids)]),
         (''evidence_status'', dget_or prior ''evidence_status'' (JStr ''unverified''))])"

definition exhausted_stop :: "row \<Rightarrow> string \<Rightarrow> bool" where
  "exhausted_stop task status \<longleftrightarrow>
     status = ''blocked'' \<and> field task ''research_progress_status'' = JStr ''recovery_exhausted''"

definition finish_values :: "row \<Rightarrow> string \<Rightarrow> string list \<Rightarrow> string option \<Rightarrow> dict" where
  "finish_values task status evidence_ids summary =
     [(''status'', JStr status), (''evidence_ids'', strings evidence_ids),
      (''execution_status'', JStr status), (''terminal_recovery'', JNull),
      (''error_code'', if exhausted_stop task status then JStr ''RESEARCH_STAGNATION_EXHAUSTED''
                       else field task ''error_code''),
      (''return_result'',
         if truthy (field task ''reply_to_parent_task_id'')
         then JObj (returned_result task status evidence_ids summary)
         else field task ''return_result'')]"

text \<open>A stop for exhausted stagnation parks the branch.\<close>

definition park_branch ::
  "principal \<Rightarrow> row \<Rightarrow> string \<Rightarrow> world \<Rightarrow> herr + world" where
  "park_branch actor task status w =
     (if \<not> exhausted_stop task status then Inr w
      else bindE (need task ''branch_id'') (\<lambda>b.
        bindE (get_row w Branch b actor) (\<lambda>branch.
        bindE (replace_row w branch
          [(''status'', JStr ''parked''),
           (''error_code'', JStr ''RESEARCH_STAGNATION_EXHAUSTED'')] None) (\<lambda>(_, w1). Inr w1))))"

text \<open>\<open>_recipient_visible_artifacts\<close>: the recipient's own scope decides, strictly or by omission.\<close>

definition recipient_of :: "principal \<Rightarrow> json \<Rightarrow> json \<Rightarrow> principal" where
  "recipient_of actor experiment_id branch_id =
     \<lparr>pr_id = ''recipient:'' @ text_of branch_id, pr_project = pr_project actor, pr_role = Agent,
      pr_experiment = Some (text_of experiment_id), pr_branch = Some (text_of branch_id),
      pr_orchestrator = False\<rparr>"

definition visible_step ::
  "world \<Rightarrow> json \<Rightarrow> json \<Rightarrow> principal \<Rightarrow> bool \<Rightarrow> json \<Rightarrow> json list \<Rightarrow> herr + json list" where
  "visible_step w experiment_id branch_id actor strict identifier visible =
     bindE (get_row w Artifact identifier actor) (\<lambda>evidence.
     if field evidence ''experiment_id'' \<noteq> experiment_id then Inl (fail ''EVIDENCE_SCOPE'' 409)
     else if in_scope w (recipient_of actor experiment_id branch_id) evidence
     then Inr (visible @ [identifier])
     else if strict then Inl (fail ''MESSAGE_ATTACHMENT_INACCESSIBLE'' 422)
     else Inr visible)"

definition visible_artifacts ::
  "world \<Rightarrow> json list \<Rightarrow> json \<Rightarrow> json \<Rightarrow> principal \<Rightarrow> bool \<Rightarrow> herr + json list" where
  "visible_artifacts w artifact_ids experiment_id branch_id actor strict =
     foldE (visible_step w experiment_id branch_id actor strict) artifact_ids []"

text \<open>What the parent is shown of a result: only attachments it can read.\<close>

definition parent_view :: "dict \<Rightarrow> json list \<Rightarrow> dict" where
  "parent_view returned visible =
     (let shown = dput ''artifact_ids'' (JList visible) returned;
          marked = (if length visible \<noteq> length (as_list (dget_or returned ''artifact_ids'' (JList [])))
                    then dput ''attachments_omitted_for_recipient'' (JBool True) shown else shown)
      in case dget marked ''execution_failure'' of
           JObj failure \<Rightarrow>
             if dhas failure ''artifact_ids''
             then dput ''execution_failure'' (JObj (dput ''artifact_ids''
               (JList (filter (\<lambda>i. i \<in> set visible) (as_list (dget failure ''artifact_ids''))))
               failure)) marked
             else marked
         | _ \<Rightarrow> marked)"

definition parent_of :: "world \<Rightarrow> principal \<Rightarrow> row \<Rightarrow> json \<Rightarrow> json \<Rightarrow> herr + row" where
  "parent_of w actor task parent_task_id e =
     (case find_json w parent_task_id of
        None \<Rightarrow> Inl (fail ''RETURN_RESULT_SCOPE'' 409)
      | Some parent \<Rightarrow>
          if r_kind parent \<noteq> Task \<or> r_project parent \<noteq> pr_project actor \<or>
             field parent ''experiment_id'' \<noteq> e
          then Inl (fail ''RETURN_RESULT_SCOPE'' 409) else Inr parent)"

definition notice_data ::
  "(int \<Rightarrow> string) \<Rightarrow> row \<Rightarrow> string \<Rightarrow> json \<Rightarrow> json \<Rightarrow> json \<Rightarrow> json \<Rightarrow> dict \<Rightarrow> json list \<Rightarrow> dict"
where
  "notice_data stamp task holder e branch_id parent_branch_id parent_task_id returned visible =
     [(''experiment_id'', e), (''sender_branch_id'', branch_id), (''branch_id'', branch_id),
      (''recipient_branch_id'', parent_branch_id), (''reply_to_parent_task_id'', parent_task_id),
      (''child_task_id'', JStr (r_id task)),
      (''attributed_to'', dget_or returned ''attributed_to'' (JStr holder)),
      (''content'', JStr (canonical stamp (JObj (parent_view returned visible)))),
      (''artifact_ids'', JList visible), (''evidence_status'', JStr ''attributed_idea'')]"

text \<open>Under ideas sharing the parent's branch gets the result as a message.\<close>

definition notify_parent ::
  "principal \<Rightarrow> string \<Rightarrow> row \<Rightarrow> string \<Rightarrow> dict \<Rightarrow> world \<Rightarrow> herr + world" where
  "notify_parent actor op task holder result w =
     (let parent_task_id = field task ''reply_to_parent_task_id''
      in if \<not> truthy parent_task_id then Inr w
         else bindE (need task ''experiment_id'') (\<lambda>e.
           bindE (get_row w Experiment e actor) (\<lambda>experiment.
           if field experiment ''sharing'' \<noteq> JStr ''ideas'' then Inr w
           else bindE (parent_of w actor task parent_task_id e) (\<lambda>parent.
             bindE (need parent ''branch_id'') (\<lambda>parent_branch.
             bindE (need task ''branch_id'') (\<lambda>branch_id.
             let returned = as_dict (dget result ''return_result'')
             in bindE (visible_artifacts w
                  (as_list (dget_or returned ''artifact_ids'' (JList []))) e parent_branch actor False)
                (\<lambda>visible.
                bindE (insert_row w Message actor
                  (notice_data (stamp_of w) task holder e branch_id parent_branch parent_task_id
                    returned visible) None) (\<lambda>(notice, w1).
                Inr (emit actor op ''message.created'' (text_of parent_branch)
                  [(''message_id'', dget notice ''id''), (''child_task_id'', JStr (r_id task))]
                  False w1)))))))))"

definition finish_task_action ::
  "string \<Rightarrow> string \<Rightarrow> int \<Rightarrow> string list \<Rightarrow> string \<Rightarrow> principal \<Rightarrow> action" where
  "finish_task_action task_id holder fence evidence_ids status actor op w =
     bindE (get_row w Task (JStr task_id) actor) (\<lambda>task.
     bindE (need task ''experiment_id'') (\<lambda>e.
     bindE (active w e actor) (\<lambda>_.
     bindE (fenced w task_id holder fence) (\<lambda>_.
     if status = ''completed'' \<and> (\<exists>r \<in> set (records w). pending_child actor task_id r)
     then Inl (fail ''JOINED_CHILDREN_PENDING'' 409)
     else bindE (foldE (read_evidence w actor task) evidence_ids None) (\<lambda>summary.
     bindE (fenced w task_id holder fence) (\<lambda>lease.
     bindE (replace_row w task (finish_values task status evidence_ids summary) None)
       (\<lambda>(result, w1).
     bindE (release_task_claims actor op task w1) (\<lambda>w2.
     bindE (park_branch actor task status w2) (\<lambda>w3.
     bindE (notify_parent actor op task holder result w3) (\<lambda>w4.
     let w5 = set_lease (lease\<lparr>l_expires := 0\<rparr>) w4
     in Inr (result, emit actor op (''task.'' @ status) task_id
          [(''experiment_id'', e), (''evidence_ids'', strings evidence_ids)] True w5)))))))))))"

definition finish_task ::
  "int \<Rightarrow> string \<Rightarrow> string \<Rightarrow> int \<Rightarrow> string list \<Rightarrow> string \<Rightarrow> principal \<Rightarrow> string \<Rightarrow> world \<Rightarrow>
   herr + (dict \<times> world)"
where
  "finish_task elapsed task_id holder fence evidence_ids status actor key w =
     bindE (controller_only actor) (\<lambda>_.
     if status \<notin> set settled_statuses \<or> evidence_ids = []
     then Inl (fail ''COMPLETION_EVIDENCE_REQUIRED'' 422)
     else execute elapsed actor key ''task.finish''
       (JObj [(''task_id'', JStr task_id), (''holder'', JStr holder), (''fence'', JInt fence),
              (''evidence_ids'', strings evidence_ids), (''status'', JStr status)])
       (finish_task_action task_id holder fence evidence_ids status actor) w)"

section \<open>Results of joined children\<close>

definition failure_valid :: "dict option \<Rightarrow> bool" where
  "failure_valid failure =
     (case failure of
        None \<Rightarrow> True
      | Some d \<Rightarrow>
          set (map fst d) \<subseteq> {''code'', ''message''} \<and>
          (case dget d ''code'' of JStr c \<Rightarrow> length c \<le> 100 | _ \<Rightarrow> False) \<and>
          (case dget_or d ''message'' (JStr []) of JStr m \<Rightarrow> length m \<le> 1000 | _ \<Rightarrow> False))"

definition result_valid ::
  "string \<Rightarrow> string list \<Rightarrow> string list \<Rightarrow> dict option \<Rightarrow> string option \<Rightarrow> bool" where
  "result_valid evidence_status artifact_ids obligations failure summary \<longleftrightarrow>
     evidence_status \<in> {''unverified'', ''rejected'', ''unknown''} \<and>
     length artifact_ids \<le> 100 \<and> distinct artifact_ids \<and>
     length obligations \<le> 100 \<and> list_all (\<lambda>o'. length o' \<le> 2000) obligations \<and>
     (case summary of None \<Rightarrow> True | Some s \<Rightarrow> length s \<le> 8192) \<and> failure_valid failure"

definition jobj :: "dict option \<Rightarrow> json" where
  "jobj d = (case d of None \<Rightarrow> JNull | Some x \<Rightarrow> JObj x)"

definition evidence_here :: "world \<Rightarrow> principal \<Rightarrow> row \<Rightarrow> string \<Rightarrow> herr + unit" where
  "evidence_here w actor task identifier =
     bindE (get_row w Artifact (JStr identifier) actor) (\<lambda>artifact.
     bindE (need task ''experiment_id'') (\<lambda>e.
     if field artifact ''experiment_id'' \<noteq> e then Inl (fail ''EVIDENCE_SCOPE'' 409) else Inr ()))"

definition return_result_action ::
  "worker_effects \<Rightarrow> string \<Rightarrow> string list \<Rightarrow> string list \<Rightarrow> dict option \<Rightarrow> string option \<Rightarrow>
   principal \<Rightarrow> action"
where
  "return_result_action binding evidence_status artifact_ids obligations failure summary actor op w =
     (let task_id = we_task binding
      in bindE (get_row w Task (JStr task_id) actor) (\<lambda>task.
         bindE (fenced w task_id (we_holder binding) (we_fence binding)) (\<lambda>_.
         if field task ''branch_id'' \<noteq> jopt (pr_branch actor) \<or>
            \<not> truthy (field task ''reply_to_parent_task_id'')
         then Inl (fail ''RETURN_RESULT_SCOPE'' 409)
         else bindE (checkE (evidence_here w actor task) artifact_ids) (\<lambda>_.
           let result =
                 [(''evidence_status'', JStr evidence_status), (''artifact_ids'', strings artifact_ids),
                  (''unresolved_obligations'', strings obligations), (''summary'', jopt summary),
                  (''execution_failure'', jobj failure), (''execution_status'', JStr ''running''),
                  (''attributed_to'', JStr (pr_id actor)), (''task_id'', JStr task_id)]
           in bindE (replace_row w task [(''return_result'', JObj result)] None) (\<lambda>(_, w1).
              Inr (result, emit actor op ''task.result_recorded'' task_id
                [(''parent_task_id'', field task ''reply_to_parent_task_id''),
                 (''evidence_status'', JStr evidence_status)] False w1))))))"

definition return_result ::
  "int \<Rightarrow> string \<Rightarrow> string \<Rightarrow> string list \<Rightarrow> string list \<Rightarrow> dict option \<Rightarrow> string option \<Rightarrow>
   principal \<Rightarrow> string \<Rightarrow> world \<Rightarrow> herr + (dict \<times> world)"
where
  "return_result elapsed task_id evidence_status artifact_ids obligations failure summary actor key w =
     bindE (research_role actor) (\<lambda>_.
     case effects w of
       None \<Rightarrow> Inl (fail ''RETURN_RESULT_INVALID'' 409)
     | Some binding \<Rightarrow>
         if pr_role actor \<noteq> Agent \<or> we_task binding \<noteq> task_id \<or>
            \<not> result_valid evidence_status artifact_ids obligations failure summary
         then Inl (fail ''RETURN_RESULT_INVALID'' 409)
         else execute elapsed actor key ''task.return-result''
           (JObj [(''task_id'', JStr task_id), (''evidence_status'', JStr evidence_status),
                  (''artifact_ids'', strings artifact_ids),
                  (''unresolved_obligations'', strings obligations), (''summary'', jopt summary),
                  (''execution_failure'', jobj failure)])
           (return_result_action binding evidence_status artifact_ids obligations failure summary
              actor) w)"

section \<open>Amending an objective\<close>

definition kept_objectives :: nat where "kept_objectives = 8"

text \<open>The chain of dropped objectives: their count and a digest over all of them.\<close>

definition drop_objective :: "(json \<Rightarrow> string) \<Rightarrow> json \<Rightarrow> int \<times> json \<Rightarrow> int \<times> json" where
  "drop_objective digest entry dropped =
     (fst dropped + 1, JStr (digest (JList [snd dropped, entry])))"

definition dropped_of :: "row \<Rightarrow> int \<times> json" where
  "dropped_of task =
     (let d = as_dict (jor (field task ''superseded_objectives_dropped'')
                (JObj [(''count'', JInt 0), (''digest'', JNull)]))
      in (as_int (dget d ''count''), dget d ''digest''))"

definition amended_history :: "row \<Rightarrow> json \<Rightarrow> json list" where
  "amended_history task objective =
     as_list (dget_or (r_payload task) ''superseded_objectives'' (JList [])) @
     [JObj [(''revision'', JInt (r_rev task)), (''objective'', objective)]]"

definition amend_values :: "(json \<Rightarrow> string) \<Rightarrow> row \<Rightarrow> json \<Rightarrow> string \<Rightarrow> dict" where
  "amend_values digest task old_objective objective =
     (let history = amended_history task old_objective;
          excess = length history - kept_objectives;
          dropped = fold (drop_objective digest) (take excess history) (dropped_of task)
      in [(''objective'', JStr objective),
          (''superseded_objectives'', JList (drop excess history))] @
         (if fst dropped \<noteq> 0
          then [(''superseded_objectives_dropped'',
                 JObj [(''count'', JInt (fst dropped)), (''digest'', snd dropped)])]
          else []))"

definition amended_view :: "dict \<Rightarrow> dict" where
  "amended_view result =
     List.map_filter (\<lambda>k. if dhas result k then Some (k, dget result k) else None)
       [''id'', ''revision'', ''objective'', ''superseded_objectives'',
        ''superseded_objectives_dropped'', ''status'']"

definition amend_action :: "string \<Rightarrow> int \<Rightarrow> string \<Rightarrow> principal \<Rightarrow> action" where
  "amend_action task_id expected_revision objective actor op w =
     (case find_row w task_id of
        None \<Rightarrow> Inl (fail ''NOT_FOUND'' 404)
      | Some task \<Rightarrow>
          if r_kind task \<noteq> Task \<or> r_project task \<noteq> pr_project actor
          then Inl (fail ''NOT_FOUND'' 404)
          else bindE (guard_referee_task task actor) (\<lambda>_.
            bindE (need task ''experiment_id'') (\<lambda>e.
            bindE (active w e actor) (\<lambda>_.
            let owner = (field task ''created_by'' = JStr (pr_id actor));
                parent_worker = (pr_role actor = Agent \<and>
                  (case effects w of None \<Rightarrow> False
                   | Some b \<Rightarrow> field task ''delegated_from_task_id'' = JStr (we_task b)))
            in if pr_role actor \<notin> {Operator, Admin} \<and> \<not> (owner \<or> parent_worker)
               then Inl (fail ''TASK_AUTHORITY'' 403)
               else bindE (if parent_worker then Inr task else get_row w Task (JStr task_id) actor)
                 (\<lambda>_.
                 bindE (need task ''status'') (\<lambda>status.
                 if status \<noteq> JStr ''queued'' \<or> find_lease w task_id \<noteq> None
                 then Inl (fail ''TASK_NOT_QUEUED'' 409)
                 else bindE (need task ''objective'') (\<lambda>old_objective.
                   bindE (replace_row w task (amend_values (digest_of w) task old_objective objective)
                     (Some expected_revision)) (\<lambda>(result, w1).
                   Inr (if parent_worker then amended_view result else result,
                     emit actor op ''task.objective_amended'' task_id
                       [(''experiment_id'', dget result ''experiment_id''),
                        (''revision'', dget result ''revision'')] False w1))))))))) "

definition amend_queued_task_objective ::
  "int \<Rightarrow> string \<Rightarrow> int \<Rightarrow> string \<Rightarrow> principal \<Rightarrow> string \<Rightarrow> world \<Rightarrow> herr + (dict \<times> world)" where
  "amend_queued_task_objective elapsed task_id expected_revision objective actor key w =
     bindE (research_role actor) (\<lambda>_.
     if strip objective = [] \<or> 20000 < length objective
     then Inl (fail ''INVALID_OBJECTIVE'' 409)
     else if expected_revision < 1 then Inl (fail ''REVISION_REQUIRED'' 409)
     else execute elapsed actor key ''task.objective-amend''
       (JObj [(''task_id'', JStr task_id), (''expected_revision'', JInt expected_revision),
              (''objective'', JStr objective)])
       (amend_action task_id expected_revision objective actor) w)"

section \<open>Retiring queued work\<close>

definition not_retired :: "string \<Rightarrow> json \<Rightarrow> dict" where
  "not_retired task_id status =
     [(''retired'', JBool False), (''task_id'', JStr task_id), (''status'', status)]"

text \<open>The continuation link a ready task would resume.\<close>

definition ready_link :: "world \<Rightarrow> principal \<Rightarrow> string \<Rightarrow> json \<Rightarrow> row option" where
  "ready_link w actor task_id ordinal =
     find (\<lambda>r. r_project r = pr_project actor \<and> r_kind r = ContinuationLink \<and>
               field r ''task_id'' = JStr task_id \<and> field r ''ordinal'' = ordinal) (records w)"

definition retire_link ::
  "principal \<Rightarrow> string \<Rightarrow> string \<Rightarrow> json \<Rightarrow> world \<Rightarrow> herr + world" where
  "retire_link actor task_id receipt_id ready w =
     (if \<not> truthy ready then Inr w
      else case map_of (as_dict ready) ''ordinal'' of
        None \<Rightarrow> Inl (KeyError ''ordinal'')
      | Some ordinal \<Rightarrow>
          (case ready_link w actor task_id ordinal of
             None \<Rightarrow> Inl (fail ''CONTINUATION_LINEAGE_MISMATCH'' 409)
           | Some link \<Rightarrow>
               if field link ''status'' \<noteq> JStr ''issued''
               then Inl (fail ''CONTINUATION_LINEAGE_MISMATCH'' 409)
               else bindE (replace_row w link
                 [(''status'', JStr ''retired''), (''retired_by_receipt_id'', JStr receipt_id)] None)
                 (\<lambda>(_, w1). Inr w1)))"

definition target_receipt :: "world \<Rightarrow> principal \<Rightarrow> string \<Rightarrow> row \<Rightarrow> bool" where
  "target_receipt w actor receipt_id experiment =
     (case find_row w receipt_id of
        None \<Rightarrow> False
      | Some receipt \<Rightarrow>
          r_project receipt = pr_project actor \<and> r_kind receipt = Verification \<and>
          accepted_evidence w receipt experiment [''independent_kernel''])"

text \<open>The retirement itself, of a task that is queued and not held.\<close>

definition retire_task ::
  "row \<Rightarrow> row \<Rightarrow> string \<Rightarrow> string \<Rightarrow> principal \<Rightarrow> action" where
  "retire_task task experiment task_id receipt_id actor op w =
     (let ready = field task ''ready_continuation''
      in bindE (retire_link actor task_id receipt_id ready w) (\<lambda>w1.
         bindE (replace_row w1 task
           [(''status'', JStr ''blocked''), (''error_code'', JStr ''TARGET_ALREADY_VERIFIED''),
            (''superseded_by_receipt_id'', JStr receipt_id), (''retired_continuation'', ready),
            (''ready_continuation'', JNull)] None) (\<lambda>(result, w2).
         bindE (release_task_claims actor op task w2) (\<lambda>w3.
         Inr ([(''retired'', JBool True), (''task_id'', JStr task_id),
               (''status'', dget result ''status''), (''code'', JStr ''TARGET_ALREADY_VERIFIED'')],
           emit actor op ''task.superseded_by_verification'' task_id
             [(''experiment_id'', JStr (r_id experiment)), (''receipt_id'', JStr receipt_id)]
             False w3)))))"

definition retire_action :: "string \<Rightarrow> string \<Rightarrow> principal \<Rightarrow> action" where
  "retire_action task_id receipt_id actor op w =
     bindE (get_row w Task (JStr task_id) actor) (\<lambda>task.
     bindE (need task ''experiment_id'') (\<lambda>e.
     bindE (get_row w Experiment e actor) (\<lambda>experiment.
     if \<not> target_receipt w actor receipt_id experiment
     then Inl (fail ''TARGET_NOT_VERIFIED'' 409)
     else if field task ''status'' \<noteq> JStr ''queued''
     then Inr (not_retired task_id (field task ''status''), w)
     else if (case find_lease w task_id of None \<Rightarrow> False | Some l \<Rightarrow> now w < l_expires l)
     then Inr (not_retired task_id (JStr ''leased''), w)
     else retire_task task experiment task_id receipt_id actor op w)))"

definition retire_queued_after_verified ::
  "int \<Rightarrow> string \<Rightarrow> string \<Rightarrow> principal \<Rightarrow> string \<Rightarrow> world \<Rightarrow> herr + (dict \<times> world)" where
  "retire_queued_after_verified elapsed task_id receipt_id actor key w =
     bindE (controller_only actor) (\<lambda>_.
     execute elapsed actor key ''task.retire-after-verification''
       (JObj [(''task_id'', JStr task_id), (''receipt_id'', JStr receipt_id)])
       (retire_action task_id receipt_id actor) w)"

section \<open>What the handlers do to leases\<close>

definition same_leases :: "world \<Rightarrow> world \<Rightarrow> bool" where
  "same_leases w w' \<longleftrightarrow> leases w' = leases w \<and> now w' = now w"

lemma same_leases_refl [simp]: "same_leases w w"
  by (simp add: same_leases_def)

lemma same_leases_trans [trans]: "same_leases a b \<Longrightarrow> same_leases b c \<Longrightarrow> same_leases a c"
  by (simp add: same_leases_def)

lemma same_leases_only: "only_records w w' \<Longrightarrow> same_leases w w'"
  by (simp add: same_leases_def only_records_def)

lemma same_leases_emit [simp]: "same_leases w (emit a op kd ag pl d v) \<longleftrightarrow> same_leases w v"
  by (simp add: same_leases_def)

lemma same_leases_find: "same_leases w w' \<Longrightarrow> find_lease w' i = find_lease w i"
  by (simp add: same_leases_def find_lease_def)

lemmas same_leases_writes = only_records_writes [THEN same_leases_only]

lemma release_task_claims_only:
  assumes "release_task_claims actor op task w = Inr w'"
  shows "only_records w w'"
proof -
  have "only_records w v" if "foldE (release_one actor op task) cs w = Inr v" for cs v
    by (rule foldE_invariant [OF that, where I = "only_records w"])
      (use only_records_trans release_one_frame(1) in \<open>simp, blast\<close>)
  then show ?thesis
    using assms by (auto simp: release_task_claims_def bindE_Inr_iff split: option.splits if_splits)
qed

lemma park_branch_only: "park_branch actor task status w = Inr w' \<Longrightarrow> only_records w w'"
  by (auto simp: park_branch_def bindE_Inr_iff split: if_splits dest: only_records_replace)

lemma notify_parent_only: "notify_parent actor op task holder result w = Inr w' \<Longrightarrow> only_records w w'"
  unfolding notify_parent_def Let_def
  by (auto simp: bindE_Inr_iff split: if_splits dest: only_records_insert)

lemma retire_link_only: "retire_link actor task_id receipt_id ready w = Inr w' \<Longrightarrow> only_records w w'"
  by (auto simp: retire_link_def bindE_Inr_iff split: if_splits option.splits dest: only_records_replace)

lemma insert_edge_leases: "insert_edge e w = Inr w' \<Longrightarrow> same_leases w w'"
  by (auto simp: insert_edge_def same_leases_def split: if_splits)

lemma require_edges_leases:
  assumes "foldE (require_edge actor i) ids w = Inr w'"
  shows "same_leases w w'"
  by (rule foldE_invariant [OF assms, where I = "same_leases w"])
    (use same_leases_trans insert_edge_leases in \<open>auto simp: require_edge_def\<close>)

lemma create_task_action_leases:
  assumes "create_task_action q delegated actor op w = Inr (made, w')"
  shows "same_leases w w'"
proof -
  obtain data made' w1 w2 i where steps: "insert_row w Task actor data None = Inr (made', w1)"
    "foldE (require_edge actor i) (t_dependencies q) w1 = Inr w2" "same_leases w2 w'"
    using assms unfolding create_task_action_def bindE_Inr_iff if_Inl_Inr_iff split_paired_Ex prod.case
    by auto
  note same_leases_writes(1) [OF steps(1)]
  also note require_edges_leases [OF steps(2)]
  also note steps(3)
  finally show ?thesis .
qed

lemma retire_task_leases:
  assumes "retire_task task experiment i receipt_id actor op w = Inr (made, w')"
  shows "same_leases w w'"
proof -
  obtain ready w1 result w2 vals w3 where steps: "retire_link actor i receipt_id ready w = Inr w1"
      "replace_row w1 task vals None = Inr (result, w2)"
      "release_task_claims actor op task w2 = Inr w3" "same_leases w3 w'"
    using assms unfolding retire_task_def bindE_Inr_iff Let_def split_paired_Ex prod.case by auto
  note retire_link_only [OF steps(1), THEN same_leases_only]
  also note same_leases_writes(2) [OF steps(2)]
  also note release_task_claims_only [OF steps(3), THEN same_leases_only]
  also note steps(4)
  finally show ?thesis .
qed

lemma retire_action_leases:
  assumes "retire_action task_id receipt_id actor op w = Inr (made, w')"
  shows "same_leases w w'"
  using assms unfolding retire_action_def
  by (auto simp: bindE_Inr_iff split: if_splits dest: retire_task_leases)

lemma amend_action_leases:
  assumes "amend_action task_id r objective actor op w = Inr (made, w')"
  shows "same_leases w w'"
  using assms
  by (auto simp: amend_action_def bindE_Inr_iff Let_def split: option.splits if_splits
      dest: same_leases_writes)

lemma return_result_action_leases:
  assumes "return_result_action b es ids obl f s actor op w = Inr (made, w')"
  shows "same_leases w w'"
  using assms
  by (auto simp: return_result_action_def bindE_Inr_iff Let_def split: if_splits
      dest: same_leases_writes)

section \<open>Fences only grow\<close>

text \<open>The commands of this theory as the steps of a machine; \<open>TaskWait\<close> is time passing and
  \<open>TaskBind\<close> the worker bound for the next commands.\<close>

datatype task_command =
    CreateTask task_create
  | AcquireTask string string int
  | RenewTask string string int int
  | CleanupRenew string string int "string option" int
  | FinishTask string string int "string list" string
  | ReturnResult string string "string list" "string list" "dict option" "string option"
  | AmendObjective string int string
  | RetireTask string string
  | TaskWait
  | TaskBind "worker_effects option"

fun run_task_command ::
  "int \<Rightarrow> principal \<Rightarrow> string \<Rightarrow> task_command \<Rightarrow> world \<Rightarrow> herr + (dict \<times> world)" where
  "run_task_command el a key (CreateTask q) w = create_task el q a key w"
| "run_task_command el a key (AcquireTask i h ttl) w = acquire_task el i h ttl a key w"
| "run_task_command el a key (RenewTask i h f ttl) w = renew_task el i h f ttl a key w"
| "run_task_command el a key (CleanupRenew i h f sl ttl) w = renew_task_for_cleanup el i h f sl ttl a key w"
| "run_task_command el a key (FinishTask i h f es st) w = finish_task el i h f es st a key w"
| "run_task_command el a key (ReturnResult i es ars obl fl s) w =
     return_result el i es ars obl fl s a key w"
| "run_task_command el a key (AmendObjective i r ob) w =
     amend_queued_task_objective el i r ob a key w"
| "run_task_command el a key (RetireTask i rc) w = retire_queued_after_verified el i rc a key w"
| "run_task_command el a key TaskWait w = Inr ([], w\<lparr>now := now w + el\<rparr>)"
| "run_task_command el a key (TaskBind b) w = Inr ([], w\<lparr>effects := b\<rparr>)"

definition task_step :: "int \<times> principal \<times> string \<times> task_command \<Rightarrow> world \<Rightarrow> herr + world" where
  "task_step c w = (let (el, a, key, x) = c in bindE (run_task_command el a key x w) (\<lambda>(_, w1). Inr w1))"

definition fence_le :: "world \<Rightarrow> world \<Rightarrow> bool" where
  "fence_le w w' \<longleftrightarrow>
     (\<forall>i l. find_lease w i = Some l \<longrightarrow> (\<exists>l'. find_lease w' i = Some l' \<and> l_fence l \<le> l_fence l'))"

lemma fence_le_refl [simp]: "fence_le w w"
  by (simp add: fence_le_def)

lemma fence_le_trans [trans]: "fence_le a b \<Longrightarrow> fence_le b c \<Longrightarrow> fence_le a c"
  unfolding fence_le_def by (meson order_trans)

lemma fence_le_cong: "(\<And>i. find_lease w' i = find_lease w i) \<Longrightarrow> fence_le w w'"
  by (simp add: fence_le_def)

lemma fence_le_same: "same_leases w w' \<Longrightarrow> fence_le w w'"
  by (simp add: fence_le_cong same_leases_find)

lemma fence_le_tables: "same_tables a b \<Longrightarrow> fence_le w a \<Longrightarrow> fence_le w b"
  by (simp add: fence_le_def same_tables_find)

lemma find_lease_id: "find_lease w i = Some l \<Longrightarrow> l_task l = i"
  by (rule lease_table.get_key)

lemma fence_le_expiry: "find_lease w i = Some l \<Longrightarrow> fence_le w (set_lease (l\<lparr>l_expires := e\<rparr>) w)"
  by (frule find_lease_id) (auto simp: fence_le_def)

text \<open>What a successful acquisition did.\<close>

lemma acquire_action_InrD:
  assumes "acquire_task_action i h ttl actor op w = Inr (r, w')"
  obtains task deps where "get_row w Task (JStr i) actor = Inr task"
    and "field task ''dependency_ids'' = deps"
    and "\<forall>d \<in> set (as_list deps). dependency_done w actor d = Inr ()"
    and "\<forall>l. find_lease w i = Some l \<longrightarrow> l_expires l \<le> now w"
    and "in_strings (field task ''status'') [''queued'', ''running'']"
    and "\<forall>j. find_lease w' j = (if j = i then
           Some \<lparr>l_task = i, l_holder = h,
             l_fence = (case find_lease w i of None \<Rightarrow> 1 | Some l \<Rightarrow> l_fence l + 1),
             l_expires = now w + micros ttl\<rparr> else find_lease w j)"
proof -
  define fence where "fence = (case find_lease w i of None \<Rightarrow> 1 | Some l \<Rightarrow> l_fence l + 1)"
  define lease where "lease = \<lparr>l_task = i, l_holder = h, l_fence = fence,
      l_expires = now w + micros ttl\<rparr>"
  obtain task status deps vals x w2 where steps: "get_row w Task (JStr i) actor = Inr task"
      "need task ''status'' = Inr status" "in_strings status [''queued'', ''running'']"
      "need task ''dependency_ids'' = Inr deps"
      "\<forall>d \<in> set (as_list deps). dependency_done w actor d = Inr ()"
      "\<not> (case find_lease w i of None \<Rightarrow> False | Some l \<Rightarrow> now w < l_expires l)"
      "replace_row (set_lease lease w) task vals None = Inr (x, w2)"
      "\<And>j. find_lease w' j = find_lease w2 j"
    using assms
    unfolding acquire_task_action_def bindE_Inr_iff if_Inl_Inr_iff checkE_Inr_iff Let_def
      split_paired_Ex prod.case lease_def fence_def
    by auto
  have "find_lease w' j = find_lease (set_lease lease w) j" for j
    using same_leases_find [OF same_leases_writes(2) [OF steps(7)]] steps(8) by simp
  then show ?thesis
    using steps by (intro that [of task deps])
      (auto simp: lease_def fence_def dest: need_field split: option.splits)
qed

lemma renew_action_leases:
  assumes "renew_task_action i h f ttl actor op w = Inr (r, w')"
  shows "fence_le w w'"
  using assms
  by (auto simp: renew_task_action_def bindE_Inr_iff fenced_Inr_iff Let_def
      intro: fence_le_expiry)

lemma cleanup_action_leases:
  assumes "cleanup_renew_action i h f sl ttl actor op w = Inr (r, w')"
  shows "fence_le w w'"
  using assms
  by (auto simp: cleanup_renew_action_def bindE_Inr_iff fenced_Inr_iff Let_def
      intro: fence_le_expiry split: if_splits)

text \<open>What a successful completion did.\<close>

lemma finish_action_InrE:
  assumes "finish_task_action i h f ids st actor op w = Inr (result, w')"
  obtains task e lease summary w1 w2 w3 w4 where "get_row w Task (JStr i) actor = Inr task"
    and "fenced w i h f = Inr lease"
    and "\<not> (st = ''completed'' \<and> (\<exists>r \<in> set (records w). pending_child actor i r))"
    and "foldE (read_evidence w actor task) ids None = Inr summary"
    and "replace_row w task (finish_values task st ids summary) None = Inr (result, w1)"
    and "release_task_claims actor op task w1 = Inr w2"
    and "park_branch actor task st w2 = Inr w3"
    and "notify_parent actor op task h result w3 = Inr w4"
    and "w' = emit actor op (''task.'' @ st) i
          [(''experiment_id'', e), (''evidence_ids'', strings ids)] True
          (set_lease (lease\<lparr>l_expires := 0\<rparr>) w4)"
proof -
  have "\<exists>task e lease summary w1 w2 w3 w4. get_row w Task (JStr i) actor = Inr task \<and>
    fenced w i h f = Inr lease \<and>
    \<not> (st = ''completed'' \<and> (\<exists>r \<in> set (records w). pending_child actor i r)) \<and>
    foldE (read_evidence w actor task) ids None = Inr summary \<and>
    replace_row w task (finish_values task st ids summary) None = Inr (result, w1) \<and>
    release_task_claims actor op task w1 = Inr w2 \<and> park_branch actor task st w2 = Inr w3 \<and>
    notify_parent actor op task h result w3 = Inr w4 \<and>
    w' = emit actor op (''task.'' @ st) i
          [(''experiment_id'', e), (''evidence_ids'', strings ids)] True
          (set_lease (lease\<lparr>l_expires := 0\<rparr>) w4)"
    using assms
    unfolding finish_task_action_def bindE_Inr_iff if_Inl_Inr_iff Let_def split_paired_Ex prod.case
    by blast
  then show ?thesis using that by blast
qed

lemma finish_chain_leases:
  assumes "replace_row w task vals None = Inr (result, w1)"
    and "release_task_claims actor op task w1 = Inr w2"
    and "park_branch actor task st w2 = Inr w3"
    and "notify_parent actor op task h result w3 = Inr w4"
  shows "same_leases w w4"
proof -
  note same_leases_writes(2) [OF assms(1)]
  also note release_task_claims_only [OF assms(2), THEN same_leases_only]
  also note park_branch_only [OF assms(3), THEN same_leases_only]
  also note notify_parent_only [OF assms(4), THEN same_leases_only]
  finally show ?thesis .
qed

lemma finish_action_leases:
  assumes "finish_task_action i h f ids st actor op w = Inr (r, w')"
  shows "fence_le w w'"
proof (rule finish_action_InrE [OF assms])
  fix task e lease summary w1 w2 w3 w4
  assume fen: "fenced w i h f = Inr lease"
    and chain: "replace_row w task (finish_values task st ids summary) None = Inr (r, w1)"
      "release_task_claims actor op task w1 = Inr w2" "park_branch actor task st w2 = Inr w3"
      "notify_parent actor op task h r w3 = Inr w4"
    and w': "w' = emit actor op (''task.'' @ st) i
          [(''experiment_id'', e), (''evidence_ids'', strings ids)] True
          (set_lease (lease\<lparr>l_expires := 0\<rparr>) w4)"
  have same: "same_leases w w4" by (rule finish_chain_leases [OF chain])
  have "find_lease w4 i = Some lease"
    using fen same_leases_find [OF same] by (auto simp: fenced_Inr_iff)
  then have "fence_le w4 (set_lease (lease\<lparr>l_expires := 0\<rparr>) w4)" by (rule fence_le_expiry)
  then have "fence_le w (set_lease (lease\<lparr>l_expires := 0\<rparr>) w4)"
    using fence_le_trans [OF fence_le_same [OF same]] by blast
  then show ?thesis unfolding w' by (simp add: fence_le_def)
qed

lemma acquire_action_leases:
  assumes "acquire_task_action i h ttl actor op w = Inr (r, w')"
  shows "fence_le w w'"
  by (rule acquire_action_InrD [OF assms]) (auto simp: fence_le_def)

lemma execute_fence_le:
  assumes "execute el actor key operation inputs act w = Inr (r, w')"
    and "\<And>op w1 res w2. act op w1 = Inr (res, w2) \<Longrightarrow> fence_le w1 w2"
  shows "fence_le w w'"
  by (rule execute_preserves [OF assms(1), where P = "fence_le w"])
    (simp, blast intro: fence_le_tables, blast intro: fence_le_trans assms(2))

lemmas action_fence_le =
  create_task_action_leases [THEN fence_le_same] acquire_action_leases renew_action_leases
  cleanup_action_leases finish_action_leases return_result_action_leases [THEN fence_le_same]
  amend_action_leases [THEN fence_le_same] retire_action_leases [THEN fence_le_same]

lemmas task_handlers =
  create_task_def acquire_task_def renew_task_def renew_task_for_cleanup_def finish_task_def
  return_result_def amend_queued_task_objective_def retire_queued_after_verified_def

lemma run_task_command_fence_le:
  assumes "run_task_command el a key c w = Inr (r, w')"
  shows "fence_le w w'"
proof (cases c)
  case TaskWait
  then show ?thesis using assms by (auto intro!: fence_le_cong simp: find_lease_def)
next
  case (TaskBind b)
  then show ?thesis using assms by (auto intro!: fence_le_cong simp: find_lease_def)
qed (use assms in \<open>auto simp: task_handlers bindE_Inr_iff Let_def
      split: if_splits option.splits elim!: execute_fence_le dest: action_fence_le\<close>)

lemma task_step_fence_le: "task_step c w = Inr w' \<Longrightarrow> fence_le w w'"
  using run_task_command_fence_le by (auto simp: task_step_def bindE_Inr_iff split: prod.splits)

interpretation task_machine: guarded_machine task_step "\<lambda>w. True"
  by unfold_locales simp

lemma run_tasks_fence_le: "fence_le w (run task_step cs w)"
  by (rule task_machine.run_rel) (use fence_le_trans task_step_fence_le in auto)

text \<open>What a fence behind the lease is worth.\<close>

lemma behind_is_stale:
  assumes "find_lease w i = Some l" and "f < l_fence l"
  shows "fenced w i h f = Inl (fail ''STALE_LEASE'' 409)"
  using assms by (simp add: fenced_def)

lemma stale_refused:
  assumes "fenced w i h f = Inl x"
  shows "renew_task_action i h f ttl a op w \<noteq> Inr y"
    "cleanup_renew_action i h f sl ttl a op w \<noteq> Inr y"
    "finish_task_action i h f ids st a op w \<noteq> Inr y"
  using assms
  by (auto simp: renew_task_action_def cleanup_renew_action_def finish_task_action_def bindE_Inr_iff)

lemma stale_binding_refused:
  assumes "fenced w i h f = Inl x" and "effects w = Some b"
    and "we_task b = i" "we_holder b = h" "we_fence b = f"
  shows "check_effects w a \<noteq> Inr ()"
  using assms check_effects_boundD(2) [of w a b] by (auto simp: fenced_def split: if_splits)

section \<open>What completion leaves behind\<close>

lemma release_task_claims_find:
  assumes "release_task_claims actor op task w = Inr w'" and "records_ok w"
    and "find_row w j = Some r" and "r_kind r \<noteq> CommonsClaim"
  shows "find_row w' j = Some r"
proof -
  have "find_row v j = Some r"
    if "foldE (release_one actor op task) cs w = Inr v"
      and "\<forall>c \<in> set cs. c \<in> set (records w) \<and> r_kind c = CommonsClaim" for cs v
  proof (rule foldE_invariant [OF that(1), where I = "\<lambda>v. find_row v j = Some r"])
    fix c a b
    assume c: "c \<in> set cs" and a: "find_row a j = Some r" and b: "release_one actor op task c a = Inr b"
    have "r_id c \<noteq> j" using c that(2) find_row_of_set [OF assms(2), of c] assms(3,4) by auto
    then show "find_row b j = Some r" using release_one_frame(2) [OF b] a by simp
  qed (rule assms(3))
  moreover have "\<forall>c \<in> set (live_claim_rows w p x t n b). c \<in> set (records w) \<and> r_kind c = CommonsClaim"
    for p x t n b
    by (auto simp: live_claim_rows_def set_select_sorted live_row_def dest!: in_set_takeD)
  ultimately show ?thesis
    using assms(1,3)
    by (auto simp: release_task_claims_def bindE_Inr_iff split: option.splits if_splits)
qed

lemma park_branch_find:
  assumes "park_branch actor task st w = Inr w'" and "find_row w j = Some r" and "r_kind r \<noteq> Branch"
  shows "find_row w' j = Some r"
proof (cases "exhausted_stop task st")
  case False
  then show ?thesis using assms by (simp add: park_branch_def)
next
  case True
  then obtain b branch vals x where "get_row w Branch b actor = Inr branch"
      "replace_row w branch vals None = Inr (x, w')"
    using assms(1) by (auto simp: park_branch_def bindE_Inr_iff)
  moreover have "r_id branch \<noteq> j"
    using get_row_InrD [OF calculation(1)] assms(2,3) by auto
  ultimately show ?thesis using replace_row_found(2) assms(2) by auto
qed

lemma insert_row_keeps:
  assumes "insert_row w k actor data rid = Inr (x, w')" and "find_row w j = Some r"
  shows "find_row w' j = Some r"
  by (rule insert_row_InrE [OF assms(1)]) (use assms(2) in auto)

lemma notify_parent_find:
  assumes "notify_parent actor op task h result w = Inr w'" and "find_row w j = Some r"
  shows "find_row w' j = Some r"
  using assms unfolding notify_parent_def Let_def
  by (auto simp: bindE_Inr_iff split: if_splits dest: insert_row_keeps)

lemma read_evidence_artifact:
  assumes "read_evidence w actor task j s = Inr t"
  shows "\<exists>a. find_row w j = Some a \<and> r_kind a = Artifact \<and>
    field a ''experiment_id'' = field task ''experiment_id''"
proof -
  obtain a where "get_row w Artifact (JStr j) actor = Inr a"
      "field a ''experiment_id'' = field task ''experiment_id''"
    using assms by (auto simp: read_evidence_def bindE_Inr_iff if_Inl_Inr_iff dest!: need_field)
  then show ?thesis using get_row_InrD find_row_id by fastforce
qed

lemma finish_action_row:
  assumes "finish_task_action i h f ids st actor op w = Inr (result, w')" and "records_ok w"
  shows "\<exists>task. find_row w' i = Some task \<and> r_payload task = result"
proof (rule finish_action_InrE [OF assms(1)])
  fix task e lease summary w1 w2 w3 w4
  assume t: "get_row w Task (JStr i) actor = Inr task"
    and r: "replace_row w task (finish_values task st ids summary) None = Inr (result, w1)"
    and rel: "release_task_claims actor op task w1 = Inr w2"
    and park: "park_branch actor task st w2 = Inr w3"
    and note_: "notify_parent actor op task h result w3 = Inr w4"
    and w': "w' = emit actor op (''task.'' @ st) i
          [(''experiment_id'', e), (''evidence_ids'', strings ids)] True
          (set_lease (lease\<lparr>l_expires := 0\<rparr>) w4)"
  have task: "find_row w i = Some task" "r_id task = i" "r_kind task = Task"
    using get_row_InrD [OF t] find_row_id by fastforce+
  obtain t1 where t1: "find_row w1 i = Some t1" "r_payload t1 = result" "r_kind t1 = Task"
    using replace_row_found(1) [OF r] task by auto
  have "records_ok w1"
    by (rule replace_row_records_ok [OF r assms(2)])
      (use task in \<open>simp_all add: finish_values_def identity_fields_def\<close>)
  from release_task_claims_find [OF rel this t1(1)] have "find_row w2 i = Some t1" using t1(3) by simp
  from park_branch_find [OF park this] have "find_row w3 i = Some t1" using t1(3) by simp
  from notify_parent_find [OF note_ this] show ?thesis using t1(2) unfolding w' by simp
qed

section \<open>Lineage\<close>

definition parents :: "world \<Rightarrow> (string \<times> string) set" where
  "parents w = {(p, c). \<exists>r. find_row w c = Some r \<and> field r ''reply_to_parent_task_id'' = JStr p \<and>
     find_row w p \<noteq> None}"

definition ancestors :: "world \<Rightarrow> string \<Rightarrow> string set" where
  "ancestors w x = {y. (y, x) \<in> (parents w)\<^sup>+}"

lemma parents_ids: "parents w \<subseteq> r_id ` set (records w) \<times> r_id ` set (records w)"
proof -
  have "i \<in> r_id ` set (records w)" if "find_row w i = Some r" for i r
    using find_row_in [OF that] find_row_id [OF that] by blast
  then show ?thesis by (auto simp: parents_def)
qed

lemma ancestors_ids: "ancestors w x \<subseteq> r_id ` set (records w)"
  using trancl_subset_Sigma [OF parents_ids] by (auto simp: ancestors_def)

lemma card_ancestors: "card (ancestors w x) \<le> length (records w)"
proof -
  have "card (ancestors w x) \<le> card (r_id ` set (records w))"
    by (rule card_mono) (simp_all add: ancestors_ids)
  also have "\<dots> \<le> length (records w)"
    using card_image_le [OF finite_set, of r_id "records w"] card_length [of "records w"] by linarith
  finally show ?thesis .
qed

lemma card_ancestors_parent:
  assumes "acyclic (parents w)" and "(p, c) \<in> parents w"
  shows "card (ancestors w p) < card (ancestors w c)"
proof (rule psubset_card_mono)
  show "finite (ancestors w c)" by (rule finite_subset [OF ancestors_ids]) simp
  have "p \<notin> ancestors w p" "p \<in> ancestors w c"
    using assms by (auto simp: ancestors_def acyclic_def)
  moreover have "ancestors w p \<subseteq> ancestors w c"
    using assms(2) by (auto simp: ancestors_def intro: trancl_into_trancl)
  ultimately show "ancestors w p \<subset> ancestors w c" by blast
qed

lemma check_ancestors_ends:
  assumes "acyclic (parents w)"
    and "\<And>x r. a = JStr x \<Longrightarrow> find_row w x = Some r \<Longrightarrow> card (ancestors w x) + 2 \<le> n" and "0 < n"
  shows "check_ancestors n w actor e deps a \<noteq> Inl (ValueError ''unending lineage'')"
  using assms(2,3)
proof (induction n arbitrary: a)
  case (Suc n)
  show ?case
  proof (cases "find_json w a")
    case (Some r)
    then obtain x where x: "a = JStr x" "find_row w x = Some r"
      by (auto simp: find_json_def split: json.splits)
    let ?b = "field r ''reply_to_parent_task_id''"
    have n: "card (ancestors w x) + 2 \<le> Suc n" using Suc.prems(1) x by blast
    have "check_ancestors n w actor e deps ?b \<noteq> Inl (ValueError ''unending lineage'')"
    proof (rule Suc.IH)
      fix y s
      assume "?b = JStr y" "find_row w y = Some s"
      then have "(y, x) \<in> parents w" using x by (simp add: parents_def)
      then show "card (ancestors w y) + 2 \<le> n" using card_ancestors_parent [OF assms(1)] n by fastforce
    qed (use n in simp)
    then show ?thesis using Some by (auto split: if_splits)
  qed (auto split: if_splits)
qed simp

lemma lineage_check_ends:
  assumes "acyclic (parents w)"
  shows "lineage_check w actor e deps a \<noteq> Inl (ValueError ''unending lineage'')"
  unfolding lineage_check_def
  by (rule check_ancestors_ends [OF assms]) (use card_ancestors le_trans in auto)

lemma require_edges_records:
  assumes "foldE (require_edge actor i) ids w = Inr w'"
  shows "records w' = records w"
  by (rule foldE_invariant [OF assms, where I = "\<lambda>v. records v = records w"])
    (auto simp: require_edge_def insert_edge_def split: if_splits)

lemma parents_cong: "records w' = records w \<Longrightarrow> parents w' = parents w"
  by (simp add: parents_def find_row_def)

lemma acyclic_new_child:
  assumes "acyclic r" and "n \<noteq> p" and "\<And>x. (n, x) \<notin> r"
  shows "acyclic (insert (p, n) r)"
  using assms by (auto simp: acyclic_insert elim: converse_rtranclE)

text \<open>A record whose id no other record names as its parent keeps the lineage acyclic.\<close>

lemma insert_row_acyclic:
  assumes "insert_row w k actor data None = Inr (made, w')" and "acyclic (parents w)"
    and fresh: "\<And>s. s \<in> set (records w) \<Longrightarrow>
      field s ''reply_to_parent_task_id'' \<noteq> JStr (fst (new_id w))"
    and new: "dget made ''reply_to_parent_task_id'' \<noteq> JStr (fst (new_id w))"
  shows "acyclic (parents w')"
proof -
  let ?n = "fst (new_id w)" and ?b = "dget made ''reply_to_parent_task_id''"
  have none: "find_row w ?n = None" and found: "\<exists>r. find_row w' ?n = Some r \<and> r_payload r = made"
    and same: "j \<noteq> ?n \<Longrightarrow> find_row w' j = find_row w j" for j
    using insert_row_found [OF assms(1)] by (auto simp: inserted_id_def)
  have "parents w' \<subseteq> parents w \<union> (case ?b of JStr p \<Rightarrow> {(p, ?n)} | _ \<Rightarrow> {})"
  proof (rule subrelI, rule ccontr)
    fix p c
    assume pc: "(p, c) \<in> parents w'" and no: "(p, c) \<notin> parents w \<union> (case ?b of JStr p \<Rightarrow> {(p, ?n)} | _ \<Rightarrow> {})"
    then obtain r where r: "find_row w' c = Some r" "field r ''reply_to_parent_task_id'' = JStr p"
        "find_row w' p \<noteq> None"
      by (auto simp: parents_def)
    show False
    proof (cases "c = ?n")
      case True
      then show ?thesis using r no found by auto
    next
      case False
      then have "r \<in> set (records w)" "find_row w c = Some r" using r(1) same find_row_in by auto
      moreover have "p \<noteq> ?n" using fresh [OF calculation(1)] r(2) by auto
      ultimately show ?thesis using r no same by (auto simp: parents_def)
    qed
  qed
  moreover have "acyclic (parents w \<union> (case ?b of JStr p \<Rightarrow> {(p, ?n)} | _ \<Rightarrow> {}))"
  proof (cases ?b)
    case (JStr p)
    have "(?n, x) \<notin> parents w" for x using none by (auto simp: parents_def)
    moreover have "?n \<noteq> p" using new JStr by auto
    ultimately have "acyclic (insert (p, ?n) (parents w))" by (intro acyclic_new_child assms(2))
    then show ?thesis by (simp add: JStr)
  qed (use assms(2) in auto)
  ultimately show ?thesis using acyclic_subset by blast
qed

text \<open>Creating a task does.\<close>

lemma create_task_action_acyclic:
  assumes "create_task_action q delegated actor op w = Inr (made, w')" and "acyclic (parents w)"
    and "\<And>s. s \<in> set (records w) \<Longrightarrow>
      field s ''reply_to_parent_task_id'' \<noteq> JStr (fst (new_id w))"
    and "delegated \<noteq> JStr (fst (new_id w))"
  shows "acyclic (parents w')"
proof -
  obtain data w1 w2 i where steps: "insert_row w Task actor data None = Inr (made, w1)"
      "dget data ''reply_to_parent_task_id'' = (if t_detached q then JNull else delegated)"
      "foldE (require_edge actor i) (t_dependencies q) w1 = Inr w2" "records w' = records w2"
    using assms(1)
    unfolding create_task_action_def bindE_Inr_iff if_Inl_Inr_iff split_paired_Ex prod.case
    by auto
  have "dget made ''reply_to_parent_task_id'' = (if t_detached q then JNull else delegated)"
    using insert_row_data [OF steps(1), of "''reply_to_parent_task_id''"] steps(2) by simp
  then have "acyclic (parents w1)"
    using insert_row_acyclic [OF steps(1) assms(2,3)] assms(4) by (simp split: if_splits)
  then show ?thesis
    using parents_cong [OF require_edges_records [OF steps(3)]] parents_cong [OF steps(4)] by simp
qed

section \<open>Properties\<close>

text \<open>C10. A task is handed out to one worker at a time and only when it may run: a fresh acquisition
  finds no live lease on it and every task it depends on completed, and gives the holder the only
  lease, for at most five minutes, under a fence one above the last.\<close>

theorem acquisition_is_exclusive:
  assumes "acquire_task el i h ttl actor key w = Inr (r, w')"
    and "find_command w (command_key w actor key) = None"
  shows "(\<forall>l. find_lease w i = Some l \<longrightarrow> l_expires l \<le> now w) \<and>
    (\<exists>task. find_row w i = Some task \<and> r_kind task = Task \<and>
       in_strings (field task ''status'') [''queued'', ''running''] \<and>
       (\<forall>d \<in> set (as_list (field task ''dependency_ids'')).
          \<exists>t. find_json w d = Some t \<and> r_kind t = Task \<and> field t ''status'' = JStr ''completed'')) \<and>
    find_lease w' i = Some \<lparr>l_task = i, l_holder = h,
      l_fence = (case find_lease w i of None \<Rightarrow> 1 | Some l \<Rightarrow> l_fence l + 1),
      l_expires = now w + micros ttl\<rparr> \<and> micros ttl \<le> micros 300"
proof -
  have ttl: "ttl \<le> 300" and run: "execute el actor key ''task.acquire''
      (JObj [(''task_id'', JStr i), (''holder'', JStr h), (''ttl_seconds'', JInt ttl)])
      (acquire_task_action i h ttl actor) w = Inr (r, w')"
    using assms(1) by (auto simp: acquire_task_def bindE_Inr_iff split: if_splits)
  obtain w2 where act: "acquire_task_action i h ttl actor (fst (new_id w)) (snd (new_id w)) = Inr (r, w2)"
      and same: "same_tables w2 w'"
    by (rule execute_fresh [OF run assms(2)])
  have finished: "\<exists>t. find_json w d = Some t \<and> r_kind t = Task \<and> field t ''status'' = JStr ''completed''"
    if "dependency_done (snd (new_id w)) actor d = Inr ()" for d
    using that by (auto simp: dependency_done_def bindE_Inr_iff get_row_Inr_iff find_json_def
        dest!: need_field split: if_splits json.splits)
  show ?thesis
  proof (rule acquire_action_InrD [OF act], intro conjI)
    fix task deps
    assume *: "get_row (snd (new_id w)) Task (JStr i) actor = Inr task"
      "field task ''dependency_ids'' = deps"
      "\<forall>d \<in> set (as_list deps). dependency_done (snd (new_id w)) actor d = Inr ()"
      "in_strings (field task ''status'') [''queued'', ''running'']"
    then show "\<exists>task. find_row w i = Some task \<and> r_kind task = Task \<and>
       in_strings (field task ''status'') [''queued'', ''running''] \<and>
       (\<forall>d \<in> set (as_list (field task ''dependency_ids'')).
          \<exists>t. find_json w d = Some t \<and> r_kind t = Task \<and> field t ''status'' = JStr ''completed'')"
      using finished by (auto simp: get_row_Inr_iff)
  qed (use ttl same_tables_find(4) [OF same] in \<open>auto simp: micros_def\<close>)
qed

text \<open>C2. A superseded holder stays locked out: once the task was acquired again, no command under the
  earlier fence renews it, finishes it or keeps it for cleanup, and no worker bound with that fence
  passes the check of its effects, whatever task commands run and however much time passes in
  between.\<close>

theorem superseded_holder_locked_out:
  assumes "acquire_task el i h ttl actor key w = Inr (r, w1)"
    and "find_command w (command_key w actor key) = None" and "find_lease w i = Some old"
  shows "renew_task_action i h' (l_fence old) ttl' a op (run task_step cs w1) \<noteq> Inr x \<and>
    cleanup_renew_action i h' (l_fence old) sl ttl' a op (run task_step cs w1) \<noteq> Inr x \<and>
    finish_task_action i h' (l_fence old) ids st a op (run task_step cs w1) \<noteq> Inr x \<and>
    (effects (run task_step cs w1) = Some b \<and> we_task b = i \<and> we_fence b = l_fence old \<longrightarrow>
       check_effects (run task_step cs w1) a \<noteq> Inr ())"
proof -
  have run1: "execute el actor key ''task.acquire''
      (JObj [(''task_id'', JStr i), (''holder'', JStr h), (''ttl_seconds'', JInt ttl)])
      (acquire_task_action i h ttl actor) w = Inr (r, w1)"
    using assms(1) by (auto simp: acquire_task_def bindE_Inr_iff split: if_splits)
  obtain w2 where act: "acquire_task_action i h ttl actor (fst (new_id w)) (snd (new_id w)) = Inr (r, w2)"
      and same: "same_tables w2 w1"
    by (rule execute_fresh [OF run1 assms(2)])
  have "\<exists>l. find_lease w1 i = Some l \<and> l_fence old < l_fence l"
    by (rule acquire_action_InrD [OF act]) (simp add: same_tables_find(4) [OF same] assms(3))
  then obtain l where "find_lease (run task_step cs w1) i = Some l" "l_fence old < l_fence l"
    using run_tasks_fence_le [of w1 cs] unfolding fence_le_def by (meson less_le_trans)
  then have stale: "fenced (run task_step cs w1) i h'' (l_fence old) =
      Inl (fail ''STALE_LEASE'' 409)" for h''
    by (rule behind_is_stale)
  show ?thesis using stale_refused [OF stale] stale_binding_refused [OF stale] by blast
qed

text \<open>Completion settles a task: a fresh completion finds every joined child settled and every
  piece of evidence an artifact of the task's own experiment, leaves the task completed with that
  evidence, which is never empty, and ends the lease it was made under.\<close>

theorem completion_settles:
  assumes "finish_task el i h f ids ''completed'' actor key w = Inr (result, w')"
    and "find_command w (command_key w actor key) = None" and "records_ok w"
  shows "(\<forall>r \<in> set (records w). r_kind r = Task \<longrightarrow> r_project r = pr_project actor \<longrightarrow>
       field r ''reply_to_parent_task_id'' = JStr i \<longrightarrow> field r ''status'' \<noteq> JNull \<longrightarrow>
       in_strings (field r ''status'') [''completed'', ''failed'', ''blocked'']) \<and>
    (\<exists>task. find_row w' i = Some task \<and> field task ''status'' = JStr ''completed'' \<and>
       field task ''evidence_ids'' = strings ids \<and> ids \<noteq> [] \<and>
       (\<forall>j \<in> set ids. \<exists>a. find_row w j = Some a \<and> r_kind a = Artifact \<and>
          field a ''experiment_id'' = field task ''experiment_id'')) \<and>
    (\<exists>l. find_lease w i = Some l \<and> l_holder l = h \<and> l_fence l = f \<and> now w < l_expires l \<and>
       find_lease w' i = Some (l\<lparr>l_expires := 0\<rparr>))"
proof -
  have ids: "ids \<noteq> []" and run: "execute el actor key ''task.finish''
       (JObj [(''task_id'', JStr i), (''holder'', JStr h), (''fence'', JInt f),
              (''evidence_ids'', strings ids), (''status'', JStr ''completed'')])
       (finish_task_action i h f ids ''completed'' actor) w = Inr (result, w')"
    using assms(1) by (auto simp: finish_task_def bindE_Inr_iff split: if_splits)
  define v where "v = snd (new_id w)"
  have v [simp]: "records v = records w" "find_row v j = find_row w j" "find_lease v j = find_lease w j"
      "now v = now w" for j
    by (simp_all add: v_def)
  have ok: "records_ok v" using assms(3) by (simp add: records_ok_def)
  obtain w2 where act: "finish_task_action i h f ids ''completed'' actor (fst (new_id w)) v = Inr (result, w2)"
      and same: "same_tables w2 w'"
    using execute_fresh [OF run assms(2)] unfolding v_def by metis
  obtain final where final: "find_row w' i = Some final" "r_payload final = result"
    using finish_action_row [OF act ok] same_tables_find(1) [OF same] by metis
  show ?thesis
  proof (rule finish_action_InrE [OF act])
    fix task e lease summary w1 w2' w3 w4
    assume t: "get_row v Task (JStr i) actor = Inr task" and fen: "fenced v i h f = Inr lease"
      and pend: "\<not> (''completed'' = ''completed'' \<and> (\<exists>r \<in> set (records v). pending_child actor i r))"
      and ev: "foldE (read_evidence v actor task) ids None = Inr summary"
      and chain: "replace_row v task (finish_values task ''completed'' ids summary) None = Inr (result, w1)"
        "release_task_claims actor (fst (new_id w)) task w1 = Inr w2'"
        "park_branch actor task ''completed'' w2' = Inr w3"
        "notify_parent actor (fst (new_id w)) task h result w3 = Inr w4"
      and w2: "w2 = emit actor (fst (new_id w)) (''task.'' @ ''completed'') i
          [(''experiment_id'', e), (''evidence_ids'', strings ids)] True
          (set_lease (lease\<lparr>l_expires := 0\<rparr>) w4)"
    have fields: "dget result ''status'' = JStr ''completed''" "dget result ''evidence_ids'' = strings ids"
      "dget result ''experiment_id'' = field task ''experiment_id''"
      using dget_replacement [OF chain(1)] by (auto simp: finish_values_def)
    have "\<exists>a. find_row w j = Some a \<and> r_kind a = Artifact \<and>
        field a ''experiment_id'' = field task ''experiment_id''" if "j \<in> set ids" for j
      using foldE_each [OF ev that] read_evidence_artifact [of v] by fastforce
    moreover have lease: "l_task lease = i" "find_lease w i = Some lease" "l_holder lease = h"
        "l_fence lease = f" "now w < l_expires lease"
      using fen find_lease_id by (auto simp: fenced_Inr_iff)
    moreover have "find_lease w' i = Some (lease\<lparr>l_expires := 0\<rparr>)"
      using lease(1) same_tables_find(4) [OF same] by (simp add: w2)
    moreover have "in_strings (field r ''status'') [''completed'', ''failed'', ''blocked'']"
      if "r \<in> set (records w)" "r_kind r = Task" "r_project r = pr_project actor"
        "field r ''reply_to_parent_task_id'' = JStr i" "field r ''status'' \<noteq> JNull" for r
      using pend that by (auto simp: pending_child_def settled_statuses_def)
    ultimately show ?thesis using final fields ids by auto
  qed
qed

text \<open>The lineage of the sample task: a second task delegated from it.\<close>

definition sample_child :: row where
  "sample_child = sample_row Task ''k2''
     [(''experiment_id'', JStr ''e''), (''branch_id'', JStr ''b1''), (''status'', JStr ''queued''),
      (''objective'', JStr ''first''), (''dependency_ids'', JList []),
      (''delegated_from_task_id'', JStr ''k''), (''reply_to_parent_task_id'', JStr ''k''),
      (''created_by'', JStr ''ag'')]"

definition sample_family :: world where
  "sample_family = sample\<lparr>records := records sample @ [sample_child]\<rparr>"

text \<open>C40. The walk over the ancestors of a new joined task ends: while no task is its own ancestor it
  never runs out of the records there are, and creating a task under a fresh id keeps that so.\<close>

theorem lineage_terminates:
  assumes "acyclic (parents w)"
  shows "lineage_check w actor e deps a \<noteq> Inl (ValueError ''unending lineage'') \<and>
    (\<forall>q op made w'. create_task_action q a actor op w = Inr (made, w') \<longrightarrow>
       (\<forall>s \<in> set (records w). field s ''reply_to_parent_task_id'' \<noteq> JStr (fst (new_id w))) \<longrightarrow>
       a \<noteq> JStr (fst (new_id w)) \<longrightarrow> acyclic (parents w'))"
  using lineage_check_ends [OF assms] create_task_action_acyclic [OF _ assms] by blast

lemma sample_family_parents: "parents sample_family = {(''k'', ''k2'')}"
proof -
  have "list_all (\<lambda>r. field r ''reply_to_parent_task_id'' =
      (if r_id r = ''k2'' then JStr ''k'' else JNull)) (records sample_family)"
    by code_simp
  then have only: "field r ''reply_to_parent_task_id'' = (if c = ''k2'' then JStr ''k'' else JNull)"
    if "find_row sample_family c = Some r" for c r
    using find_row_in [OF that] find_row_id [OF that] by (auto simp: list_all_iff)
  have "find_row sample_family ''k2'' = Some sample_child" "find_row sample_family ''k'' = Some sample_task"
    by code_simp+
  then show ?thesis using only by (auto simp: parents_def split: if_splits)
qed

theorem lineage_terminates_witness:
  "acyclic (parents sample_family) \<and>
   lineage_check sample_family sample_agent (JStr ''e'') [''k3''] (JStr ''k2'')
     \<noteq> Inl (ValueError ''unending lineage'')"
proof -
  have "acyclic (parents sample_family)"
    unfolding sample_family_parents by (rule acyclic_new_child) (simp_all add: acyclic_def)
  with lineage_terminates [OF this] show ?thesis by blast
qed

text \<open>No objective is lost from the record of a queued task: an amendment puts the old objective,
  under the revision it had, at the end of the kept ones, keeps at most the last eight verbatim, and
  counts and digests, in order, exactly those it drops.\<close>

theorem amendments_are_accounted:
  assumes "amend_queued_task_objective el i e objective actor key w = Inr (result, w')"
    and "find_command w (command_key w actor key) = None"
    and "find_row w i = Some task" and "0 \<le> fst (dropped_of task)"
  shows "\<exists>task' n. find_row w' i = Some task' \<and> r_rev task' = r_rev task + 1 \<and>
    n = length (amended_history task (field task ''objective'')) - 8 \<and>
    field task' ''objective'' = JStr objective \<and>
    field task' ''superseded_objectives'' =
      JList (drop n (amended_history task (field task ''objective''))) \<and>
    dropped_of task' = fold (drop_objective (digest_of w))
      (take n (amended_history task (field task ''objective''))) (dropped_of task) \<and>
    fst (dropped_of task') = fst (dropped_of task) + int n"
proof -
  have run: "execute el actor key ''task.objective-amend''
       (JObj [(''task_id'', JStr i), (''expected_revision'', JInt e), (''objective'', JStr objective)])
       (amend_action i e objective actor) w = Inr (result, w')"
    using assms(1) by (auto simp: amend_queued_task_objective_def bindE_Inr_iff split: if_splits)
  obtain w2 where act: "amend_action i e objective actor (fst (new_id w)) (snd (new_id w)) = Inr (result, w2)"
      and same: "same_tables w2 w'"
    by (rule execute_fresh [OF run assms(2)])
  define old where "old = field task ''objective''"
  define history where "history = amended_history task old"
  define n where "n = length history - 8"
  define dropped where "dropped = fold (drop_objective (digest_of w)) (take n history) (dropped_of task)"
  obtain written w3 where
      r: "replace_row (snd (new_id w)) task (amend_values (digest_of w) task old objective) (Some e)
        = Inr (written, w3)" and w2: "\<And>j. find_row w2 j = find_row w3 j"
    using act by (auto simp: amend_action_def assms(3) bindE_Inr_iff Let_def old_def
        dest!: need_field split: if_splits)
  have count: "fst (fold (drop_objective d) xs s) = fst s + int (length xs)" for d xs s
    by (induction xs arbitrary: s) (simp_all add: drop_objective_def)
  have fst_dropped: "fst dropped = fst (dropped_of task) + int n"
    by (simp add: dropped_def count n_def)
  have written_values: "amend_values (digest_of w) task old objective =
      [(''objective'', JStr objective), (''superseded_objectives'', JList (drop n history))] @
      (if fst dropped \<noteq> 0
       then [(''superseded_objectives_dropped'',
              JObj [(''count'', JInt (fst dropped)), (''digest'', snd dropped)])] else [])"
    by (simp add: amend_values_def Let_def history_def n_def dropped_def kept_objectives_def)
  obtain task' where task': "find_row w' i = Some task'" "r_payload task' = written"
      "r_rev task' = r_rev task + 1"
    using replace_row_found(1) [OF r] find_row_id [OF assms(3)] w2 same_tables_find(1) [OF same] by auto
  have "field task' ''objective'' = JStr objective"
    "field task' ''superseded_objectives'' = JList (drop n history)"
    unfolding task'(2) using dget_replacement(2) [OF r] by (auto simp: written_values)
  moreover have "dropped_of task' = dropped"
  proof (cases "fst dropped = 0")
    case True
    then have "n = 0" using fst_dropped assms(4) by simp
    moreover have "field task' ''superseded_objectives_dropped'' = field task ''superseded_objectives_dropped''"
      unfolding task'(2) using True by (intro dget_replacement(1) [OF r]) (auto simp: written_values)
    ultimately show ?thesis by (simp add: dropped_def dropped_of_def)
  next
    case False
    then have "field task' ''superseded_objectives_dropped'' =
        JObj [(''count'', JInt (fst dropped)), (''digest'', snd dropped)]"
      unfolding task'(2) by (intro dget_replacement(2) [OF r]) (auto simp: written_values)
    then show ?thesis by (simp add: dropped_of_def jor_def as_dict_def as_int_def)
  qed
  ultimately show ?thesis
    using task' fst_dropped by (auto simp: history_def [symmetric] old_def [symmetric] n_def dropped_def)
qed

section \<open>Concrete runs\<close>

text \<open>The sample project a minute later, when the lease of its task has run out.\<close>

definition sample_later :: world where
  "sample_later = sample\<lparr>now := 70000000\<rparr>"

definition handover :: "herr + (dict \<times> world)" where
  "handover = acquire_task 0 ''k'' ''h2'' 60 sample_operator ''acq'' sample_later"

lemma handover_runs: "handover = Inr (fst (projr handover), snd (projr handover))"
proof -
  have "\<not> isl handover" by code_simp
  then show ?thesis by (rule Inr_projr)
qed

lemma handover_new: "find_command sample_later (command_key sample_later sample_operator ''acq'') = None"
  by code_simp

lemma handover_old: "find_lease sample_later ''k'' =
    Some \<lparr>l_task = ''k'', l_holder = ''h1'', l_fence = 1, l_expires = 60000000\<rparr>"
  by code_simp

theorem acquisition_is_exclusive_witness:
  "find_lease (snd (projr handover)) ''k'' =
     Some \<lparr>l_task = ''k'', l_holder = ''h2'', l_fence = 2, l_expires = 130000000\<rparr>"
proof -
  have "now sample_later = 70000000" by (simp add: sample_later_def)
  then show ?thesis
    using acquisition_is_exclusive [OF handover_runs [unfolded handover_def] handover_new]
    by (simp add: handover_def handover_old micros_def)
qed

theorem superseded_holder_locked_out_witness:
  "\<forall>op cs x. renew_task_action ''k'' ''h1'' 1 60 sample_operator op
     (run task_step cs (snd (projr handover))) \<noteq> Inr x"
  using superseded_holder_locked_out [OF handover_runs [unfolded handover_def] handover_new handover_old]
  by (simp add: handover_def)

theorem completion_settles_witness:
  "\<exists>result w' task. finish_task 0 ''k'' ''h1'' 1 [''a''] ''completed'' sample_operator ''fin'' sample
      = Inr (result, w') \<and>
    find_row w' ''k'' = Some task \<and> field task ''status'' = JStr ''completed''"
proof -
  have "\<not> isl (finish_task 0 ''k'' ''h1'' 1 [''a''] ''completed'' sample_operator ''fin'' sample)"
    by code_simp
  note run = Inr_projr [OF this]
  have "find_command sample (command_key sample sample_operator ''fin'') = None" "records_ok sample"
    by code_simp+
  from completion_settles [OF run this] run show ?thesis by blast
qed

theorem amendments_are_accounted_witness:
  "\<exists>result w' task'. amend_queued_task_objective 0 ''k2'' 1 ''second'' sample_operator ''am'' sample_family
      = Inr (result, w') \<and> find_row w' ''k2'' = Some task' \<and>
    field task' ''superseded_objectives'' =
      JList [JObj [(''revision'', JInt 1), (''objective'', JStr ''first'')]]"
proof -
  have "\<not> isl (amend_queued_task_objective 0 ''k2'' 1 ''second'' sample_operator ''am'' sample_family)"
    by code_simp
  then obtain r w' where run: "amend_queued_task_objective 0 ''k2'' 1 ''second'' sample_operator ''am''
      sample_family = Inr (r, w')"
    by (rule succeedsE)
  have new: "find_command sample_family (command_key sample_family sample_operator ''am'') = None"
    and row: "find_row sample_family ''k2'' = Some sample_child"
    and pos: "0 \<le> fst (dropped_of sample_child)"
    by code_simp+
  have "amended_history sample_child (field sample_child ''objective'') =
      [JObj [(''revision'', JInt 1), (''objective'', JStr ''first'')]]"
    by code_simp
  with amendments_are_accounted [OF run new row pos] run show ?thesis by auto
qed

end
