(* ===== verification/Reading.thy ===== *)
theory Reading
  imports Commands
begin

text \<open>
  Reading (\<open>service.py\<close>): pages of records a reader may see, the complete read that follows the
  pages to the end, the resolution of an abbreviated id, and pages of events with their cursor. A page
  scans a bounded number of rows whatever the reader may see of them. The complete read loops until a
  page has no successor; it is a partial function, total where no record has the empty id. Page
  cursors leave the service sealed: a codec with the two operations is a parameter here.
\<close>

section \<open>Sorted lists\<close>

lemma sorted_split:
  fixes key :: "'a \<Rightarrow> 'k::linorder"
  assumes "sorted_wrt (\<lambda>x y. key x < key y) xs" and "0 < n" and "n \<le> length xs"
  shows "filter (\<lambda>x. key (xs ! (n - 1)) < key x) xs = drop n xs"
    "filter (\<lambda>x. key x \<le> key (xs ! (n - 1))) xs = take n xs"
proof -
  let ?p = "key (xs ! (n - 1))"
  have nth: "key (xs ! i) < key (xs ! j)" if "i < j" "j < length xs" for i j
    using sorted_wrt_nth_less [OF assms(1) that] .
  have before: "key x \<le> ?p" if "x \<in> set (take n xs)" for x
  proof -
    from that obtain i where "i < n" "x = xs ! i" using assms(3) by (auto simp: in_set_conv_nth)
    then show ?thesis using nth [of i "n - 1"] assms(2,3)
      by (cases "i = n - 1") (auto simp: less_imp_le)
  qed
  have behind: "?p < key x" if "x \<in> set (drop n xs)" for x
  proof -
    from that obtain i where "i < length xs - n" "x = drop n xs ! i" by (auto simp: in_set_conv_nth)
    then show ?thesis using nth [of "n - 1" "n + i"] assms(2,3) by auto
  qed
  have "filter (\<lambda>x. ?p < key x) (take n xs @ drop n xs) = drop n xs"
    unfolding filter_append using before behind
    by (simp add: filter_empty_conv filter_id_conv leD)
  then show "filter (\<lambda>x. ?p < key x) xs = drop n xs" by simp
  have "filter (\<lambda>x. key x \<le> ?p) (take n xs @ drop n xs) = take n xs"
    unfolding filter_append using before behind
    by (simp add: filter_empty_conv filter_id_conv not_le)
  then show "filter (\<lambda>x. key x \<le> ?p) xs = take n xs" by simp
qed

lemma sorted_key_strict:
  fixes key :: "'a \<Rightarrow> 'k::linorder"
  assumes "distinct (map key xs)"
  shows "sorted_wrt (\<lambda>x y. key x < key y) (sort_key key (filter P xs))"
proof -
  let ?ys = "sort_key key (filter P xs)"
  have "distinct (map key ?ys)"
    using distinct_map_filter [OF assms, of P] by (simp add: distinct_map)
  then have "sorted_wrt (<) (map key ?ys)" by (simp add: strict_sorted_iff)
  then show ?thesis by (simp add: sorted_wrt_map)
qed

section \<open>Pages of records\<close>

text \<open>The query of \<open>_page_records\<close>: which rows it selects, or \<open>None\<close> when the reader's experiment is
  not there.\<close>

definition kind_rows :: "principal \<Rightarrow> kind \<Rightarrow> string option \<Rightarrow> row \<Rightarrow> bool" where
  "kind_rows actor k experiment_id r \<longleftrightarrow>
     r_project r = pr_project actor \<and> r_kind r = k \<and>
     (opt_true experiment_id \<longrightarrow> field r ''experiment_id'' = jopt experiment_id)"

definition agent_rows ::
  "principal \<Rightarrow> kind \<Rightarrow> string option \<Rightarrow> row \<Rightarrow> herr + (row \<Rightarrow> bool)" where
  "agent_rows actor k experiment_id experiment =
     bindE (need experiment ''problem_id'') (\<lambda>problem.
     if k \<in> {Experiment, Problem, Campaign} then
       bindE (if k = Experiment then Inr (JStr (r_id experiment))
              else need experiment (kind_name k @ ''_id'')) (\<lambda>i.
       Inr (\<lambda>r. kind_rows actor k experiment_id r \<and> JStr (r_id r) = i))
     else if k = Review then
       Inr (\<lambda>r. kind_rows actor k experiment_id r \<and> field r ''problem_id'' = problem)
     else Inr (\<lambda>r. kind_rows actor k experiment_id r \<and>
       field r ''experiment_id'' = jopt (pr_experiment actor)))"

definition page_query ::
  "world \<Rightarrow> kind \<Rightarrow> principal \<Rightarrow> string option \<Rightarrow> herr + (row \<Rightarrow> bool) option" where
  "page_query w k actor experiment_id =
     bindE (if opt_true experiment_id
            then bindE (get_row w Experiment (jopt experiment_id) actor) (\<lambda>_. Inr ()) else Inr ())
       (\<lambda>_.
     if pr_role actor \<noteq> Agent then Inr (Some (kind_rows actor k experiment_id))
     else case find_opt w (pr_experiment actor) of
       None \<Rightarrow> Inr None
     | Some experiment \<Rightarrow>
         if r_project experiment \<noteq> pr_project actor then Inr None
         else bindE (agent_rows actor k experiment_id experiment) (\<lambda>q. Inr (Some q)))"

text \<open>The loop over the chunk: what is visible, and how many rows were scanned.\<close>

fun scan_rows :: "(row \<Rightarrow> bool) \<Rightarrow> nat \<Rightarrow> row list \<Rightarrow> row list \<times> nat" where
  "scan_rows vis left [] = ([], 0)"
| "scan_rows vis left (r # rs) =
     (if vis r then
        (if left = 1 then ([r], 1)
         else let (found, n) = scan_rows vis (left - 1) rs in (r # found, Suc n))
      else let (found, n) = scan_rows vis left rs in (found, Suc n))"

definition later_rows :: "string option \<Rightarrow> (row \<Rightarrow> bool) \<Rightarrow> row \<Rightarrow> bool" where
  "later_rows position q r \<longleftrightarrow> q r \<and> (opt_true position \<longrightarrow> the position < r_id r)"

definition scan_page ::
  "(row \<Rightarrow> bool) \<Rightarrow> (row \<Rightarrow> bool) \<Rightarrow> nat \<Rightarrow> world \<Rightarrow> string option \<Rightarrow> row list \<times> string option" where
  "scan_page vis q limit w position =
     (let scan_limit = max 100 limit;
          chunk = take (Suc scan_limit) (select_sorted (later_rows position q) w);
          (found, scanned) = scan_rows vis limit (take scan_limit chunk);
          reached = (if scanned = 0 then position else Some (r_id (chunk ! (scanned - 1))))
      in (found, if scanned < length chunk then reached else None))"

definition page_records_at ::
  "world \<Rightarrow> kind \<Rightarrow> principal \<Rightarrow> string option \<Rightarrow> nat \<Rightarrow> string option \<Rightarrow>
   herr + (dict list \<times> string option)"
where
  "page_records_at w k actor experiment_id limit position =
     bindE (page_query w k actor experiment_id) (\<lambda>query.
     case query of
       None \<Rightarrow> Inr ([], None)
     | Some q \<Rightarrow>
         let (found, next_position) = scan_page (in_scope w actor) q limit w position
         in Inr (map r_payload found, next_position))"

text \<open>\<open>list_records\<close> follows the pages until there is no next one.\<close>

partial_function (option) read_pages ::
  "(row \<Rightarrow> bool) \<Rightarrow> (row \<Rightarrow> bool) \<Rightarrow> nat \<Rightarrow> world \<Rightarrow> string option \<Rightarrow> row list option" where
  "read_pages vis q limit w position =
     (case snd (scan_page vis q limit w position) of
        None \<Rightarrow> Some (fst (scan_page vis q limit w position))
      | Some p \<Rightarrow>
          Option.bind (read_pages vis q limit w (Some p))
            (\<lambda>rest. Some (fst (scan_page vis q limit w position) @ rest)))"

definition list_records ::
  "world \<Rightarrow> kind \<Rightarrow> principal \<Rightarrow> string option \<Rightarrow> nat \<Rightarrow> (herr + dict list) option" where
  "list_records w k actor experiment_id limit =
     (case page_query w k actor experiment_id of
        Inl e \<Rightarrow> Some (Inl e)
      | Inr None \<Rightarrow> Some (Inr [])
      | Inr (Some q) \<Rightarrow>
          Option.bind (read_pages (in_scope w actor) q limit w None)
            (\<lambda>rows. Some (Inr (map r_payload rows))))"

definition get_record :: "world \<Rightarrow> kind \<Rightarrow> json \<Rightarrow> principal \<Rightarrow> herr + dict" where
  "get_record w k identifier actor = bindE (get_row w k identifier actor) (\<lambda>r. Inr (r_payload r))"

section \<open>Sealed cursors\<close>

text \<open>\<open>seal_page_cursor\<close> and \<open>open_page_cursor\<close>, for a reader and a query.\<close>

record cursor_codec =
  seal_cursor :: "principal \<Rightarrow> json \<Rightarrow> string \<Rightarrow> string"
  open_cursor :: "principal \<Rightarrow> json \<Rightarrow> string \<Rightarrow> string option"

record page =
  g_items :: "dict list"
  g_next :: "string option"

definition records_query :: "kind \<Rightarrow> string option \<Rightarrow> json" where
  "records_query k experiment_id =
     JList [JStr ''records'', JStr (kind_name k), jopt experiment_id]"

definition page_records ::
  "cursor_codec \<Rightarrow> world \<Rightarrow> kind \<Rightarrow> principal \<Rightarrow> string option \<Rightarrow> nat \<Rightarrow> string option \<Rightarrow> herr + page"
where
  "page_records codec w k actor experiment_id limit after =
     (if \<not> (1 \<le> limit \<and> limit \<le> 5000) then Inl (fail ''INVALID_PAGE_SIZE'' 422)
      else
        let query = records_query k experiment_id
        in bindE (if \<not> opt_true after then Inr None
                  else case open_cursor codec actor query (the after) of
                    None \<Rightarrow> Inl (fail ''INVALID_CURSOR'' 422) | Some p \<Rightarrow> Inr (Some p))
             (\<lambda>position.
           bindE (page_records_at w k actor experiment_id limit position)
             (\<lambda>(items, next_position).
             Inr \<lparr>g_items = items,
                  g_next = (if opt_true next_position
                            then Some (seal_cursor codec actor query (the next_position))
                            else None)\<rparr>)))"

section \<open>Pages of events\<close>

text \<open>What \<open>event_page\<close> shows of an event to a reader.\<close>

definition event_visible :: "world \<Rightarrow> principal \<Rightarrow> event_row \<Rightarrow> bool" where
  "event_visible w actor e \<longleftrightarrow>
     \<not> (e_kind e = ''discussion.source_withdrawn'' \<and> pr_role actor \<notin> {Operator, Admin}) \<and>
     (pr_role actor = Agent \<longrightarrow>
        (case find_row w (e_aggregate e) of
           None \<Rightarrow> False | Some a \<Rightarrow> in_scope w actor a)) \<and>
     (pr_role actor = Agent \<and> e_kind e = ''message.created'' \<longrightarrow>
        (case find_json w (dget (e_payload e) ''message_id'') of
           None \<Rightarrow> False
         | Some m \<Rightarrow> r_kind m = Message \<and> field m ''recipient_branch_id'' = jopt (pr_branch actor) \<and>
                     in_scope w actor m))"

definition project_events :: "world \<Rightarrow> principal \<Rightarrow> event_row list" where
  "project_events w actor = filter (\<lambda>e. e_project e = pr_project actor) (events w)"

definition high_sequence :: "world \<Rightarrow> principal \<Rightarrow> int" where
  "high_sequence w actor = foldr max (map e_sequence (project_events w actor)) 0"

definition event_rows ::
  "world \<Rightarrow> principal \<Rightarrow> bool \<Rightarrow> int \<Rightarrow> int \<Rightarrow> int \<Rightarrow> event_row list" where
  "event_rows w actor tail high after cursor =
     (let selected = sort_key e_sequence (filter (\<lambda>e. e_project e = pr_project actor \<and>
            e_sequence e \<le> high \<and> after < e_sequence e \<and>
            (if tail then e_sequence e < cursor else cursor < e_sequence e)) (events w))
      in take 500 (if tail then rev selected else selected))"

text \<open>One batch; the state is the cursor, the items and the number of scanned events.\<close>

fun scan_events ::
  "(event_row \<Rightarrow> bool) \<Rightarrow> nat \<Rightarrow> event_row list \<Rightarrow> int \<times> event_row list \<times> nat \<Rightarrow>
   int \<times> event_row list \<times> nat"
where
  "scan_events vis limit [] st = st"
| "scan_events vis limit (e # es) (cursor, items, scanned) =
     (if \<not> vis e then scan_events vis limit es (e_sequence e, items, Suc scanned)
      else if Suc (length items) = limit then (e_sequence e, items @ [e], Suc scanned)
      else scan_events vis limit es (e_sequence e, items @ [e], Suc scanned))"

lemma scan_events_mono: "snd (snd st) \<le> snd (snd (scan_events vis limit es st))"
  by (induction vis limit es st rule: scan_events.induct) (auto dest: Suc_leD)

lemma scan_events_more:
  assumes "es \<noteq> []"
  shows "snd (snd st) < snd (snd (scan_events vis limit es st))"
proof -
  obtain e es' c items n where [simp]: "es = e # es'" "st = (c, items, n)"
    using assms by (metis list.exhaust prod.exhaust)
  have "Suc n \<le> snd (snd (scan_events vis limit es' (c', i', Suc n)))" for c' i'
    using scan_events_mono [of "(c', i', Suc n)"] by simp
  then show ?thesis by (simp add: Suc_le_eq)
qed

function event_loop ::
  "(int \<Rightarrow> event_row list) \<Rightarrow> (event_row \<Rightarrow> bool) \<Rightarrow> int \<Rightarrow> nat \<Rightarrow> int \<times> event_row list \<times> nat \<Rightarrow>
   int \<times> event_row list \<times> nat"
where
  "event_loop batch vis finish limit (cursor, items, scanned) =
     (if scanned < 5000 \<and> length items < limit then
        (if batch cursor = [] then (finish, items, scanned)
         else event_loop batch vis finish limit
           (scan_events vis limit (batch cursor) (cursor, items, scanned)))
      else (cursor, items, scanned))"
  by pat_completeness auto
termination
proof (relation "measure (\<lambda>(_, _, _, _, st). 5000 - snd (snd st))")
  fix batch :: "int \<Rightarrow> event_row list" and vis finish limit cursor and items :: "event_row list"
    and scanned :: nat
  assume "scanned < 5000 \<and> length items < limit" "batch cursor \<noteq> []"
  then show "((batch, vis, finish, limit, scan_events vis limit (batch cursor) (cursor, items, scanned)),
      batch, vis, finish, limit, cursor, items, scanned)
    \<in> measure (\<lambda>(_, _, _, _, st). 5000 - snd (snd st))"
    using scan_events_more [of "batch cursor" "(cursor, items, scanned)" vis limit] by auto
qed simp

declare event_loop.simps [simp del]

record event_window =
  n_items :: "event_row list"
  n_cursor :: int
  n_more :: bool
  n_limited :: bool

definition event_page ::
  "world \<Rightarrow> principal \<Rightarrow> int \<Rightarrow> int \<Rightarrow> bool \<Rightarrow> herr + event_window" where
  "event_page w actor after limit tail =
     (if after < 0 \<or> \<not> (1 \<le> limit \<and> limit \<le> 1000) then Inl (fail ''INVALID_EVENT_PAGE'' 409)
      else
        let high = high_sequence w actor;
            (cursor, items, scanned) =
              event_loop (event_rows w actor tail high after) (event_visible w actor)
                (if tail then after else max after high) (nat limit)
                (if tail then high + 1 else after, [], 0)
        in Inr \<lparr>n_items = (if tail then rev items else items),
                n_cursor = (if tail then max after high else cursor),
                n_more = (if tail then after < cursor else cursor < high),
                n_limited = (5000 \<le> scanned)\<rparr>)"

definition pending_outbox :: "world \<Rightarrow> nat \<Rightarrow> outbox_row list" where
  "pending_outbox w limit = take limit (filter (\<lambda>o'. o_state o' = ''pending'') (outbox w))"

section \<open>Abbreviated ids\<close>

definition max_prefix_candidates :: nat where "max_prefix_candidates = 20"

text \<open>\<open>ID_PREFIX\<close>: eight hexadecimal digits, then up to 27 digits or dashes.\<close>

definition id_prefix :: "string \<Rightarrow> bool" where
  "id_prefix s \<longleftrightarrow>
     8 \<le> length s \<and> length s \<le> 35 \<and>
     list_all (\<lambda>c. c \<in> set ''0123456789abcdef'') (take 8 s) \<and>
     list_all (\<lambda>c. c \<in> set ''0123456789abcdef-'') (drop 8 s)"

text \<open>The routes: what the tool an id is meant for accepts as its target.\<close>

datatype route = ChildTask string | Watch string | Recipient string

fun route_target :: "world \<Rightarrow> principal \<Rightarrow> route \<Rightarrow> row \<Rightarrow> bool" where
  "route_target w actor (ChildTask anchor) r \<longleftrightarrow> field r ''delegated_from_task_id'' = JStr anchor"
| "route_target w actor (Watch anchor) r \<longleftrightarrow> \<not> isl (guard_referee_branch r actor)"
| "route_target w actor (Recipient anchor) r \<longleftrightarrow>
     (case find_row w anchor of
        None \<Rightarrow> False
      | Some sender \<Rightarrow>
          field sender ''experiment_id'' = field r ''experiment_id'' \<and>
          (r_kind r = CommonsNode \<or> \<not> isl (guard_referee_recipient sender r)))"

definition prefix_rows :: "world \<Rightarrow> string \<Rightarrow> principal \<Rightarrow> kind list \<Rightarrow> row list" where
  "prefix_rows w prefix actor kinds =
     take (Suc max_prefix_candidates) (select_sorted (\<lambda>r. r_project r = pr_project actor \<and>
       r_kind r \<in> set kinds \<and> field r ''experiment_id'' = jopt (pr_experiment actor) \<and>
       take (length prefix) (r_id r) = prefix) w)"

definition prefix_candidates ::
  "world \<Rightarrow> string \<Rightarrow> principal \<Rightarrow> kind list \<Rightarrow> route option \<Rightarrow> row list" where
  "prefix_candidates w prefix actor kinds route =
     filter (case route of None \<Rightarrow> in_scope w actor | Some x \<Rightarrow> route_target w actor x)
       (prefix_rows w prefix actor kinds)"

definition resolve_prefix ::
  "world \<Rightarrow> string \<Rightarrow> principal \<Rightarrow> kind list \<Rightarrow> route option \<Rightarrow> herr + string" where
  "resolve_prefix w identifier actor kinds route =
     (if 36 \<le> length identifier \<or> \<not> id_prefix identifier \<or> \<not> opt_true (pr_experiment actor)
      then Inr identifier
      else
        let candidates = prefix_candidates w identifier actor kinds route
        in if 1 < length candidates \<and> route = None then Inl (fail ''AMBIGUOUS_ID'' 409)
           else case candidates of [r] \<Rightarrow> Inr (r_id r) | _ \<Rightarrow> Inr identifier)"

definition resolve_id ::
  "world \<Rightarrow> string \<Rightarrow> principal \<Rightarrow> kind list \<Rightarrow> route option \<Rightarrow> herr + string" where
  "resolve_id w identifier actor kinds route =
     (if \<not> id_prefix identifier then Inr identifier
      else resolve_prefix w identifier actor kinds route)"

text \<open>A resolved id is the full id of a record the reader, or the routing tool, may name; every other
  id passes through.\<close>

lemma resolve_id_sound:
  assumes "resolve_id w identifier actor kinds route = Inr i" and "i \<noteq> identifier"
  shows "\<exists>r \<in> set (records w). i = r_id r \<and> take (length identifier) i = identifier \<and>
    r_kind r \<in> set kinds \<and> r_project r = pr_project actor \<and>
    field r ''experiment_id'' = jopt (pr_experiment actor) \<and>
    (case route of None \<Rightarrow> in_scope w actor r | Some x \<Rightarrow> route_target w actor x r)"
proof -
  obtain r where r: "prefix_candidates w identifier actor kinds route = [r]" "i = r_id r"
    using assms by (auto simp: resolve_id_def resolve_prefix_def Let_def split: if_splits list.splits)
  then have "r \<in> set (prefix_candidates w identifier actor kinds route)" by simp
  then show ?thesis using r(2)
    by (auto simp: prefix_candidates_def prefix_rows_def set_select_sorted dest!: in_set_takeD
        split: option.splits)
qed

text \<open>Without a route an abbreviation of two readable records is refused, never guessed.\<close>

lemma resolve_id_ambiguous:
  assumes "id_prefix identifier" and "opt_true (pr_experiment actor)"
    and "1 < length (prefix_candidates w identifier actor kinds None)"
  shows "resolve_id w identifier actor kinds None = Inl (fail ''AMBIGUOUS_ID'' 409)"
  using assms by (auto simp: resolve_id_def resolve_prefix_def Let_def id_prefix_def)

section \<open>Pages cover the table\<close>

lemma scan_rows_spec:
  "scan_rows vis left rs = (found, n) \<Longrightarrow>
     n \<le> length rs \<and> found = filter vis (take n rs) \<and> (n = 0 \<longleftrightarrow> rs = [])"
proof (induction vis left rs arbitrary: found n rule: scan_rows.induct)
  case (2 vis left r rs)
  then show ?case by (auto split: if_splits prod.splits)
qed simp

definition query_rows :: "(row \<Rightarrow> bool) \<Rightarrow> world \<Rightarrow> string option \<Rightarrow> row list" where
  "query_rows q w position = select_sorted (later_rows position q) w"

lemma query_rows_later:
  "query_rows q w (Some p) =
     (if p = [] then query_rows q w None
      else filter (\<lambda>r. p < r_id r) (query_rows q w None))"
proof -
  have "later_rows (Some p) q = (if p = [] then later_rows None q
      else (\<lambda>r. later_rows None q r \<and> p < r_id r))"
    by (auto simp: later_rows_def fun_eq_iff)
  then show ?thesis
    by (simp add: query_rows_def select_sorted_def filter_sort conj_commute)
qed

lemma query_rows_strict:
  "distinct (map r_id (records w)) \<Longrightarrow> sorted_wrt (\<lambda>x y. r_id x < r_id y) (query_rows q w position)"
  unfolding query_rows_def select_sorted_def by (rule sorted_key_strict)

text \<open>One page takes a prefix of what is left and its position is the end of that prefix.\<close>

lemma scan_page_spec:
  assumes "scan_page vis q limit w position = (found, next_position)"
  shows "\<exists>n. found = filter vis (take n (query_rows q w position)) \<and>
    (if next_position = None then length (query_rows q w position) \<le> n
     else 0 < n \<and> n < length (query_rows q w position) \<and>
       next_position = Some (r_id (query_rows q w position ! (n - 1))))"
proof -
  let ?xs = "query_rows q w position"
  define m where "m = max 100 limit"
  obtain n where scan: "scan_rows vis limit (take m (take (Suc m) ?xs)) = (found, n)"
      and nxt: "next_position = (if n < length (take (Suc m) ?xs)
        then (if n = 0 then position else Some (r_id (take (Suc m) ?xs ! (n - 1)))) else None)"
    using assms
    by (auto simp: scan_page_def Let_def m_def [symmetric] query_rows_def [symmetric] split: prod.splits)
  have m: "0 < m" "min m (Suc m) = m" by (simp_all add: m_def)
  have n: "n \<le> m" "n \<le> length ?xs" "found = filter vis (take n ?xs)" "n = 0 \<longleftrightarrow> ?xs = []"
    using scan_rows_spec [OF scan] m by (auto simp: min_def split: if_splits)
  have "length ?xs \<le> n" if "next_position = None"
    using that nxt n(1,4) by (auto split: if_splits)
  moreover have "0 < n \<and> n < length ?xs \<and> next_position = Some (r_id (?xs ! (n - 1)))"
    if "next_position \<noteq> None"
    using that nxt n by (auto split: if_splits)
  ultimately show ?thesis using n(3) by (intro exI [of _ n]) (cases next_position; simp)
qed

lemma next_rows:
  assumes "distinct (map r_id (records w))" and "0 < n" and "n \<le> length (query_rows q w position)"
    and "r_id (query_rows q w position ! (n - 1)) \<noteq> []"
  shows "query_rows q w (Some (r_id (query_rows q w position ! (n - 1)))) =
    drop n (query_rows q w position)"
proof -
  let ?p = "r_id (query_rows q w position ! (n - 1))"
  have last: "query_rows q w position ! (n - 1) \<in> set (query_rows q w position)"
    using assms(2,3) by (intro nth_mem) linarith
  have "query_rows q w (Some ?p) = filter (\<lambda>r. ?p < r_id r) (query_rows q w position)"
  proof (cases "opt_true position")
    case True
    then obtain p0 where "position = Some p0" "p0 \<noteq> []" by (cases position) auto
    moreover have "p0 < ?p" using last calculation by (simp add: query_rows_later)
    ultimately show ?thesis using assms(4)
      by (auto simp: query_rows_later intro!: filter_cong [OF refl])
  next
    case False
    then have "query_rows q w position = query_rows q w None"
      by (cases position) (auto simp: query_rows_later)
    then show ?thesis using assms(4) by (simp add: query_rows_later)
  qed
  then show ?thesis using sorted_split(1) [OF query_rows_strict [OF assms(1)] assms(2,3)] by simp
qed

text \<open>Following the pages reads every row once, in order.\<close>

lemma read_pages_all:
  assumes "distinct (map r_id (records w))" and "\<forall>r \<in> set (records w). r_id r \<noteq> []"
  shows "read_pages vis q limit w position = Some (filter vis (query_rows q w position))"
proof (induction "length (query_rows q w position)" arbitrary: position rule: less_induct)
  case less
  let ?xs = "query_rows q w position"
  obtain found next_position where page: "scan_page vis q limit w position = (found, next_position)"
    by (cases "scan_page vis q limit w position")
  obtain n where n: "found = filter vis (take n ?xs)"
      "if next_position = None then length ?xs \<le> n
       else 0 < n \<and> n < length ?xs \<and> next_position = Some (r_id (?xs ! (n - 1)))"
    using scan_page_spec [OF page] by blast
  show ?case
  proof (cases next_position)
    case None
    then show ?thesis using page n by (subst read_pages.simps) simp
  next
    case (Some p)
    then have pos: "0 < n" "n < length ?xs" "p = r_id (?xs ! (n - 1))" using n(2) by auto
    have "?xs ! (n - 1) \<in> set ?xs" using pos by (intro nth_mem) linarith
    then have "p \<noteq> []" using assms(2) pos(3) by (auto simp: query_rows_def set_select_sorted)
    then have rest: "query_rows q w (Some p) = drop n ?xs"
      using next_rows [OF assms(1) pos(1)] pos by simp
    then have "read_pages vis q limit w (Some p) = Some (filter vis (drop n ?xs))"
      using less [of "Some p"] pos by simp
    then show ?thesis
      using page Some n(1) by (subst read_pages.simps) (simp flip: filter_append)
  qed
qed

section \<open>Pages of events cover the interval\<close>

definition events_ok :: "world \<Rightarrow> bool" where
  "events_ok w \<longleftrightarrow> distinct (map e_sequence (events w)) \<and> (\<forall>e \<in> set (events w). 0 < e_sequence e)"

text \<open>The project's events in an interval, in order.\<close>

definition between :: "world \<Rightarrow> principal \<Rightarrow> int \<Rightarrow> int \<Rightarrow> event_row list" where
  "between w actor a b = sort_key e_sequence (filter (\<lambda>e. e_project e = pr_project actor \<and>
     a < e_sequence e \<and> e_sequence e \<le> b) (events w))"

lemma between_strict:
  "events_ok w \<Longrightarrow> sorted_wrt (\<lambda>x y. e_sequence x < e_sequence y) (between w actor a b)"
  unfolding between_def by (rule sorted_key_strict) (simp add: events_ok_def)

lemma set_between: "set (between w actor a b) = {e \<in> set (events w). e_project e = pr_project actor \<and>
    a < e_sequence e \<and> e_sequence e \<le> b}"
  by (auto simp: between_def)

lemma between_split:
  assumes "events_ok w" and "a \<le> b" and "b \<le> c"
  shows "between w actor a c = between w actor a b @ between w actor b c"
proof -
  have "sorted_wrt (\<lambda>x y. e_sequence x < e_sequence y) (between w actor a b @ between w actor b c)"
    using between_strict [OF assms(1)] by (fastforce simp: sorted_wrt_append set_between)
  moreover have "set (between w actor a c) = set (between w actor a b @ between w actor b c)"
    using assms(2,3) by (auto simp: set_between)
  moreover have "inj_on e_sequence (set (events w))"
    using assms(1) by (simp add: events_ok_def distinct_map)
  moreover have "xs = ys" if "sorted_wrt (\<lambda>x y. e_sequence x < e_sequence y) xs"
      "sorted_wrt (\<lambda>x y. e_sequence x < e_sequence y) ys" "set xs = set ys"
      "inj_on e_sequence (set ys)" for xs ys :: "event_row list"
  proof -
    have "sorted_wrt (<) (map e_sequence xs)" "sorted_wrt (<) (map e_sequence ys)"
      using that by (simp_all add: sorted_wrt_map)
    then have "map e_sequence xs = map e_sequence ys"
      using that(3) by (metis list.set_map strict_sorted_equal)
    then show ?thesis using that(3,4) by (metis map_inj_on Un_absorb)
  qed
  moreover have "inj_on e_sequence (set (between w actor a b @ between w actor b c))"
    using calculation(3) by (auto simp: set_between inj_on_def)
  ultimately show ?thesis using between_strict [OF assms(1)] by blast
qed

lemma event_rows_forward:
  "after \<le> cursor \<Longrightarrow> event_rows w actor False high after cursor = take 500 (between w actor cursor high)"
  by (auto simp: event_rows_def between_def Let_def intro!: arg_cong [where f = "take 500"]
      arg_cong [where f = "sort_key e_sequence"] filter_cong)

lemma scan_events_prefix:
  assumes "scan_events vis limit es (cursor, items, scanned) = (cursor', items', scanned')"
  shows "\<exists>n \<le> length es. items' = items @ filter vis (take n es) \<and>
    cursor' = (if n = 0 then cursor else e_sequence (es ! (n - 1))) \<and> (es \<noteq> [] \<longrightarrow> 0 < n)"
  using assms
proof (induction es arbitrary: cursor items scanned)
  case (Cons e es)
  show ?case
  proof (cases "vis e \<and> Suc (length items) = limit")
    case True
    then show ?thesis using Cons.prems by (intro exI [of _ 1]) simp
  next
    case False
    then have "scan_events vis limit es
        (e_sequence e, items @ (if vis e then [e] else []), Suc scanned) = (cursor', items', scanned')"
      using Cons.prems by (auto split: if_splits)
    from Cons.IH [OF this] obtain n where "n \<le> length es"
        "items' = items @ filter vis (take (Suc n) (e # es))"
        "cursor' = e_sequence ((e # es) ! (Suc n - 1))"
      by (auto split: if_splits simp: nth_Cons')
    then show ?thesis by (intro exI [of _ "Suc n"]) simp
  qed
qed simp

lemma between_filter:
  assumes "c \<le> b"
  shows "filter (\<lambda>e. e_sequence e \<le> c) (between w actor a b) = between w actor a c"
proof -
  have "(\<lambda>e. (e_project e = pr_project actor \<and> a < e_sequence e \<and> e_sequence e \<le> b) \<and>
      e_sequence e \<le> c) = (\<lambda>e. e_project e = pr_project actor \<and> a < e_sequence e \<and> e_sequence e \<le> c)"
    using assms by (auto simp: fun_eq_iff)
  then show ?thesis unfolding between_def filter_sort filter_filter
    by (rule arg_cong [where f = "\<lambda>q. sort_key e_sequence (filter q (events w))"])
qed

lemma between_upto:
  assumes "events_ok w" and "0 < n" and "n \<le> length (between w actor a b)"
  shows "take n (between w actor a b) =
      between w actor a (e_sequence (between w actor a b ! (n - 1)))"
    "a < e_sequence (between w actor a b ! (n - 1))" "e_sequence (between w actor a b ! (n - 1)) \<le> b"
proof -
  let ?c = "e_sequence (between w actor a b ! (n - 1))"
  have "between w actor a b ! (n - 1) \<in> set (between w actor a b)"
    using assms(2,3) by (intro nth_mem) linarith
  then show c: "a < ?c" "?c \<le> b" by (auto simp: set_between)
  show "take n (between w actor a b) = between w actor a ?c"
    using sorted_split(2) [OF between_strict [OF assms(1)] assms(2,3)] between_filter c by simp
qed

text \<open>A batch moves the cursor over an interval and takes what is visible of it.\<close>

lemma scan_batch:
  assumes "events_ok w" and "batch = take 500 (between w actor cursor high)" and "batch \<noteq> []"
    and "scan_events vis limit batch (cursor, items, scanned) = (cursor', items', scanned')"
  shows "cursor < cursor'" "cursor' \<le> high" "items' = items @ filter vis (between w actor cursor cursor')"
proof -
  obtain n where n: "n \<le> length batch" "items' = items @ filter vis (take n batch)"
      "cursor' = (if n = 0 then cursor else e_sequence (batch ! (n - 1)))" "0 < n"
    using scan_events_prefix [OF assms(4)] assms(3) by auto
  have len: "n \<le> length (between w actor cursor high)" "n \<le> 500" using n(1) assms(2) by auto
  have "take n batch = take n (between w actor cursor high)"
    "cursor' = e_sequence (between w actor cursor high ! (n - 1))"
    using n(3,4) len by (auto simp: assms(2) min_def)
  then show "cursor < cursor'" "cursor' \<le> high" "items' = items @ filter vis (between w actor cursor cursor')"
    using between_upto [OF assms(1) n(4) len(1)] n(2) by auto
qed

lemma event_loop_covers:
  assumes "events_ok w"
    and "event_loop (event_rows w actor False high after) vis (max after high) limit
      (cursor, items, scanned) = (cursor', items', scanned')"
    and "after \<le> cursor" and "cursor \<le> max after high"
    and "items = filter vis (between w actor after cursor)"
  shows "cursor \<le> cursor' \<and> cursor' \<le> max after high \<and>
    items' = filter vis (between w actor after cursor') \<and>
    (scanned < 5000 \<longrightarrow> length items < limit \<longrightarrow> cursor < high \<longrightarrow> cursor < cursor')"
  using assms(2-)
proof (induction "event_rows w actor False high after" vis "max after high" limit
    "(cursor, items, scanned)" arbitrary: cursor items scanned rule: event_loop.induct)
  case (1 vis limit cursor items scanned)
  let ?batch = "event_rows w actor False high after"
  have rows: "?batch cursor = take 500 (between w actor cursor high)"
    by (rule event_rows_forward [OF 1(3)])
  show ?case
  proof (cases "scanned < 5000 \<and> length items < limit")
    case False
    then show ?thesis using 1(2-) by (auto simp: event_loop.simps)
  next
    case going: True
    show ?thesis
    proof (cases "?batch cursor = []")
      case True
      then have "between w actor cursor high = []" using rows by simp
      then have "between w actor cursor (max after high) = []"
        using 1(3) by (auto simp: between_def filter_empty_conv max_def)
      then have "between w actor after (max after high) = between w actor after cursor"
        using between_split [OF assms(1) 1(3,4)] by simp
      moreover have "cursor' = max after high" "items' = items"
        using 1(2) going True by (auto simp: event_loop.simps)
      ultimately show ?thesis using 1(4,5) by auto
    next
      case False
      obtain c got n where scan: "scan_events vis limit (?batch cursor) (cursor, items, scanned) = (c, got, n)"
        by (metis prod.exhaust)
      have step: "cursor < c" "c \<le> high" "got = items @ filter vis (between w actor cursor c)"
        using scan_batch [OF assms(1) rows False scan] by auto
      have loop: "event_loop ?batch vis (max after high) limit (c, got, n) = (cursor', items', scanned')"
        using 1(2) going False scan by (subst (asm) event_loop.simps) simp
      have "between w actor after c = between w actor after cursor @ between w actor cursor c"
        by (rule between_split [OF assms(1) 1(3)]) (use step(1) in simp)
      then have "got = filter vis (between w actor after c)" using step(3) 1(5) by simp
      from 1(1) [OF going False scan loop _ _ this] step 1(3) show ?thesis by auto
    qed
  qed
qed

lemma high_sequence_bound: "e \<in> set (project_events w actor) \<Longrightarrow> e_sequence e \<le> high_sequence w actor"
proof -
  have "x \<in> set xs \<Longrightarrow> x \<le> foldr max xs (0::int)" for x xs
    by (induction xs) auto
  then show "e \<in> set (project_events w actor) \<Longrightarrow> ?thesis" by (simp add: high_sequence_def)
qed

text \<open>What one forward page is.\<close>

lemma forward_page:
  assumes "event_page w actor after limit False = Inr page" and "events_ok w"
  shows "after \<le> n_cursor page" "n_cursor page \<le> max after (high_sequence w actor)"
    "n_items page = filter (event_visible w actor) (between w actor after (n_cursor page))"
    "n_more page \<longleftrightarrow> n_cursor page < high_sequence w actor"
    "after < high_sequence w actor \<Longrightarrow> after < n_cursor page"
proof -
  let ?high = "high_sequence w actor"
  obtain c got n where loop: "event_loop (event_rows w actor False ?high after) (event_visible w actor)
      (max after ?high) (nat limit) (after, [], 0) = (c, got, n)"
    by (metis prod.exhaust)
  have page: "page = \<lparr>n_items = got, n_cursor = c, n_more = c < ?high, n_limited = 5000 \<le> n\<rparr>"
    and limit: "0 < nat limit"
    using assms(1) loop by (auto simp: event_page_def Let_def split: if_splits)
  have "after \<le> c \<and> c \<le> max after ?high \<and> got = filter (event_visible w actor) (between w actor after c) \<and>
      (after < ?high \<longrightarrow> after < c)"
    using event_loop_covers [OF assms(2) loop] limit by (simp add: between_def)
  then show "after \<le> n_cursor page" "n_cursor page \<le> max after ?high"
    "n_items page = filter (event_visible w actor) (between w actor after (n_cursor page))"
    "n_more page \<longleftrightarrow> n_cursor page < ?high" "after < ?high \<Longrightarrow> after < n_cursor page"
    by (auto simp: page)
qed

text \<open>A reader that follows the cursor, page after page.\<close>

fun follow_events ::
  "nat \<Rightarrow> world \<Rightarrow> principal \<Rightarrow> int \<Rightarrow> int \<Rightarrow> (event_row list \<times> bool) option" where
  "follow_events 0 w actor limit after = Some ([], True)"
| "follow_events (Suc n) w actor limit after =
     (case event_page w actor after limit False of
        Inl _ \<Rightarrow> None
      | Inr page \<Rightarrow>
          if \<not> n_more page then Some (n_items page, False)
          else map_option (\<lambda>(rest, more). (n_items page @ rest, more))
                 (follow_events n w actor limit (n_cursor page)))"

lemma follow_events_all:
  assumes "events_ok w" and "1 \<le> limit" and "limit \<le> 1000" and "0 \<le> after"
    and "nat (high_sequence w actor - after) < n"
  shows "follow_events n w actor limit after =
    Some (filter (event_visible w actor) (between w actor after (max after (high_sequence w actor))), False)"
  using assms(4,5)
proof (induction n arbitrary: after)
  case (Suc n)
  let ?high = "high_sequence w actor"
  obtain page where page: "event_page w actor after limit False = Inr page"
    using assms(2,3) Suc.prems(1)
    by (cases "event_loop (event_rows w actor False ?high after) (event_visible w actor)
        (max after ?high) (nat limit) (after, [], 0)") (auto simp: event_page_def Let_def)
  note p = forward_page [OF page assms(1)]
  show ?case
  proof (cases "n_more page")
    case True
    then have less: "n_cursor page < ?high" "after < n_cursor page" using p by auto
    have "between w actor after ?high =
        between w actor after (n_cursor page) @ between w actor (n_cursor page) ?high"
      by (rule between_split [OF assms(1)]) (use less in simp_all)
    moreover have "follow_events n w actor limit (n_cursor page) =
        Some (filter (event_visible w actor) (between w actor (n_cursor page) (max (n_cursor page) ?high)), False)"
      using Suc.IH [of "n_cursor page"] Suc.prems less by simp
    ultimately show ?thesis using True p(3) less by (simp add: page max_def)
  next
    case False
    then have "n_cursor page = max after ?high" using p by auto
    then show ?thesis using False p(3) by (simp add: page)
  qed
qed simp

section \<open>Properties\<close>

text \<open>C9. The complete read is the specification of a page: following the pages to the end returns, for
  any page size, exactly the rows of the query the reader may see, each once and in the order of
  their ids; it ends, as long as no record has the empty id.\<close>

theorem list_records_complete:
  assumes "records_ok w" and "\<forall>r \<in> set (records w). r_id r \<noteq> []"
    and "page_query w k actor experiment_id = Inr (Some q)"
  shows "list_records w k actor experiment_id limit =
    Some (Inr (map r_payload (filter (in_scope w actor) (sort_key r_id (filter q (records w))))))"
proof -
  have "later_rows None q = q" by (auto simp: later_rows_def fun_eq_iff)
  then show ?thesis
    using assms read_pages_all [of w "in_scope w actor" q limit None]
    by (simp add: list_records_def records_ok_def query_rows_def select_sorted_def)
qed

lemma sample_ids: "\<forall>r \<in> set (records sample). r_id r \<noteq> []"
proof -
  have "list_all (\<lambda>r. r_id r \<noteq> []) (records sample)" by code_simp
  then show ?thesis by (simp add: list_all_iff)
qed

theorem list_records_complete_witness:
  "list_records sample Branch sample_operator (Some ''e'') 1 =
    Some (Inr [r_payload (sample_branch ''b1''), r_payload (sample_branch ''b2'')])"
proof -
  have ok: "records_ok sample" by code_simp
  have "\<not> isl (get_row sample Experiment (JStr ''e'') sample_operator)" by code_simp
  then obtain x where "get_row sample Experiment (JStr ''e'') sample_operator = Inr x"
    by (cases "get_row sample Experiment (JStr ''e'') sample_operator") auto
  then have q: "page_query sample Branch sample_operator (Some ''e'') =
      Inr (Some (kind_rows sample_operator Branch (Some ''e'')))"
    by (simp add: page_query_def sample_operator_def)
  have "map r_payload (filter (in_scope sample sample_operator)
      (sort_key r_id (filter (kind_rows sample_operator Branch (Some ''e'')) (records sample)))) =
    [r_payload (sample_branch ''b1''), r_payload (sample_branch ''b2'')]"
    by code_simp
  then show ?thesis using list_records_complete [OF ok sample_ids q] by simp
qed

text \<open>C4. Every event is delivered: a reader that starts anywhere and follows the forward cursor
  reaches the end of the log after finitely many pages, at most one per event number ahead of it, and
  has by then read every event it may see, each once and in order, whatever the page size.\<close>

theorem events_are_delivered:
  assumes "events_ok w" and "1 \<le> limit" and "limit \<le> 1000" and "0 \<le> after"
  shows "\<exists>n \<le> nat (high_sequence w actor - after) + 1. \<exists>read.
    follow_events n w actor limit after = Some (read, False) \<and>
    sorted_wrt (\<lambda>x y. e_sequence x < e_sequence y) read \<and>
    set read = {e \<in> set (events w). e_project e = pr_project actor \<and> after < e_sequence e \<and>
      event_visible w actor e}"
proof -
  let ?high = "high_sequence w actor"
  let ?read = "filter (event_visible w actor) (between w actor after (max after ?high))"
  have "follow_events (nat (?high - after) + 1) w actor limit after = Some (?read, False)"
    by (rule follow_events_all [OF assms]) simp
  moreover have "sorted_wrt (\<lambda>x y. e_sequence x < e_sequence y) ?read"
    by (rule sorted_wrt_filter) (rule between_strict [OF assms(1)])
  moreover have "set ?read = {e \<in> set (events w). e_project e = pr_project actor \<and> after < e_sequence e \<and>
      event_visible w actor e}"
    using high_sequence_bound [of _ w actor] by (fastforce simp: set_between project_events_def)
  ultimately show ?thesis by blast
qed

definition sample_told :: world where
  "sample_told = emit sample_operator ''o2'' ''task.queued'' ''k'' [] False
     (emit sample_operator ''o1'' ''branch.created'' ''b1'' [] False sample)"

theorem events_are_delivered_witness:
  "\<exists>n read. follow_events n sample_told sample_operator 1 0 = Some (read, False) \<and>
    map e_sequence read = [1, 2]"
proof -
  have ok: "events_ok sample_told"
    by (simp add: events_ok_def sample_told_def emit_def sample_def)
  obtain n read where n: "follow_events n sample_told sample_operator 1 0 = Some (read, False)"
      "sorted_wrt (\<lambda>x y. e_sequence x < e_sequence y) read"
      "set read = {e \<in> set (events sample_told). e_project e = pr_project sample_operator \<and>
        0 < e_sequence e \<and> event_visible sample_told sample_operator e}"
    using events_are_delivered [OF ok, of 1 0 sample_operator] by auto
  have "set (events sample_told) = {e \<in> set (events sample_told).
      e_project e = pr_project sample_operator \<and> 0 < e_sequence e \<and>
      event_visible sample_told sample_operator e}"
    by (auto simp: sample_told_def emit_def sample_def event_visible_def sample_operator_def)
  then have "set read = set (events sample_told)" using n(3) by simp
  then have "e_sequence ` set read = {1, 2}"
    by (simp add: sample_told_def emit_def sample_def)
  moreover have "sorted_wrt (<) (map e_sequence read)" using n(2) by (simp add: sorted_wrt_map)
  ultimately have "map e_sequence read = [1, 2]"
    by (intro strict_sorted_equal) simp_all
  with n(1) show ?thesis by (intro exI conjI)
qed

end
