(* ===== verification/Artifacts.thy ===== *)
theory Artifacts
  imports Store
begin

text \<open>
  The content-addressed artifact store (\<open>artifacts.py\<close>): the local one over a directory and the S3 one
  over a client, whose two calls are parameters. SHA-256 is the parameter \<open>sha\<close>; bytes are texts. Both
  stores are instances of one contract: putting adds the content under its digest, getting returns
  content whose digest was checked. Row writers put through \<open>put_artifact\<close>, the local store seen from
  the world.
\<close>

section \<open>Digests\<close>

definition valid_digest :: "string \<Rightarrow> bool" where
  "valid_digest d \<longleftrightarrow> length d = 64 \<and> list_all (\<lambda>c. c \<in> set ''0123456789abcdef'') d"

definition validate_digest :: "string \<Rightarrow> herr + unit" where
  "validate_digest d = ensure (valid_digest d) (fail ''INVALID_DIGEST'' 422)"

definition checked_bytes :: "(string \<Rightarrow> string) \<Rightarrow> string \<Rightarrow> string \<Rightarrow> herr + string" where
  "checked_bytes sha d content =
     (if sha content \<noteq> d then Inl (fail ''ARTIFACT_INTEGRITY_ERROR'' 500) else Inr content)"

lemma checked_bytes_Inr_iff [result_simps]:
  "checked_bytes sha d content = Inr c \<longleftrightarrow> c = content \<and> sha content = d"
  by (auto simp: checked_bytes_def)

section \<open>The local store\<close>

text \<open>The files under the root by their digest, and the digests whose path is a symlink.\<close>

record local_store =
  ls_files :: "string \<Rightarrow> string option"
  ls_links :: "string list"

definition path_for :: "string \<Rightarrow> local_store \<Rightarrow> herr + unit" where
  "path_for d s =
     bindE (validate_digest d) (\<lambda>_.
     if d \<in> set (ls_links s) then Inl (fail ''ARTIFACT_PATH_UNSAFE'' 500) else Inr ())"

definition local_get :: "(string \<Rightarrow> string) \<Rightarrow> string \<Rightarrow> local_store \<Rightarrow> herr + string" where
  "local_get sha d s =
     bindE (path_for d s) (\<lambda>_.
     case ls_files s d of
       None \<Rightarrow> Inl (fail ''ARTIFACT_NOT_FOUND'' 404)
     | Some content \<Rightarrow> checked_bytes sha d content)"

text \<open>
  \<open>put\<close>, with what another uploader may have linked to the same path while the bytes were written:
  existing content is never overwritten, only checked.
\<close>

definition local_put ::
  "(string \<Rightarrow> string) \<Rightarrow> string option \<Rightarrow> string \<Rightarrow> local_store \<Rightarrow> herr + (string \<times> local_store)"
where
  "local_put sha meanwhile content s =
     (let d = sha content
      in bindE (path_for d s) (\<lambda>_.
         if ls_files s d \<noteq> None then bindE (local_get sha d s) (\<lambda>_. Inr (d, s))
         else
           case meanwhile of
             None \<Rightarrow> Inr (d, s\<lparr>ls_files := (ls_files s)(d \<mapsto> content)\<rparr>)
           | Some other \<Rightarrow>
               let s1 = s\<lparr>ls_files := (ls_files s)(d \<mapsto> other)\<rparr>
               in bindE (local_get sha d s1) (\<lambda>_. Inr (d, s1))))"

section \<open>The S3 store\<close>

text \<open>
  The client's answers: \<open>put_object\<close> fails with an HTTP status or changes the bucket, \<open>get_object\<close>
  yields a body or fails.
\<close>

record 'c s3_client =
  put_object :: "string \<Rightarrow> string \<Rightarrow> 'c \<Rightarrow> int + 'c"
  get_object :: "string \<Rightarrow> 'c \<Rightarrow> string option"

definition s3_key :: "string \<Rightarrow> string \<Rightarrow> herr + string" where
  "s3_key prefix d =
     bindE (validate_digest d) (\<lambda>_. Inr (prefix @ ''/'' @ take 2 d @ ''/'' @ d))"

definition s3_get ::
  "(string \<Rightarrow> string) \<Rightarrow> 'c s3_client \<Rightarrow> string \<Rightarrow> string \<Rightarrow> 'c \<Rightarrow> herr + string" where
  "s3_get sha client prefix d bucket =
     bindE (s3_key prefix d) (\<lambda>key.
     case get_object client key bucket of
       None \<Rightarrow> Inl (Harness ''STORAGE_READ_FAILED'' 503 True)
     | Some body \<Rightarrow> checked_bytes sha d body)"

definition s3_put ::
  "(string \<Rightarrow> string) \<Rightarrow> 'c s3_client \<Rightarrow> string \<Rightarrow> string \<Rightarrow> 'c \<Rightarrow> herr + (string \<times> 'c)" where
  "s3_put sha client prefix content bucket =
     (let d = sha content
      in bindE (s3_key prefix d) (\<lambda>key.
         case put_object client key content bucket of
           Inr bucket' \<Rightarrow> Inr (d, bucket')
         | Inl http \<Rightarrow>
             if http \<noteq> 412 then Inl (Harness ''STORAGE_WRITE_FAILED'' 503 True)
             else bindE (s3_get sha client prefix d bucket) (\<lambda>_. Inr (d, bucket))))"

section \<open>The contract\<close>

text \<open>
  What the service relies on: \<open>held\<close> is the set of contents a store holds. A content is added under
  its digest unless another one has the same digest, nothing held is lost, and what is read back has
  the digest asked for.
\<close>

definition unmistaken :: "(string \<Rightarrow> string) \<Rightarrow> string \<Rightarrow> bool" where
  "unmistaken sha content \<longleftrightarrow> (\<forall>other. sha other = sha content \<longrightarrow> other = content)"

locale content_store =
  fixes sha :: "string \<Rightarrow> string"
    and put :: "string \<Rightarrow> 's \<Rightarrow> herr + (string \<times> 's)"
    and get :: "string \<Rightarrow> 's \<Rightarrow> herr + string"
    and held :: "'s \<Rightarrow> string set"
  assumes put_held: "put c s = Inr (d, s') \<Longrightarrow> unmistaken sha c \<Longrightarrow>
      d = sha c \<and> held s' = insert c (held s)"
    and get_held: "get d s = Inr c \<Longrightarrow> c \<in> held s \<and> sha c = d"
    and held_get: "c \<in> held s \<Longrightarrow> get (sha c) s = Inr c"
begin

text \<open>Storing one content after the other; the result is their digests.\<close>

definition put_all :: "string list \<Rightarrow> 's \<Rightarrow> herr + (string list \<times> 's)" where
  "put_all cs s = foldE (\<lambda>c (ds, t). bindE (put c t) (\<lambda>(d, t'). Inr (ds @ [d], t'))) cs ([], s)"

lemma put_fold_held:
  assumes "foldE (\<lambda>c (ds, t). bindE (put c t) (\<lambda>(d, t'). Inr (ds @ [d], t'))) cs (ds0, s)
      = Inr (ds, s')"
    and "\<forall>c \<in> set cs. unmistaken sha c"
  shows "ds = ds0 @ map sha cs \<and> held s' = set cs \<union> held s"
  using assms
proof (induction cs arbitrary: ds0 s)
  case (Cons c cs)
  from Cons.prems(1) obtain d t where p: "put c s = Inr (d, t)" and rest:
      "foldE (\<lambda>c (ds, t). bindE (put c t) (\<lambda>(d, t'). Inr (ds @ [d], t'))) cs (ds0 @ [d], t)
        = Inr (ds, s')"
    by (auto simp: bindE_Inr_iff)
  have "d = sha c" "held t = insert c (held s)" using put_held [OF p] Cons.prems(2) by auto
  then show ?case using Cons.IH [OF rest] Cons.prems(2) by auto
qed simp

lemma put_all_held:
  "put_all cs s = Inr (ds, s') \<Longrightarrow> \<forall>c \<in> set cs. unmistaken sha c \<Longrightarrow>
     ds = map sha cs \<and> held s' = set cs \<union> held s"
  unfolding put_all_def by (frule put_fold_held) auto

lemma put_all_readable:
  "put_all cs s = Inr (ds, s') \<Longrightarrow> \<forall>c \<in> set cs. unmistaken sha c \<Longrightarrow> c \<in> set cs \<union> held s \<Longrightarrow>
     get (sha c) s' = Inr c"
  using held_get put_all_held by blast

end

text \<open>The local store keeps the contract, whoever uploads at the same time.\<close>

definition local_held :: "(string \<Rightarrow> string) \<Rightarrow> local_store \<Rightarrow> string set" where
  "local_held sha s =
     {c. ls_files s (sha c) = Some c \<and> valid_digest (sha c) \<and> sha c \<notin> set (ls_links s)}"

lemma path_for_Inr_iff [result_simps]:
  "path_for d s = Inr u \<longleftrightarrow> valid_digest d \<and> d \<notin> set (ls_links s)"
  by (auto simp: path_for_def validate_digest_def result_simps)

lemma local_get_Inr_iff [result_simps]:
  "local_get sha d s = Inr c \<longleftrightarrow>
     valid_digest d \<and> d \<notin> set (ls_links s) \<and> ls_files s d = Some c \<and> sha c = d"
  by (auto simp: local_get_def result_simps split: option.splits)

lemma local_put_held:
  assumes "local_put sha meanwhile c s = Inr (d, s')" and "unmistaken sha c"
  shows "d = sha c" "local_held sha s' = insert c (local_held sha s)"
proof -
  have other: "sha x \<noteq> sha c" if "x \<noteq> c" for x
    using assms(2) that by (auto simp: unmistaken_def)
  have same: "x = c" if "sha x = sha c" for x
    using other that by blast
  have path: "valid_digest (sha c)" "sha c \<notin> set (ls_links s)"
    using assms(1) by (auto simp: local_put_def Let_def result_simps)
  have s': "s' = s \<and> ls_files s (sha c) = Some c \<or> s' = s\<lparr>ls_files := (ls_files s)(sha c \<mapsto> c)\<rparr>"
    using assms(1)
    by (auto simp: local_put_def Let_def result_simps dest: same split: if_splits option.splits)
  show "d = sha c"
    using assms(1) by (auto simp: local_put_def Let_def result_simps split: if_splits option.splits)
  show "local_held sha s' = insert c (local_held sha s)"
    using s' path other by (auto simp: local_held_def dest: same)
qed

interpretation local_objects: content_store sha "local_put sha meanwhile" "local_get sha" "local_held sha"
  for sha meanwhile
  by unfold_locales (use local_put_held in \<open>auto simp: result_simps local_held_def\<close>)

text \<open>
  The S3 store keeps it over a client as documented: a conditional write (\<open>IfNoneMatch="*"\<close>) stores
  under a key that is free and answers 412, changing nothing, under one that is not; a read returns
  what is stored.
\<close>

definition conditional_writes :: "'c s3_client \<Rightarrow> bool" where
  "conditional_writes client \<longleftrightarrow>
     (\<forall>key content b b'. put_object client key content b = Inr b' \<longrightarrow>
        get_object client key b = None \<and>
        (\<forall>k. get_object client k b' = (if k = key then Some content else get_object client k b)))"

definition s3_held :: "(string \<Rightarrow> string) \<Rightarrow> 'c s3_client \<Rightarrow> string \<Rightarrow> 'c \<Rightarrow> string set" where
  "s3_held sha client prefix b = {c. s3_get sha client prefix (sha c) b = Inr c}"

lemma s3_key_Inr_iff [result_simps]:
  "s3_key prefix d = Inr k \<longleftrightarrow> valid_digest d \<and> k = prefix @ ''/'' @ take 2 d @ ''/'' @ d"
  by (auto simp: s3_key_def validate_digest_def result_simps)

lemma s3_get_Inr_iff [result_simps]:
  "s3_get sha client prefix d b = Inr c \<longleftrightarrow>
     valid_digest d \<and> sha c = d \<and>
     get_object client (prefix @ ''/'' @ take 2 d @ ''/'' @ d) b = Some c"
  by (auto simp: s3_get_def result_simps split: option.splits)

lemma s3_put_held:
  assumes "s3_put sha client prefix c b = Inr (d, b')" and "unmistaken sha c"
    and "conditional_writes client"
  shows "d = sha c" "s3_held sha client prefix b' = insert c (s3_held sha client prefix b)"
proof -
  have other: "sha x \<noteq> sha c" if "x \<noteq> c" for x
    using assms(2) that by (auto simp: unmistaken_def)
  have same: "x = c" if "sha x = sha c" for x
    using other that by blast
  let ?k = "prefix @ ''/'' @ take 2 (sha c) @ ''/'' @ sha c"
  have valid: "valid_digest (sha c)"
    using assms(1) by (auto simp: s3_put_def Let_def result_simps)
  then have len: "length (sha c) = 64" by (simp add: valid_digest_def)
  have key: "prefix @ ''/'' @ take 2 x @ ''/'' @ x \<noteq> ?k" if "x \<noteq> sha c" "valid_digest x" for x
    using that len by (auto simp: valid_digest_def)
  have b': "b' = b \<and> s3_get sha client prefix (sha c) b = Inr c \<or> put_object client ?k c b = Inr b'"
    using assms(1)
    by (auto simp: s3_put_def Let_def bindE_Inr_iff s3_key_Inr_iff s3_get_Inr_iff
        dest!: same split: sum.splits if_splits)
  show "d = sha c"
    using assms(1) by (auto simp: s3_put_def Let_def result_simps split: if_splits sum.splits)
  show "s3_held sha client prefix b' = insert c (s3_held sha client prefix b)"
    using b'
  proof
    assume "put_object client ?k c b = Inr b'"
    then have get: "get_object client k b' = (if k = ?k then Some c else get_object client k b)" for k
      using assms(3) by (auto simp: conditional_writes_def)
    have "s3_get sha client prefix (sha x) b' = Inr x \<longleftrightarrow>
        x = c \<or> s3_get sha client prefix (sha x) b = Inr x" for x
    proof (cases "x = c")
      case False
      then show ?thesis using key [of "sha x"] other by (auto simp: s3_get_Inr_iff get)
    qed (simp add: s3_get_Inr_iff get valid)
    then show ?thesis by (auto simp: s3_held_def)
  qed (auto simp: s3_held_def)
qed

section \<open>The store seen from the world\<close>

text \<open>\<open>len(content.encode())\<close>: characters are the code points up to 255, two bytes each from 128 on.\<close>

definition utf8_size :: "string \<Rightarrow> int" where
  "utf8_size s = int (length s + length (filter (\<lambda>c. 128 \<le> (of_char c :: nat)) s))"

text \<open>
  \<open>self.artifacts.put(content)\<close> on the local store, whose reads are \<open>artifact_text\<close>. Bytes are not part
  of the transaction: a command that fails later leaves them behind unreferenced, which the model,
  where an error leaves the world as it was, does not show.
\<close>

definition put_artifact :: "string \<Rightarrow> world \<Rightarrow> herr + (string \<times> world)" where
  "put_artifact content w =
     (let d = sha256_of w content
      in case artifact_text w d of
           Inr _ \<Rightarrow> Inr (d, w)
         | Inl e \<Rightarrow>
             if e = fail ''ARTIFACT_NOT_FOUND'' 404
             then Inr (d, w\<lparr>artifact_text := (artifact_text w)(d := Inr content)\<rparr>)
             else Inl e)"

lemma put_artifact_frame:
  assumes "put_artifact content w = Inr (d, w')"
  shows "records w' = records w" "events w' = events w" "outbox w' = outbox w"
    "commands w' = commands w" "budgets w' = budgets w" "reservations w' = reservations w"
    "leases w' = leases w" "edges w' = edges w" "now w' = now w" "effects w' = effects w"
    "digest_of w' = digest_of w" "sha256_of w' = sha256_of w" "d = sha256_of w content"
    "uuids w' = uuids w" "uuids_used w' = uuids_used w"
  using assms by (auto simp: put_artifact_def Let_def split: sum.splits if_splits)

section \<open>Properties\<close>

text \<open>C27. The local store refines a set of contents: whatever is uploaded, one content after the other
  and whoever uploads at the same time, each upload adds its content to the set and nothing else, the
  digests are those of the contents, and every content of the set reads back unchanged under its
  digest, as far as no other text has that digest.\<close>

theorem local_store_refines_set:
  assumes "foldE (\<lambda>c (ds, t). bindE (local_put sha meanwhile c t) (\<lambda>(d, t'). Inr (ds @ [d], t'))) cs
      ([], s) = Inr (ds, s')"
    and "\<forall>c \<in> set cs. unmistaken sha c"
  shows "ds = map sha cs \<and> local_held sha s' = set cs \<union> local_held sha s \<and>
    (\<forall>c \<in> local_held sha s'. local_get sha (sha c) s' = Inr c) \<and>
    (\<forall>d c. local_get sha d s' = Inr c \<longrightarrow> c \<in> local_held sha s' \<and> sha c = d)"
  using local_objects.put_fold_held [OF assms] local_objects.held_get local_objects.get_held by auto

definition sample_sha :: "string \<Rightarrow> string" where
  "sample_sha s = replicate 64 (if s = ''x'' then CHR ''a'' else CHR ''b'')"

definition empty_store :: local_store where
  "empty_store = \<lparr>ls_files = (\<lambda>_. None), ls_links = []\<rparr>"

theorem local_store_refines_set_witness:
  "\<exists>ds s'. foldE (\<lambda>c (ds, t). bindE (local_put sample_sha (Some ''x'') c t) (\<lambda>(d, t'). Inr (ds @ [d], t')))
      [''x'', ''x''] ([], empty_store) = Inr (ds, s') \<and> local_held sample_sha s' = {''x''}"
proof -
  have "\<not> isl (foldE (\<lambda>c (ds, t). bindE (local_put sample_sha (Some ''x'') c t)
      (\<lambda>(d, t'). Inr (ds @ [d], t'))) [''x'', ''x''] ([], empty_store))"
    by code_simp
  then obtain ds s' where run: "foldE (\<lambda>c (ds, t). bindE (local_put sample_sha (Some ''x'') c t)
      (\<lambda>(d, t'). Inr (ds @ [d], t'))) [''x'', ''x''] ([], empty_store) = Inr (ds, s')"
    by (rule succeedsE)
  have "\<forall>c \<in> set [''x'', ''x'']. unmistaken sample_sha c"
    by (auto simp: unmistaken_def sample_sha_def)
  moreover have "local_held sample_sha empty_store = {}"
    by (simp add: local_held_def empty_store_def)
  ultimately show ?thesis using local_store_refines_set [OF run] run by auto
qed

end
