(* ===== verification/Messages.thy ===== *)
theory Messages
  imports Tasks Reading Artifacts
begin

text \<open>
  Messages between branches (\<open>collaboration.py\<close>): direct messages under ideas sharing, society messages
  to a branch or to whoever works on a node, under a budget per minute, the delivery status a sender
  may see, the availability of peers, and checkpoints of a branch.
\<close>

section \<open>Sending\<close>

definition message_text :: "string \<Rightarrow> herr + unit" where
  "message_text content =
     (if strip content = [] \<or> 20000 < length content then Inl (fail ''INVALID_MESSAGE'' 422)
      else Inr ())"

definition recipient_branch :: "world \<Rightarrow> principal \<Rightarrow> string \<Rightarrow> herr + row" where
  "recipient_branch w actor recipient_id =
     (case find_row w recipient_id of
        None \<Rightarrow> Inl (fail ''NOT_FOUND'' 404)
      | Some r \<Rightarrow>
          if r_kind r \<noteq> Branch \<or> r_project r \<noteq> pr_project actor
          then Inl (fail ''NOT_FOUND'' 404) else Inr r)"

definition message_data ::
  "json \<Rightarrow> row \<Rightarrow> string \<Rightarrow> principal \<Rightarrow> string \<Rightarrow> string list \<Rightarrow> dict" where
  "message_data experiment_id sender recipient_id actor content artifact_ids =
     [(''experiment_id'', experiment_id), (''sender_branch_id'', JStr (r_id sender)),
      (''branch_id'', JStr (r_id sender)), (''recipient_branch_id'', JStr recipient_id),
      (''attributed_to'', JStr (pr_id actor)), (''content'', JStr content),
      (''artifact_ids'', strings artifact_ids), (''evidence_status'', JStr ''attributed_idea'')]"

definition deliver_message ::
  "string \<Rightarrow> principal \<Rightarrow> row \<Rightarrow> string \<Rightarrow> string \<Rightarrow> string list \<Rightarrow> dict \<Rightarrow> world \<Rightarrow>
   herr + (dict \<times> world)"
where
  "deliver_message op actor sender recipient_id content artifact_ids extra w =
     bindE (recipient_branch w actor recipient_id) (\<lambda>recipient.
     bindE (need sender ''experiment_id'') (\<lambda>experiment_id.
     bindE (need recipient ''experiment_id'') (\<lambda>e.
     if e \<noteq> experiment_id then Inl (fail ''MAILBOX_SCOPE'' 409)
     else bindE (guard_referee_recipient sender recipient) (\<lambda>_.
     bindE (visible_artifacts w (map JStr artifact_ids) experiment_id (JStr recipient_id) actor True)
       (\<lambda>_.
     bindE (insert_row w Message actor
       (dmerge (message_data experiment_id sender recipient_id actor content artifact_ids) extra) None)
       (\<lambda>(made, w1).
     Inr (made, emit actor op ''message.created'' recipient_id
       [(''message_id'', dget made ''id'')] False w1)))))))"

definition send_message_action ::
  "string \<Rightarrow> string \<Rightarrow> string \<Rightarrow> string list \<Rightarrow> principal \<Rightarrow> action" where
  "send_message_action branch_id recipient_id content artifact_ids actor op w =
     bindE (writable_branch w (JStr branch_id) actor False) (\<lambda>sender.
     bindE (need sender ''experiment_id'') (\<lambda>e.
     bindE (get_row w Experiment e actor) (\<lambda>experiment.
     if branch_id \<noteq> recipient_id \<and>
        dget_or (r_payload experiment) ''sharing'' (JStr ''none'') \<noteq> JStr ''ideas''
     then Inl (fail ''SHARING_POLICY'' 403)
     else deliver_message op actor sender recipient_id content artifact_ids [] w)))"

definition send_message ::
  "int \<Rightarrow> string \<Rightarrow> string \<Rightarrow> string \<Rightarrow> string list \<Rightarrow> principal \<Rightarrow> string \<Rightarrow> world \<Rightarrow>
   herr + (dict \<times> world)"
where
  "send_message elapsed branch_id recipient_id content artifact_ids actor key w =
     bindE (research_role actor) (\<lambda>_.
     bindE (message_text content) (\<lambda>_.
     execute elapsed actor key ''message.send''
       (JObj [(''branch_id'', JStr branch_id), (''recipient_id'', JStr recipient_id),
              (''content'', JStr content), (''artifact_ids'', strings artifact_ids)])
       (send_message_action branch_id recipient_id content artifact_ids actor) w))"

section \<open>Society messages\<close>

definition max_node_recipients :: nat where "max_node_recipients = 8"

text \<open>The loop over a node's author and claimants; the state is the recipients found so far.\<close>

fun pick_workers :: "world \<Rightarrow> string \<Rightarrow> json list \<Rightarrow> string list \<Rightarrow> string list" where
  "pick_workers w sender_id [] found = found"
| "pick_workers w sender_id (b # bs) found =
     (case b of
        JStr i \<Rightarrow>
          if i = sender_id \<or> i \<in> set found then pick_workers w sender_id bs found
          else (case find_row w i of
             None \<Rightarrow> pick_workers w sender_id bs found
           | Some branch \<Rightarrow>
               if field branch ''hat'' = referee_hat then pick_workers w sender_id bs found
               else if Suc (length found) = max_node_recipients then found @ [i]
               else pick_workers w sender_id bs (found @ [i]))
      | _ \<Rightarrow> pick_workers w sender_id bs found)"

definition node_workers :: "world \<Rightarrow> row \<Rightarrow> string \<Rightarrow> herr + string list" where
  "node_workers w node sender_id =
     bindE (active_claims w (JStr (r_id node)) (now w)) (\<lambda>claims.
     Inr (pick_workers w sender_id
       (field node ''branch_id'' # map (\<lambda>c. dget c ''branch_id'') claims) []))"

text \<open>The messages of a sender in the last minute.\<close>

definition recent_message :: "row \<Rightarrow> string \<Rightarrow> int \<Rightarrow> row \<Rightarrow> bool" where
  "recent_message experiment sender_id t r \<longleftrightarrow>
     r_project r = r_project experiment \<and> r_kind r = Message \<and>
     field r ''experiment_id'' = JStr (r_id experiment) \<and>
     field r ''sender_branch_id'' = JStr sender_id \<and>
     (case field r ''created_at'' of JTime c \<Rightarrow> t - micros 60 \<le> c | _ \<Rightarrow> False)"

definition message_limit :: "row \<Rightarrow> int" where
  "message_limit experiment =
     as_int (dget_or (as_dict (field experiment ''society'')) ''messages_per_minute'' (JInt 12))"

definition message_budget :: "world \<Rightarrow> row \<Rightarrow> string \<Rightarrow> nat \<Rightarrow> herr + unit" where
  "message_budget w experiment sender_id n =
     (if message_limit experiment <
         int (count_rows (recent_message experiment sender_id (now w)) w) + int n
      then Inl (Harness ''MESSAGE_RATE_LIMIT'' 429 True) else Inr ())"

text \<open>Whom a society message goes to: the node it names, if any, and the branches.\<close>

definition society_recipients ::
  "world \<Rightarrow> principal \<Rightarrow> row \<Rightarrow> row \<Rightarrow> string \<Rightarrow> herr + (string option \<times> string list)" where
  "society_recipients w actor experiment sender target_id =
     (case find_row w target_id of
        Some target \<Rightarrow>
          if r_kind target = CommonsNode \<and> r_project target = pr_project actor \<and>
             field target ''experiment_id'' = JStr (r_id experiment)
          then bindE (node_workers w target (r_id sender)) (\<lambda>found.
            if found = [] then Inl (fail ''NO_RECIPIENTS'' 409)
            else Inr (Some (r_id target), found))
          else Inr (None, [target_id])
      | None \<Rightarrow> Inr (None, [target_id]))"

definition deliver_one ::
  "string \<Rightarrow> principal \<Rightarrow> row \<Rightarrow> string \<Rightarrow> string list \<Rightarrow> string option \<Rightarrow> string \<Rightarrow> string \<Rightarrow>
   json list \<times> world \<Rightarrow> herr + (json list \<times> world)"
where
  "deliver_one op actor sender content artifact_ids node_id key recipient st =
     bindE (deliver_message op actor sender recipient content artifact_ids
       (case node_id of None \<Rightarrow> []
        | Some n \<Rightarrow> [(''node_id'', JStr n), (''delivery_key'', JStr (key @ '':'' @ recipient))])
       (snd st)) (\<lambda>(made, w1). Inr (fst st @ [dget made ''id''], w1))"

definition society_send_action ::
  "string \<Rightarrow> string \<Rightarrow> string \<Rightarrow> string list \<Rightarrow> principal \<Rightarrow> string \<Rightarrow> action" where
  "society_send_action branch_id target_id content artifact_ids actor key op w =
     bindE (writable_branch w (JStr branch_id) actor False) (\<lambda>sender.
     bindE (need sender ''experiment_id'') (\<lambda>e.
     bindE (commons_experiment w e actor True) (\<lambda>experiment.
     bindE (society_recipients w actor experiment sender target_id) (\<lambda>(node_id, recipients).
     bindE (message_budget w experiment (r_id sender) (length recipients)) (\<lambda>_.
     bindE (foldE (deliver_one op actor sender content artifact_ids node_id key) recipients ([], w))
       (\<lambda>(ids, w1).
     Inr ([(''to'', JStr target_id), (''node_id'', jopt node_id), (''message_ids'', JList ids),
           (''recipients'', strings recipients)], w1)))))))"

definition send_society_message ::
  "int \<Rightarrow> string \<Rightarrow> string \<Rightarrow> string \<Rightarrow> string list \<Rightarrow> principal \<Rightarrow> string \<Rightarrow> world \<Rightarrow>
   herr + (dict \<times> world)"
where
  "send_society_message elapsed branch_id target_id content artifact_ids actor key w =
     bindE (research_role actor) (\<lambda>_.
     bindE (message_text content) (\<lambda>_.
     execute elapsed actor key ''message.society-send''
       (JObj [(''branch_id'', JStr branch_id), (''to'', JStr target_id),
              (''content'', JStr content), (''artifact_ids'', strings artifact_ids)])
       (society_send_action branch_id target_id content artifact_ids actor key) w))"

section \<open>Availability of branches\<close>

datatype availability = Active | Queued | Waiting | Terminal

fun availability_name :: "availability \<Rightarrow> string" where
  "availability_name Active = ''active''"
| "availability_name Queued = ''queued''"
| "availability_name Waiting = ''waiting''"
| "availability_name Terminal = ''terminal''"

definition task_availability :: "world \<Rightarrow> row \<Rightarrow> availability" where
  "task_availability w r =
     (let ready = as_dict (jor (field r ''ready_continuation'') (JObj []))
      in if field r ''status'' = JStr ''running'' \<and>
            (case find_lease w (r_id r) of None \<Rightarrow> False | Some l \<Rightarrow> now w < l_expires l)
         then Active
         else if truthy (dget ready ''peer_wait'') \<or> truthy (dget ready ''wait_task_ids'')
         then Waiting else Queued)"

definition branch_availability ::
  "world \<Rightarrow> json \<Rightarrow> json \<Rightarrow> principal \<Rightarrow> availability" where
  "branch_availability w experiment_id branch_id actor =
     (let rows = take 100 (select_sorted (\<lambda>r. r_project r = pr_project actor \<and> r_kind r = Task \<and>
            field r ''experiment_id'' = experiment_id \<and> field r ''branch_id'' = branch_id \<and>
            in_strings (field r ''status'') [''queued'', ''running'']) w);
          states = map (task_availability w) rows
      in case find (\<lambda>s. s \<in> set states) [Active, Queued, Waiting] of
           None \<Rightarrow> Terminal | Some s \<Rightarrow> s)"

section \<open>Directories\<close>

text \<open>
  The paging loop of \<open>peer_availability\<close> and \<open>component_directory\<close>: batches of 100 rows after a cursor,
  skipping some, until the page is full and a further row is seen (\<open>more\<close>) or a batch is short. One
  batch first; the state is the items, the cursor and whether a further row was seen.
\<close>

fun scan_directory ::
  "(row \<Rightarrow> bool) \<Rightarrow> nat \<Rightarrow> row list \<Rightarrow> row list \<times> string option \<times> bool \<Rightarrow>
   row list \<times> string option \<times> bool"
where
  "scan_directory skip limit [] st = st"
| "scan_directory skip limit (r # rs) (items, cursor, beyond) =
     (if limit \<le> length items then (items, cursor, True)
      else scan_directory skip limit rs
        (if skip r then items else items @ [r], Some (r_id r), beyond))"

partial_function (option) page_directory ::
  "(row \<Rightarrow> bool) \<Rightarrow> (row \<Rightarrow> bool) \<Rightarrow> nat \<Rightarrow> world \<Rightarrow> row list \<Rightarrow> string option \<Rightarrow>
   (row list \<times> string option \<times> bool) option"
where
  "page_directory skip q limit w items cursor =
     (let rows = take 100 (select_sorted (later_rows cursor q) w);
          st = scan_directory skip limit rows (items, cursor, False)
      in if snd (snd st) \<or> length rows < 100 then Some st
         else page_directory skip q limit w (fst st) (fst (snd st)))"

definition peer_row :: "principal \<Rightarrow> string \<Rightarrow> row \<Rightarrow> bool" where
  "peer_row actor experiment_id r \<longleftrightarrow>
     r_project r = pr_project actor \<and> r_kind r = Branch \<and>
     field r ''experiment_id'' = JStr experiment_id"

record directory_page =
  y_items :: "dict list"
  y_next :: "string option"

definition peer_availability ::
  "world \<Rightarrow> string \<Rightarrow> principal \<Rightarrow> string option \<Rightarrow> nat \<Rightarrow> (herr + directory_page) option" where
  "peer_availability w experiment_id actor after limit =
     (case bindE (research_role actor) (\<lambda>_.
             if \<not> (1 \<le> limit \<and> limit \<le> 20) then Inl (fail ''INVALID_PAGE_SIZE'' 422)
             else get_row w Experiment (JStr experiment_id) actor) of
        Inl e \<Rightarrow> Some (Inl e)
      | Inr experiment \<Rightarrow>
          let shared = (pr_role actor \<noteq> Agent \<or> field experiment ''sharing'' = JStr ''ideas'');
              skip = (\<lambda>r. pr_branch actor = Some (r_id r) \<or> \<not> (shared \<or> in_scope w actor r))
          in Option.bind (page_directory skip (peer_row actor experiment_id) limit w [] after)
               (\<lambda>(rows, cursor, beyond). Some (Inr
                  \<lparr>y_items = map (\<lambda>r. [(''branch_id'', JStr (r_id r)),
                       (''state'', JStr (availability_name
                          (branch_availability w (JStr experiment_id) (JStr (r_id r)) actor)))]) rows,
                   y_next = (if beyond then cursor else None)\<rparr>)))"

text \<open>\<open>component_directory\<close> (\<open>workforce.py\<close>): without ideas sharing an agent sees its own branch's
  components.\<close>

definition component_row :: "principal \<Rightarrow> row \<Rightarrow> string \<Rightarrow> row \<Rightarrow> bool" where
  "component_row actor experiment experiment_id r \<longleftrightarrow>
     r_project r = pr_project actor \<and> r_kind r = ComponentRegistry \<and>
     field r ''experiment_id'' = JStr experiment_id \<and>
     (pr_role actor = Agent \<and> field experiment ''sharing'' \<noteq> JStr ''ideas'' \<longrightarrow>
        field r ''branch_id'' = jopt (pr_branch actor))"

definition component_page :: "row list \<times> string option \<times> bool \<Rightarrow> dict list \<Rightarrow> directory_page" where
  "component_page st items =
     \<lparr>y_items = items,
      y_next = (if snd (snd st) then Some (r_id (last (fst st))) else None)\<rparr>"

definition component_directory ::
  "world \<Rightarrow> string \<Rightarrow> principal \<Rightarrow> string option \<Rightarrow> nat \<Rightarrow> (herr + directory_page) option" where
  "component_directory w experiment_id actor after limit =
     (case bindE (research_role actor) (\<lambda>_.
             if \<not> (1 \<le> limit \<and> limit \<le> 50) then Inl (fail ''INVALID_PAGE_SIZE'' 409)
             else get_row w Experiment (JStr experiment_id) actor) of
        Inl e \<Rightarrow> Some (Inl e)
      | Inr experiment \<Rightarrow>
          Option.bind (page_directory (\<lambda>_. False) (component_row actor experiment experiment_id)
              limit w [] after)
            (\<lambda>st. Some (bindE (mapE (component_item w actor) (fst st))
               (\<lambda>items. Inr (component_page st items)))))"

section \<open>Delivery\<close>

text \<open>\<open>message_delivery_status\<close>: the event of a message, the deliveries that cover it and what they say.\<close>

datatype delivery_state =
    Waiting_Delivery | Acknowledged | Presented | Withdrawn | Recipient_Gone

fun delivery_name :: "delivery_state \<Rightarrow> string" where
  "delivery_name Waiting_Delivery = ''queued''"
| "delivery_name Acknowledged = ''acknowledged''"
| "delivery_name Presented = ''presented_unacknowledged''"
| "delivery_name Withdrawn = ''withdrawn_unavailable''"
| "delivery_name Recipient_Gone = ''recipient_unavailable''"

definition message_event :: "world \<Rightarrow> principal \<Rightarrow> string \<Rightarrow> event_row option" where
  "message_event w actor message_id =
     find (\<lambda>e. e_project e = pr_project actor \<and> e_kind e = ''message.created'' \<and>
               dget (e_payload e) ''message_id'' = JStr message_id) (events w)"

definition covering_delivery :: "principal \<Rightarrow> json \<Rightarrow> json \<Rightarrow> int \<Rightarrow> row \<Rightarrow> bool" where
  "covering_delivery actor experiment_id recipient seq_no r \<longleftrightarrow>
     r_project r = pr_project actor \<and> r_kind r = DiscussionDelivery \<and>
     field r ''experiment_id'' = experiment_id \<and>
     field r ''reader_key'' = JStr (branch_key (text_of recipient)) \<and>
     (case field r ''start_sequence'' of JInt a \<Rightarrow> a < seq_no | _ \<Rightarrow> False) \<and>
     (case field r ''end_sequence'' of JInt b \<Rightarrow> seq_no \<le> b | _ \<Rightarrow> False)"

text \<open>One item of one delivery: a withdrawal is final, an acknowledged or presented message is not.\<close>

definition item_state ::
  "row \<Rightarrow> string \<Rightarrow> int \<Rightarrow> json \<Rightarrow> delivery_state \<Rightarrow> delivery_state" where
  "item_state delivery message_id seq_no item state =
     (let i = as_dict item
      in if dget i ''sequence'' \<noteq> JInt seq_no then state
         else if dget i ''source_kind'' = JStr ''withdrawal'' then Withdrawn
         else if dget i ''source_kind'' = JStr ''message'' \<and> dget i ''id'' = JStr message_id then
           (if state = Withdrawn then state
            else if field delivery ''status'' = JStr ''acknowledged'' then Acknowledged
            else Presented)
         else state)"

definition deliveries_state :: "row list \<Rightarrow> string \<Rightarrow> int \<Rightarrow> delivery_state" where
  "deliveries_state deliveries message_id seq_no =
     fold (\<lambda>d st. fold (item_state d message_id seq_no)
             (as_list (dget_or (r_payload d) ''items'' (JList []))) st)
       deliveries Waiting_Delivery"

definition status_shown :: "string \<Rightarrow> json \<Rightarrow> delivery_state \<Rightarrow> dict" where
  "status_shown message_id recipient state =
     [(''message_id'', JStr message_id), (''recipient_branch_id'', recipient),
      (''state'', JStr (delivery_name state)),
      (''meaning'', JStr ''acknowledged means delivered, not adopted'')]"

definition message_delivery_status :: "world \<Rightarrow> string \<Rightarrow> principal \<Rightarrow> herr + dict" where
  "message_delivery_status w message_id actor =
     bindE (research_role actor) (\<lambda>_.
     bindE (get_row w Message (JStr message_id) actor) (\<lambda>message.
     if pr_role actor = Agent \<and> field message ''sender_branch_id'' \<noteq> jopt (pr_branch actor)
     then Inl (fail ''BRANCH_AUTHORITY'' 403)
     else case message_event w actor message_id of
       None \<Rightarrow> Inl (fail ''DELIVERY_MISMATCH'' 409)
     | Some event \<Rightarrow>
         bindE (need message ''experiment_id'') (\<lambda>e.
         bindE (need message ''recipient_branch_id'') (\<lambda>recipient.
         let deliveries = take 11
               (select_sorted (covering_delivery actor e recipient (e_sequence event)) w)
         in if 10 < length deliveries then Inl (fail ''DELIVERY_MISMATCH'' 409)
            else
              let state = deliveries_state deliveries message_id (e_sequence event)
              in Inr (status_shown message_id recipient
                   (if state = Waiting_Delivery \<and> branch_availability w e recipient actor = Terminal
                    then Recipient_Gone else state))))))"

definition mailbox_fields :: "string list" where
  "mailbox_fields =
     [''id'', ''sender_branch_id'', ''recipient_branch_id'', ''attributed_to'', ''content'',
      ''artifact_ids'', ''evidence_status'', ''reply_to_parent_task_id'', ''child_task_id'',
      ''created_at'']"

definition mailbox_page ::
  "cursor_codec \<Rightarrow> world \<Rightarrow> string \<Rightarrow> principal \<Rightarrow> string option \<Rightarrow> nat \<Rightarrow> herr + page" where
  "mailbox_page codec w branch_id actor after limit =
     bindE (research_role actor) (\<lambda>_.
     if \<not> (1 \<le> limit \<and> limit \<le> 3) then Inl (fail ''INVALID_PAGE_SIZE'' 422)
     else bindE (get_row w Branch (JStr branch_id) actor) (\<lambda>branch.
       if pr_role actor = Agent \<and> pr_branch actor \<noteq> Some branch_id
       then Inl (fail ''BRANCH_AUTHORITY'' 403)
       else bindE (need branch ''experiment_id'') (\<lambda>e.
         bindE (page_records codec w Message actor
             (case e of JStr i \<Rightarrow> Some i | _ \<Rightarrow> None) limit after) (\<lambda>p.
         Inr (p\<lparr>g_items := map (\<lambda>m. map (\<lambda>k. (k, dget m k)) mailbox_fields)
                (filter (\<lambda>m. dget m ''recipient_branch_id'' = JStr branch_id) (g_items p))\<rparr>)))))"

section \<open>Checkpoints\<close>

text \<open>\<open>list_records\<close> where the code runs on: it returns, or loops for ever (\<open>ValueError\<close> here).\<close>

definition listed :: "world \<Rightarrow> kind \<Rightarrow> principal \<Rightarrow> json \<Rightarrow> herr + json" where
  "listed w k actor experiment_id =
     (case list_records w k actor (case experiment_id of JStr i \<Rightarrow> Some i | _ \<Rightarrow> None) 500 of
        None \<Rightarrow> Inl (ValueError ''unending read'')
      | Some r \<Rightarrow> bindE r (\<lambda>xs. Inr (JList (map JObj xs))))"

definition of_status :: "(json \<Rightarrow> bool) \<Rightarrow> json \<Rightarrow> json" where
  "of_status p tasks = JList (filter (\<lambda>t. p (dget (as_dict t) ''status'')) (as_list tasks))"

definition restart_brief :: "world \<Rightarrow> json \<Rightarrow> principal \<Rightarrow> herr + dict" where
  "restart_brief w branch_id actor =
     bindE (get_record w Branch branch_id actor) (\<lambda>branch.
     bindE (dneed branch ''experiment_id'') (\<lambda>e.
     bindE (get_record w Experiment e actor) (\<lambda>experiment.
     bindE (dneed experiment ''problem_id'') (\<lambda>p.
     bindE (get_record w Problem p actor) (\<lambda>problem.
     bindE (listed w Claim actor e) (\<lambda>claims.
     bindE (listed w Task actor e) (\<lambda>tasks.
     bindE (listed w Verification actor e) (\<lambda>receipts.
     bindE (dneed problem ''assumptions'') (\<lambda>assumptions.
     bindE (checkE (\<lambda>t. bindE (dneed (as_dict t) ''status'') (\<lambda>_. Inr ())) (as_list tasks)) (\<lambda>_.
     bindE (listed w Artifact actor e) (\<lambda>artifacts.
     bindE (listed w Message actor e) (\<lambda>messages.
     Inr [(''format'', JStr ''physharness.restart.v1''), (''branch'', JObj branch),
          (''target'', JObj problem), (''assumptions'', assumptions),
          (''claims_with_evidence_status'', claims), (''verification_receipts'', receipts),
          (''open_obligations'', of_status (\<lambda>s. s \<noteq> JStr ''completed'') tasks),
          (''completed_tasks'', of_status (\<lambda>s. s = JStr ''completed'') tasks),
          (''artifacts'', artifacts), (''messages'', messages), (''history_retained'', JBool True),
          (''novelty'', JStr ''unreviewed'')]))))))))))))"

text \<open>The reader a checkpoint is taken for: the branch itself.\<close>

definition branch_reader :: "principal \<Rightarrow> json \<Rightarrow> string \<Rightarrow> principal" where
  "branch_reader actor experiment_id branch_id =
     \<lparr>pr_id = pr_id actor, pr_project = pr_project actor, pr_role = Agent,
      pr_experiment = Some (text_of experiment_id), pr_branch = Some branch_id,
      pr_orchestrator = False\<rparr>"

definition native_ok :: "world \<Rightarrow> principal \<Rightarrow> json \<Rightarrow> string option \<Rightarrow> herr + unit" where
  "native_ok w reader experiment_id native_artifact_id =
     (if \<not> opt_true native_artifact_id then Inr ()
      else bindE (get_record w Artifact (jopt native_artifact_id) reader) (\<lambda>native.
        if dget native ''experiment_id'' \<noteq> experiment_id
        then Inl (fail ''CHECKPOINT_MISMATCH'' 409) else Inr ()))"

text \<open>What the checkpoint holds: the brief and the state named by the caller, as canonical text.\<close>

definition checkpoint_text ::
  "world \<Rightarrow> principal \<Rightarrow> json \<Rightarrow> string \<Rightarrow> json \<Rightarrow> json \<Rightarrow> json \<Rightarrow> string option \<Rightarrow>
   herr + string"
where
  "checkpoint_text w actor experiment_id branch_id approach workspace_digest environment_digest
     native_artifact_id =
     (let reader = branch_reader actor experiment_id branch_id
      in bindE (restart_brief w (JStr branch_id) reader) (\<lambda>brief.
         bindE (dneed (as_dict (dget brief ''target'')) ''environment_digest'') (\<lambda>environment.
         if environment_digest \<noteq> environment then Inl (fail ''ENVIRONMENT_MISMATCH'' 409)
         else bindE (native_ok w reader (dget (as_dict (dget brief ''branch'')) ''experiment_id'')
                native_artifact_id) (\<lambda>_.
           Inr (canonical (stamp_of w)
             (JObj [(''brief'', JObj brief), (''approach'', approach),
                    (''workspace_digest'', workspace_digest),
                    (''environment_digest'', environment_digest),
                    (''native_artifact_id'', jopt native_artifact_id)]))))))"

definition checkpoint_action ::
  "string \<Rightarrow> int \<Rightarrow> json \<Rightarrow> json \<Rightarrow> json \<Rightarrow> string option \<Rightarrow> principal \<Rightarrow> action"
where
  "checkpoint_action branch_id expected_revision approach workspace_digest environment_digest
     native_artifact_id actor op w =
     bindE (writable_branch w (JStr branch_id) actor False) (\<lambda>branch.
     bindE (need branch ''experiment_id'') (\<lambda>e.
     bindE (checkpoint_text w actor e branch_id approach workspace_digest environment_digest
       native_artifact_id) (\<lambda>content.
     bindE (put_artifact content w) (\<lambda>(sha, w1).
     bindE (insert_row w1 Artifact actor
       [(''experiment_id'', e), (''branch_id'', JStr branch_id), (''artifact_kind'', JStr ''checkpoint''),
        (''sha256'', JStr sha), (''media_type'', JStr ''application/json''),
        (''submitted_by'', JStr (pr_id actor)), (''size_bytes'', JInt (utf8_size content)),
        (''provenance'', JObj [(''branch_id'', JStr branch_id),
           (''revision'', JInt expected_revision)])] None) (\<lambda>(artifact, w2).
     bindE (replace_row w2 branch [(''checkpoint_id'', dget artifact ''id'')] (Some expected_revision))
       (\<lambda>(result, w3).
     Inr (result, emit actor op ''branch.checkpointed'' branch_id
       [(''checkpoint_id'', dget artifact ''id'')] False w3)))))))"

definition checkpoint_branch ::
  "int \<Rightarrow> string \<Rightarrow> int \<Rightarrow> json \<Rightarrow> json \<Rightarrow> json \<Rightarrow> string option \<Rightarrow> principal \<Rightarrow>
   string \<Rightarrow> world \<Rightarrow> herr + (dict \<times> world)"
where
  "checkpoint_branch elapsed branch_id expected_revision approach workspace_digest environment_digest
     native_artifact_id actor key w =
     bindE (research_role actor) (\<lambda>_.
     execute elapsed actor key ''branch.checkpoint''
       (JObj [(''branch_id'', JStr branch_id), (''revision'', JInt expected_revision),
              (''approach'', approach), (''workspace_digest'', workspace_digest),
              (''environment_digest'', environment_digest),
              (''native_artifact_id'', jopt native_artifact_id)])
       (checkpoint_action branch_id expected_revision approach workspace_digest environment_digest
          native_artifact_id actor) w)"

section \<open>Directories read every row\<close>

lemma scan_directory_append:
  "scan_directory skip limit (xs @ ys) (items, cursor, False) =
     (case scan_directory skip limit xs (items, cursor, False) of
        (items', cursor', beyond) \<Rightarrow>
          if beyond then (items', cursor', True)
          else scan_directory skip limit ys (items', cursor', False))"
  by (induction xs arbitrary: items cursor) auto

lemma scan_directory_end:
  "scan_directory skip limit xs (items, cursor, False) = (items', cursor', False) \<Longrightarrow>
     cursor' = (if xs = [] then cursor else Some (r_id (last xs)))"
  by (induction xs arbitrary: items cursor) (auto split: if_splits)

lemma scan_directory_items:
  "fst (scan_directory skip limit xs (items, cursor, False)) =
     items @ take (limit - length items) (filter (\<lambda>r. \<not> skip r) xs)"
proof (induction xs arbitrary: items cursor)
  case (Cons r xs)
  show ?case
  proof (cases "limit \<le> length items")
    case False
    then have "limit - length items = Suc (limit - Suc (length items))" by simp
    then show ?thesis using Cons.IH False by auto
  qed simp
qed simp

text \<open>Reading in batches of a hundred is one scan over all rows after the cursor.\<close>

lemma directory_batches:
  assumes "distinct (map r_id (records w))" and "\<forall>r \<in> set (records w). r_id r \<noteq> []"
  shows "page_directory skip q limit w items cursor =
    Some (scan_directory skip limit (query_rows q w cursor) (items, cursor, False))"
proof (induction "length (query_rows q w cursor)" arbitrary: items cursor rule: less_induct)
  case less
  let ?xs = "query_rows q w cursor"
  obtain items' cursor' beyond where
      st: "scan_directory skip limit (take 100 ?xs) (items, cursor, False) = (items', cursor', beyond)"
    by (metis prod.exhaust)
  have unfolded: "page_directory skip q limit w items cursor =
      (if beyond \<or> length (take 100 ?xs) < 100 then Some (items', cursor', beyond)
       else page_directory skip q limit w items' cursor')"
    by (subst page_directory.simps) (simp add: query_rows_def [symmetric] st)
  have whole: "scan_directory skip limit ?xs (items, cursor, False) =
      (if beyond then (items', cursor', True)
       else scan_directory skip limit (drop 100 ?xs) (items', cursor', False))"
    using scan_directory_append [of skip limit "take 100 ?xs" "drop 100 ?xs" items cursor] st by simp
  show ?case
  proof (cases "beyond \<or> length (take 100 ?xs) < 100")
    case True
    then show ?thesis using unfolded whole by (cases beyond) auto
  next
    case False
    then have len: "100 \<le> length ?xs" and go: "\<not> beyond" by auto
    have some: "take 100 ?xs \<noteq> []" using len by auto
    have "last (take 100 ?xs) = ?xs ! (100 - 1)"
      unfolding last_conv_nth [OF some] using len by (simp add: min_def)
    with some have cursor': "cursor' = Some (r_id (?xs ! (100 - 1)))"
      using scan_directory_end [of skip limit "take 100 ?xs" items cursor items' cursor'] st go by simp
    have "?xs ! (100 - 1) \<in> set ?xs" using len by (intro nth_mem) simp
    then have "r_id (?xs ! (100 - 1)) \<noteq> []" using assms(2) by (auto simp: query_rows_def set_select_sorted)
    then have rest: "query_rows q w cursor' = drop 100 ?xs"
      unfolding cursor' using len by (intro next_rows [OF assms(1)]) simp_all
    then have "page_directory skip q limit w items' cursor' =
        Some (scan_directory skip limit (drop 100 ?xs) (items', cursor', False))"
      using less [of cursor' items'] len by simp
    then show ?thesis using unfolded whole go False by simp
  qed
qed

section \<open>What delivery keeps\<close>

lemma visible_step_strict:
  assumes "visible_step w e b actor True i vs = Inr vs'"
  shows "\<exists>a. get_row w Artifact i actor = Inr a \<and> field a ''experiment_id'' = e \<and>
    in_scope w (recipient_of actor e b) a"
  using assms by (auto simp: visible_step_def bindE_Inr_iff split: if_splits)

lemma visible_artifacts_strict:
  assumes "visible_artifacts w ids e b actor True = Inr vs" and "i \<in> set ids"
  shows "\<exists>a. get_row w Artifact i actor = Inr a \<and> field a ''experiment_id'' = e \<and>
    in_scope w (recipient_of actor e b) a"
  using foldE_each [OF assms(1) [unfolded visible_artifacts_def] assms(2)] visible_step_strict
  by blast

lemma deliver_message_InrE:
  assumes "deliver_message op actor sender i content ids extra w = Inr (made, w')"
  obtains recipient w1 where "find_row w i = Some recipient" "r_kind recipient = Branch"
    and "r_project recipient = pr_project actor"
    and "field recipient ''experiment_id'' = field sender ''experiment_id''"
    and "guard_referee_recipient sender recipient = Inr ()"
    and "\<forall>a \<in> set ids. \<exists>art. get_row w Artifact (JStr a) actor = Inr art \<and>
      field art ''experiment_id'' = field sender ''experiment_id'' \<and>
      in_scope w (recipient_of actor (field sender ''experiment_id'') (JStr i)) art"
    and "insert_row w Message actor
      (dmerge (message_data (field sender ''experiment_id'') sender i actor content ids) extra) None
      = Inr (made, w1)"
    and "w' = emit actor op ''message.created'' i [(''message_id'', dget made ''id'')] False w1"
proof -
  obtain recipient e vs w1 where s: "recipient_branch w actor i = Inr recipient"
      "need sender ''experiment_id'' = Inr e" "need recipient ''experiment_id'' = Inr e"
      "guard_referee_recipient sender recipient = Inr ()"
      "visible_artifacts w (map JStr ids) e (JStr i) actor True = Inr vs"
      "insert_row w Message actor (dmerge (message_data e sender i actor content ids) extra) None
        = Inr (made, w1)"
      "w' = emit actor op ''message.created'' i [(''message_id'', dget made ''id'')] False w1"
    using assms unfolding deliver_message_def bindE_Inr_iff if_Inl_Inr_iff split_paired_Ex prod.case
    by auto
  note e = need_field [OF s(2)] need_field [OF s(3)]
  have r: "find_row w i = Some recipient" "r_kind recipient = Branch" "r_project recipient = pr_project actor"
    using s(1) by (auto simp: recipient_branch_def split: option.splits if_splits)
  have attached: "\<exists>art. get_row w Artifact (JStr a) actor = Inr art \<and> field art ''experiment_id'' = e \<and>
      in_scope w (recipient_of actor e (JStr i)) art" if "a \<in> set ids" for a
    using visible_artifacts_strict [OF s(5), of "JStr a"] that by simp
  show thesis
    by (rule that [OF r]) (use s(4,6,7) e attached in simp_all)
qed

lemma deliver_message_count:
  assumes "deliver_message op actor sender i content ids extra w = Inr (made, w')"
  shows "count_rows P w' \<le> count_rows P w + 1"
  by (rule deliver_message_InrE [OF assms]) (use insert_row_count(1) in simp)

lemma deliver_all_count:
  assumes "foldE (deliver_one op actor sender content ids node_id key) rs st = Inr (made, w')"
  shows "count_rows P w' \<le> count_rows P (snd st) + length rs"
  using assms
proof (induction rs arbitrary: st)
  case (Cons r rs)
  then obtain st' where one: "deliver_one op actor sender content ids node_id key r st = Inr st'"
    and rest: "foldE (deliver_one op actor sender content ids node_id key) rs st' = Inr (made, w')"
    by (auto simp only: foldE.simps bindE_Inr_iff)
  obtain m v extra where v: "deliver_message op actor sender r content ids extra (snd st) = Inr (m, v)"
    and st': "snd st' = v"
    using one unfolding deliver_one_def bindE_Inr_iff split_paired_Ex by auto
  show ?case using Cons.IH [OF rest] deliver_message_count [OF v, of P] st' by simp
qed simp

lemma message_budget_Inr_iff:
  "message_budget w ex s n = Inr u \<longleftrightarrow>
     int (count_rows (recent_message ex s (now w)) w) + int n \<le> message_limit ex"
  by (auto simp: message_budget_def)

lemma society_send_action_count:
  assumes "society_send_action b i content ids actor key op w = Inr (r, w')"
  obtains sender ex where "get_row w Branch (JStr b) actor = Inr sender"
    and "commons_experiment w (field sender ''experiment_id'') actor True = Inr ex"
    and "int (count_rows (recent_message ex b (now w)) w') \<le> message_limit ex"
proof -
  obtain sender e ex node_id rs made where s: "writable_branch w (JStr b) actor False = Inr sender"
      "need sender ''experiment_id'' = Inr e" "commons_experiment w e actor True = Inr ex"
      "message_budget w ex (r_id sender) (length rs) = Inr ()"
      "foldE (deliver_one op actor sender content ids node_id key) rs ([], w) = Inr (made, w')"
    using assms unfolding society_send_action_def bindE_Inr_iff split_paired_Ex prod.case by auto
  have sender: "get_row w Branch (JStr b) actor = Inr sender" "r_id sender = b"
    using writable_branch_InrD(1) [OF s(1)] get_row_InrD(1) by fastforce+
  have "count_rows (recent_message ex b (now w)) w' \<le>
      count_rows (recent_message ex b (now w)) w + length rs"
    using deliver_all_count [OF s(5)] by simp
  then show thesis
    using s(4) sender need_field [OF s(2)] s(3)
    by (intro that [OF sender(1)]) (auto simp: message_budget_Inr_iff)
qed

lemma get_row_id: "get_row w k (JStr i) actor = Inr r \<Longrightarrow> find_row w i = Some r"
  using get_row_InrD(1,2) by fastforce

section \<open>Properties\<close>

text \<open>A society's messages stay within their budget: after a fresh society message, to one branch or
  to everyone on a node, the messages its sender sent in the last minute are no more than the
  experiment's policy allows.\<close>

theorem messages_within_budget:
  assumes "send_society_message el b i content ids actor key w = Inr (r, w')"
    and "find_command w (command_key w actor key) = None"
  shows "\<exists>sender ex. find_row w b = Some sender \<and>
    find_json w (field sender ''experiment_id'') = Some ex \<and> truthy (field ex ''society'') \<and>
    int (count_rows (recent_message ex b (now w)) w') \<le> message_limit ex"
proof -
  have run: "execute el actor key ''message.society-send''
       (JObj [(''branch_id'', JStr b), (''to'', JStr i),
              (''content'', JStr content), (''artifact_ids'', strings ids)])
       (society_send_action b i content ids actor key) w = Inr (r, w')"
    using assms(1) by (auto simp: send_society_message_def bindE_Inr_iff)
  obtain w2 where act: "society_send_action b i content ids actor key (fst (new_id w)) (snd (new_id w))
      = Inr (r, w2)" and same: "same_tables w2 w'"
    by (rule execute_fresh [OF run assms(2)])
  have records: "records w' = records w2" using same by (simp add: same_tables_def)
  show ?thesis
  proof (rule society_send_action_count [OF act])
    fix sender ex
    assume s: "get_row (snd (new_id w)) Branch (JStr b) actor = Inr sender"
      and ex: "commons_experiment (snd (new_id w)) (field sender ''experiment_id'') actor True = Inr ex"
      and count: "int (count_rows (recent_message ex b (now (snd (new_id w)))) w2) \<le> message_limit ex"
    have "find_row w b = Some sender" using get_row_id [OF s] by simp
    moreover have "get_row (snd (new_id w)) Experiment (field sender ''experiment_id'') actor = Inr ex"
      "truthy (field ex ''society'')"
      using ex by (auto simp: commons_experiment_def bindE_Inr_iff split: if_splits)
    then have "find_json w (field sender ''experiment_id'') = Some ex" "truthy (field ex ''society'')"
      by (auto simp: get_row_Inr_iff)
    ultimately show ?thesis using count count_rows_cong [OF records] by auto
  qed
qed

text \<open>C28. A message is free text between branches that may exchange it: a fresh direct message from one
  branch to another finds the experiment sharing ideas, goes to a branch of the same experiment that
  is no referee's, and carries only attachments of that experiment which the sender can read and the
  recipient's own scope admits.\<close>

theorem messages_respect_scope:
  assumes "send_message el b i content ids actor key w = Inr (made, w')"
    and "find_command w (command_key w actor key) = None" and "b \<noteq> i"
  shows "\<exists>sender recipient ex. find_row w b = Some sender \<and> find_row w i = Some recipient \<and>
    find_json w (field sender ''experiment_id'') = Some ex \<and>
    field ex ''sharing'' = JStr ''ideas'' \<and>
    r_kind recipient = Branch \<and> field recipient ''hat'' \<noteq> referee_hat \<and>
    field recipient ''experiment_id'' = field sender ''experiment_id'' \<and>
    (\<forall>a \<in> set ids. \<exists>art. find_row w a = Some art \<and>
       field art ''experiment_id'' = field sender ''experiment_id'' \<and> in_scope w actor art \<and>
       in_scope w (recipient_of actor (field sender ''experiment_id'') (JStr i)) art)"
proof -
  have run: "execute el actor key ''message.send''
       (JObj [(''branch_id'', JStr b), (''recipient_id'', JStr i),
              (''content'', JStr content), (''artifact_ids'', strings ids)])
       (send_message_action b i content ids actor) w = Inr (made, w')"
    using assms(1) by (auto simp: send_message_def bindE_Inr_iff)
  obtain w2 where act: "send_message_action b i content ids actor (fst (new_id w)) (snd (new_id w))
      = Inr (made, w2)"
    using execute_fresh [OF run assms(2)] by metis
  obtain sender e ex where s: "writable_branch (snd (new_id w)) (JStr b) actor False = Inr sender"
      "need sender ''experiment_id'' = Inr e" "get_row (snd (new_id w)) Experiment e actor = Inr ex"
      "dget_or (r_payload ex) ''sharing'' (JStr ''none'') = JStr ''ideas''"
      "deliver_message (fst (new_id w)) actor sender i content ids [] (snd (new_id w)) = Inr (made, w2)"
    using act assms(3) unfolding send_message_action_def bindE_Inr_iff by (auto split: if_splits)
  have sender: "get_row (snd (new_id w)) Branch (JStr b) actor = Inr sender"
    using writable_branch_InrD(1) [OF s(1)] .
  then have b: "find_row w b = Some sender" "r_id sender = b"
    using get_row_id [OF sender] find_row_id by auto
  have shares: "field ex ''sharing'' = JStr ''ideas''"
    using s(4) by (auto simp: dget_or_def dget_def split: option.splits)
  have exp: "find_json w (field sender ''experiment_id'') = Some ex"
    using s(3) need_field [OF s(2)] by (simp add: get_row_Inr_iff)
  show ?thesis
  proof (rule deliver_message_InrE [OF s(5)])
    fix recipient w1
    assume r: "find_row (snd (new_id w)) i = Some recipient" "r_kind recipient = Branch"
      "field recipient ''experiment_id'' = field sender ''experiment_id''"
      and g: "guard_referee_recipient sender recipient = Inr ()"
      and att: "\<forall>a \<in> set ids. \<exists>art. get_row (snd (new_id w)) Artifact (JStr a) actor = Inr art \<and>
        field art ''experiment_id'' = field sender ''experiment_id'' \<and>
        in_scope (snd (new_id w)) (recipient_of actor (field sender ''experiment_id'') (JStr i)) art"
    have "r_id recipient = i" using find_row_id [OF r(1)] .
    then have "field recipient ''hat'' \<noteq> referee_hat"
      using g b(2) assms(3) by (auto simp: guard_referee_recipient_def split: if_splits)
    moreover have "\<forall>a \<in> set ids. \<exists>art. find_row w a = Some art \<and>
       field art ''experiment_id'' = field sender ''experiment_id'' \<and> in_scope w actor art \<and>
       in_scope w (recipient_of actor (field sender ''experiment_id'') (JStr i)) art"
      using att by (simp add: get_row_Inr_iff) blast
    ultimately show ?thesis using b exp shares r by auto
  qed
qed

theorem messages_within_budget_witness:
  "\<exists>r w' sender ex. send_society_message 0 ''b1'' ''b2'' ''hello'' [] sample_agent ''m1'' society = Inr (r, w') \<and>
    find_row society ''b1'' = Some sender \<and>
    find_json society (field sender ''experiment_id'') = Some ex \<and>
    int (count_rows (recent_message ex ''b1'' (now society)) w') \<le> message_limit ex"
proof -
  have "\<not> isl (send_society_message 0 ''b1'' ''b2'' ''hello'' [] sample_agent ''m1'' society)"
    by code_simp
  then obtain r w' where run:
      "send_society_message 0 ''b1'' ''b2'' ''hello'' [] sample_agent ''m1'' society = Inr (r, w')"
    by (rule succeedsE)
  have "find_command society (command_key society sample_agent ''m1'') = None" by code_simp
  from messages_within_budget [OF run this] run show ?thesis by blast
qed

definition sharing_society :: world where
  "sharing_society = society\<lparr>records := records society @ [sample_row Artifact ''n2''
     [(''experiment_id'', JStr ''e''), (''branch_id'', JStr ''b2''),
      (''artifact_kind'', JStr ''note''), (''sha256'', JStr ''h'')]]\<rparr>"

theorem messages_respect_scope_witness:
  "\<exists>made w' art. send_message 0 ''b1'' ''b2'' ''hello'' [''n2''] sample_operator ''m2'' sharing_society
      = Inr (made, w') \<and>
    find_row sharing_society ''n2'' = Some art \<and> in_scope sharing_society sample_operator art"
proof -
  have "\<not> isl (send_message 0 ''b1'' ''b2'' ''hello'' [''n2''] sample_operator ''m2'' sharing_society)"
    by code_simp
  then obtain made w' where run: "send_message 0 ''b1'' ''b2'' ''hello'' [''n2''] sample_operator ''m2''
      sharing_society = Inr (made, w')"
    by (rule succeedsE)
  have "find_command sharing_society (command_key sharing_society sample_operator ''m2'') = None"
    by code_simp
  moreover have "''b1'' \<noteq> ''b2''" by simp
  ultimately have "\<forall>a \<in> set [''n2'']. \<exists>art. find_row sharing_society a = Some art \<and>
      in_scope sharing_society sample_operator art"
    using messages_respect_scope [OF run] by blast
  then show ?thesis using run by auto
qed

end
