(* ===== verification/Findings.thy ===== *)
theory Findings
  imports Messages
begin

text \<open>
  What research produces (\<open>service.py\<close>): branches forked from a branch of the actor's, artifacts with
  the kinds reserved to controllers, native checkpoints committed with their session, and claims, which
  never carry a proof status of their own.
\<close>

section \<open>Branches\<close>

record branch_create =
  h_title :: string
  h_objective :: string
  h_relation :: string
  h_parent :: "string option"
  h_checkpoint :: "string option"
  h_model :: "nat option"

definition branch_create_ok :: "branch_create \<Rightarrow> bool" where
  "branch_create_ok q \<longleftrightarrow>
     1 \<le> length (h_title q) \<and> length (h_title q) \<le> 200 \<and>
     1 \<le> length (h_objective q) \<and> length (h_objective q) \<le> 20000 \<and>
     h_relation q \<in> {''helper'', ''collaborator'', ''competing''} \<and>
     (case h_model q of None \<Rightarrow> True | Some i \<Rightarrow> i \<le> 99)"

definition branch_data :: "branch_create \<Rightarrow> dict" where
  "branch_data q =
     [(''title'', JStr (h_title q)), (''objective'', JStr (h_objective q)),
      (''relation'', JStr (h_relation q)), (''parent_id'', jopt (h_parent q)),
      (''checkpoint_id'', jopt (h_checkpoint q)), (''model_index'', jnat (h_model q))]"

definition fork_parent ::
  "world \<Rightarrow> string \<Rightarrow> principal \<Rightarrow> string option \<Rightarrow> herr + row option" where
  "fork_parent w experiment_id actor parent_id =
     (if \<not> opt_true parent_id then Inr None
      else bindE (writable_branch w (jopt parent_id) actor False) (\<lambda>parent.
        bindE (guard_referee_branch parent actor) (\<lambda>_.
        bindE (need parent ''experiment_id'') (\<lambda>e.
        if e \<noteq> JStr experiment_id then Inl (fail ''BRANCH_EXPERIMENT_MISMATCH'' 409)
        else Inr (Some parent)))))"

definition checkpoint_here ::
  "world \<Rightarrow> string \<Rightarrow> principal \<Rightarrow> string option \<Rightarrow> herr + unit" where
  "checkpoint_here w experiment_id actor checkpoint_id =
     (if \<not> opt_true checkpoint_id then Inr ()
      else bindE (get_row w Artifact (jopt checkpoint_id) actor) (\<lambda>c.
        if field c ''experiment_id'' \<noteq> JStr experiment_id \<or>
           field c ''artifact_kind'' \<noteq> JStr ''checkpoint''
        then Inl (fail ''CHECKPOINT_MISMATCH'' 409) else Inr ()))"

definition fork_edge ::
  "principal \<Rightarrow> branch_create \<Rightarrow> dict \<Rightarrow> world \<Rightarrow> herr + world" where
  "fork_edge actor q made w =
     (if \<not> opt_true (h_parent q) then Inr w
      else insert_edge \<lparr>d_source = text_of (dget made ''id''), d_target = the (h_parent q),
             d_relation = h_relation q, d_project = pr_project actor\<rparr> w)"

definition insert_fork ::
  "world \<Rightarrow> string \<Rightarrow> row \<Rightarrow> branch_create \<Rightarrow> json \<Rightarrow> principal \<Rightarrow> herr + (dict \<times> world)" where
  "insert_fork w experiment_id experiment q model actor =
     bindE (need experiment ''target_digest'') (\<lambda>digest.
     let (branch_id, w1) = new_id w; (identity, w2) = new_id w1
     in insert_row w2 Branch actor
          (dmerge (branch_data q)
            [(''reply_to_parent'', jopt (h_parent q)), (''experiment_id'', JStr experiment_id),
             (''target_digest'', digest), (''status'', JStr ''open''),
             (''execution_identity'', JStr identity), (''model_configuration'', model)])
          (Some branch_id))"

definition fork_model :: "row \<Rightarrow> row option \<Rightarrow> nat option \<Rightarrow> herr + json" where
  "fork_model experiment parent model_index =
     (case (model_index, parent) of
        (Some i, _) \<Rightarrow>
          bindE (models_of experiment) (\<lambda>ms.
          if length ms \<le> i then Inl (fail ''MODEL_NOT_ALLOWED'' 409) else Inr (ms ! i))
      | (None, Some p) \<Rightarrow> need p ''model_configuration''
      | (None, None) \<Rightarrow> default_model experiment)"

definition create_branch_action :: "string \<Rightarrow> branch_create \<Rightarrow> principal \<Rightarrow> action" where
  "create_branch_action experiment_id q actor op w =
     bindE (get_row w Experiment (JStr experiment_id) actor) (\<lambda>experiment.
     bindE (fork_parent w experiment_id actor (h_parent q)) (\<lambda>parent.
     if pr_role actor = Agent \<and> opt_true (pr_branch actor) \<and> h_parent q \<noteq> pr_branch actor
     then Inl (fail ''BRANCH_AUTHORITY'' 403)
     else bindE (checkpoint_here w experiment_id actor (h_checkpoint q)) (\<lambda>_.
     bindE (fork_model experiment parent (h_model q)) (\<lambda>model.
     bindE (insert_fork w experiment_id experiment q model actor) (\<lambda>(made, w1).
     bindE (fork_edge actor q made w1) (\<lambda>w2.
     Inr (made, emit actor op ''branch.created'' (text_of (dget made ''id''))
       [(''experiment_id'', JStr experiment_id)] False w2)))))))"

definition create_branch ::
  "int \<Rightarrow> string \<Rightarrow> branch_create \<Rightarrow> principal \<Rightarrow> string \<Rightarrow> world \<Rightarrow> herr + (dict \<times> world)" where
  "create_branch elapsed experiment_id q actor key w =
     bindE (research_role actor) (\<lambda>_.
     execute elapsed actor key ''branch.create''
       (JObj (dmerge (branch_data q) [(''experiment_id'', JStr experiment_id)]))
       (create_branch_action experiment_id q actor) w)"

section \<open>Artifacts\<close>

record artifact_create =
  u_experiment :: "string option"
  u_branch :: "string option"
  u_trusted :: bool
  u_kind :: string
  u_content :: string
  u_media :: string
  u_provenance :: dict

definition artifact_create_ok :: "artifact_create \<Rightarrow> bool" where
  "artifact_create_ok q \<longleftrightarrow>
     1 \<le> length (u_kind q) \<and> length (u_kind q) \<le> 100 \<and> length (u_content q) \<le> 5000000 \<and>
     length (u_media q) \<le> 200"

definition artifact_fields :: "artifact_create \<Rightarrow> dict" where
  "artifact_fields q =
     [(''experiment_id'', jopt (u_experiment q)), (''branch_id'', jopt (u_branch q)),
      (''trusted_input'', JBool (u_trusted q)), (''kind'', JStr (u_kind q)),
      (''media_type'', JStr (u_media q)), (''provenance'', JObj (u_provenance q))]"

text \<open>\<open>_artifact_record\<close>: one row for bytes the store holds.\<close>

definition artifact_record ::
  "world \<Rightarrow> artifact_create \<Rightarrow> principal \<Rightarrow> string \<Rightarrow> int \<Rightarrow> string option \<Rightarrow> herr + (dict \<times> world)"
where
  "artifact_record w q actor sha size_bytes record_id =
     insert_row w Artifact actor
       (artifact_fields q @
        [(''artifact_kind'', JStr (u_kind q)), (''sha256'', JStr sha),
         (''size_bytes'', JInt size_bytes), (''submitted_by'', JStr (pr_id actor))]) record_id"

text \<open>Who may write which kind.\<close>

definition recovery_allowed :: "artifact_create \<Rightarrow> principal \<Rightarrow> worker_effects option \<Rightarrow> bool" where
  "recovery_allowed q actor binding \<longleftrightarrow>
     pr_role actor \<in> {Operator, Admin} \<and> pr_experiment actor = None \<and> pr_branch actor = None \<and>
     u_branch q = None \<and> dget (u_provenance q) ''task_id'' = JNull \<and> \<not> u_trusted q \<and> binding = None"

definition kind_allowed :: "artifact_create \<Rightarrow> principal \<Rightarrow> worker_effects option \<Rightarrow> herr + unit" where
  "kind_allowed q actor binding =
     (if u_kind q = ''workspace_recovery_observation'' \<and> \<not> recovery_allowed q actor binding
      then Inl (fail ''RECOVERY_EVIDENCE_AUTHORITY'' 403)
      else if pr_role actor = Agent \<and> u_kind q \<in> {''masked_reference'', ''literature_screen''}
      then Inl (fail ''ARTIFACT_KIND_RESERVED'' 403)
      else if u_kind q = ''masked_reference'' \<and> pr_role actor \<notin> {Researcher, Operator, Admin}
      then Inl (fail ''ARTIFACT_KIND_RESERVED'' 403)
      else if u_kind q \<in> set private_artifact_kinds - {''masked_reference''} \<and>
              pr_role actor \<notin> {Operator, Admin}
      then Inl (fail ''ARTIFACT_KIND_RESERVED'' 403)
      else if pr_role actor = Agent \<and> u_experiment q \<noteq> pr_experiment actor
      then Inl (fail ''ARTIFACT_SCOPE'' 403)
      else Inr ())"

definition create_artifact_action :: "artifact_create \<Rightarrow> principal \<Rightarrow> action" where
  "create_artifact_action q actor op w =
     bindE (if opt_true (u_experiment q)
            then bindE (get_row w Experiment (jopt (u_experiment q)) actor) (\<lambda>_. Inr ()) else Inr ())
       (\<lambda>_.
     bindE (put_artifact (u_content q) w) (\<lambda>(sha, w1).
     bindE (artifact_record w1 q actor sha (utf8_size (u_content q)) None) (\<lambda>(made, w2).
     Inr (made, emit actor op ''artifact.created'' (text_of (dget made ''id''))
       [(''sha256'', JStr sha)] False w2))))"

definition create_artifact ::
  "int \<Rightarrow> artifact_create \<Rightarrow> principal \<Rightarrow> string \<Rightarrow> world \<Rightarrow> herr + (dict \<times> world)" where
  "create_artifact elapsed q actor key w =
     bindE (require_role actor [Researcher, Operator, Verifier, Agent]) (\<lambda>_.
     bindE (kind_allowed q actor (effects w)) (\<lambda>_.
     execute elapsed actor key ''artifact.create''
       (JObj (artifact_fields q @ [(''content'', JStr (u_content q))]))
       (create_artifact_action q actor) w))"

definition artifact_content :: "world \<Rightarrow> string \<Rightarrow> principal \<Rightarrow> herr + string" where
  "artifact_content w artifact_id actor =
     bindE (get_record w Artifact (JStr artifact_id) actor) (\<lambda>r.
     bindE (dneed r ''sha256'') (\<lambda>sha. artifact_text w (text_of sha)))"

text \<open>A checkpoint's rows and its session pointer in one command; \<open>publish\<close> is the caller's.\<close>

definition checkpoint_row ::
  "principal \<Rightarrow> string \<times> artifact_create \<times> string \<times> int \<Rightarrow> (string \<times> dict) list \<times> world \<Rightarrow>
   herr + ((string \<times> dict) list \<times> world)"
where
  "checkpoint_row actor a st =
     (let (rid, q, sha, size_bytes) = a
      in bindE (artifact_record (snd st) q actor sha size_bytes (Some rid)) (\<lambda>(made, w1).
         Inr (fst st @ [(rid, made)], w1)))"

definition commit_checkpoint_action ::
  "(string \<times> artifact_create \<times> string \<times> int) list \<Rightarrow>
   (string \<Rightarrow> (string \<times> dict) list \<Rightarrow> world \<Rightarrow> herr + (dict \<times> world)) \<Rightarrow> principal \<Rightarrow> action"
where
  "commit_checkpoint_action artifacts publish actor op w =
     bindE (checkE (\<lambda>(_, q, _, _).
              if u_experiment q = None then Inr ()
              else bindE (get_row w Experiment (jopt (u_experiment q)) actor) (\<lambda>_. Inr ()))
            artifacts) (\<lambda>_.
     bindE (foldE (checkpoint_row actor) artifacts ([], w)) (\<lambda>(made, w1).
     publish op made w1))"

definition commit_native_checkpoint ::
  "int \<Rightarrow> json \<Rightarrow> (string \<times> artifact_create \<times> string \<times> int) list \<Rightarrow>
   (string \<Rightarrow> (string \<times> dict) list \<Rightarrow> world \<Rightarrow> herr + (dict \<times> world)) \<Rightarrow> principal \<Rightarrow> string \<Rightarrow> world \<Rightarrow>
   herr + (dict \<times> world)"
where
  "commit_native_checkpoint elapsed inputs artifacts publish actor key w =
     bindE (require_role actor [Operator, Admin]) (\<lambda>_.
     if \<exists>(_, q, _, _) \<in> set artifacts. u_kind q \<notin> {''native_checkpoint'', ''native_checkpoint_chunk''}
     then Inl (fail ''ARTIFACT_KIND_RESERVED'' 403)
     else execute elapsed actor key ''runtime.save'' inputs
       (commit_checkpoint_action artifacts publish actor) w)"

section \<open>Claims\<close>

definition claim_data ::
  "string \<Rightarrow> string \<Rightarrow> string list \<Rightarrow> string \<Rightarrow> string option \<Rightarrow> dict" where
  "claim_data experiment_id statement assumptions evidence artifact_id =
     [(''experiment_id'', JStr experiment_id), (''statement'', JStr statement),
      (''assumptions'', strings assumptions), (''evidence'', JStr evidence),
      (''artifact_id'', jopt artifact_id)]"

definition create_claim_action ::
  "string \<Rightarrow> string \<Rightarrow> string list \<Rightarrow> string \<Rightarrow> string option \<Rightarrow> principal \<Rightarrow> action" where
  "create_claim_action experiment_id statement assumptions evidence artifact_id actor op w =
     bindE (get_row w Experiment (JStr experiment_id) actor) (\<lambda>experiment.
     bindE (if opt_true artifact_id
            then evidence_of w actor (JStr experiment_id) ''ARTIFACT_EXPERIMENT_MISMATCH'' (the artifact_id)
            else Inr ()) (\<lambda>_.
     bindE (need experiment ''target_digest'') (\<lambda>digest.
     bindE (insert_row w Claim actor
       (claim_data experiment_id statement assumptions evidence artifact_id @
        [(''proof_status'', JStr ''unproved''), (''semantic_review'', JStr ''pending''),
         (''novelty_status'', JStr ''unreviewed''), (''target_digest'', digest)]) None)
       (\<lambda>(made, w1).
     Inr (made, emit actor op ''claim.proposed'' (text_of (dget made ''id''))
       [(''experiment_id'', JStr experiment_id)] False w1)))))"

definition create_claim ::
  "int \<Rightarrow> string \<Rightarrow> string \<Rightarrow> string list \<Rightarrow> string \<Rightarrow> string option \<Rightarrow> principal \<Rightarrow> string \<Rightarrow> world \<Rightarrow>
   herr + (dict \<times> world)"
where
  "create_claim elapsed experiment_id statement assumptions evidence artifact_id actor key w =
     bindE (research_role actor) (\<lambda>_.
     if evidence \<notin> {''conjecture'', ''numerical'', ''conditional''}
     then Inl (fail ''INVALID_EVIDENCE'' 422)
     else if strip statement = [] then Inl (fail ''INVALID_CLAIM'' 422)
     else execute elapsed actor key ''claim.create''
       (JObj (claim_data experiment_id statement assumptions evidence artifact_id))
       (create_claim_action experiment_id statement assumptions evidence artifact_id actor) w)"

section \<open>What findings may claim\<close>

text \<open>The kinds kept for controllers: only an operator writes them, a masked reference also a researcher.\<close>

lemma kind_allowed_private:
  assumes "kind_allowed q actor binding = Inr u" and "u_kind q \<in> set private_artifact_kinds"
  shows "pr_role actor \<in> {Operator, Admin} \<or>
    pr_role actor = Researcher \<and> u_kind q = ''masked_reference''"
  using assms by (auto simp: kind_allowed_def split: if_splits)

text \<open>A claim enters unproved and unreviewed, whatever evidence it names.\<close>

lemma create_claim_unproved:
  assumes "create_claim_action e statement assumptions evidence a actor op w = Inr (made, w')"
  shows "dget made ''proof_status'' = JStr ''unproved'' \<and>
    dget made ''semantic_review'' = JStr ''pending'' \<and>
    dget made ''novelty_status'' = JStr ''unreviewed'' \<and> dget made ''statement'' = JStr statement"
proof -
  obtain digest w1 where i: "insert_row w Claim actor
      (claim_data e statement assumptions evidence a @
        [(''proof_status'', JStr ''unproved''), (''semantic_review'', JStr ''pending''),
         (''novelty_status'', JStr ''unreviewed''), (''target_digest'', digest)]) None = Inr (made, w1)"
    using assms unfolding create_claim_action_def bindE_Inr_iff split_paired_Ex prod.case by auto
  show ?thesis
    using insert_row_data [OF i] by (simp add: claim_data_def)
qed

end
