(* ===== verification/Excerpts.thy ===== *)
theory Excerpts
  imports Canonical Claims
begin

text \<open>
  Bounded excerpts of what peers write (\<open>discussion.py\<close>, \<open>commons_discourse.py\<close>): UTF-8 text cut at a
  byte count, the size of a delivery item as JSON, the binary search for the longest excerpt whose
  item fits 2,048 bytes, and the shrinking loop of a node-thread item. Characters are the code points
  up to 255, so a character is one byte or two.
\<close>

section \<open>UTF-8\<close>

definition utf8_char :: "char \<Rightarrow> nat list" where
  "utf8_char c =
     (let n = of_char c in if n < 128 then [n] else [192 + n div 64, 128 + n mod 64])"

definition encode :: "string \<Rightarrow> nat list" where
  "encode s = concat (map utf8_char s)"

text \<open>\<open>decode("utf-8", errors="ignore")\<close> of the first bytes of a text: a character cut in two is
  dropped.\<close>

fun decode :: "nat list \<Rightarrow> string" where
  "decode [] = []"
| "decode [b] = (if b < 128 then [char_of b] else [])"
| "decode (b # c # bs) =
     (if b < 128 then char_of b # decode (c # bs)
      else char_of ((b - 192) * 64 + (c - 128)) # decode bs)"

definition cut_bytes :: "nat \<Rightarrow> string \<Rightarrow> string" where
  "cut_bytes n s = decode (take n (encode s))"

section \<open>Sizes\<close>

text \<open>\<open>json.dumps(v, ensure_ascii=False)\<close>, keys in their order.\<close>

fun dumps :: "(int \<Rightarrow> string) \<Rightarrow> json \<Rightarrow> string" where
  "dumps stamp JNull = ''null''"
| "dumps stamp (JBool b) = (if b then ''true'' else ''false'')"
| "dumps stamp (JInt n) = show_int n"
| "dumps stamp (JTime t) = quoted (stamp t)"
| "dumps stamp (JStr s) = quoted s"
| "dumps stamp (JList xs) = CHR ''['' # join_with '', '' (map (dumps stamp) xs) @ '']''"
| "dumps stamp (JObj d) =
     CHR ''{'' # join_with '', '' (map (\<lambda>(k, v). quoted k @ '': '' @ dumps stamp v) d) @ ''}''"

definition json_bytes :: "(int \<Rightarrow> string) \<Rightarrow> json \<Rightarrow> nat" where
  "json_bytes stamp v = length (encode (dumps stamp v))"

section \<open>The longest excerpt that fits\<close>

definition item_bytes :: nat where "item_bytes = 2048"

definition excerpt_bytes :: nat where "excerpt_bytes = 1024"

definition with_excerpt :: "dict \<Rightarrow> string \<Rightarrow> bool \<Rightarrow> dict" where
  "with_excerpt item excerpt truncated =
     dmerge item [(''excerpt'', JStr excerpt), (''truncated'', JBool truncated)]"

definition candidate :: "dict \<Rightarrow> string \<Rightarrow> string \<Rightarrow> nat \<Rightarrow> dict" where
  "candidate item content text n =
     (let excerpt = take n text in with_excerpt item excerpt (excerpt \<noteq> content))"

definition fits :: "(int \<Rightarrow> string) \<Rightarrow> dict \<Rightarrow> string \<Rightarrow> string \<Rightarrow> nat \<Rightarrow> bool" where
  "fits stamp item content text n \<longleftrightarrow>
     json_bytes stamp (JObj (candidate item content text n)) \<le> item_bytes"

function search :: "(nat \<Rightarrow> bool) \<Rightarrow> nat \<Rightarrow> nat \<Rightarrow> nat" where
  "search ok low high =
     (if low < high then
        let middle = (low + high + 1) div 2
        in if ok middle then search ok middle high else search ok low (middle - 1)
      else low)"
  by pat_completeness auto
termination by (relation "measure (\<lambda>(_, low, high). high - low)") auto

declare search.simps [simp del]

definition bounded_excerpt ::
  "(int \<Rightarrow> string) \<Rightarrow> dict \<Rightarrow> string \<Rightarrow> herr + dict" where
  "bounded_excerpt stamp item content =
     (let text = cut_bytes excerpt_bytes content; ok = fits stamp item content text
      in if ok (length text) then Inr (candidate item content text (length text))
         else
           let low = search ok 0 (length text - 1)
           in if \<not> ok low then Inl (fail ''DELIVERY_BOUNDS'' 409)
              else Inr (candidate item content text low))"

text \<open>The loop of a node-thread item: the raw bytes lose a quarter at a time.\<close>

function shrink_item ::
  "(int \<Rightarrow> string) \<Rightarrow> dict \<Rightarrow> bool \<Rightarrow> string \<Rightarrow> nat list \<Rightarrow> herr + dict" where
  "shrink_item stamp item more_text text raw =
     (let excerpt = decode raw;
          shown = with_excerpt item excerpt (more_text \<or> length excerpt < length text)
      in if json_bytes stamp (JObj shown) \<le> item_bytes then Inr shown
         else if raw = [] then Inl (fail ''DELIVERY_BOUNDS'' 409)
         else shrink_item stamp item more_text text (take (length raw * 3 div 4) raw))"
  by pat_completeness auto
termination
  by (relation "measure (\<lambda>(_, _, _, _, raw). length raw)") (auto simp: min_def neq_Nil_conv)

declare shrink_item.simps [simp del]

section \<open>Cutting at a byte count\<close>

lemma encode_simps [simp]:
  "encode [] = []" "encode (c # s) = utf8_char c @ encode s" "encode (s @ t) = encode s @ encode t"
  by (simp_all add: encode_def)

lemma decode_char: "decode (utf8_char c @ bs) = c # decode bs"
proof (cases "of_char c < (128 :: nat)")
  case True
  then show ?thesis by (cases bs) (simp_all add: utf8_char_def)
next
  case False
  have "(192 + of_char c div 64 - 192) * 64 + (128 + of_char c mod 64 - 128) = (of_char c :: nat)"
    by (simp add: div_mult_mod_eq)
  with False show ?thesis by (simp add: utf8_char_def Let_def del: One_nat_def)
qed

lemma decode_encode: "decode (encode s) = s"
  by (induction s) (simp_all add: decode_char)

text \<open>A cut text is a prefix within the bytes.\<close>

lemma cut_bytes_prefix:
  "\<exists>k \<le> length s. cut_bytes n s = take k s \<and> length (encode (take k s)) \<le> n"
proof (induction s arbitrary: n)
  case Nil
  then show ?case by (simp add: cut_bytes_def)
next
  case (Cons c s)
  show ?case
  proof (cases "length (utf8_char c) \<le> n")
    case True
    let ?m = "n - length (utf8_char c)"
    obtain k where k: "k \<le> length s" "cut_bytes ?m s = take k s"
        "length (encode (take k s)) \<le> ?m"
      using Cons.IH [of ?m] by auto
    have "cut_bytes n (c # s) = c # cut_bytes ?m s"
      using True by (simp add: cut_bytes_def decode_char)
    then have "cut_bytes n (c # s) = take (Suc k) (c # s)" using k(2) by simp
    moreover have "length (encode (take (Suc k) (c # s))) \<le> n" using k(3) True by simp
    ultimately show ?thesis using k(1) by (intro exI [of _ "Suc k"]) simp
  next
    case False
    then have "n = 0 \<or> (n = 1 \<and> \<not> of_char c < (128 :: nat))"
      by (auto simp: utf8_char_def Let_def split: if_splits)
    then have "cut_bytes n (c # s) = []"
      by (auto simp: cut_bytes_def utf8_char_def Let_def)
    then show ?thesis by (intro exI [of _ 0]) simp
  qed
qed

section \<open>A longer excerpt is no smaller\<close>

lemma encode_length_mono: "length (encode (quoted (take m s))) \<le> length (encode (quoted s))"
proof -
  have "length (encode (concat (map escape_char s))) =
      length (encode (concat (map escape_char (take m s)))) +
      length (encode (concat (map escape_char (drop m s))))"
    by (metis append_take_drop_id concat_append encode_simps(3) length_append map_append)
  then show ?thesis by (simp add: quoted_def)
qed

lemma join_bytes_mono:
  "list_all2 (\<lambda>x y. length (encode x) \<le> length (encode y)) xs ys \<Longrightarrow>
     length (encode (join_with sep xs)) \<le> length (encode (join_with sep ys))"
proof (induction sep xs arbitrary: ys rule: join_with.induct)
  case (3 sep x x' xs)
  then obtain y y' zs where "ys = y # y' # zs" by (auto simp: list_all2_Cons1)
  with 3 show ?case by (fastforce intro: add_mono)
qed (auto simp: list_all2_Cons1)

definition same_keys_smaller :: "(int \<Rightarrow> string) \<Rightarrow> dict \<Rightarrow> dict \<Rightarrow> bool" where
  "same_keys_smaller stamp =
     list_all2 (\<lambda>(k, v) (k', v'). k = k' \<and> json_bytes stamp v \<le> json_bytes stamp v')"

lemma json_bytes_obj_mono:
  assumes "same_keys_smaller stamp d d'"
  shows "json_bytes stamp (JObj d) \<le> json_bytes stamp (JObj d')"
proof -
  have "list_all2 (\<lambda>x y. length (encode x) \<le> length (encode y))
      (map (\<lambda>(k, v). quoted k @ '': '' @ dumps stamp v) d)
      (map (\<lambda>(k, v). quoted k @ '': '' @ dumps stamp v) d')"
    using assms unfolding same_keys_smaller_def list.rel_map
    by (rule list_all2_mono) (auto simp: json_bytes_def)
  from join_bytes_mono [OF this, of "'', ''"] show ?thesis by (simp add: json_bytes_def)
qed

lemma same_keys_smaller_refl: "same_keys_smaller stamp d d"
  by (auto simp: same_keys_smaller_def intro!: list_all2_refl)

lemma same_keys_smaller_dput:
  "same_keys_smaller stamp d d' \<Longrightarrow> json_bytes stamp v \<le> json_bytes stamp v' \<Longrightarrow>
     same_keys_smaller stamp (dput k v d) (dput k v' d')"
  unfolding same_keys_smaller_def dput_def
  by (induction d d' rule: list_all2_induct) auto

lemma fits_mono:
  assumes "fits stamp item content text n" and "m \<le> n" and "n < length text"
    and "length text \<le> length content"
  shows "fits stamp item content text m"
proof -
  have cut: "take i text \<noteq> content" if "i < length text" for i
  proof
    assume "take i text = content"
    then have "length content = i" using that by (metis length_take min.absorb4)
    then show False using that assms(4) by simp
  qed
  have "json_bytes stamp (JStr (take m text)) \<le> json_bytes stamp (JStr (take n text))"
    using encode_length_mono [of m "take n text"] assms(2) by (simp add: json_bytes_def min_def)
  moreover have "candidate item content text i =
      dput ''truncated'' (JBool True) (dput ''excerpt'' (JStr (take i text)) item)"
    if "i < length text" for i
    using cut [OF that] by (simp add: candidate_def with_excerpt_def)
  ultimately have "same_keys_smaller stamp (candidate item content text m) (candidate item content text n)"
    using le_less_trans [OF assms(2,3)] assms(3) by (simp only: same_keys_smaller_dput same_keys_smaller_refl le_refl)
  then show ?thesis
    using assms(1) json_bytes_obj_mono unfolding fits_def by (meson le_trans)
qed

section \<open>The search\<close>

lemma search_correct:
  assumes "\<And>m n. ok n \<Longrightarrow> m \<le> n \<Longrightarrow> n \<le> high \<Longrightarrow> ok m" and "low \<le> high"
  shows "low \<le> search ok low high \<and> search ok low high \<le> high \<and>
    (ok low \<longrightarrow> ok (search ok low high)) \<and>
    (\<forall>m. search ok low high < m \<and> m \<le> high \<longrightarrow> \<not> ok m)"
  using assms
proof (induction ok low high rule: search.induct)
  case (1 ok low high)
  let ?mid = "(low + high + 1) div 2"
  show ?case
  proof (cases "low < high")
    case False
    then have "search ok low high = low" by (subst search.simps) simp
    then show ?thesis using 1(4) False by auto
  next
    case True
    then have mid: "low < ?mid" "?mid \<le> high" by auto
    show ?thesis
    proof (cases "ok ?mid")
      case True
      then have "search ok low high = search ok ?mid high"
        using \<open>low < high\<close> by (subst search.simps) simp
      moreover have "?mid \<le> search ok ?mid high \<and> search ok ?mid high \<le> high \<and>
          (ok ?mid \<longrightarrow> ok (search ok ?mid high)) \<and>
          (\<forall>m. search ok ?mid high < m \<and> m \<le> high \<longrightarrow> \<not> ok m)"
        by (rule 1(1) [OF \<open>low < high\<close> refl True]) (use 1(3) mid in auto)
      ultimately show ?thesis using True mid by auto
    next
      case False
      let ?r = "search ok low (?mid - 1)"
      have "search ok low high = ?r"
        using \<open>low < high\<close> False by (subst search.simps) simp
      moreover have "low \<le> ?r \<and> ?r \<le> ?mid - 1 \<and> (ok low \<longrightarrow> ok ?r) \<and>
          (\<forall>m. ?r < m \<and> m \<le> ?mid - 1 \<longrightarrow> \<not> ok m)"
        by (rule 1(2) [OF \<open>low < high\<close> refl False]) (use 1(3) mid in auto)
      moreover have "\<not> ok m" if "?mid \<le> m" "m \<le> high" for m
        using 1(3) that False by blast
      ultimately have r: "search ok low high = ?r" "low \<le> ?r" "?r \<le> ?mid - 1" "ok low \<longrightarrow> ok ?r"
        and upper: "\<And>m. ?r < m \<Longrightarrow> m \<le> ?mid - 1 \<Longrightarrow> \<not> ok m"
        and above: "\<And>m. ?mid \<le> m \<Longrightarrow> m \<le> high \<Longrightarrow> \<not> ok m" by blast+
      have "\<not> ok m" if "?r < m" "m \<le> high" for m
      proof (cases "?mid \<le> m")
        case True
        then show ?thesis using above that(2) by blast
      next
        case False
        then have "m \<le> ?mid - 1" by simp
        then show ?thesis using upper that(1) by blast
      qed
      moreover have "?r \<le> high" using r(3) mid by linarith
      ultimately show ?thesis unfolding r(1) using r(2,4) mid by blast
    qed
  qed
qed

section \<open>Properties\<close>



end
