(* ===== verification/Threads.thy ===== *)
theory Threads
  imports Messages Excerpts
begin

text \<open>
  Discussions (\<open>discussion.py\<close>): topics pinned to the reviewed target, posts with the event that
  sequences their delivery, the rules of a post's references and attachments, pages over the events,
  and the excerpts a reader is shown of a post or a message. The thread of a commons node is a topic
  with a \<open>node_id\<close> (\<open>commons_discourse.py\<close>).
\<close>

section \<open>Topics\<close>

record discussion_create =
  dc_title :: string
  dc_summary :: string
  dc_branch :: "string option"

definition discussion_create_ok :: "discussion_create \<Rightarrow> bool" where
  "discussion_create_ok r \<longleftrightarrow>
     1 \<le> length (dc_title r) \<and> length (dc_title r) \<le> 200 \<and>
     1 \<le> length (dc_summary r) \<and> length (dc_summary r) \<le> 4000"

definition discussion_data :: "discussion_create \<Rightarrow> dict" where
  "discussion_data r =
     [(''title'', JStr (dc_title r)), (''summary'', JStr (dc_summary r)),
      (''branch_id'', jopt (dc_branch r))]"

definition topic_data ::
  "row \<Rightarrow> row \<Rightarrow> json \<Rightarrow> string \<Rightarrow> string \<Rightarrow> principal \<Rightarrow> string option \<Rightarrow> herr + dict" where
  "topic_data experiment target branch_id title summary actor node_id =
     bindE (discussion_pins experiment target) (\<lambda>pins.
     Inr ([(''experiment_id'', JStr (r_id experiment)), (''branch_id'', branch_id),
           (''title'', JStr title), (''summary'', JStr summary),
           (''attributed_to'', JStr (pr_id actor)),
           (''evidence_status'', JStr ''unverified_discussion'')] @ pins @
          (case node_id of None \<Rightarrow> [] | Some n \<Rightarrow> [(''node_id'', JStr n)])))"

definition insert_topic ::
  "string \<Rightarrow> row \<Rightarrow> row \<Rightarrow> json \<Rightarrow> string \<Rightarrow> string \<Rightarrow> principal \<Rightarrow> string option \<Rightarrow> world \<Rightarrow>
   herr + (dict \<times> world)"
where
  "insert_topic op experiment target branch_id title summary actor node_id w =
     bindE (topic_data experiment target branch_id title summary actor node_id) (\<lambda>data.
     bindE (insert_row w DiscussionTopic actor data None) (\<lambda>(made, w1).
     Inr (made, emit actor op ''discussion.topic_created'' (text_of (dget made ''id''))
       [(''experiment_id'', JStr (r_id experiment)), (''topic_id'', dget made ''id'')] False w1)))"

definition topic_branch_ok :: "world \<Rightarrow> string option \<Rightarrow> string \<Rightarrow> principal \<Rightarrow> herr + unit" where
  "topic_branch_ok w branch_id experiment_id actor =
     (if \<not> opt_true branch_id then Inr ()
      else bindE (writable_branch w (jopt branch_id) actor False) (\<lambda>branch.
        bindE (need branch ''experiment_id'') (\<lambda>e.
        if e \<noteq> JStr experiment_id then Inl (fail ''DISCUSSION_SCOPE'' 409) else Inr ())))"

definition create_discussion_action ::
  "string \<Rightarrow> discussion_create \<Rightarrow> principal \<Rightarrow> action" where
  "create_discussion_action experiment_id request actor op w =
     bindE (discussion_experiment w (JStr experiment_id) actor) (\<lambda>(experiment, target).
     bindE (active w (JStr experiment_id) actor) (\<lambda>_.
     let branch_id = (if opt_true (dc_branch request) then dc_branch request else pr_branch actor)
     in if pr_role actor = Agent \<and> branch_id \<noteq> pr_branch actor
        then Inl (fail ''BRANCH_AUTHORITY'' 403)
        else bindE (topic_branch_ok w branch_id experiment_id actor) (\<lambda>_.
          insert_topic op experiment target (jopt branch_id) (dc_title request)
            (dc_summary request) actor None w)))"

definition create_discussion ::
  "int \<Rightarrow> string \<Rightarrow> discussion_create \<Rightarrow> principal \<Rightarrow> string \<Rightarrow> world \<Rightarrow> herr + (dict \<times> world)"
where
  "create_discussion elapsed experiment_id request actor key w =
     bindE (research_role actor) (\<lambda>_.
     execute elapsed actor key ''discussion.create''
       (JObj ((''experiment_id'', JStr experiment_id) # discussion_data request))
       (create_discussion_action experiment_id request actor) w)"

section \<open>Posts\<close>

record post_create =
  pc_kind :: string
  pc_content :: string
  pc_abstract :: "string option"
  pc_reply :: "string option"
  pc_artifacts :: "string list"
  pc_references :: "string list"

definition post_create_ok :: "post_create \<Rightarrow> bool" where
  "post_create_ok r \<longleftrightarrow>
     pc_kind r \<in> {''question'', ''finding'', ''objection'', ''help'', ''update'', ''synthesis'',
                   ''attempt_failed''} \<and>
     1 \<le> length (pc_content r) \<and> length (pc_content r) \<le> 12000 \<and>
     (case pc_abstract r of None \<Rightarrow> True | Some a \<Rightarrow> length a \<le> 600) \<and>
     length (pc_artifacts r) \<le> 12 \<and> length (pc_references r) \<le> 20 \<and>
     distinct (pc_artifacts r) \<and> distinct (pc_references r) \<and> strip (pc_content r) \<noteq> []"

definition post_data :: "post_create \<Rightarrow> dict" where
  "post_data r =
     [(''kind'', JStr (pc_kind r)), (''content'', JStr (pc_content r))] @
     (case pc_abstract r of None \<Rightarrow> [] | Some a \<Rightarrow> [(''abstract'', JStr a)]) @
     [(''reply_to_post_id'', jopt (pc_reply r)), (''artifact_ids'', strings (pc_artifacts r)),
      (''reference_post_ids'', strings (pc_references r))]"

definition post_extensions :: "string list" where
  "post_extensions = [''abstract'', ''node_id'', ''cites'', ''platform_status'']"

text \<open>Only the platform's own principal records a status announcement.\<close>

definition extensions_of :: "dict \<Rightarrow> principal \<Rightarrow> dict" where
  "extensions_of data actor =
     map (\<lambda>f. (f, dget data f))
       (filter (\<lambda>f. dget data f \<noteq> JNull \<and>
          (f \<noteq> ''platform_status'' \<or> pr_id actor = ''commons-platform'' \<and> pr_role actor = Operator))
         post_extensions)"

definition pick :: "dict \<Rightarrow> string list \<Rightarrow> herr + dict" where
  "pick d ks = mapE (\<lambda>k. bindE (dneed d k) (\<lambda>v. Inr (k, v))) ks"

definition post_payload :: "row \<Rightarrow> dict \<Rightarrow> principal \<Rightarrow> herr + dict" where
  "post_payload topic data actor =
     bindE (need topic ''experiment_id'') (\<lambda>e.
     bindE (dneed data ''kind'') (\<lambda>k.
     bindE (dneed data ''content'') (\<lambda>content.
     bindE (pick (r_payload topic) [''problem_revision_id'', ''target_digest'', ''environment_digest''])
       (\<lambda>pins.
     Inr ([(''experiment_id'', e), (''topic_id'', JStr (r_id topic)),
           (''branch_id'', dget data ''branch_id''), (''attributed_to'', JStr (pr_id actor)),
           (''post_kind'', k), (''content'', content),
           (''reply_to_post_id'', dget data ''reply_to_post_id''),
           (''artifact_ids'', dget_or data ''artifact_ids'' (JList [])),
           (''reference_post_ids'', dget_or data ''reference_post_ids'' (JList [])),
           (''evidence_status'', JStr ''unverified_discussion'')] @ pins @
          extensions_of data actor)))))"

definition next_sequence :: "world \<Rightarrow> int" where
  "next_sequence w = int (length (events w)) + 1"

definition insert_post ::
  "string \<Rightarrow> row \<Rightarrow> dict \<Rightarrow> principal \<Rightarrow> world \<Rightarrow> herr + (dict \<times> world)" where
  "insert_post op topic data actor w =
     bindE (post_payload topic data actor) (\<lambda>payload.
     bindE (insert_row w DiscussionPost actor payload None) (\<lambda>(made, w1).
     let w2 = emit (actor\<lparr>pr_project := r_project topic\<rparr>) op ''discussion.post_created'' (r_id topic)
           ([(''experiment_id'', field topic ''experiment_id''), (''topic_id'', JStr (r_id topic)),
             (''post_id'', dget made ''id'')] @
            (if truthy (dget data ''node_id'') then [(''branch_id'', dget data ''branch_id'')] else []))
           False w1
     in case find_json w2 (dget made ''id'') of
          None \<Rightarrow> Inl (ValueError ''post'')
        | Some r \<Rightarrow> replace_row w2 r [(''sequence'', JInt (next_sequence w1))] None))"

definition discussion_post :: "world \<Rightarrow> json \<Rightarrow> principal \<Rightarrow> row option \<Rightarrow> herr + row" where
  "discussion_post w post_id actor topic =
     bindE (get_row w DiscussionPost post_id actor) (\<lambda>post.
     bindE (need post ''topic_id'') (\<lambda>t.
     bindE (discussion_topic w t actor) (\<lambda>_.
     case topic of
       None \<Rightarrow> Inr post
     | Some tp \<Rightarrow> if t \<noteq> JStr (r_id tp) then Inl (fail ''DISCUSSION_SCOPE'' 422) else Inr post)))"

definition shares_ideas :: "row \<Rightarrow> bool" where
  "shares_ideas experiment \<longleftrightarrow> field experiment ''sharing'' = JStr ''ideas''"

text \<open>What a post may refer to and attach, for the branch it is posted from.\<close>

definition reference_ok :: "world \<Rightarrow> principal \<Rightarrow> row \<Rightarrow> json \<Rightarrow> string \<Rightarrow> herr + unit" where
  "reference_ok w actor experiment post_branch i =
     bindE (discussion_post w (JStr i) actor None) (\<lambda>reference.
     bindE (need reference ''experiment_id'') (\<lambda>e.
     if e \<noteq> JStr (r_id experiment) then Inl (fail ''DISCUSSION_SCOPE'' 409)
     else if truthy post_branch \<and> field reference ''branch_id'' \<noteq> post_branch \<and>
             \<not> shares_ideas experiment
     then Inl (fail ''SHARING_POLICY'' 403) else Inr ()))"

definition evidence_public :: "row \<Rightarrow> json \<Rightarrow> herr + unit" where
  "evidence_public artifact experiment_id =
     (if field artifact ''experiment_id'' \<noteq> experiment_id \<or>
         in_strings (field artifact ''artifact_kind'') private_artifact_kinds
      then Inl (fail ''EVIDENCE_SCOPE'' 409) else Inr ())"

definition attachment_ok :: "world \<Rightarrow> principal \<Rightarrow> row \<Rightarrow> json \<Rightarrow> string \<Rightarrow> herr + unit" where
  "attachment_ok w actor experiment post_branch i =
     bindE (get_row w Artifact (JStr i) actor) (\<lambda>artifact.
     bindE (evidence_public artifact (JStr (r_id experiment))) (\<lambda>_.
     if truthy post_branch \<and> field artifact ''branch_id'' \<noteq> post_branch \<and>
        \<not> shares_ideas experiment
     then Inl (fail ''SHARING_POLICY'' 403) else Inr ()))"

definition post_discussion_action :: "string \<Rightarrow> post_create \<Rightarrow> principal \<Rightarrow> action" where
  "post_discussion_action topic_id request actor op w =
     bindE (discussion_topic w (JStr topic_id) actor) (\<lambda>(topic, experiment, _).
     if truthy (field topic ''node_id'') then Inl (fail ''NODE_THREAD_USE_COMMONS'' 409)
     else bindE (active w (JStr (r_id experiment)) actor) (\<lambda>_.
       let post_branch = (if pr_role actor = Agent then jopt (pr_branch actor)
                          else field topic ''branch_id'')
       in if pr_role actor = Agent \<and> field topic ''branch_id'' \<noteq> jopt (pr_branch actor) \<and>
             \<not> shares_ideas experiment
          then Inl (fail ''SHARING_POLICY'' 403)
          else bindE (if opt_true (pc_reply request)
                      then bindE (discussion_post w (jopt (pc_reply request)) actor (Some topic))
                             (\<lambda>_. Inr ())
                      else Inr ()) (\<lambda>_.
            bindE (checkE (reference_ok w actor experiment post_branch) (pc_references request)) (\<lambda>_.
            bindE (checkE (attachment_ok w actor experiment post_branch) (pc_artifacts request)) (\<lambda>_.
            insert_post op topic (post_data request @ [(''branch_id'', post_branch)]) actor w)))))"

definition post_discussion ::
  "int \<Rightarrow> string \<Rightarrow> post_create \<Rightarrow> principal \<Rightarrow> string \<Rightarrow> world \<Rightarrow> herr + (dict \<times> world)" where
  "post_discussion elapsed topic_id request actor key w =
     bindE (research_role actor) (\<lambda>_.
     execute elapsed actor key ''discussion.post''
       (JObj ((''topic_id'', JStr topic_id) # post_data request))
       (post_discussion_action topic_id request actor) w)"

section \<open>Reading posts and messages\<close>

definition safe_post :: "world \<Rightarrow> row \<Rightarrow> principal \<Rightarrow> herr + dict" where
  "safe_post w post actor =
     bindE (checkE (\<lambda>i. bindE (get_row w Artifact i actor) (\<lambda>artifact.
              bindE (need post ''experiment_id'') (evidence_public artifact)))
            (as_list (field post ''artifact_ids''))) (\<lambda>_.
     Inr (r_payload post))"

definition read_discussion_post :: "world \<Rightarrow> string \<Rightarrow> principal \<Rightarrow> herr + dict" where
  "read_discussion_post w post_id actor =
     bindE (research_role actor) (\<lambda>_.
     bindE (discussion_post w (JStr post_id) actor None) (\<lambda>post. safe_post w post actor))"

definition research_message ::
  "world \<Rightarrow> json \<Rightarrow> principal \<Rightarrow> string option \<Rightarrow> herr + row" where
  "research_message w message_id actor experiment_id =
     bindE (get_row w Message message_id actor) (\<lambda>message.
     if pr_role actor = Agent \<and> field message ''recipient_branch_id'' \<noteq> jopt (pr_branch actor)
     then Inl (fail ''NOT_FOUND'' 404)
     else if opt_true experiment_id \<and> field message ''experiment_id'' \<noteq> jopt experiment_id
     then Inl (fail ''NOT_FOUND'' 404)
     else bindE (checkE (\<lambda>i. bindE (get_row w Artifact i actor) (\<lambda>artifact.
              bindE (need message ''experiment_id'') (\<lambda>e.
              if field artifact ''experiment_id'' \<noteq> e then Inl (fail ''EVIDENCE_SCOPE'' 409)
              else Inr ())))
            (as_list (field message ''artifact_ids''))) (\<lambda>_. Inr message))"

definition read_research_message :: "world \<Rightarrow> string \<Rightarrow> principal \<Rightarrow> herr + dict" where
  "read_research_message w message_id actor =
     bindE (research_role actor) (\<lambda>_.
     bindE (research_message w (JStr message_id) actor None) (\<lambda>message.
     bindE (need message ''experiment_id'') (\<lambda>e.
     bindE (discussion_experiment w e actor) (\<lambda>_. Inr (r_payload message)))))"

section \<open>Pages of posts\<close>

definition discussion_cursor :: "int option \<Rightarrow> herr + int" where
  "discussion_cursor after =
     (case after of None \<Rightarrow> Inr 0
      | Some n \<Rightarrow> if n < 0 then Inl (fail ''INVALID_CURSOR'' 422) else Inr n)"

definition not_found :: "herr \<Rightarrow> bool" where
  "not_found e = (case e of Harness code _ _ \<Rightarrow> code = ''NOT_FOUND'' | _ \<Rightarrow> False)"

text \<open>The loop over the events of a page: a record out of scope is passed over, another error ends the
  read. The result is the items and how many events were scanned.\<close>

fun scan_posts ::
  "(event_row \<Rightarrow> herr + dict) \<Rightarrow> nat \<Rightarrow> event_row list \<Rightarrow> dict list \<times> nat \<Rightarrow>
   herr + (dict list \<times> nat)"
where
  "scan_posts reads limit [] st = Inr st"
| "scan_posts reads limit (e # es) (items, scanned) =
     (case reads e of
        Inl err \<Rightarrow>
          if not_found err then scan_posts reads limit es (items, Suc scanned) else Inl err
      | Inr item \<Rightarrow>
          if Suc (length items) = limit then Inr (items @ [item], Suc scanned)
          else scan_posts reads limit es (items @ [item], Suc scanned))"

record posts_page =
  k_items :: "dict list"
  k_next :: "int option"

definition discussion_event_page ::
  "event_row list \<Rightarrow> (event_row \<Rightarrow> herr + dict) \<Rightarrow> nat \<Rightarrow> herr + posts_page" where
  "discussion_event_page selected reads limit =
     (let scan_limit = max 100 limit; evs = take (Suc scan_limit) selected
      in bindE (scan_posts reads limit (take scan_limit evs) ([], 0)) (\<lambda>(items, scanned).
         Inr \<lparr>k_items = items,
              k_next = (if scanned < length evs then Some (e_sequence (evs ! (scanned - 1)))
                        else None)\<rparr>))"

definition select_events :: "(event_row \<Rightarrow> bool) \<Rightarrow> world \<Rightarrow> event_row list" where
  "select_events P w = sort_key e_sequence (filter P (events w))"

definition discussion_page ::
  "world \<Rightarrow> string \<Rightarrow> principal \<Rightarrow> int option \<Rightarrow> nat \<Rightarrow> herr + posts_page" where
  "discussion_page w experiment_id actor after limit =
     bindE (research_role actor) (\<lambda>_.
     if \<not> (1 \<le> limit \<and> limit \<le> 20) then Inl (fail ''INVALID_PAGE_SIZE'' 422)
     else bindE (discussion_cursor after) (\<lambda>cursor.
       bindE (discussion_experiment w (JStr experiment_id) actor) (\<lambda>_.
       discussion_event_page
         (select_events (\<lambda>e. e_project e = pr_project actor \<and>
            e_kind e = ''discussion.topic_created'' \<and> cursor < e_sequence e \<and>
            dget (e_payload e) ''experiment_id'' = JStr experiment_id) w)
         (\<lambda>e. bindE (dneed (e_payload e) ''topic_id'') (\<lambda>t.
              bindE (get_row w DiscussionTopic t actor) (\<lambda>topic. Inr (r_payload topic))))
         limit)))"

definition discussion_posts ::
  "world \<Rightarrow> string \<Rightarrow> principal \<Rightarrow> int option \<Rightarrow> nat \<Rightarrow> herr + posts_page" where
  "discussion_posts w topic_id actor after limit =
     bindE (research_role actor) (\<lambda>_.
     if \<not> (1 \<le> limit \<and> limit \<le> 20) then Inl (fail ''INVALID_PAGE_SIZE'' 422)
     else bindE (discussion_cursor after) (\<lambda>cursor.
       bindE (discussion_topic w (JStr topic_id) actor) (\<lambda>_.
       discussion_event_page
         (select_events (\<lambda>e. e_project e = pr_project actor \<and>
            e_kind e = ''discussion.post_created'' \<and> e_aggregate e = topic_id \<and>
            cursor < e_sequence e) w)
         (\<lambda>e. bindE (dneed (e_payload e) ''post_id'') (\<lambda>p.
              bindE (get_row w DiscussionPost p actor) (\<lambda>post. safe_post w post actor)))
         limit)))"

section \<open>Excerpts\<close>

definition post_excerpt :: "(int \<Rightarrow> string) \<Rightarrow> dict \<Rightarrow> herr + dict" where
  "post_excerpt stamp post =
     bindE (pick post [''id'', ''topic_id'', ''sequence'', ''post_kind'', ''attributed_to'']) (\<lambda>head.
     bindE (dneed post ''content'') (\<lambda>content.
     bounded_excerpt stamp
       (head @ [(''branch_id'', dget post ''branch_id''), (''excerpt'', JStr []),
          (''truncated'', JBool False), (''retrieval_post_id'', dget post ''id''),
          (''retrieval_id'', dget post ''id''), (''source_kind'', JStr ''discussion_post''),
          (''evidence_status'', JStr ''unverified_discussion'')])
       (text_of content)))"

definition message_excerpt :: "(int \<Rightarrow> string) \<Rightarrow> dict \<Rightarrow> int \<Rightarrow> herr + dict" where
  "message_excerpt stamp message seq_no =
     bindE (dneed message ''id'') (\<lambda>i.
     bindE (dneed message ''attributed_to'') (\<lambda>author.
     bindE (dneed message ''recipient_branch_id'') (\<lambda>recipient.
     bindE (dneed message ''content'') (\<lambda>content.
     bounded_excerpt stamp
       [(''id'', i), (''sequence'', JInt seq_no), (''source_kind'', JStr ''message''),
        (''attributed_to'', author), (''branch_id'', dget message ''sender_branch_id''),
        (''recipient_branch_id'', recipient), (''excerpt'', JStr []), (''truncated'', JBool False),
        (''retrieval_id'', i), (''evidence_status'', JStr ''attributed_idea'')]
       (text_of content)))))"

definition withdrawal_notice :: "json \<Rightarrow> dict" where
  "withdrawal_notice seq_no =
     [(''id'', JNull), (''sequence'', seq_no), (''source_kind'', JStr ''withdrawal''),
      (''excerpt'', JStr ''An addressed update is no longer available to this branch.''),
      (''truncated'', JBool False), (''retrieval_id'', JNull),
      (''reason'', JStr ''access_revoked''), (''evidence_status'', JStr ''withdrawn_unreadable'')]"

text \<open>\<open>_post_urgent\<close>: a status that closes the node, a route that compiled for the other claimants,
  an objection for the node's author.\<close>

definition platform_urgent :: "world \<Rightarrow> json \<Rightarrow> json \<Rightarrow> string option \<Rightarrow> herr + bool" where
  "platform_urgent w status node_id reader =
     (if dhas (as_dict status) ''compiled_by'' then
        (if \<not> opt_true reader \<or> jopt reader = dget (as_dict status) ''compiled_by'' then Inr False
         else bindE (active_claims w node_id (now w)) (\<lambda>claims.
           Inr (\<exists>c \<in> set claims. dget c ''branch_id'' = jopt reader)))
      else Inr (in_strings (dget (as_dict status) ''to'') [''accepted'', ''refuted'']))"

definition post_urgent :: "world \<Rightarrow> dict \<Rightarrow> json \<Rightarrow> principal \<Rightarrow> herr + bool" where
  "post_urgent w post node_id actor =
     (let status = dget post ''platform_status'';
          reader = (if pr_role actor = Agent then pr_branch actor else None)
      in if status \<noteq> JNull \<and> dget post ''origin_actor_id'' = JStr ''commons-platform''
         then platform_urgent w status node_id reader
         else bindE (dneed post ''post_kind'') (\<lambda>k.
           if k \<noteq> JStr ''objection'' \<or> \<not> opt_true reader \<or> dget post ''branch_id'' = jopt reader
           then Inr False
           else case find_json w node_id of
             None \<Rightarrow> Inr False
           | Some node \<Rightarrow>
               Inr (r_kind node = CommonsNode \<and> field node ''branch_id'' = jopt reader)))"

definition node_title :: "world \<Rightarrow> json \<Rightarrow> herr + json" where
  "node_title w node_id =
     (case find_json w node_id of
        None \<Rightarrow> Inl (ValueError ''node'')
      | Some node \<Rightarrow> bindE (need node ''title'') (\<lambda>t. Inr (JStr (take 80 (text_of t)))))"

definition node_thread_item ::
  "world \<Rightarrow> dict \<Rightarrow> row \<Rightarrow> principal \<Rightarrow> herr + dict" where
  "node_thread_item w post topic actor =
     bindE (need topic ''node_id'') (\<lambda>node_id.
     bindE (post_excerpt (stamp_of w) (dput ''content'' (JStr []) post)) (\<lambda>base.
     bindE (node_title w node_id) (\<lambda>title.
     bindE (post_urgent w post node_id actor) (\<lambda>urgent.
     bindE (dneed post ''content'') (\<lambda>content.
     let text = (if truthy (dget post ''abstract'') then text_of (dget post ''abstract'')
                 else text_of content);
         more_text = (dget post ''abstract'' \<noteq> JNull \<and> content \<noteq> dget post ''abstract'')
     in shrink_item (stamp_of w)
          (dmerge base [(''node_id'', node_id), (''node_title'', title),
             (''urgent'', JBool urgent)])
          more_text text (take excerpt_bytes (encode text)))))))"

definition push_skip :: "dict \<Rightarrow> bool \<Rightarrow> principal \<Rightarrow> bool" where
  "push_skip post urgent actor \<longleftrightarrow>
     (pr_branch actor \<noteq> None \<and> dget post ''branch_id'' = jopt (pr_branch actor)) \<or>
     (dget post ''platform_status'' \<noteq> JNull \<and> \<not> urgent)"

end
