(* ===== verification/Delivery.thy ===== *)
theory Delivery
  imports Threads
begin

text \<open>
  Deliveries (\<open>discussion.py\<close>): what a reader gets of its subscribed topics and of the messages to its
  branch. A reader has a cursor, the sequence it has acknowledged, and at most one pending delivery,
  which is shown again until it is acknowledged. Access is checked again at each step; what a reader
  may no longer see is withdrawn, not skipped. Locks are not modelled.
\<close>

section \<open>Access to a source\<close>

text \<open>A post is still pinned to the target, and what it refers to is there.\<close>

definition post_source_ok :: "world \<Rightarrow> row \<Rightarrow> row \<Rightarrow> principal \<Rightarrow> herr + unit" where
  "post_source_ok w source experiment actor =
     bindE (need experiment ''problem_id'') (\<lambda>p.
     case find_json w p of
       None \<Rightarrow> Inl (ValueError ''target'')
     | Some target \<Rightarrow>
         bindE (discussion_pins experiment target) (\<lambda>pins.
         if (case find_json w (field source ''topic_id'') of
               None \<Rightarrow> True
             | Some topic \<Rightarrow>
                 r_kind topic \<noteq> DiscussionTopic \<or> r_project topic \<noteq> pr_project actor \<or>
                 field topic ''experiment_id'' \<noteq> JStr (r_id experiment) \<or>
                 (\<exists>(k, v) \<in> set pins. field source k \<noteq> v \<or> field topic k \<noteq> v))
         then Inl (fail ''TARGET_CHANGED'' 409)
         else if \<exists>i \<in> set (as_list (field source ''reference_post_ids'')).
             (case find_json w i of
                None \<Rightarrow> True
              | Some r \<Rightarrow> r_kind r \<noteq> DiscussionPost \<or> r_project r \<noteq> pr_project actor \<or>
                  field r ''experiment_id'' \<noteq> JStr (r_id experiment))
         then Inl (fail ''DELIVERY_SOURCE_INVALID'' 409) else Inr ()))"

definition source_artifacts ::
  "world \<Rightarrow> row \<Rightarrow> row \<Rightarrow> principal \<Rightarrow> herr + row list" where
  "source_artifacts w source experiment actor =
     mapE (\<lambda>i. case find_json w i of
         None \<Rightarrow> Inl (fail ''DELIVERY_SOURCE_INVALID'' 409)
       | Some a \<Rightarrow>
           if r_kind a \<noteq> Artifact \<or> r_project a \<noteq> pr_project actor \<or>
              field a ''experiment_id'' \<noteq> JStr (r_id experiment)
           then Inl (fail ''DELIVERY_SOURCE_INVALID'' 409) else Inr a)
       (as_list (field source ''artifact_ids''))"

definition source_accessible ::
  "world \<Rightarrow> string \<Rightarrow> json \<Rightarrow> row \<Rightarrow> principal \<Rightarrow> herr + bool" where
  "source_accessible w source_kind source_id experiment actor =
     (if source_kind \<notin> {''message'', ''discussion_post''}
      then Inl (fail ''DELIVERY_SOURCE_INVALID'' 409)
      else case find_json w source_id of
        None \<Rightarrow> Inl (fail ''DELIVERY_SOURCE_MISSING'' 409)
      | Some source \<Rightarrow>
          if r_kind source \<noteq> (if source_kind = ''message'' then Message else DiscussionPost) \<or>
             r_project source \<noteq> pr_project actor \<or>
             field source ''experiment_id'' \<noteq> JStr (r_id experiment)
          then Inl (fail ''DELIVERY_SOURCE_MISSING'' 409)
          else bindE (if source_kind = ''message''
                      then if field source ''recipient_branch_id'' \<noteq> jopt (pr_branch actor)
                           then Inl (fail ''DELIVERY_SOURCE_INVALID'' 409) else Inr ()
                      else post_source_ok w source experiment actor) (\<lambda>_.
            bindE (source_artifacts w source experiment actor) (\<lambda>artifacts.
            Inr (in_scope w actor source \<and>
              (\<forall>a \<in> set artifacts.
                 \<not> (source_kind = ''discussion_post'' \<and>
                    in_strings (field a ''artifact_kind'') private_artifact_kinds) \<and>
                 in_scope w actor a)))))"

section \<open>Withdrawals\<close>

definition record_withdrawal ::
  "principal \<Rightarrow> json \<Rightarrow> string \<Rightarrow> json \<Rightarrow> json \<Rightarrow> string \<Rightarrow> json \<Rightarrow> world \<Rightarrow> herr + world" where
  "record_withdrawal actor experiment_id reader_key delivery_id seq_no source_kind source_id w =
     bindE (insert_row w DiscussionWithdrawal actor
       [(''experiment_id'', experiment_id), (''reader_key'', JStr reader_key),
        (''delivery_id'', delivery_id), (''event_sequence'', seq_no),
        (''source_kind'', JStr source_kind), (''source_record_id'', source_id),
        (''reason'', JStr ''access_revoked'')] None) (\<lambda>(audit, w1).
     Inr (emit actor (fst (new_id w1)) ''discussion.source_withdrawn'' (text_of (dget audit ''id''))
       [(''experiment_id'', experiment_id), (''event_sequence'', seq_no)] False (snd (new_id w1))))"

text \<open>One item of a stored delivery; the state is the revised items, whether one changed and the
  world.\<close>

definition sanitize_item ::
  "row \<Rightarrow> principal \<Rightarrow> string \<Rightarrow> string \<Rightarrow> json \<Rightarrow> json list \<times> bool \<times> world \<Rightarrow>
   herr + (json list \<times> bool \<times> world)"
where
  "sanitize_item experiment actor reader_key delivery_id item st =
     (case st of (revised, changed, w) \<Rightarrow>
        let d = as_dict item
        in bindE (dneed d ''source_kind'') (\<lambda>k.
           if k = JStr ''withdrawal'' then Inr (revised @ [item], changed, w)
           else bindE (dneed d ''id'') (\<lambda>i.
             bindE (source_accessible w (text_of k) i experiment actor) (\<lambda>accessible.
             if accessible then Inr (revised @ [item], changed, w)
             else bindE (dneed d ''sequence'') (\<lambda>s.
               bindE (record_withdrawal actor (JStr (r_id experiment)) reader_key (JStr delivery_id)
                 s (text_of k) i w) (\<lambda>w1.
               Inr (revised @ [JObj (withdrawal_notice s)], True, w1)))))))"

definition sanitize_delivery ::
  "row \<Rightarrow> row \<Rightarrow> principal \<Rightarrow> string \<Rightarrow> world \<Rightarrow> herr + (json list \<times> bool \<times> world)" where
  "sanitize_delivery delivery experiment actor reader_key w =
     bindE (need delivery ''items'') (\<lambda>items.
     bindE (foldE (sanitize_item experiment actor reader_key (r_id delivery)) (as_list items)
              ([], False, w)) (\<lambda>(revised, changed, w1).
     if changed then bindE (replace_row w1 delivery [(''items'', JList revised)] None)
       (\<lambda>(_, w2). Inr (revised, True, w2))
     else Inr (revised, False, w1)))"

section \<open>What a reader is due\<close>

definition topic_starts :: "row list \<Rightarrow> herr + (json \<times> int) list" where
  "topic_starts subscriptions =
     bindE (mapE (\<lambda>r. bindE (need r ''topic_id'') (\<lambda>t. bindE (need r ''start_sequence'') (\<lambda>s.
       Inr (t, as_int s)))) subscriptions) (\<lambda>pairs.
     Inr (fold (\<lambda>(t, s) d. AList.update t s d) pairs []))"

definition topic_clause :: "row \<Rightarrow> int \<Rightarrow> json \<Rightarrow> int \<Rightarrow> event_row \<Rightarrow> bool" where
  "topic_clause experiment ack topic_id start e \<longleftrightarrow>
     e_kind e = ''discussion.post_created'' \<and> JStr (e_aggregate e) = topic_id \<and>
     max ack start < e_sequence e \<and>
     dget (e_payload e) ''experiment_id'' = JStr (r_id experiment)"

definition message_clause :: "principal \<Rightarrow> int \<Rightarrow> event_row \<Rightarrow> bool" where
  "message_clause actor ack e \<longleftrightarrow>
     e_kind e = ''message.created'' \<and> Some (e_aggregate e) = pr_branch actor \<and> ack < e_sequence e"

definition delivery_clauses ::
  "world \<Rightarrow> row \<Rightarrow> principal \<Rightarrow> string \<Rightarrow> int \<Rightarrow> herr + (event_row \<Rightarrow> bool) list" where
  "delivery_clauses w experiment actor reader_key ack =
     (let subscriptions =
            take 101 (subscribed_rows (pr_project actor) (JStr (r_id experiment)) reader_key w)
      in if 100 < length subscriptions then Inl (fail ''SUBSCRIPTION_LIMIT'' 409)
         else bindE (topic_starts subscriptions) (\<lambda>starts.
           Inr (map (\<lambda>(t, s). topic_clause experiment ack t s) starts @
                (if pr_role actor = Agent then [message_clause actor ack] else []))))"

definition due_events :: "world \<Rightarrow> principal \<Rightarrow> (event_row \<Rightarrow> bool) list \<Rightarrow> event_row list" where
  "due_events w actor clauses =
     select_events (\<lambda>e. e_project e = pr_project actor \<and> (\<exists>c \<in> set clauses. c e)) w"

section \<open>Whether an update is due\<close>

fun anyE :: "('a \<Rightarrow> 'e + bool) \<Rightarrow> 'a list \<Rightarrow> 'e + bool" where
  "anyE f [] = Inr False"
| "anyE f (x # xs) = bindE (f x) (\<lambda>b. if b then Inr True else anyE f xs)"

definition relevant :: "world \<Rightarrow> principal \<Rightarrow> bool \<Rightarrow> event_row \<Rightarrow> herr + bool" where
  "relevant w actor society_on e =
     (if e_kind e = ''message.created'' then Inr True
      else bindE (dneed (e_payload e) ''post_id'') (\<lambda>p.
        case find_json w p of
          None \<Rightarrow> Inr False
        | Some post \<Rightarrow>
            if \<not> in_scope w actor post then Inr False
            else if \<not> (society_on \<and> truthy (field post ''node_id'')) then Inr True
            else bindE (post_urgent w (r_payload post) (field post ''node_id'') actor) (\<lambda>urgent.
              Inr (\<not> push_skip (r_payload post) urgent actor))))"

definition max_update_scan :: nat where "max_update_scan = 1000"

definition update_scan_page :: nat where "update_scan_page = 100"

function update_loop ::
  "(int \<Rightarrow> event_row list) \<Rightarrow> (event_row \<Rightarrow> herr + bool) \<Rightarrow> int \<Rightarrow> nat \<Rightarrow> herr + bool" where
  "update_loop due rel cursor scanned =
     (if scanned < max_update_scan then
        let n = min update_scan_page (max_update_scan - scanned); evs = take n (due cursor)
        in bindE (anyE rel evs) (\<lambda>found.
           if found then Inr True
           else if length evs < n then Inr False
           else update_loop due rel (e_sequence (last evs)) (scanned + length evs))
      else Inr False)"
  by pat_completeness auto
termination
  by (relation "measure (\<lambda>(_, _, _, scanned). max_update_scan - scanned)")
    (auto simp: max_update_scan_def update_scan_page_def)

declare update_loop.simps [simp del]

definition pending_update :: "world \<Rightarrow> row \<Rightarrow> principal \<Rightarrow> int \<Rightarrow> herr + bool" where
  "pending_update w experiment actor after =
     bindE (discussion_reader_key actor) (\<lambda>reader_key.
     bindE (delivery_clauses w experiment actor reader_key after) (\<lambda>clauses.
     if clauses = [] then Inr False
     else update_loop
       (\<lambda>cursor. filter (\<lambda>e. cursor < e_sequence e) (due_events w actor clauses))
       (relevant w actor (truthy (field experiment ''society''))) after 0))"

section \<open>Filling a delivery\<close>

text \<open>What becomes of one event: its source is withdrawn, passed over or shown.\<close>

datatype delivery_step =
    Withdraw string json
  | Pass_Over
  | Show_Item dict

definition post_step :: "world \<Rightarrow> json \<Rightarrow> principal \<Rightarrow> bool \<Rightarrow> herr + delivery_step" where
  "post_step w source_id actor society_on =
     bindE (discussion_post w source_id actor None) (\<lambda>post.
     bindE (safe_post w post actor) (\<lambda>safe.
     bindE (dneed safe ''topic_id'') (\<lambda>t.
     case find_json w t of
       None \<Rightarrow> Inl (ValueError ''topic'')
     | Some topic \<Rightarrow>
         if truthy (field topic ''node_id'') then
           bindE (node_thread_item w safe topic actor) (\<lambda>item.
           if society_on \<and> push_skip safe (truthy (dget item ''urgent'')) actor then Inr Pass_Over
           else Inr (Show_Item item))
         else bindE (post_excerpt (stamp_of w) safe) (\<lambda>item. Inr (Show_Item item)))))"

definition event_step ::
  "world \<Rightarrow> row \<Rightarrow> principal \<Rightarrow> event_row \<Rightarrow> herr + delivery_step" where
  "event_step w experiment actor e =
     (let source_kind = (if e_kind e = ''message.created'' then ''message'' else ''discussion_post'')
      in bindE (dneed (e_payload e)
                 (if source_kind = ''message'' then ''message_id'' else ''post_id'')) (\<lambda>source_id.
         bindE (source_accessible w source_kind source_id experiment actor) (\<lambda>accessible.
         if \<not> accessible then Inr (Withdraw source_kind source_id)
         else if source_kind = ''message'' then
           bindE (research_message w source_id actor (Some (r_id experiment))) (\<lambda>message.
           bindE (message_excerpt (stamp_of w) (r_payload message) (e_sequence e)) (\<lambda>item.
           Inr (Show_Item item)))
         else post_step w source_id actor (truthy (field experiment ''society'')))))"

definition delivery_bytes :: nat where "delivery_bytes = 12000"

type_synonym filled = "dict list \<times> (json \<times> int \<times> string) list \<times> int"

fun fill_delivery ::
  "(int \<Rightarrow> string) \<Rightarrow> (event_row \<Rightarrow> herr + delivery_step) \<Rightarrow> nat \<Rightarrow> event_row list \<Rightarrow> filled \<Rightarrow>
   herr + filled"
where
  "fill_delivery stamp step limit [] st = Inr st"
| "fill_delivery stamp step limit (e # es) (items, withdrawals, processed) =
     bindE (step e) (\<lambda>what.
     case what of
       Pass_Over \<Rightarrow> fill_delivery stamp step limit es (items, withdrawals, e_sequence e)
     | _ \<Rightarrow>
         let (item, withdrawals') =
               (case what of Show_Item x \<Rightarrow> (x, withdrawals)
                | Withdraw k i \<Rightarrow> (withdrawal_notice (JInt (e_sequence e)),
                                  withdrawals @ [(i, e_sequence e, k)])
                | Pass_Over \<Rightarrow> ([], withdrawals))
         in if delivery_bytes < json_bytes stamp (JList (map JObj (items @ [item])))
            then Inr (items, withdrawals', processed)
            else if Suc (length items) = limit
            then Inr (items @ [item], withdrawals', e_sequence e)
            else fill_delivery stamp step limit es (items @ [item], withdrawals', e_sequence e))"

record update =
  u_delivery :: json
  u_items :: "dict list"
  u_next :: int
  u_redelivered :: bool

text \<open>The reader's record, made when it is missing.\<close>

definition open_reader ::
  "json \<Rightarrow> string \<Rightarrow> principal \<Rightarrow> world \<Rightarrow> herr + (row \<times> world)" where
  "open_reader experiment_id reader_key actor w =
     (case discussion_reader w experiment_id reader_key actor of
        Some r \<Rightarrow> Inr (r, w)
      | None \<Rightarrow>
          bindE (ensure_reader experiment_id reader_key actor w) (\<lambda>(made, w1).
          case find_json w1 (dget made ''id'') of
            None \<Rightarrow> Inl (ValueError ''reader'') | Some r \<Rightarrow> Inr (r, w1)))"

definition is_delivery_of :: "row \<Rightarrow> string \<Rightarrow> json \<Rightarrow> string \<Rightarrow> bool" where
  "is_delivery_of delivery project experiment_id reader_key \<longleftrightarrow>
     r_kind delivery = DiscussionDelivery \<and> r_project delivery = project \<and>
     field delivery ''reader_key'' = JStr reader_key \<and>
     field delivery ''experiment_id'' = experiment_id"

text \<open>A pending delivery is shown again.\<close>

definition redeliver ::
  "row \<Rightarrow> row \<Rightarrow> principal \<Rightarrow> string \<Rightarrow> world \<Rightarrow> herr + (update \<times> world)" where
  "redeliver reader experiment actor reader_key w =
     (case find_json w (field reader ''pending_delivery_id'') of
        None \<Rightarrow> Inl (fail ''DELIVERY_MISMATCH'' 409)
      | Some pending \<Rightarrow>
          if \<not> is_delivery_of pending (pr_project actor) (JStr (r_id experiment)) reader_key
          then Inl (fail ''DELIVERY_MISMATCH'' 409)
          else bindE (sanitize_delivery pending experiment actor reader_key w)
            (\<lambda>(items, _, w1).
            bindE (need pending ''end_sequence'') (\<lambda>e.
            Inr (\<lparr>u_delivery = field reader ''pending_delivery_id'', u_items = map as_dict items,
                   u_next = as_int e, u_redelivered = True\<rparr>, w1))))"

definition nothing_new :: "int \<Rightarrow> update" where
  "nothing_new cursor = \<lparr>u_delivery = JNull, u_items = [], u_next = cursor, u_redelivered = False\<rparr>"

definition urgent_first :: "dict list \<Rightarrow> dict list" where
  "urgent_first items = sort_key (\<lambda>item. \<not> truthy (dget item ''urgent'')) items"

text \<open>A new delivery is stored, with the withdrawals it covers, and becomes the pending one.\<close>

definition store_delivery ::
  "row \<Rightarrow> row \<Rightarrow> principal \<Rightarrow> string \<Rightarrow> int \<Rightarrow> filled \<Rightarrow> world \<Rightarrow> herr + (update \<times> world)" where
  "store_delivery reader experiment actor reader_key ack st w =
     (case st of (items0, withdrawals, processed) \<Rightarrow>
        let e = JStr (r_id experiment); items = urgent_first items0
        in bindE (insert_row w DiscussionDelivery actor
             [(''experiment_id'', e), (''reader_key'', JStr reader_key),
              (''start_sequence'', JInt ack), (''end_sequence'', JInt processed),
              (''items'', JList (map JObj items)), (''status'', JStr ''pending'')] None)
             (\<lambda>(delivery, w1).
           bindE (foldE (\<lambda>(i, s, k). record_withdrawal actor e reader_key (dget delivery ''id'')
                    (JInt s) k i)
                  (filter (\<lambda>(_, s, _). s \<le> processed) withdrawals) w1) (\<lambda>w2.
           bindE (replace_row w2 reader [(''pending_delivery_id'', dget delivery ''id'')] None)
             (\<lambda>(_, w3).
           Inr (\<lparr>u_delivery = dget delivery ''id'', u_items = items, u_next = processed,
                  u_redelivered = False\<rparr>, w3)))))"

definition new_delivery ::
  "row \<Rightarrow> row \<Rightarrow> principal \<Rightarrow> string \<Rightarrow> int \<Rightarrow> nat \<Rightarrow> world \<Rightarrow> herr + (update \<times> world)" where
  "new_delivery reader experiment actor reader_key ack limit w =
     bindE (delivery_clauses w experiment actor reader_key ack) (\<lambda>clauses.
     if clauses = [] then Inr (nothing_new ack, w)
     else bindE (fill_delivery (stamp_of w) (event_step w experiment actor) limit
                   (take 100 (due_events w actor clauses)) ([], [], ack)) (\<lambda>st.
       if fst st \<noteq> [] then store_delivery reader experiment actor reader_key ack st w
       else let processed = snd (snd st)
            in bindE (if ack < processed
                      then replace_row w reader [(''ack_sequence'', JInt processed)] None
                      else Inr ([], w)) (\<lambda>(_, w1). Inr (nothing_new processed, w1))))"

definition discussion_updates ::
  "string \<Rightarrow> principal \<Rightarrow> int option \<Rightarrow> nat \<Rightarrow> world \<Rightarrow> herr + (update \<times> world)" where
  "discussion_updates experiment_id actor after limit w =
     bindE (research_role actor) (\<lambda>_.
     if \<not> (1 \<le> limit \<and> limit \<le> 10) then Inl (fail ''INVALID_PAGE_SIZE'' 422)
     else bindE (discussion_cursor after) (\<lambda>cursor.
       bindE (discussion_reader_key actor) (\<lambda>reader_key.
       bindE (discussion_experiment w (JStr experiment_id) actor) (\<lambda>(experiment, _).
       bindE (check_effects w actor) (\<lambda>_.
       bindE (open_reader (JStr experiment_id) reader_key actor w) (\<lambda>(reader, w1).
       bindE (need reader ''ack_sequence'') (\<lambda>ack.
       if after \<noteq> None \<and> JInt cursor \<noteq> ack then Inl (fail ''INVALID_CURSOR'' 409)
       else if truthy (field reader ''pending_delivery_id'')
       then redeliver reader experiment actor reader_key w1
       else new_delivery reader experiment actor reader_key (as_int ack) limit w1)))))))"

section \<open>Acknowledging\<close>

text \<open>The first transaction: withdrawals of the pending delivery are stored before any
  acknowledgement.\<close>

definition recheck_delivery ::
  "string \<Rightarrow> string \<Rightarrow> principal \<Rightarrow> world \<Rightarrow> herr + (bool \<times> world)" where
  "recheck_delivery experiment_id delivery_id actor w =
     bindE (discussion_experiment w (JStr experiment_id) actor) (\<lambda>(experiment, _).
     bindE (check_effects w actor) (\<lambda>_.
     bindE (discussion_reader_key actor) (\<lambda>reader_key.
     case discussion_reader w (JStr experiment_id) reader_key actor of
       None \<Rightarrow> Inr (False, w)
     | Some reader \<Rightarrow>
         if field reader ''pending_delivery_id'' \<noteq> JStr delivery_id then Inr (False, w)
         else case find_row w delivery_id of
           None \<Rightarrow> Inr (False, w)
         | Some delivery \<Rightarrow>
             if \<not> is_delivery_of delivery (pr_project actor) (JStr experiment_id) reader_key
             then Inr (False, w)
             else bindE (sanitize_delivery delivery experiment actor reader_key w)
               (\<lambda>(_, changed, w1). Inr (changed, w1)))))"

definition kinds_of :: "json list \<Rightarrow> herr + json list" where
  "kinds_of items = mapE (\<lambda>item. dneed (as_dict item) ''source_kind'') items"

definition acknowledged :: "string \<Rightarrow> json \<Rightarrow> json list \<Rightarrow> herr + dict" where
  "acknowledged delivery_id end_sequence items =
     bindE (kinds_of items) (\<lambda>ks.
     Inr [(''delivery_id'', JStr delivery_id), (''acknowledged'', JBool True),
          (''next_cursor'', end_sequence),
          (''delivered_count'', JInt (int (length (filter (\<lambda>k. k \<noteq> JStr ''withdrawal'') ks)))),
          (''withdrawn_count'', JInt (int (length (filter (\<lambda>k. k = JStr ''withdrawal'') ks))))])"

definition unchanged_field :: "row \<Rightarrow> string \<Rightarrow> json \<Rightarrow> herr + unit" where
  "unchanged_field r k v =
     bindE (need r k) (\<lambda>x. if x \<noteq> v then Inl (fail ''DELIVERY_MISMATCH'' 409) else Inr ())"

definition pending_delivery ::
  "world \<Rightarrow> string \<Rightarrow> string \<Rightarrow> string \<Rightarrow> principal \<Rightarrow> herr + (row \<times> row)" where
  "pending_delivery w experiment_id delivery_id reader_key actor =
     (case discussion_reader w (JStr experiment_id) reader_key actor of
        None \<Rightarrow> Inl (fail ''DELIVERY_MISMATCH'' 409)
      | Some reader \<Rightarrow>
          if field reader ''pending_delivery_id'' \<noteq> JStr delivery_id
          then Inl (fail ''DELIVERY_MISMATCH'' 409)
          else case find_row w delivery_id of
            None \<Rightarrow> Inl (fail ''DELIVERY_MISMATCH'' 409)
          | Some delivery \<Rightarrow>
              if r_kind delivery \<noteq> DiscussionDelivery \<or> r_project delivery \<noteq> pr_project actor
              then Inl (fail ''DELIVERY_MISMATCH'' 409)
              else bindE (unchanged_field delivery ''reader_key'' (JStr reader_key)) (\<lambda>_.
                bindE (unchanged_field delivery ''experiment_id'' (JStr experiment_id)) (\<lambda>_.
                bindE (need reader ''ack_sequence'') (\<lambda>ack.
                bindE (unchanged_field delivery ''start_sequence'' ack) (\<lambda>_.
                bindE (unchanged_field delivery ''status'' (JStr ''pending'')) (\<lambda>_.
                Inr (reader, delivery)))))))"

definition acknowledge_action :: "string \<Rightarrow> string \<Rightarrow> principal \<Rightarrow> action" where
  "acknowledge_action experiment_id delivery_id actor op w =
     bindE (discussion_experiment w (JStr experiment_id) actor) (\<lambda>(experiment, _).
     bindE (discussion_reader_key actor) (\<lambda>reader_key.
     bindE (pending_delivery w experiment_id delivery_id reader_key actor) (\<lambda>(reader, delivery).
     bindE (sanitize_delivery delivery experiment actor reader_key w) (\<lambda>(items, changed, w1).
     if changed then Inl (fail ''DELIVERY_CHANGED'' 409)
     else bindE (need delivery ''end_sequence'') (\<lambda>e.
       bindE (replace_row w1 delivery [(''status'', JStr ''acknowledged'')] None) (\<lambda>(_, w2).
       bindE (replace_row w2 reader
         [(''ack_sequence'', e), (''pending_delivery_id'', JNull)] None) (\<lambda>(_, w3).
       bindE (acknowledged delivery_id e items) (\<lambda>result.
       Inr (result, emit actor op ''discussion.delivery_acknowledged'' delivery_id
         [(''experiment_id'', JStr experiment_id), (''end_sequence'', e)] False w3)))))))))"

text \<open>Two transactions, so the world after a refusal is part of the result: the first one may have
  committed.\<close>

definition acknowledge_discussion_updates ::
  "int \<Rightarrow> string \<Rightarrow> string \<Rightarrow> principal \<Rightarrow> string \<Rightarrow> world \<Rightarrow> (herr + dict) \<times> world" where
  "acknowledge_discussion_updates elapsed experiment_id delivery_id actor key w =
     (case bindE (research_role actor) (\<lambda>_. recheck_delivery experiment_id delivery_id actor w) of
        Inl e \<Rightarrow> (Inl e, w)
      | Inr (changed, w1) \<Rightarrow>
          if changed then (Inl (fail ''DELIVERY_CHANGED'' 409), w1)
          else case execute elapsed actor key ''discussion.acknowledge''
                 (JObj [(''experiment_id'', JStr experiment_id),
                        (''delivery_id'', JStr delivery_id)])
                 (acknowledge_action experiment_id delivery_id actor) w1 of
              Inl e \<Rightarrow> (Inl e, w1)
            | Inr (result, w2) \<Rightarrow> (Inr result, w2))"

section \<open>A delivery covers what is due\<close>

text \<open>The item an event puts into a delivery, if any.\<close>

definition item_of :: "(event_row \<Rightarrow> herr + delivery_step) \<Rightarrow> event_row \<Rightarrow> dict list" where
  "item_of step e =
     (case step e of
        Inl _ \<Rightarrow> []
      | Inr Pass_Over \<Rightarrow> []
      | Inr (Withdraw _ _) \<Rightarrow> [withdrawal_notice (JInt (e_sequence e))]
      | Inr (Show_Item item) \<Rightarrow> [item])"

lemma fill_delivery_placed:
  assumes "item_of step e = [x]"
  shows "\<exists>ws. fill_delivery stamp step limit (e # es) (items, wds, p) =
    (if delivery_bytes < json_bytes stamp (JList (map JObj (items @ [x]))) then Inr (items, ws, p)
     else if Suc (length items) = limit then Inr (items @ [x], ws, e_sequence e)
     else fill_delivery stamp step limit es (items @ [x], ws, e_sequence e))"
proof (cases "step e")
  case (Inr what)
  then show ?thesis using assms by (cases what) (auto simp: item_of_def Let_def)
qed (use assms in \<open>simp add: item_of_def\<close>)

lemma fill_delivery_cover:
  assumes "fill_delivery stamp step limit es (items, wds, p) = Inr (items', wds', p')"
    and "sorted_wrt (\<lambda>x y. e_sequence x < e_sequence y) es" and "\<forall>e \<in> set es. p < e_sequence e"
  shows "(p' = p \<or> p' \<in> e_sequence ` set es) \<and>
    items' = items @ concat (map (item_of step) (filter (\<lambda>e. e_sequence e \<le> p') es))"
  using assms
proof (induction es arbitrary: items wds p)
  case (Cons e es)
  obtain what where what: "step e = Inr what"
    using Cons.prems(1) by (auto simp: bindE_Inr_iff)
  have later: "\<forall>x \<in> set es. e_sequence e < e_sequence x"
    and sorted: "sorted_wrt (\<lambda>x y. e_sequence x < e_sequence y) es"
    using Cons.prems(2) by auto
  have none: "filter (\<lambda>x. e_sequence x \<le> q) es = []" if "q \<le> e_sequence e" for q
    using later that by (auto simp: filter_empty_conv)
  have on: "(p' = p \<or> p' \<in> e_sequence ` set (e # es)) \<and>
      items' = items @ concat (map (item_of step) (filter (\<lambda>x. e_sequence x \<le> p') (e # es)))"
    if run: "fill_delivery stamp step limit es (items @ item_of step e, ws, e_sequence e)
        = Inr (items', wds', p')" for ws
  proof -
    note ih = Cons.IH [OF run sorted later]
    then have "e_sequence e \<le> p'" using later by auto
    then show ?thesis using ih by auto
  qed
  have pe: "p < e_sequence e" using Cons.prems(3) by simp
  have stop: ?case if "items' = items" "p' = p"
    using that none [of p] pe by simp
  have last_one: ?case if "items' = items @ item_of step e" "p' = e_sequence e"
    using that none [of "e_sequence e"] by simp
  show ?case
  proof (cases "item_of step e")
    case Nil
    then have "what = Pass_Over" using what by (auto simp: item_of_def split: delivery_step.splits)
    then show ?thesis using on [of wds] Cons.prems(1) what Nil by simp
  next
    case (Cons x xs)
    then have x: "item_of step e = [x]"
      using what by (auto simp: item_of_def split: delivery_step.splits)
    obtain ws where ws: "fill_delivery stamp step limit (e # es) (items, wds, p) =
      (if delivery_bytes < json_bytes stamp (JList (map JObj (items @ [x]))) then Inr (items, ws, p)
       else if Suc (length items) = limit then Inr (items @ [x], ws, e_sequence e)
       else fill_delivery stamp step limit es (items @ [x], ws, e_sequence e))"
      using fill_delivery_placed [OF x] by blast
    show ?thesis
    proof (cases "delivery_bytes < json_bytes stamp (JList (map JObj (items @ [x])))")
      case True
      then show ?thesis using Cons.prems(1) ws by (intro stop) simp_all
    next
      case fits: False
      show ?thesis
      proof (cases "Suc (length items) = limit")
        case True
        then show ?thesis using Cons.prems(1) ws fits x by (intro last_one) simp_all
      next
        case False
        then show ?thesis using Cons.prems(1) ws fits x by (intro on [of ws]) simp
      qed
    qed
  qed
qed simp

section \<open>Every item fits\<close>

lemma bounded_excerpt_bytes:
  "bounded_excerpt stamp item content = Inr d \<Longrightarrow> json_bytes stamp (JObj d) \<le> item_bytes"
  by (auto simp: bounded_excerpt_def Let_def fits_def split: if_splits)

lemma shrink_item_bytes:
  "shrink_item stamp item more_text text raw = Inr d \<Longrightarrow> json_bytes stamp (JObj d) \<le> item_bytes"
proof (induction stamp item more_text "text" raw rule: shrink_item.induct)
  case (1 stamp item more_text t raw)
  show ?case using 1(2)
    by (subst (asm) shrink_item.simps) (auto simp: Let_def split: if_splits intro: 1(1))
qed

lemma digit_bytes: "0 \<le> n \<Longrightarrow> n < 10 \<Longrightarrow> length (encode [digit_char n]) = 1"
proof -
  assume "0 \<le> n" "n < 10"
  then have "nat n < length ''0123456789''" by simp
  then have "digit_char n \<in> set ''0123456789''" unfolding digit_char_def by (rule nth_mem)
  moreover have "list_all (\<lambda>c. length (utf8_char c) = 1) ''0123456789''" by code_simp
  ultimately show ?thesis by (auto simp only: list_all_iff encode_simps append_Nil2)
qed

lemma show_nat_bytes: "0 \<le> n \<Longrightarrow> n < 10 ^ Suc k \<Longrightarrow> length (encode (show_nat n)) \<le> Suc k"
proof (induction k arbitrary: n)
  case 0
  then show ?case using digit_bytes [of n] by (subst show_nat.simps) simp
next
  case (Suc k)
  show ?case
  proof (cases "n < 10")
    case True
    then show ?thesis using Suc.prems digit_bytes [of n] by (subst show_nat.simps) simp
  next
    case False
    have "n div 10 < 10 ^ Suc k" using Suc.prems by (simp add: div_less_iff_less_mult)
    then have "length (encode (show_nat (n div 10))) \<le> Suc k" using Suc.IH [of "n div 10"] Suc.prems by simp
    then show ?thesis using False digit_bytes [of "n mod 10"]
      by (subst show_nat.simps) simp
  qed
qed

lemma notice_9: "json_bytes stamp (JObj (withdrawal_notice (JInt 9999999999999999999))) \<le> 400"
  by code_simp

lemma notice_bytes:
  assumes "0 \<le> n" and "n < 2 ^ 63"
  shows "json_bytes stamp (JObj (withdrawal_notice (JInt n))) \<le> item_bytes"
proof -
  have "n < 10 ^ Suc 18" using assms(2) by simp
  from show_nat_bytes [OF assms(1) this] have "json_bytes stamp (JInt n) \<le> 19"
    using assms(1) by (simp add: json_bytes_def show_int_def)
  moreover have "json_bytes stamp (JInt 9999999999999999999) = 19" by code_simp
  ultimately have "json_bytes stamp (JInt n) \<le> json_bytes stamp (JInt 9999999999999999999)" by simp
  then have "same_keys_smaller stamp (withdrawal_notice (JInt n))
      (withdrawal_notice (JInt 9999999999999999999))"
    by (simp add: same_keys_smaller_def withdrawal_notice_def)
  from json_bytes_obj_mono [OF this] show ?thesis
    using notice_9 [of stamp] by (simp add: item_bytes_def)
qed

lemma post_step_bytes:
  assumes "post_step w i actor on_society = Inr (Show_Item item)"
  shows "json_bytes (stamp_of w) (JObj item) \<le> item_bytes"
  using assms
  by (auto simp: post_step_def node_thread_item_def post_excerpt_def bindE_Inr_iff Let_def
      split: option.splits if_splits intro: bounded_excerpt_bytes shrink_item_bytes)

lemma event_item_bytes:
  assumes "x \<in> set (item_of (event_step w experiment actor) e)"
    and "0 \<le> e_sequence e" and "e_sequence e < 2 ^ 63"
  shows "json_bytes (stamp_of w) (JObj x) \<le> item_bytes"
proof (cases "event_step w experiment actor e")
  case (Inr what)
  show ?thesis
  proof (cases what)
    case (Withdraw k i)
    then show ?thesis using assms Inr notice_bytes by (simp add: item_of_def)
  next
    case Pass_Over
    then show ?thesis using assms(1) Inr by (simp add: item_of_def)
  next
    case (Show_Item item)
    then have "x = item" using assms(1) Inr by (simp add: item_of_def)
    then show ?thesis using Inr Show_Item
      by (auto simp: event_step_def message_excerpt_def bindE_Inr_iff Let_def
          split: if_splits intro: bounded_excerpt_bytes post_step_bytes)
  qed
qed (use assms(1) in \<open>simp add: item_of_def\<close>)

text \<open>So the first event that is due is always handled.\<close>

lemma fill_delivery_progress:
  assumes "fill_delivery stamp step limit (e # es) ([], wds, p) = Inr (items', wds', p')"
    and "sorted_wrt (\<lambda>x y. e_sequence x < e_sequence y) (e # es)"
    and "\<forall>x \<in> set (item_of step e). json_bytes stamp (JObj x) \<le> item_bytes"
  shows "e_sequence e \<le> p'"
proof -
  have later: "\<forall>x \<in> set es. e_sequence e < e_sequence x"
    and sorted: "sorted_wrt (\<lambda>x y. e_sequence x < e_sequence y) es" using assms(2) by auto
  have on: ?thesis if "fill_delivery stamp step limit es (xs, ws, e_sequence e) = Inr (items', wds', p')"
    for xs ws
    using fill_delivery_cover [OF that sorted later] later by auto
  obtain what where what: "step e = Inr what" using assms(1) by (auto simp: bindE_Inr_iff)
  show ?thesis
  proof (cases "item_of step e")
    case Nil
    then have "what = Pass_Over" using what by (auto simp: item_of_def split: delivery_step.splits)
    then show ?thesis using on assms(1) what by simp
  next
    case (Cons x xs)
    then have x: "item_of step e = [x]"
      using what by (auto simp: item_of_def split: delivery_step.splits)
    have "json_bytes stamp (JList [JObj x]) = json_bytes stamp (JObj x) + 2"
      by (simp add: json_bytes_def utf8_char_def)
    then have "\<not> delivery_bytes < json_bytes stamp (JList (map JObj ([] @ [x])))"
      using assms(3) x by (simp add: delivery_bytes_def item_bytes_def)
    moreover obtain ws where "fill_delivery stamp step limit (e # es) ([], wds, p) =
      (if delivery_bytes < json_bytes stamp (JList (map JObj ([] @ [x]))) then Inr ([], ws, p)
       else if Suc (length ([] :: dict list)) = limit then Inr ([] @ [x], ws, e_sequence e)
       else fill_delivery stamp step limit es ([] @ [x], ws, e_sequence e))"
      using fill_delivery_placed [OF x] by blast
    ultimately show ?thesis using assms(1) on by (auto split: if_splits)
  qed
qed

lemma delivery_clauses_after:
  assumes "delivery_clauses w experiment actor rk ack = Inr clauses" and "c \<in> set clauses" and "c e"
  shows "ack < e_sequence e"
  using assms
  by (auto simp: delivery_clauses_def bindE_Inr_iff Let_def topic_clause_def message_clause_def
      split: if_splits)

lemma due_events_facts:
  assumes "delivery_clauses w experiment actor rk ack = Inr clauses" and "events_ok w"
  shows "sorted_wrt (\<lambda>x y. e_sequence x < e_sequence y) (due_events w actor clauses)"
    and "\<forall>e \<in> set (due_events w actor clauses). ack < e_sequence e \<and> e \<in> set (events w)"
  using assms(2) delivery_clauses_after [OF assms(1)]
  by (auto simp: due_events_def select_events_def events_ok_def intro!: sorted_key_strict)

text \<open>The first hundred of what is due decide: whatever comes later is behind the cursor reached.\<close>

lemma fill_delivery_due:
  fixes due :: "event_row list"
  assumes "fill_delivery stamp step limit (take n due) ([], [], ack) = Inr (items, wds, p)"
    and "sorted_wrt (\<lambda>x y. e_sequence x < e_sequence y) due" and "\<forall>e \<in> set due. ack < e_sequence e"
  shows "ack \<le> p"
    "items = concat (map (item_of step) (filter (\<lambda>e. e_sequence e \<le> p) due))"
proof -
  have split: "sorted_wrt (\<lambda>x y. e_sequence x < e_sequence y) (take n due @ drop n due)"
    using assms(2) by simp
  then have sorted: "sorted_wrt (\<lambda>x y. e_sequence x < e_sequence y) (take n due)"
    and behind: "\<forall>x \<in> set (take n due). \<forall>y \<in> set (drop n due). e_sequence x < e_sequence y"
    unfolding sorted_wrt_append by blast+
  have first: "\<forall>e \<in> set (take n due). ack < e_sequence e" "\<forall>e \<in> set (drop n due). ack < e_sequence e"
    using assms(3) by (meson in_set_takeD in_set_dropD)+
  note cover = fill_delivery_cover [OF assms(1) sorted first(1)]
  then show "ack \<le> p" using first(1) by auto
  have "p < e_sequence e" if "e \<in> set (drop n due)" for e
    using cover behind first(2) that by auto
  then have "filter (\<lambda>e. e_sequence e \<le> p) (drop n due) = []"
    unfolding filter_empty_conv by fastforce
  then have "filter (\<lambda>e. e_sequence e \<le> p) (take n due) = filter (\<lambda>e. e_sequence e \<le> p) due"
    by (metis append_Nil2 append_take_drop_id filter_append)
  then show "items = concat (map (item_of step) (filter (\<lambda>e. e_sequence e \<le> p) due))"
    using cover by simp
qed

text \<open>Urgent items first, and each of the two parts in the order of the events.\<close>

lemma insort_key_not:
  "insort_key (\<lambda>x. \<not> P x) x (filter P xs @ filter (\<lambda>x. \<not> P x) xs) =
     filter P (x # xs) @ filter (\<lambda>x. \<not> P x) (x # xs)"
proof -
  have "insort_key (\<lambda>x. \<not> P x) x (ys @ zs) = ys @ insort_key (\<lambda>x. \<not> P x) x zs"
    if "\<not> P x" "list_all P ys" for ys zs
    using that by (induction ys) auto
  moreover have "insort_key (\<lambda>x. \<not> P x) x zs = x # zs" if "\<not> P x" "list_all (\<lambda>x. \<not> P x) zs" for zs
    using that by (cases zs) auto
  moreover have "insort_key (\<lambda>x. \<not> P x) x zs = x # zs" if "P x" for zs
    using that by (cases zs) auto
  ultimately show ?thesis by (cases "P x") (simp_all add: list_all_iff)
qed

lemma sort_key_not:
  "sort_key (\<lambda>x. \<not> P x) xs = filter P xs @ filter (\<lambda>x. \<not> P x) xs"
proof (induction xs)
  case (Cons x xs)
  then show ?case using insort_key_not [of P x xs] by (simp add: sort_key_def)
qed simp

definition is_urgent :: "dict \<Rightarrow> bool" where
  "is_urgent item = truthy (dget item ''urgent'')"

lemma urgent_first_eq:
  "urgent_first items = filter is_urgent items @ filter (\<lambda>item. \<not> is_urgent item) items"
  unfolding urgent_first_def is_urgent_def by (rule sort_key_not)

lemma urgent_first_Nil [simp]: "urgent_first [] = []"
  by (simp add: urgent_first_def)

lemma new_delivery_cover:
  assumes "new_delivery reader experiment actor rk ack limit w = Inr (u, w')"
    and "delivery_clauses w experiment actor rk ack = Inr clauses" and "events_ok w"
    and "\<forall>e \<in> set (events w). e_sequence e < 2 ^ 63"
  shows "\<not> u_redelivered u" "ack \<le> u_next u"
    "u_items u = urgent_first (concat (map (item_of (event_step w experiment actor))
       (filter (\<lambda>e. e_sequence e \<le> u_next u) (due_events w actor clauses))))"
    "due_events w actor clauses \<noteq> [] \<Longrightarrow> ack < u_next u"
proof -
  let ?due = "due_events w actor clauses" and ?step = "event_step w experiment actor"
  note due = due_events_facts [OF assms(2,3)]
  have main: "\<not> u_redelivered u \<and> ack \<le> u_next u \<and>
    u_items u = urgent_first (concat (map (item_of ?step)
       (filter (\<lambda>e. e_sequence e \<le> u_next u) ?due))) \<and> (?due \<noteq> [] \<longrightarrow> ack < u_next u)"
  proof (cases "clauses = []")
    case True
    then have "?due = []" by (simp add: due_events_def select_events_def)
    then show ?thesis using assms(1,2) True by (auto simp: new_delivery_def nothing_new_def)
  next
    case False
    obtain items wds p where run: "fill_delivery (stamp_of w) ?step limit (take 100 ?due)
        ([], [], ack) = Inr (items, wds, p)"
      using assms(1,2) False by (auto simp: new_delivery_def bindE_Inr_iff simp del: bindE_simps)
    have ahead: "\<forall>e \<in> set ?due. ack < e_sequence e" using due(2) by blast
    note cover = fill_delivery_due [OF run due(1) ahead]
    have u: "\<not> u_redelivered u \<and> u_next u = p \<and> u_items u = urgent_first items"
      using assms(1,2) False run
      by (auto simp: new_delivery_def store_delivery_def nothing_new_def
          bindE_Inr_iff Let_def split: if_splits)
    have "ack < p" if some: "?due \<noteq> []"
    proof -
      obtain e es where es: "take 100 ?due = e # es" using some by (cases ?due) auto
      then have e: "e \<in> set ?due" by (metis in_set_takeD list.set_intros(1))
      have seq: "0 \<le> e_sequence e" "e_sequence e < 2 ^ 63"
        using e due(2) assms(3,4) by (auto simp: events_ok_def less_imp_le)
      have "e_sequence e \<le> p"
      proof (rule fill_delivery_progress)
        show "fill_delivery (stamp_of w) ?step limit (e # es) ([], [], ack) = Inr (items, wds, p)"
          using run es by simp
        show "sorted_wrt (\<lambda>x y. e_sequence x < e_sequence y) (e # es)"
          using due(1) es by (metis sorted_wrt_take)
        show "\<forall>x \<in> set (item_of ?step e). json_bytes (stamp_of w) (JObj x) \<le> item_bytes"
          using event_item_bytes seq by blast
      qed
      then show ?thesis using ahead e by force
    qed
    then show ?thesis using u cover by auto
  qed
  then show "\<not> u_redelivered u" "ack \<le> u_next u"
    "u_items u = urgent_first (concat (map (item_of ?step)
       (filter (\<lambda>e. e_sequence e \<le> u_next u) ?due)))"
    "?due \<noteq> [] \<Longrightarrow> ack < u_next u" by blast+
qed

section \<open>An acknowledgement withdraws nothing\<close>

lemma sanitize_items_unchanged:
  assumes "foldE (sanitize_item experiment actor rk d) items (rs, c, w) = Inr (rs', False, w')"
  shows "\<not> c \<and> w' = w \<and> rs' = rs @ items \<and>
    (\<forall>item \<in> set items. dget (as_dict item) ''source_kind'' = JStr ''withdrawal'' \<or>
       source_accessible w (text_of (dget (as_dict item) ''source_kind'')) (dget (as_dict item) ''id'')
         experiment actor = Inr True)"
  using assms
proof (induction items arbitrary: rs c w)
  case (Cons item items)
  obtain rs1 c1 w1 where one: "sanitize_item experiment actor rk d item (rs, c, w) = Inr (rs1, c1, w1)"
    and rest: "foldE (sanitize_item experiment actor rk d) items (rs1, c1, w1) = Inr (rs', False, w')"
    using Cons.prems by (auto simp: bindE_Inr_iff)
  note ih = Cons.IH [OF rest]
  then have "\<not> c1" by simp
  obtain k where k: "dneed (as_dict item) ''source_kind'' = Inr k"
    using one by (auto simp: sanitize_item_def bindE_Inr_iff Let_def)
  then have kind: "dget (as_dict item) ''source_kind'' = k"
    by (auto simp: dneed_def dget_def split: option.splits)
  show ?case
  proof (cases "k = JStr ''withdrawal''")
    case True
    then show ?thesis using one ih k kind by (simp add: sanitize_item_def Let_def)
  next
    case False
    obtain i b where i: "dneed (as_dict item) ''id'' = Inr i"
      and b: "source_accessible w (text_of k) i experiment actor = Inr b"
      using one unfolding sanitize_item_def Let_def prod.case k bindE_simps if_not_P [OF False] bindE_Inr_iff
      by blast
    have "b"
    proof (rule ccontr)
      assume "\<not> b"
      then have "c1" using one unfolding sanitize_item_def Let_def prod.case k bindE_simps i b if_not_P [OF False]
        by (auto simp: bindE_Inr_iff)
      then show False using \<open>\<not> c1\<close> by blast
    qed
    then have acc: "source_accessible w (text_of k) i experiment actor = Inr True"
      and st: "rs1 = rs @ [item]" "c1 = c" "w1 = w"
      using one unfolding sanitize_item_def Let_def prod.case k bindE_simps i b if_not_P [OF False]
      by (simp_all add: b)
    have "dget (as_dict item) ''id'' = i"
      using i by (auto simp: dneed_def dget_def split: option.splits)
    then show ?thesis using ih acc st kind by simp
  qed
qed simp

lemma sanitize_unchanged:
  assumes "sanitize_delivery delivery experiment actor rk w = Inr (revised, False, w')"
  shows "w' = w" "revised = as_list (field delivery ''items'')"
    "\<forall>item \<in> set revised. dget (as_dict item) ''source_kind'' = JStr ''withdrawal'' \<or>
       source_accessible w (text_of (dget (as_dict item) ''source_kind'')) (dget (as_dict item) ''id'')
         experiment actor = Inr True"
proof -
  obtain items where items: "need delivery ''items'' = Inr items"
    and "foldE (sanitize_item experiment actor rk (r_id delivery)) (as_list items) ([], False, w)
      = Inr (revised, False, w')"
    using assms by (auto simp: sanitize_delivery_def bindE_Inr_iff split: if_splits)
  from sanitize_items_unchanged [OF this(2)] need_field [OF items]
  show "w' = w" "revised = as_list (field delivery ''items'')"
    "\<forall>item \<in> set revised. dget (as_dict item) ''source_kind'' = JStr ''withdrawal'' \<or>
       source_accessible w (text_of (dget (as_dict item) ''source_kind'')) (dget (as_dict item) ''id'')
         experiment actor = Inr True" by auto
qed

lemma recheck_unchanged:
  assumes "recheck_delivery eid d actor w = Inr (False, w')"
  shows "w' = w"
  using assms sanitize_unchanged(1)
  by (auto simp: recheck_delivery_def bindE_Inr_iff split: option.splits if_splits)

lemma pending_delivery_InrD:
  assumes "pending_delivery w eid d rk actor = Inr (reader, delivery)"
  shows "discussion_reader w (JStr eid) rk actor = Some reader"
    "field reader ''pending_delivery_id'' = JStr d" "find_row w d = Some delivery"
    "is_delivery_of delivery (pr_project actor) (JStr eid) rk"
    "field delivery ''status'' = JStr ''pending''"
    "field delivery ''start_sequence'' = field reader ''ack_sequence''"
  using assms
  by (auto simp: pending_delivery_def unchanged_field_def is_delivery_of_def bindE_Inr_iff
      split: option.splits if_splits dest!: need_field)

lemma discussion_reader_new_id [simp]:
  "discussion_reader (snd (new_id w)) e rk actor = discussion_reader w e rk actor"
  by (simp add: discussion_reader_def)

lemma acknowledge_action_InrD:
  assumes "acknowledge_action eid d actor op w = Inr (result, w')" and "records_ok w"
  shows "\<exists>rk experiment target reader delivery.
    discussion_reader_key actor = Inr rk \<and>
    discussion_experiment w (JStr eid) actor = Inr (experiment, target) \<and>
    pending_delivery w eid d rk actor = Inr (reader, delivery) \<and>
    (\<exists>reader' delivery'.
       find_row w' (r_id reader) = Some reader' \<and> find_row w' d = Some delivery' \<and>
       field reader' ''ack_sequence'' = field delivery ''end_sequence'' \<and>
       field reader' ''pending_delivery_id'' = JNull \<and>
       field delivery' ''status'' = JStr ''acknowledged'' \<and>
       field delivery' ''items'' = field delivery ''items'')"
proof -
  obtain rk ex target reader delivery items w1 e x w2 y w3 where s:
      "discussion_experiment w (JStr eid) actor = Inr (ex, target)"
      "discussion_reader_key actor = Inr rk"
      "pending_delivery w eid d rk actor = Inr (reader, delivery)"
      "sanitize_delivery delivery ex actor rk w = Inr (items, False, w1)"
      "need delivery ''end_sequence'' = Inr e"
      "replace_row w1 delivery [(''status'', JStr ''acknowledged'')] None = Inr (x, w2)"
      "replace_row w2 reader [(''ack_sequence'', e), (''pending_delivery_id'', JNull)] None
        = Inr (y, w3)"
      "find_row w' = find_row w3"
    using assms(1) unfolding acknowledge_action_def bindE_Inr_iff if_Inl_Inr_iff split_paired_Ex prod.case
    by (auto simp: find_row_def fun_eq_iff)
  note pending = pending_delivery_InrD [OF s(3)]
  have same: "w1 = w" using sanitize_unchanged(1) [OF s(4)] .
  have d: "r_id delivery = d" using find_row_id [OF pending(3)] .
  note found = find_SomeD [OF pending(1) [unfolded discussion_reader_def]]
  have reader: "find_row w (r_id reader) = Some reader"
    using find_row_of_set [OF assms(2)] found by blast
  have "r_kind reader = DiscussionReader" using found by blast
  then have other: "r_id reader \<noteq> d"
    using reader pending(3,4) by (auto simp: is_delivery_of_def)
  have "\<exists>reader'. find_row w3 (r_id reader) = Some reader' \<and> r_payload reader' = y"
    using replace_row_found(1) [OF s(7)] by auto
  moreover have "\<exists>delivery'. find_row w3 d = Some delivery' \<and> r_payload delivery' = x"
    using replace_row_found(1) [OF s(6)] replace_row_found(2) [OF s(7), of d] other d by auto
  moreover have "dget y ''ack_sequence'' = e" "dget y ''pending_delivery_id'' = JNull"
    by (rule dget_replacement(2) [OF s(7)]; simp)+
  moreover have "dget x ''status'' = JStr ''acknowledged''"
    by (rule dget_replacement(2) [OF s(6)]) simp_all
  moreover have "dget x ''items'' = field delivery ''items''"
    by (rule dget_replacement(1) [OF s(6)]) simp_all
  ultimately show ?thesis using s(1-3,8) need_field [OF s(5)] by auto
qed

section \<open>Properties\<close>

text \<open>C5. An inbox loses nothing and never wedges: when a reader with nothing pending asks for its
  updates, it is given exactly the items of the events due to it up to the new cursor (an excerpt, the
  notice that a source was withdrawn, or nothing for an event the rules pass over), each once and
  nothing else, the urgent ones first and both parts in the order of their events; and whenever an
  event is due the cursor moves, whatever the peers wrote.\<close>

theorem deliveries_cover:
  assumes "discussion_updates eid actor after limit w = Inr (u, w')"
    and "discussion_reader_key actor = Inr rk"
    and "discussion_reader w (JStr eid) rk actor = Some reader"
    and "field reader ''ack_sequence'' = JInt ack"
    and "\<not> truthy (field reader ''pending_delivery_id'')"
    and "discussion_experiment w (JStr eid) actor = Inr (experiment, target)"
    and "delivery_clauses w experiment actor rk ack = Inr clauses"
    and "events_ok w" and "\<forall>e \<in> set (events w). e_sequence e < 2 ^ 63"
  shows "\<not> u_redelivered u \<and>
    (let shown = concat (map (item_of (event_step w experiment actor))
       (filter (\<lambda>e. e_sequence e \<le> u_next u) (due_events w actor clauses)))
     in u_items u = filter is_urgent shown @ filter (\<lambda>item. \<not> is_urgent item) shown) \<and>
    sorted_wrt (\<lambda>d e. e_sequence d < e_sequence e) (due_events w actor clauses) \<and>
    ack \<le> u_next u \<and> (due_events w actor clauses \<noteq> [] \<longrightarrow> ack < u_next u)"
proof -
  have "open_reader (JStr eid) rk actor w = Inr (reader, w)" by (simp add: open_reader_def assms(3))
  then obtain a where "need reader ''ack_sequence'' = Inr a"
    "new_delivery reader experiment actor rk (as_int a) limit w = Inr (u, w')"
    using assms(1,2,5,6) unfolding discussion_updates_def
    by (auto simp: bindE_Inr_iff split: if_splits)
  moreover from this have "as_int a = ack" using need_field assms(4) by (fastforce simp: as_int_def)
  ultimately have "new_delivery reader experiment actor rk ack limit w = Inr (u, w')" by simp
  from new_delivery_cover [OF this assms(7-9)] due_events_facts(1) [OF assms(7,8)] show ?thesis
    by (simp add: urgent_first_eq Let_def)
qed

text \<open>C23. Only what the reader was given can be acknowledged: a fresh acknowledgement finds the delivery
  pending at the reader's own cursor, with every item still readable or already shown as withdrawn, and
  moves the cursor to the delivery's end, so the same delivery is never pending again and the next one
  starts where this one stopped.\<close>

theorem acknowledgement_advances:
  assumes "acknowledge_discussion_updates elapsed eid d actor key w = (Inr result, w')"
    and "find_command w (command_key w actor key) = None" and "records_ok w"
  shows "\<exists>rk experiment reader delivery reader' delivery'.
    discussion_reader w (JStr eid) rk actor = Some reader \<and> find_row w d = Some delivery \<and>
    field reader ''pending_delivery_id'' = JStr d \<and>
    field delivery ''status'' = JStr ''pending'' \<and>
    field delivery ''start_sequence'' = field reader ''ack_sequence'' \<and>
    (\<forall>item \<in> set (as_list (field delivery ''items'')).
       dget (as_dict item) ''source_kind'' = JStr ''withdrawal'' \<or>
       source_accessible w (text_of (dget (as_dict item) ''source_kind''))
         (dget (as_dict item) ''id'') experiment actor = Inr True) \<and>
    find_row w' (r_id reader) = Some reader' \<and> find_row w' d = Some delivery' \<and>
    field reader' ''ack_sequence'' = field delivery ''end_sequence'' \<and>
    field reader' ''pending_delivery_id'' = JNull \<and>
    field delivery' ''status'' = JStr ''acknowledged'' \<and>
    field delivery' ''items'' = field delivery ''items''"
proof -
  obtain w1 where re: "recheck_delivery eid d actor w = Inr (False, w1)"
    and run: "execute elapsed actor key ''discussion.acknowledge''
       (JObj [(''experiment_id'', JStr eid), (''delivery_id'', JStr d)])
       (acknowledge_action eid d actor) w1 = Inr (result, w')"
    using assms(1) unfolding acknowledge_discussion_updates_def
    by (auto simp: bindE_def split: sum.splits if_splits)
  have w1: "w1 = w" using recheck_unchanged [OF re] .
  obtain w2 where act: "acknowledge_action eid d actor (fst (new_id w)) (snd (new_id w))
      = Inr (result, w2)" and same: "same_tables w2 w'"
    using execute_fresh [OF run [unfolded w1] assms(2)] .
  have ok: "records_ok (snd (new_id w))" using assms(3) by (simp add: records_ok_def)
  obtain rk ex target reader delivery reader' delivery' where a:
      "discussion_reader_key actor = Inr rk"
      "pending_delivery (snd (new_id w)) eid d rk actor = Inr (reader, delivery)"
      "find_row w2 (r_id reader) = Some reader'" "find_row w2 d = Some delivery'"
      "field reader' ''ack_sequence'' = field delivery ''end_sequence''"
      "field reader' ''pending_delivery_id'' = JNull"
      "field delivery' ''status'' = JStr ''acknowledged''"
      "field delivery' ''items'' = field delivery ''items''"
    using acknowledge_action_InrD [OF act ok] by auto
  note pending = pending_delivery_InrD [OF a(2), simplified]
  obtain ex target' where e: "discussion_experiment w (JStr eid) actor = Inr (ex, target')"
    using re unfolding recheck_delivery_def bindE_Inr_iff by auto
  obtain revised w3 where "sanitize_delivery delivery ex actor rk w = Inr (revised, False, w3)"
    using re e a(1) pending unfolding recheck_delivery_def by (auto simp: bindE_Inr_iff)
  from sanitize_unchanged(2,3) [OF this]
  have items: "\<forall>item \<in> set (as_list (field delivery ''items'')).
       dget (as_dict item) ''source_kind'' = JStr ''withdrawal'' \<or>
       source_accessible w (text_of (dget (as_dict item) ''source_kind''))
         (dget (as_dict item) ''id'') ex actor = Inr True" by simp
  show ?thesis
    using pending items a(3-8) same_tables_find(1) [OF same] by auto
qed

definition mailed :: world where
  "mailed = society\<lparr>records := records society @
     [sample_row Message ''ms''
        [(''experiment_id'', JStr ''e''), (''branch_id'', JStr ''b2''),
         (''sender_branch_id'', JStr ''b2''), (''recipient_branch_id'', JStr ''b1''),
         (''attributed_to'', JStr ''peer''), (''content'', JStr ''look at case two''),
         (''artifact_ids'', JList [])],
      sample_row DiscussionReader ''rd''
        [(''experiment_id'', JStr ''e''), (''branch_id'', JStr ''b1''), (''reader_key'', JStr ''branch:b1''),
         (''ack_sequence'', JInt 0), (''pending_delivery_id'', JNull)]],
     events := [\<lparr>e_sequence = 1, e_project = ''p'', e_kind = ''message.created'', e_aggregate = ''b1'',
       e_operation = ''op'', e_payload = [(''message_id'', JStr ''ms'')], e_created = 0\<rparr>]\<rparr>"

theorem deliveries_cover_witness:
  "\<exists>u w'. discussion_updates ''e'' sample_agent None 10 mailed = Inr (u, w') \<and>
     \<not> u_redelivered u \<and> 0 < u_next u"
proof -
  have "\<not> isl (discussion_updates ''e'' sample_agent None 10 mailed)" by code_simp
  then obtain u w' where run: "discussion_updates ''e'' sample_agent None 10 mailed = Inr (u, w')"
    by (rule succeedsE)
  let ?reader = "the (find_row mailed ''rd'')"
  have key: "discussion_reader_key sample_agent = Inr ''branch:b1''" by code_simp
  have reader: "discussion_reader mailed (JStr ''e'') ''branch:b1'' sample_agent = Some ?reader"
    "field ?reader ''ack_sequence'' = JInt 0" "\<not> truthy (field ?reader ''pending_delivery_id'')"
    by code_simp+
  have target: "discussion_experiment mailed (JStr ''e'') sample_agent =
      Inr (society_experiment, sample_problem)" by code_simp
  have clauses: "delivery_clauses mailed society_experiment sample_agent ''branch:b1'' 0 =
      Inr [message_clause sample_agent 0]"
  proof -
    have "subscribed_rows (pr_project sample_agent) (JStr (r_id society_experiment)) ''branch:b1'' mailed
        = []" by code_simp
    then show ?thesis by (simp add: delivery_clauses_def topic_starts_def sample_agent_def)
  qed
  have ok: "events_ok mailed" "\<forall>e \<in> set (events mailed). e_sequence e < 2 ^ 63"
    by (simp_all add: events_ok_def mailed_def)
  have "due_events mailed sample_agent [message_clause sample_agent 0] \<noteq> []" by code_simp
  with deliveries_cover [OF run key reader target clauses ok] run show ?thesis by blast
qed

definition presented :: world where
  "presented = mailed\<lparr>records := map (\<lambda>r. if r_id r = ''rd'' then sample_row DiscussionReader ''rd''
        [(''experiment_id'', JStr ''e''), (''branch_id'', JStr ''b1''), (''reader_key'', JStr ''branch:b1''),
         (''ack_sequence'', JInt 0), (''pending_delivery_id'', JStr ''dl'')] else r) (records mailed) @
     [sample_row DiscussionDelivery ''dl''
        [(''experiment_id'', JStr ''e''), (''branch_id'', JStr ''b1''), (''reader_key'', JStr ''branch:b1''),
         (''start_sequence'', JInt 0), (''end_sequence'', JInt 1), (''status'', JStr ''pending''),
         (''items'', JList [JObj [(''id'', JStr ''ms''), (''sequence'', JInt 1),
            (''source_kind'', JStr ''message'')]])]]\<rparr>"

theorem acknowledgement_advances_witness:
  "\<exists>result w' reader'. acknowledge_discussion_updates 0 ''e'' ''dl'' sample_agent ''k1'' presented
      = (Inr result, w') \<and>
    find_row w' ''rd'' = Some reader' \<and> field reader' ''ack_sequence'' = JInt 1"
proof -
  let ?run = "acknowledge_discussion_updates 0 ''e'' ''dl'' sample_agent ''k1'' presented"
  have "\<not> isl (fst ?run)" by code_simp
  then obtain result w' where run: "?run = (Inr result, w')" by (cases ?run; cases "fst ?run") auto
  have fresh: "find_command presented (command_key presented sample_agent ''k1'') = None" by code_simp
  have ok: "records_ok presented" by code_simp
  obtain rk reader delivery reader' delivery' where
      "discussion_reader presented (JStr ''e'') rk sample_agent = Some reader"
      "find_row presented ''dl'' = Some delivery"
      "find_row w' (r_id reader) = Some reader'"
      "field reader' ''ack_sequence'' = field delivery ''end_sequence''"
      "field reader ''pending_delivery_id'' = JStr ''dl''"
    using acknowledgement_advances [OF run fresh ok] by blast
  moreover have "list_all (\<lambda>r. field r ''pending_delivery_id'' = JStr ''dl'' \<longrightarrow> r_id r = ''rd'')
      (records presented)" by code_simp
  moreover have "field (the (find_row presented ''dl'')) ''end_sequence'' = JInt 1" by code_simp
  moreover have "reader \<in> set (records presented)"
    using calculation(1) find_SomeD unfolding discussion_reader_def by fastforce
  ultimately have "find_row w' ''rd'' = Some reader'" "field reader' ''ack_sequence'' = JInt 1"
    by (auto simp: list_all_iff)
  then show ?thesis using run by blast
qed

end
