(* ===== verification/Standing.thy ===== *)
theory Standing
  imports Excerpts
begin

text \<open>
  What a node's published Lean source proves (\<open>commons_sources.py\<close>, \<open>commons_models.py\<close>): its rank,
  whether it was checked against the node's current statement, whether a new source may replace it,
  and whether it still stands on the modules its check inlined. The last is decided by a walk with an
  explicit stack and a cache of verdicts; the verdict is the least solution of the rule it follows,
  whatever was judged before.
\<close>

section \<open>Ranks\<close>

datatype source_rank = Partial_Rank | Complete_Rank | Verified_Rank

fun rank_number :: "source_rank \<Rightarrow> nat" where
  "rank_number Partial_Rank = 1"
| "rank_number Complete_Rank = 2"
| "rank_number Verified_Rank = 3"

instantiation source_rank :: linorder
begin

definition less_eq_source_rank :: "source_rank \<Rightarrow> source_rank \<Rightarrow> bool" where
  "less_eq_source_rank r s \<longleftrightarrow> rank_number r \<le> rank_number s"

definition less_source_rank :: "source_rank \<Rightarrow> source_rank \<Rightarrow> bool" where
  "less_source_rank r s \<longleftrightarrow> rank_number r < rank_number s"

instance
proof
  fix r s t :: source_rank
  show "r < s \<longleftrightarrow> r \<le> s \<and> \<not> s \<le> r" "r \<le> r" "r \<le> s \<or> s \<le> r"
    by (auto simp: less_eq_source_rank_def less_source_rank_def)
  show "r \<le> t" if "r \<le> s" "s \<le> t" using that by (simp add: less_eq_source_rank_def)
  show "r = s" if "r \<le> s" "s \<le> r"
    using that by (cases r; cases s) (auto simp: less_eq_source_rank_def)
qed

end

definition rank_of :: "json \<Rightarrow> source_rank option" where
  "rank_of j =
     (if j = JStr ''partial'' then Some Partial_Rank
      else if j = JStr ''complete'' then Some Complete_Rank
      else if j = JStr ''verified'' then Some Verified_Rank else None)"

definition is_complete :: "json \<Rightarrow> bool" where
  "is_complete state \<longleftrightarrow> in_strings state [''complete'', ''verified'']"

section \<open>The current statement\<close>

definition lean_digest :: "world \<Rightarrow> json \<Rightarrow> json \<Rightarrow> json \<Rightarrow> json" where
  "lean_digest w header lean_name statement =
     (if statement = JNull then JNull
      else JStr (sha256_of w (canonical (stamp_of w)
             (JList [jor header (JStr []), lean_name, statement]))))"

definition statement_digest :: "world \<Rightarrow> dict \<Rightarrow> json" where
  "statement_digest w node =
     lean_digest w (dget node ''lean_header'') (dget node ''lean_name'') (dget node ''lean_statement'')"

definition is_stale :: "dict \<Rightarrow> json \<Rightarrow> bool" where
  "is_stale source digest \<longleftrightarrow> dget source ''lean_statement_sha256'' \<noteq> digest"

definition effective_rank :: "dict \<Rightarrow> json \<Rightarrow> herr + json" where
  "effective_rank source digest =
     bindE (dneed source ''rank'') (\<lambda>rank.
     Inr (if rank = JStr ''verified'' \<and> is_stale source digest then JStr ''complete'' else rank))"

definition has_elaborated_statement :: "dict \<Rightarrow> bool" where
  "has_elaborated_statement node \<longleftrightarrow>
     dget node ''lean_statement'' \<noteq> JNull \<and> truthy (dget node ''lean_elaborated'')"

definition statement_state :: "world \<Rightarrow> dict \<Rightarrow> herr + json" where
  "statement_state w node =
     (let source = dget node ''lean_source''
      in if truthy source then
           (if is_stale (as_dict source) (statement_digest w node) then Inr (JStr ''stale'')
            else dneed (as_dict source) ''rank'')
         else if has_elaborated_statement node then Inr (JStr ''stub'') else Inr (JStr ''none''))"

section \<open>Axioms\<close>

definition standard_axioms :: "string list" where
  "standard_axioms = [''propext'', ''Classical.choice'', ''Quot.sound'']"

definition max_axiom_report :: nat where "max_axiom_report = 32"

text \<open>The refusal for the entry of the node's own theorem; a missing or malformed entry fails closed.\<close>

definition entry_refusal :: "json \<Rightarrow> dict option" where
  "entry_refusal entry =
     (case entry of
        JList names \<Rightarrow>
          if list_all (\<lambda>n. case n of JStr _ \<Rightarrow> True | _ \<Rightarrow> False) names then
            let nonstandard = sort (remdups (filter (\<lambda>n. n \<notin> set standard_axioms) (map text_of names)))
            in if nonstandard = [] then None
               else Some [(''recorded'', JBool False), (''reason'', JStr ''nonstandard_axioms''),
                          (''axioms'', strings (take max_axiom_report nonstandard))]
          else Some [(''recorded'', JBool False), (''reason'', JStr ''axioms_unreported'')]
      | _ \<Rightarrow> Some [(''recorded'', JBool False), (''reason'', JStr ''axioms_unreported'')])"

definition axiom_refusal :: "json \<Rightarrow> json \<Rightarrow> dict option" where
  "axiom_refusal axioms lean_name =
     entry_refusal (case (axioms, lean_name) of (JObj d, JStr n) \<Rightarrow> dget d n | _ \<Rightarrow> JNull)"

text \<open>\<open>{name: check.get("axioms")}\<close> has the one entry asked for.\<close>

definition verified_evidence :: "json \<Rightarrow> bool" where
  "verified_evidence check \<longleftrightarrow>
     (case check of
        JObj d \<Rightarrow> dget d ''ok'' = JBool True \<and> entry_refusal (dget d ''axioms'') = None
      | _ \<Rightarrow> False)"

section \<open>Replacing a source\<close>

definition node_refusal :: "dict \<Rightarrow> herr + string option" where
  "node_refusal node =
     bindE (dneed node ''node_type'') (\<lambda>k.
     if k = JStr ''goal'' then Inr (Some ''goal_node'')
     else bindE (dneed node ''status'') (\<lambda>status.
       Inr (if \<not> is_open status then Some ''node_closed'' else None)))"

text \<open>The rank the current source is kept at against a new one, if it is. Whether a holder is live is
  asked only where it decides.\<close>

definition blocking_rank ::
  "dict \<Rightarrow> source_rank \<Rightarrow> string option \<Rightarrow> json \<Rightarrow> (unit \<Rightarrow> bool) \<Rightarrow> herr + source_rank option" where
  "blocking_rank node rank branch_id state holders_live =
     (if rank_of state = None then Inr None
      else bindE (dneed node ''lean_source'') (\<lambda>source.
        let current = as_dict source
        in bindE (dneed current ''rank'') (\<lambda>name.
        case rank_of name of
          None \<Rightarrow> Inl (KeyError (text_of name))
        | Some held \<Rightarrow>
            Inr (if rank < held then Some held
                 else if rank = held \<and> is_complete name \<and>
                    jopt branch_id \<notin> {dget current ''branch_id'', dget node ''branch_id''} \<and>
                    (held = Verified_Rank \<or> has_elaborated_statement node \<or> holders_live ())
                 then Some held else None))))"

section \<open>Standing\<close>

text \<open>
  The nodes an import can name, by id. An entry of a source's \<open>imports\<close> or \<open>closure\<close> is written by the
  platform with the two keys \<open>node_id\<close> and \<open>sha256\<close>.
\<close>

type_synonym node_graph = "(json \<times> dict) list"

abbreviation node_id_of :: "dict \<Rightarrow> json" where
  "node_id_of node \<equiv> dget node ''id''"

definition graph_over :: "dict list \<Rightarrow> node_graph" where
  "graph_over nodes = rev (map (\<lambda>n. (node_id_of n, n)) nodes)"

definition graph_reading :: "world \<Rightarrow> json \<Rightarrow> node_graph" where
  "graph_reading w experiment_id =
     map (\<lambda>r. (JStr (r_id r), r_payload r))
       (filter (\<lambda>r. r_kind r = CommonsNode \<and> field r ''experiment_id'' = experiment_id) (records w))"

definition source_of :: "dict \<Rightarrow> dict" where
  "source_of node = as_dict (jor (dget node ''lean_source'') (JObj []))"

fun held_children :: "node_graph \<Rightarrow> json list \<Rightarrow> dict list option" where
  "held_children g [] = Some []"
| "held_children g (entry # entries) =
     (case map_of g (dget (as_dict entry) ''node_id'') of
        None \<Rightarrow> None
      | Some child \<Rightarrow>
          if dget (source_of child) ''sha256'' \<noteq> dget (as_dict entry) ''sha256'' then None
          else map_option ((#) child) (held_children g entries))"

text \<open>The nodes a source stood on, while each still holds the source recorded, and whether the whole
  closure was recorded.\<close>

definition source_children :: "node_graph \<Rightarrow> dict \<Rightarrow> dict list option \<times> bool" where
  "source_children g node =
     (let recorded = dget (source_of node) ''closure''
      in (held_children g
            (if recorded = JNull then as_list (jor (dget (source_of node) ''imports'') (JList []))
             else as_list recorded),
          recorded \<noteq> JNull))"

type_synonym verdicts = "(json \<times> bool) list"

definition judged :: "verdicts \<Rightarrow> json \<Rightarrow> bool" where
  "judged vs k \<longleftrightarrow> map_of vs k \<noteq> None"

lemma held_children_in:
  "held_children g entries = Some cs \<Longrightarrow> c \<in> set cs \<Longrightarrow> \<exists>k. map_of g k = Some c"
  by (induction entries arbitrary: cs) (auto split: option.splits if_splits)

lemma source_children_in:
  "source_children g n = (Some cs, b) \<Longrightarrow> c \<in> set cs \<Longrightarrow> \<exists>k. map_of g k = Some c"
  by (auto simp: source_children_def Let_def dest: held_children_in)

text \<open>The walk: the stack with its top first, the verdicts so far and the nodes being visited.\<close>

function judge ::
  "node_graph \<Rightarrow> dict list \<Rightarrow> verdicts \<times> json list \<Rightarrow> verdicts \<times> json list" where
  "judge g [] (vs, visiting) = (vs, visiting)"
| "judge g (cur # rest) (vs, visiting) =
     (let key = node_id_of cur
      in if judged vs key then judge g rest (vs, visiting)
         else case source_children g cur of
           (None, _) \<Rightarrow> judge g (cur # rest) ((key, False) # vs, visiting)
         | (Some cs, True) \<Rightarrow> judge g (cur # rest) ((key, True) # vs, visiting)
         | (Some cs, False) \<Rightarrow>
             let waiting = filter (\<lambda>c. \<not> judged vs (node_id_of c)) cs
             in if waiting \<noteq> [] \<and> key \<notin> set visiting then
                  (if \<exists>c \<in> set waiting. node_id_of c \<in> set (key # visiting)
                   then judge g (cur # rest) ((key, False) # vs, key # visiting)
                   else judge g (rev waiting @ cur # rest) (vs, key # visiting))
                else judge g (cur # rest)
                  ((key, list_all (\<lambda>c. map_of vs (node_id_of c) = Some True) cs) # vs, visiting))"
  by pat_completeness auto

definition in_play :: "node_graph \<Rightarrow> dict list \<Rightarrow> json set" where
  "in_play g st = node_id_of ` (snd ` set g \<union> set st)"

definition unjudged :: "node_graph \<Rightarrow> dict list \<Rightarrow> verdicts \<Rightarrow> nat" where
  "unjudged g st vs = card {k \<in> in_play g st. \<not> judged vs k}"

definition unvisited :: "node_graph \<Rightarrow> dict list \<Rightarrow> json list \<Rightarrow> nat" where
  "unvisited g st visiting = card (in_play g st - set visiting)"

lemma finite_in_play [simp]: "finite (in_play g st)"
  by (simp add: in_play_def)

lemma judged_Cons [simp]: "judged ((k, b) # vs) k' \<longleftrightarrow> k' = k \<or> judged vs k'"
  by (auto simp: judged_def)

lemma judging_shrinks:
  assumes "\<not> judged vs (node_id_of cur)"
  shows "unjudged g (cur # rest) ((node_id_of cur, b) # vs) < unjudged g (cur # rest) vs"
  unfolding unjudged_def
proof (rule psubset_card_mono)
  show "{k \<in> in_play g (cur # rest). \<not> judged ((node_id_of cur, b) # vs) k} \<subset>
      {k \<in> in_play g (cur # rest). \<not> judged vs k}"
    using assms by (auto simp: in_play_def)
qed simp

lemma popping_shrinks:
  assumes "judged vs (node_id_of cur)"
  shows "unjudged g rest vs = unjudged g (cur # rest) vs"
    "unvisited g rest visiting \<le> unvisited g (cur # rest) visiting"
proof -
  have "{k \<in> in_play g rest. \<not> judged vs k} = {k \<in> in_play g (cur # rest). \<not> judged vs k}"
    using assms by (auto simp: in_play_def)
  then show "unjudged g rest vs = unjudged g (cur # rest) vs" by (simp add: unjudged_def)
  show "unvisited g rest visiting \<le> unvisited g (cur # rest) visiting"
    unfolding unvisited_def by (rule card_mono) (auto simp: in_play_def)
qed

lemma pushing_shrinks:
  assumes "source_children g cur = (Some cs, b)" and "set waiting \<subseteq> set cs"
    and "node_id_of cur \<notin> set visiting"
  shows "unjudged g (rev waiting @ cur # rest) vs = unjudged g (cur # rest) vs"
    "unvisited g (rev waiting @ cur # rest) (node_id_of cur # visiting)
      < unvisited g (cur # rest) visiting"
proof -
  have "c \<in> snd ` set g" if c: "c \<in> set waiting" for c
  proof -
    obtain k where "map_of g k = Some c" using source_children_in [OF assms(1)] assms(2) c by blast
    then show ?thesis using map_of_SomeD by force
  qed
  then have same: "in_play g (rev waiting @ cur # rest) = in_play g (cur # rest)"
    by (auto simp: in_play_def)
  then show "unjudged g (rev waiting @ cur # rest) vs = unjudged g (cur # rest) vs"
    by (simp add: unjudged_def)
  show "unvisited g (rev waiting @ cur # rest) (node_id_of cur # visiting)
      < unvisited g (cur # rest) visiting"
    unfolding unvisited_def same
    by (rule psubset_card_mono) (use assms(3) in \<open>auto simp: in_play_def\<close>)
qed

termination judge
proof (relation "measures [\<lambda>(g, st, vs, _). unjudged g st vs,
    \<lambda>(g, st, _, visiting). unvisited g st visiting, \<lambda>(_, st, _). length st]", goal_cases)
  case (2 g cur rest vs visiting key)
  then show ?case using popping_shrinks(1) [of vs cur g rest] popping_shrinks(2) [of vs cur g rest visiting] by auto
next
  case (6 g cur rest vs visiting key opt b cs waiting)
  then have children: "source_children g cur = (Some cs, False)"
    and waiting: "set waiting \<subseteq> set cs" and key: "node_id_of cur \<notin> set visiting" by auto
  show ?case
    using 6 pushing_shrinks(1) [OF children waiting key, of rest vs]
      pushing_shrinks(2) [OF children waiting key, of rest]
    by simp
qed (simp_all add: judging_shrinks)

declare judge.simps(2) [simp del]

definition stands :: "node_graph \<Rightarrow> dict \<Rightarrow> verdicts \<times> json list \<Rightarrow> bool \<times> verdicts \<times> json list" where
  "stands g node st =
     (let st' = judge g [node] st in (map_of (fst st') (node_id_of node) = Some True, st'))"

definition source_state :: "world \<Rightarrow> node_graph \<Rightarrow> dict \<Rightarrow> herr + json" where
  "source_state w g node =
     bindE (statement_state w node) (\<lambda>state.
     Inr (if rank_of state \<noteq> None \<and> \<not> fst (stands g node ([], [])) then JStr ''stale'' else state))"

text \<open>\<open>_open_work\<close>: a complete or verified source of an elaborated statement, or of a definition,
  proves a node.\<close>

definition open_work :: "world \<Rightarrow> node_graph \<Rightarrow> dict \<Rightarrow> herr + bool" where
  "open_work w g node =
     bindE (source_state w g node) (\<lambda>state.
     bindE (dneed node ''status'') (\<lambda>status.
     bindE (dneed node ''node_type'') (\<lambda>k.
     Inr (is_open status \<and>
       \<not> (is_complete state \<and> (has_elaborated_statement node \<or> k = JStr ''definition''))))))"

section \<open>The verdict is the least solution\<close>

inductive sound :: "node_graph \<Rightarrow> dict \<Rightarrow> bool" for g where
  recorded: "source_children g n = (Some cs, True) \<Longrightarrow> sound g n"
| direct: "source_children g n = (Some cs, False) \<Longrightarrow> (\<And>c. c \<in> set cs \<Longrightarrow> sound g c) \<Longrightarrow> sound g n"

inductive_cases soundE: "sound g n"

definition rests :: "node_graph \<Rightarrow> dict \<Rightarrow> dict \<Rightarrow> bool" where
  "rests g n c \<longleftrightarrow> (\<exists>cs. source_children g n = (Some cs, False) \<and> c \<in> set cs)"

lemma sound_step: "sound g n \<Longrightarrow> rests g n c \<Longrightarrow> sound g c"
  by (auto simp: rests_def elim: soundE)

text \<open>A sound node rests on no cycle.\<close>

lemma sound_no_cycle: "sound g n \<Longrightarrow> \<not> (rests g)\<^sup>+\<^sup>+ n n"
proof (induction rule: sound.induct)
  case (recorded n cs)
  then show ?case by (auto simp: rests_def dest!: tranclpD)
next
  case (direct n cs)
  show ?case
  proof
    assume "(rests g)\<^sup>+\<^sup>+ n n"
    then obtain c where c: "rests g n c" "(rests g)\<^sup>*\<^sup>* c n" by (auto dest: tranclpD)
    then have "(rests g)\<^sup>+\<^sup>+ c c" by (meson rtranclp_into_tranclp1)
    moreover have "c \<in> set cs" using c(1) direct.hyps(1) by (auto simp: rests_def)
    ultimately show False using direct.IH by blast
  qed
qed

text \<open>A graph whose nodes stand under their own id.\<close>

definition keyed_graph :: "node_graph \<Rightarrow> bool" where
  "keyed_graph g \<longleftrightarrow> (\<forall>(k, n) \<in> set g. node_id_of n = k)"

definition stored_in :: "node_graph \<Rightarrow> dict \<Rightarrow> bool" where
  "stored_in g n \<longleftrightarrow> map_of g (node_id_of n) = Some n"

lemma stored_in_eq: "stored_in g n \<Longrightarrow> stored_in g m \<Longrightarrow> node_id_of n = node_id_of m \<Longrightarrow> n = m"
  by (simp add: stored_in_def)

lemma children_stored:
  assumes "keyed_graph g" and "source_children g n = (Some cs, b)" and "c \<in> set cs"
  shows "stored_in g c"
proof -
  obtain k where k: "map_of g k = Some c" using source_children_in [OF assms(2,3)] by blast
  then have "node_id_of c = k" using assms(1) map_of_SomeD by (fastforce simp: keyed_graph_def)
  then show ?thesis using k by (simp add: stored_in_def)
qed

text \<open>The invariant: verdicts are right, and a node being visited sits on the stack below what it
  rests on, with every import of it judged or above it.\<close>

definition verdicts_ok :: "node_graph \<Rightarrow> verdicts \<Rightarrow> bool" where
  "verdicts_ok g vs \<longleftrightarrow>
     (\<forall>n. stored_in g n \<longrightarrow> (\<forall>b. map_of vs (node_id_of n) = Some b \<longrightarrow> b = sound g n))"

definition expanded_at :: "node_graph \<Rightarrow> verdicts \<Rightarrow> dict list \<Rightarrow> dict \<Rightarrow> bool" where
  "expanded_at g vs st x \<longleftrightarrow>
     (\<exists>above below. st = above @ x # below \<and> node_id_of x \<notin> node_id_of ` set above \<and>
        (\<forall>y \<in> set above. (rests g)\<^sup>+\<^sup>+ x y) \<and>
        (\<forall>c. rests g x c \<longrightarrow> judged vs (node_id_of c) \<or> node_id_of c \<in> node_id_of ` set above))"

definition walk_ok :: "node_graph \<Rightarrow> dict list \<Rightarrow> verdicts \<Rightarrow> json list \<Rightarrow> bool" where
  "walk_ok g st vs visiting \<longleftrightarrow>
     verdicts_ok g vs \<and> (\<forall>n \<in> set st. stored_in g n) \<and>
     (\<forall>k \<in> set visiting. judged vs k \<or> (\<exists>x. node_id_of x = k \<and> expanded_at g vs st x))"

lemma expanded_pop:
  assumes "expanded_at g vs (cur # rest) x" and "node_id_of x \<noteq> node_id_of cur"
    and "judged vs (node_id_of cur)"
  shows "expanded_at g vs rest x"
proof -
  obtain above below where s: "cur # rest = above @ x # below"
      "node_id_of x \<notin> node_id_of ` set above" "\<forall>y \<in> set above. (rests g)\<^sup>+\<^sup>+ x y"
      "\<forall>c. rests g x c \<longrightarrow> judged vs (node_id_of c) \<or> node_id_of c \<in> node_id_of ` set above"
    using assms(1) by (auto simp: expanded_at_def)
  then obtain above' where a: "above = cur # above'" using assms(2) by (cases above) auto
  show ?thesis unfolding expanded_at_def
    using s a assms(3) by (intro exI [of _ above'] exI [of _ below]) auto
qed

lemma expanded_judge:
  "expanded_at g vs st x \<Longrightarrow> expanded_at g ((k, b) # vs) st x"
  unfolding expanded_at_def judged_Cons by blast

lemma expanded_push:
  assumes "expanded_at g vs (cur # rest) x" and "node_id_of x \<noteq> node_id_of cur"
    and "\<forall>c \<in> set waiting. rests g cur c \<and> node_id_of c \<noteq> node_id_of x"
  shows "expanded_at g vs (rev waiting @ cur # rest) x"
proof -
  obtain above below where s: "cur # rest = above @ x # below"
      "node_id_of x \<notin> node_id_of ` set above" "\<forall>y \<in> set above. (rests g)\<^sup>+\<^sup>+ x y"
      "\<forall>c. rests g x c \<longrightarrow> judged vs (node_id_of c) \<or> node_id_of c \<in> node_id_of ` set above"
    using assms(1) by (auto simp: expanded_at_def)
  have "(rests g)\<^sup>+\<^sup>+ x cur" using s(1,3) assms(2) by (cases above) auto
  then have "\<forall>y \<in> set waiting. (rests g)\<^sup>+\<^sup>+ x y"
    using assms(3) by (meson tranclp.trancl_into_trancl)
  then show ?thesis unfolding expanded_at_def
    using s assms(3) by (intro exI [of _ "rev waiting @ above"] exI [of _ below]) auto
qed

lemma walk_ok_verdict:
  assumes "walk_ok g (cur # rest) vs visiting" and "b = sound g cur"
  shows "walk_ok g (cur # rest) ((node_id_of cur, b) # vs) visiting"
    "walk_ok g (cur # rest) ((node_id_of cur, b) # vs) (node_id_of cur # visiting)"
proof -
  have cur: "stored_in g cur" using assms(1) by (simp add: walk_ok_def)
  have right: "verdicts_ok g ((node_id_of cur, b) # vs)" unfolding verdicts_ok_def
  proof (intro allI impI)
    fix n b' assume n: "stored_in g n" and v: "map_of ((node_id_of cur, b) # vs) (node_id_of n) = Some b'"
    show "b' = sound g n"
    proof (cases "node_id_of n = node_id_of cur")
      case True
      then show ?thesis using v assms(2) stored_in_eq [OF n cur] by simp
    next
      case False
      then show ?thesis using v n assms(1) by (simp add: walk_ok_def verdicts_ok_def)
    qed
  qed
  have older: "judged ((node_id_of cur, b) # vs) k \<or>
      (\<exists>x. node_id_of x = k \<and> expanded_at g ((node_id_of cur, b) # vs) (cur # rest) x)"
    if k: "k \<in> set visiting" for k
  proof (cases "judged vs k")
    case False
    then obtain x where "node_id_of x = k" "expanded_at g vs (cur # rest) x"
      using assms(1) k by (auto simp: walk_ok_def)
    then show ?thesis using expanded_judge by blast
  qed simp
  show "walk_ok g (cur # rest) ((node_id_of cur, b) # vs) visiting"
    "walk_ok g (cur # rest) ((node_id_of cur, b) # vs) (node_id_of cur # visiting)"
    using assms(1) right older unfolding walk_ok_def by simp_all
qed

lemma walk_ok_pop:
  assumes "walk_ok g (cur # rest) vs visiting" and "judged vs (node_id_of cur)"
  shows "walk_ok g rest vs visiting"
proof -
  have "judged vs k \<or> (\<exists>x. node_id_of x = k \<and> expanded_at g vs rest x)" if k: "k \<in> set visiting" for k
  proof (cases "judged vs k")
    case False
    then obtain x where x: "node_id_of x = k" "expanded_at g vs (cur # rest) x"
      using assms(1) k by (auto simp: walk_ok_def)
    moreover have "node_id_of x \<noteq> node_id_of cur" using x(1) False assms(2) by auto
    ultimately show ?thesis using expanded_pop assms(2) by blast
  qed simp
  then show ?thesis using assms(1) by (auto simp: walk_ok_def)
qed

lemma walk_ok_push:
  assumes ok: "walk_ok g (cur # rest) vs visiting" and graph: "keyed_graph g"
    and children: "source_children g cur = (Some cs, False)"
    and waiting: "waiting = filter (\<lambda>c. \<not> judged vs (node_id_of c)) cs"
    and new: "node_id_of cur \<notin> set visiting"
    and free: "\<forall>c \<in> set waiting. node_id_of c \<notin> set (node_id_of cur # visiting)"
  shows "walk_ok g (rev waiting @ cur # rest) vs (node_id_of cur # visiting)"
proof -
  have edge: "\<forall>c \<in> set waiting. rests g cur c" using children waiting by (auto simp: rests_def)
  have "expanded_at g vs (rev waiting @ cur # rest) cur"
    unfolding expanded_at_def using edge free waiting children
    by (intro exI [of _ "rev waiting"] exI [of _ rest]) (auto simp: rests_def)
  moreover have "judged vs k \<or>
      (\<exists>x. node_id_of x = k \<and> expanded_at g vs (rev waiting @ cur # rest) x)"
    if k: "k \<in> set visiting" for k
  proof (cases "judged vs k")
    case False
    then obtain x where x: "node_id_of x = k" "expanded_at g vs (cur # rest) x"
      using ok k by (auto simp: walk_ok_def)
    have "expanded_at g vs (rev waiting @ cur # rest) x"
      by (rule expanded_push [OF x(2)]) (use x(1) k new free edge in auto)
    then show ?thesis using x(1) by blast
  qed simp
  moreover have "\<forall>c \<in> set waiting. stored_in g c"
    using children_stored [OF graph children] waiting by auto
  ultimately show ?thesis using ok unfolding walk_ok_def by auto
qed

text \<open>A child being visited closes a cycle.\<close>

lemma cycle_unsound:
  assumes ok: "walk_ok g (cur # rest) vs visiting" and graph: "keyed_graph g"
    and c: "rests g cur c" "\<not> judged vs (node_id_of c)"
    and visited: "node_id_of c \<in> set (node_id_of cur # visiting)"
  shows "\<not> sound g cur"
proof -
  have stored: "stored_in g c" using c(1) children_stored [OF graph] by (auto simp: rests_def)
  have cur: "stored_in g cur" using ok by (simp add: walk_ok_def)
  have "(rests g)\<^sup>*\<^sup>* c cur"
  proof (cases "node_id_of c = node_id_of cur")
    case True
    then show ?thesis using stored_in_eq [OF stored cur] by simp
  next
    case False
    then obtain x where x: "node_id_of x = node_id_of c" "expanded_at g vs (cur # rest) x"
      using ok c(2) visited by (auto simp: walk_ok_def)
    obtain above below where s: "cur # rest = above @ x # below" "\<forall>y \<in> set above. (rests g)\<^sup>+\<^sup>+ x y"
      using x(2) by (auto simp: expanded_at_def)
    have "x \<in> set (cur # rest)" using s(1) by simp
    then have "stored_in g x" using ok by (auto simp: walk_ok_def)
    then have "x = c" using stored_in_eq [OF _ stored] x(1) by blast
    moreover have "cur \<in> set above" using s(1) False x(1) by (cases above) auto
    ultimately show ?thesis using s(2) by (auto dest: tranclp_into_rtranclp)
  qed
  then have "(rests g)\<^sup>+\<^sup>+ cur cur" using c(1) by (meson rtranclp_into_tranclp2)
  then show ?thesis using sound_no_cycle by blast
qed

lemma children_decide:
  assumes ok: "walk_ok g (cur # rest) vs visiting" and graph: "keyed_graph g"
    and children: "source_children g cur = (Some cs, False)"
    and all: "\<forall>c \<in> set cs. judged vs (node_id_of c)"
  shows "list_all (\<lambda>c. map_of vs (node_id_of c) = Some True) cs = sound g cur"
proof -
  have "map_of vs (node_id_of c) = Some (sound g c)" if "c \<in> set cs" for c
    using children_stored [OF graph children that] all that ok
    by (auto simp: walk_ok_def verdicts_ok_def judged_def)
  then have "list_all (\<lambda>c. map_of vs (node_id_of c) = Some True) cs \<longleftrightarrow> (\<forall>c \<in> set cs. sound g c)"
    by (simp add: list_all_iff)
  also have "\<dots> \<longleftrightarrow> sound g cur"
    using children sound.direct [OF children] sound_step by (auto simp: rests_def)
  finally show ?thesis by simp
qed

text \<open>A node on top of the stack that was visited has all its imports judged.\<close>

lemma visited_top:
  assumes ok: "walk_ok g (cur # rest) vs visiting" and "\<not> judged vs (node_id_of cur)"
    and "node_id_of cur \<in> set visiting" and "rests g cur c"
  shows "judged vs (node_id_of c)"
proof -
  obtain x where x: "node_id_of x = node_id_of cur" "expanded_at g vs (cur # rest) x"
    using assms(1-3) by (auto simp: walk_ok_def)
  obtain above below where s: "cur # rest = above @ x # below"
      "node_id_of x \<notin> node_id_of ` set above"
      "\<forall>c. rests g x c \<longrightarrow> judged vs (node_id_of c) \<or> node_id_of c \<in> node_id_of ` set above"
    using x(2) unfolding expanded_at_def by blast
  have "above = []"
  proof (cases above)
    case (Cons y ys)
    then have "y = cur" using s(1) by simp
    then show ?thesis using Cons s(2) x(1) by simp
  qed
  moreover from this have "x = cur" using s(1) by simp
  ultimately show ?thesis using s(3) assms(4) by simp
qed

abbreviation judge_post ::
  "node_graph \<Rightarrow> dict list \<Rightarrow> verdicts \<Rightarrow> verdicts \<times> json list \<Rightarrow> bool" where
  "judge_post g st vs out \<equiv>
     walk_ok g [] (fst out) (snd out) \<and> (\<forall>n \<in> set st. judged (fst out) (node_id_of n)) \<and>
     (\<forall>k. judged vs k \<longrightarrow> judged (fst out) k)"

lemma judge_ok:
  assumes "keyed_graph g" and "walk_ok g st (fst s) (snd s)"
  shows "judge_post g st (fst s) (judge g st s)"
  using assms
proof (induction g st s rule: judge.induct)
  case (2 g cur rest vs visiting)
  let ?key = "node_id_of cur"
  note run = judge.simps(2) [of g cur rest vs visiting, unfolded Let_def]
  have ok: "walk_ok g (cur # rest) vs visiting" using 2(8) by simp
  show ?case
  proof (cases "judged vs ?key")
    case True
    have "judge_post g rest vs (judge g rest (vs, visiting))"
      using 2(1) [OF refl True 2(7)] walk_ok_pop [OF ok True] by simp
    then show ?thesis using True run by simp
  next
    case new: False
    obtain opt b where sc: "source_children g cur = (opt, b)" by (cases "source_children g cur")
    show ?thesis
    proof (cases opt)
      case None
      then have "\<not> sound g cur" using sc by (auto elim: soundE)
      then have "judge_post g (cur # rest) ((?key, False) # vs)
          (judge g (cur # rest) ((?key, False) # vs, visiting))"
        using 2(2) [OF refl new sc [symmetric] None 2(7)] walk_ok_verdict(1) [OF ok] by simp
      then show ?thesis using new sc None run by simp
    next
      case (Some cs)
      show ?thesis
      proof (cases b)
        case closed: True
        then have "sound g cur" using sc Some by (auto intro: sound.recorded)
        then have "judge_post g (cur # rest) ((?key, True) # vs)
            (judge g (cur # rest) ((?key, True) # vs, visiting))"
          using 2(3) [OF refl new sc [symmetric] Some _ 2(7)] walk_ok_verdict(1) [OF ok] closed by simp
        then show ?thesis using new sc Some closed run by simp
      next
        case unclosed: False
        let ?waiting = "filter (\<lambda>c. \<not> judged vs (node_id_of c)) cs"
        let ?settled = "list_all (\<lambda>c. map_of vs (node_id_of c) = Some True) cs"
        have children: "source_children g cur = (Some cs, False)" using sc Some unclosed by simp
        show ?thesis
        proof (cases "?waiting \<noteq> [] \<and> ?key \<notin> set visiting")
          case waits: True
          show ?thesis
          proof (cases "\<exists>c \<in> set ?waiting. node_id_of c \<in> set (?key # visiting)")
            case True
            then obtain c where c: "c \<in> set ?waiting" "node_id_of c \<in> set (?key # visiting)" by blast
            then have "rests g cur c" "\<not> judged vs (node_id_of c)" using children by (auto simp: rests_def)
            then have "\<not> sound g cur" using cycle_unsound [OF ok 2(7)] c(2) by blast
            then have "judge_post g (cur # rest) ((?key, False) # vs)
                (judge g (cur # rest) ((?key, False) # vs, ?key # visiting))"
              using 2(4) [OF refl new sc [symmetric] Some _ refl waits True 2(7)]
                walk_ok_verdict(2) [OF ok] unclosed by simp
            then show ?thesis unfolding run using new children waits True by simp
          next
            case free: False
            have "walk_ok g (rev ?waiting @ cur # rest) vs (?key # visiting)"
              using walk_ok_push [OF ok 2(7) children refl] waits free by blast
            then have "judge_post g (rev ?waiting @ cur # rest) vs
                (judge g (rev ?waiting @ cur # rest) (vs, ?key # visiting))"
              using 2(5) [OF refl new sc [symmetric] Some _ refl waits free 2(7)] unclosed by simp
            moreover have "judge g (cur # rest) (vs, visiting) =
                judge g (rev ?waiting @ cur # rest) (vs, ?key # visiting)"
              unfolding run children prod.case option.case bool.case if_not_P [OF new]
                if_P [OF waits] if_not_P [OF free] by (rule refl)
            ultimately show ?thesis by simp
          qed
        next
          case settled: False
          have "judged vs (node_id_of c)" if "c \<in> set cs" for c
          proof (cases "?waiting = []")
            case True
            then show ?thesis using that by (auto simp: filter_empty_conv)
          next
            case False
            then have "?key \<in> set visiting" using settled by blast
            moreover have "rests g cur c" using children that by (auto simp: rests_def)
            ultimately show ?thesis using visited_top [OF ok new] by blast
          qed
          then have "?settled = sound g cur" using children_decide [OF ok 2(7) children] by blast
          then have "judge_post g (cur # rest) ((?key, ?settled) # vs)
              (judge g (cur # rest) ((?key, ?settled) # vs, visiting))"
            using 2(6) [OF refl new sc [symmetric] Some _ refl settled 2(7)]
              walk_ok_verdict(1) [OF ok] unclosed by simp
          moreover have "judge g (cur # rest) (vs, visiting) =
              judge g (cur # rest) ((?key, ?settled) # vs, visiting)"
            unfolding run children prod.case option.case bool.case if_not_P [OF new]
              if_not_P [OF settled] by (rule refl)
          ultimately show ?thesis by simp
        qed
      qed
    qed
  qed
qed simp

text \<open>A start with nothing judged, and what one walk leaves for the next.\<close>

lemma walk_ok_start: "walk_ok g [] [] []"
  by (simp add: walk_ok_def verdicts_ok_def)

lemma walk_ok_enter: "walk_ok g [] vs visiting \<Longrightarrow> stored_in g n \<Longrightarrow> walk_ok g [n] vs visiting"
  by (auto simp: walk_ok_def expanded_at_def)

lemma stands_sound:
  assumes "keyed_graph g" and "stored_in g n" and "walk_ok g [] (fst st) (snd st)"
  shows "fst (stands g n st) = sound g n" and
    "walk_ok g [] (fst (snd (stands g n st))) (snd (snd (stands g n st)))"
proof -
  have "judge_post g [n] (fst st) (judge g [n] st)"
    by (rule judge_ok [OF assms(1) walk_ok_enter [OF assms(3,2)]])
  then show "fst (stands g n st) = sound g n"
      "walk_ok g [] (fst (snd (stands g n st))) (snd (snd (stands g n st)))"
    using assms(2) by (auto simp: stands_def Let_def walk_ok_def verdicts_ok_def judged_def)
qed

text \<open>The closure over one request judges one node after another with the same cache.\<close>

definition judge_in_turn :: "node_graph \<Rightarrow> dict list \<Rightarrow> verdicts \<times> json list" where
  "judge_in_turn g nodes = fold (\<lambda>n st. snd (stands g n st)) nodes ([], [])"

lemma judge_in_turn_ok:
  assumes "keyed_graph g" and "\<And>m. m \<in> set ns \<Longrightarrow> stored_in g m" and "walk_ok g [] (fst st) (snd st)"
  shows "walk_ok g [] (fst (fold (\<lambda>n st. snd (stands g n st)) ns st))
    (snd (fold (\<lambda>n st. snd (stands g n st)) ns st))"
  using assms(2,3)
proof (induction ns arbitrary: st)
  case (Cons m ns)
  show ?case using Cons.IH [OF Cons.prems(1)] stands_sound(2) [OF assms(1) _ Cons.prems(2)] Cons.prems(1) by simp
qed simp

text \<open>C7. Whether a source stands is decided the same way whatever was judged before it in the
  request, on every graph of nodes, cyclic ones included: the walk with its shared cache of verdicts
  answers as the least solution of the rule (each node a source inlined still holds that source and,
  where only direct imports were recorded, stands itself; a cycle does not stand).\<close>

theorem standing_is_least_solution:
  assumes "keyed_graph g" and "stored_in g n" and "\<And>m. m \<in> set earlier \<Longrightarrow> stored_in g m"
  shows "fst (stands g n (judge_in_turn g earlier)) = sound g n"
  using stands_sound(1) [OF assms(1,2)] judge_in_turn_ok [OF assms(1,3)] walk_ok_start
  by (simp add: judge_in_turn_def)

text \<open>Nodes A and B inline each other, C inlines the current source of the sourceless D, E inlines A
  with its whole closure recorded, and F inlines a source D no longer holds.\<close>

definition importing :: "string \<Rightarrow> (string \<times> string) list \<Rightarrow> bool \<Rightarrow> dict" where
  "importing i entries whole =
     (let es = JList (map (\<lambda>(m, h). JObj [(''node_id'', JStr m), (''sha256'', JStr h)]) entries)
      in [(''id'', JStr i),
          (''lean_source'', JObj ((''sha256'', JStr (''h'' @ i)) # (if whole then [(''closure'', es)] else [(''imports'', es)])))])"

definition six_nodes :: "dict list" where
  "six_nodes = [importing ''A'' [(''B'', ''hB'')] False, importing ''B'' [(''A'', ''hA'')] False,
     importing ''C'' [(''D'', ''hD'')] False, importing ''D'' [] False,
     importing ''E'' [(''A'', ''hA'')] True, importing ''F'' [(''D'', ''old'')] False]"

theorem standing_is_least_solution_witness:
  "let g = graph_over six_nodes; answers = map (\<lambda>n. fst (stands g n (judge_in_turn g (rev six_nodes)))) six_nodes
   in map (sound g) six_nodes = answers \<and> answers = [False, False, True, True, True, False]"
proof -
  let ?g = "graph_over six_nodes"
  have k: "keyed_graph ?g" by code_simp
  have all: "list_all (stored_in ?g) six_nodes" by code_simp
  have s: "stored_in ?g n" if "n \<in> set six_nodes" for n using all that by (simp add: list_all_iff)
  have "map (\<lambda>n. fst (stands ?g n (judge_in_turn ?g (rev six_nodes)))) six_nodes = map (sound ?g) six_nodes"
  proof (rule map_cong [OF refl])
    fix n assume "n \<in> set six_nodes"
    then show "fst (stands ?g n (judge_in_turn ?g (rev six_nodes))) = sound ?g n"
      by (intro standing_is_least_solution [OF k s]) (simp_all add: s)
  qed
  moreover have "map (\<lambda>n. fst (stands ?g n (judge_in_turn ?g (rev six_nodes)))) six_nodes =
      [False, False, True, True, True, False]"
    by code_simp
  ultimately show ?thesis by (simp only: Let_def simp_thms)
qed

end
