(* ===== verification/Lean_Modules.thy ===== *)
theory Lean_Modules
  imports Standing
begin

text \<open>
  The modules of published Lean sources (\<open>commons_sources.py\<close>): a node's module name.
\<close>

section \<open>Module names\<close>

text \<open>\<open>node_module\<close>: nodes recorded before modules existed use eight characters of their id.\<close>

definition node_module :: "dict \<Rightarrow> herr + json" where
  "node_module node =
     (if truthy (dget node ''lean_module'') then Inr (dget node ''lean_module'')
      else bindE (dneed node ''id'') (\<lambda>i. Inr (JStr (''Commons.N'' @ take 8 (text_of i)))))"

end
