(* ===== verification/Dependencies.thy ===== *)
theory Dependencies
  imports Prelude "HOL-Library.Product_Lexorder"
begin

text \<open>
  The dependency walk of the commons (\<open>commons.py\<close>, \<open>_dependency_children\<close>, \<open>_depends_closure\<close>): the
  targets of each source in the order of the sorted edges, and the one breadth-first walker, bounded by
  the number of nodes it may reach.
\<close>

section \<open>The walk\<close>

type_synonym dependency = "string \<times> string"

definition dependency_children ::
  "dependency list \<Rightarrow> (string \<Rightarrow> bool) option \<Rightarrow> string \<Rightarrow> string list" where
  "dependency_children es within source =
     map snd (filter (\<lambda>(s, t). s = source \<and>
         (case within of None \<Rightarrow> True | Some visible \<Rightarrow> visible s \<and> visible t)) (sort es))"

text \<open>What was seen, what was reached, in order, and the queue.\<close>

type_synonym walk = "string list \<times> string list \<times> string list"

fun reach_targets :: "nat \<Rightarrow> string list \<Rightarrow> walk \<Rightarrow> walk \<times> bool" where
  "reach_targets limit [] st = (st, False)"
| "reach_targets limit (t # ts) (seen, reached, queue) =
     (if t \<in> set seen then reach_targets limit ts (seen, reached, queue)
      else if limit \<le> length reached then ((seen, reached, queue), True)
      else reach_targets limit ts (t # seen, reached @ [t], queue @ [t]))"

lemma reach_targets_grows:
  assumes "reach_targets limit ts (seen, reached, queue) = ((seen', reached', queue'), hit)"
  shows "\<exists>fresh. reached' = reached @ fresh \<and> queue' = queue @ fresh \<and> set seen' = set seen \<union> set fresh \<and>
    set fresh \<subseteq> set ts - set seen \<and> distinct fresh \<and>
    (fresh = [] \<or> length reached' \<le> limit) \<and> (\<not> hit \<longrightarrow> set ts \<subseteq> set seen') \<and>
    (hit \<longrightarrow> limit \<le> length reached')"
  using assms
proof (induction limit ts "(seen, reached, queue)" arbitrary: seen reached queue rule: reach_targets.induct)
  case (2 limit t ts seen reached queue)
  consider "t \<in> set seen" | "t \<notin> set seen" "limit \<le> length reached"
    | "t \<notin> set seen" "\<not> limit \<le> length reached" by blast
  then show ?case
  proof cases
    case 1
    then show ?thesis using 2 by auto
  next
    case 2
    then show ?thesis using "2.prems" by auto
  next
    case 3
    from "2.hyps"(2) [OF 3] "2.prems" 3 obtain fresh where f:
      "reached' = (reached @ [t]) @ fresh" "queue' = (queue @ [t]) @ fresh"
      "set seen' = set (t # seen) \<union> set fresh" "set fresh \<subseteq> set ts - set (t # seen)" "distinct fresh"
      "fresh = [] \<or> length reached' \<le> limit" "\<not> hit \<longrightarrow> set ts \<subseteq> set seen'" "hit \<longrightarrow> limit \<le> length reached'"
      by auto
    show ?thesis by (rule exI [of _ "t # fresh"]) (use f 3 in auto)
  qed
qed auto

function closure_walk :: "(string \<Rightarrow> string list) \<Rightarrow> nat \<Rightarrow> walk \<Rightarrow> string list \<times> bool" where
  "closure_walk children limit (seen, reached, queue) =
     (case queue of
        [] \<Rightarrow> (reached, False)
      | q # rest \<Rightarrow>
          let (st, hit) = reach_targets limit (children q) (seen, reached, rest)
          in if hit then (fst (snd st), True) else closure_walk children limit st)"
  by pat_completeness auto
termination
proof (relation "measures [\<lambda>(_, limit, _, reached, _). limit - length reached,
    \<lambda>(_, _, _, _, queue). length queue]", goal_cases)
  case (2 children limit seen reached queue q rest p st hit)
  obtain seen' reached' queue' where st: "st = (seen', reached', queue')" by (cases st)
  with 2 obtain fresh where "reached' = reached @ fresh" "queue' = rest @ fresh"
      "fresh = [] \<or> length reached' \<le> limit"
    using reach_targets_grows [of limit "children q" seen reached rest seen' reached' queue' hit] by force
  then show ?case using 2 st by (cases fresh) auto
qed simp

declare closure_walk.simps [simp del]

definition depends_closure ::
  "(string \<Rightarrow> string list) \<Rightarrow> string \<Rightarrow> nat \<Rightarrow> string list \<times> bool" where
  "depends_closure children start limit = closure_walk children limit ([start], [], [start])"

section \<open>What the walk reaches\<close>

definition depends :: "(string \<Rightarrow> string list) \<Rightarrow> string \<Rightarrow> string \<Rightarrow> bool" where
  "depends children s t \<longleftrightarrow> t \<in> set (children s)"

text \<open>The invariant of the walk from \<open>start\<close>: what was seen is reachable, and what has left the queue
  has all its targets seen.\<close>

definition walk_inv :: "(string \<Rightarrow> string list) \<Rightarrow> string \<Rightarrow> nat \<Rightarrow> walk \<Rightarrow> bool" where
  "walk_inv children start limit st \<longleftrightarrow>
     (case st of (seen, reached, queue) \<Rightarrow>
        set seen = insert start (set reached) \<and> start \<notin> set reached \<and> distinct reached \<and>
        length reached \<le> limit \<and> set queue \<subseteq> set seen \<and>
        (\<forall>x \<in> set seen. (depends children)\<^sup>*\<^sup>* start x) \<and>
        (\<forall>x \<in> set seen - set queue. set (children x) \<subseteq> set seen))"

lemma walk_inv_step:
  assumes inv: "walk_inv children start limit (seen, reached, q # rest)"
    and step: "reach_targets limit (children q) (seen, reached, rest) = ((seen', reached', queue'), hit)"
  shows "hit \<Longrightarrow> limit = length reached' \<and> distinct reached' \<and> start \<notin> set reached' \<and>
      (\<forall>x \<in> set reached'. (depends children)\<^sup>*\<^sup>* start x)"
    and "\<not> hit \<Longrightarrow> walk_inv children start limit (seen', reached', queue')"
proof -
  obtain fresh where f: "reached' = reached @ fresh" "queue' = rest @ fresh"
      "set seen' = set seen \<union> set fresh" "set fresh \<subseteq> set (children q) - set seen" "distinct fresh"
      "fresh = [] \<or> length reached' \<le> limit" "\<not> hit \<longrightarrow> set (children q) \<subseteq> set seen'"
      "hit \<longrightarrow> limit \<le> length reached'"
    using reach_targets_grows [OF step] by auto
  have i: "set seen = insert start (set reached)" "start \<notin> set reached" "distinct reached"
      "length reached \<le> limit" "set (q # rest) \<subseteq> set seen"
      "\<forall>x \<in> set seen. (depends children)\<^sup>*\<^sup>* start x"
      "\<forall>x \<in> set seen - set (q # rest). set (children x) \<subseteq> set seen"
    using inv unfolding walk_inv_def prod.case by blast+
  have "(depends children)\<^sup>*\<^sup>* start q" using i(5,6) by auto
  then have fresh: "(depends children)\<^sup>*\<^sup>* start x" if "x \<in> set fresh" for x
    using f(4) that by (auto simp: depends_def elim!: rtranclp.rtrancl_into_rtrancl)
  have len: "length reached' \<le> limit" using f(1,6) i(4) by auto
  have common: "distinct reached'" "start \<notin> set reached'"
      "\<forall>x \<in> set seen'. (depends children)\<^sup>*\<^sup>* start x" "set seen' = insert start (set reached')"
    using f(1,3-5) i(1-3,6) fresh by auto
  then show "limit = length reached' \<and> distinct reached' \<and> start \<notin> set reached' \<and>
      (\<forall>x \<in> set reached'. (depends children)\<^sup>*\<^sup>* start x)" if hit
    using f(8) len that by auto
  show "walk_inv children start limit (seen', reached', queue')" if "\<not> hit"
  proof -
    have "set (children x) \<subseteq> set seen'" if x: "x \<in> set seen' - set queue'" for x
    proof (cases "x = q")
      case True
      then show ?thesis using f(7) \<open>\<not> hit\<close> by simp
    next
      case False
      then have "x \<in> set seen - set (q # rest)" using x f(2,3) by auto
      then show ?thesis using i(7) f(3) by blast
    qed
    moreover have "set queue' \<subseteq> set seen'" using f(2,3) i(5) by auto
    ultimately show ?thesis using common len by (auto simp: walk_inv_def)
  qed
qed

lemma closure_walk_reaches:
  assumes "walk_inv children start limit st" and "closure_walk children limit st = (reached, hit)"
  shows "distinct reached \<and> start \<notin> set reached \<and> length reached \<le> limit \<and>
    (hit \<longrightarrow> length reached = limit) \<and> (\<forall>x \<in> set reached. (depends children)\<^sup>*\<^sup>* start x) \<and>
    (\<not> hit \<longrightarrow> insert start (set reached) = {x. (depends children)\<^sup>*\<^sup>* start x})"
  using assms
proof (induction children limit st rule: closure_walk.induct)
  case (1 children limit seen done_list queue)
  note step = closure_walk.simps [of children limit seen done_list queue]
  show ?case
  proof (cases queue)
    case Nil
    then have r: "reached = done_list" "\<not> hit" using "1.prems"(2) step by simp_all
    have inv: "set seen = insert start (set done_list)" "\<forall>x \<in> set seen. set (children x) \<subseteq> set seen"
      using "1.prems"(1) Nil by (auto simp: walk_inv_def)
    have "x \<in> set seen" if "(depends children)\<^sup>*\<^sup>* start x" for x
      using that by (induction rule: rtranclp_induct) (use inv in \<open>auto simp: depends_def\<close>)
    then show ?thesis using "1.prems"(1) r inv(1) Nil by (auto simp: walk_inv_def)
  next
    case (Cons q rest)
    obtain seen' reached' queue' h where t: "reach_targets limit (children q) (seen, done_list, rest) =
        ((seen', reached', queue'), h)"
      by (metis prod.collapse)
    note keep = walk_inv_step [OF "1.prems"(1) [unfolded Cons] t]
    show ?thesis
    proof (cases h)
      case True
      then show ?thesis using "1.prems"(2) step Cons t keep(1) by auto
    next
      case False
      then have "closure_walk children limit (seen', reached', queue') = (reached, hit)"
        using "1.prems"(2) step Cons t by simp
      then show ?thesis using "1.IH" [OF Cons t [symmetric] refl False keep(2) [OF False]] by blast
    qed
  qed
qed

theorem depends_closure_reaches:
  assumes "depends_closure children start limit = (reached, hit)"
  shows "distinct reached" "start \<notin> set reached" "length reached \<le> limit"
    "hit \<Longrightarrow> length reached = limit" "x \<in> set reached \<Longrightarrow> (depends children)\<^sup>*\<^sup>* start x"
    "\<not> hit \<Longrightarrow> insert start (set reached) = {x. (depends children)\<^sup>*\<^sup>* start x}"
proof -
  have "walk_inv children start limit ([start], [], [start])" by (simp add: walk_inv_def)
  from closure_walk_reaches [OF this assms [unfolded depends_closure_def]]
  show "distinct reached" "start \<notin> set reached" "length reached \<le> limit"
    "hit \<Longrightarrow> length reached = limit" "x \<in> set reached \<Longrightarrow> (depends children)\<^sup>*\<^sup>* start x"
    "\<not> hit \<Longrightarrow> insert start (set reached) = {x. (depends children)\<^sup>*\<^sup>* start x}"
    by blast+
qed

text \<open>The targets of a source are its edges'.\<close>

lemma depends_children [simp]:
  "depends (dependency_children es None) s t \<longleftrightarrow> (s, t) \<in> set es"
  "depends (dependency_children es (Some P)) s t \<longleftrightarrow> (s, t) \<in> set es \<and> P s \<and> P t"
  by (auto simp: depends_def dependency_children_def image_iff)

lemma depends_children_eq: "depends (dependency_children es None) = (\<lambda>s t. (s, t) \<in> set es)"
  by (intro ext) simp

text \<open>Linking a source to a target that does not reach it closes no cycle.\<close>

lemma link_keeps_acyclic:
  assumes "acyclic (set es)" and "s \<noteq> t"
    and "depends_closure (dependency_children es None) t limit = (reached, False)"
    and "s \<notin> set reached"
  shows "acyclic (insert (s, t) (set es))"
proof -
  have "s \<notin> insert t (set reached)" using assms(2,4) by simp
  then have "\<not> (\<lambda>x y. (x, y) \<in> set es)\<^sup>*\<^sup>* t s"
    using depends_closure_reaches(6) [OF assms(3)] by (simp add: depends_children_eq)
  then have "(t, s) \<notin> (set es)\<^sup>*" by (simp add: rtranclp_rtrancl_eq)
  then show ?thesis using assms(1) by (simp add: acyclic_insert)
qed

end
