(* ===== verification/Commons.thy ===== *)
theory Commons
  imports Threads Standing Dependencies
begin

text \<open>
  The blueprint commons (\<open>commons.py\<close>, \<open>commons_models.py\<close>): attributed nodes with a discussion thread
  each, typed edges between them, the platform's goal node and the one gate a node's status moves
  through; with the posts on a node's thread (\<open>commons_discourse.py\<close>). The dependency edges of every
  experiment stay acyclic. Unicode normalization with case folding of a statement is a parameter
  (\<open>nfkc\<close>), as is the arrow character of the status notes, which lies outside the 8-bit characters.
\<close>

section \<open>Requests\<close>

definition edge_relations :: "string list" where
  "edge_relations =
     [''depends_on'', ''motivated_by'', ''refutes'', ''generalizes'', ''specializes'', ''duplicates'']"

definition authored_node_types :: "string list" where
  "authored_node_types =
     [''lemma'', ''definition'', ''conjecture'', ''approach'', ''tangent'', ''obstacle'',
      ''counterexample'', ''computation'']"

definition edge_prefix :: string where "edge_prefix = ''commons:''"

definition depends_on :: string where "depends_on = edge_prefix @ ''depends_on''"

definition commons_relations :: "string list" where
  "commons_relations = map (\<lambda>r. edge_prefix @ r) edge_relations"

definition is_alpha :: "char \<Rightarrow> bool" where
  "is_alpha c \<longleftrightarrow> (CHR ''A'' \<le> c \<and> c \<le> CHR ''Z'') \<or> (CHR ''a'' \<le> c \<and> c \<le> CHR ''z'') \<or> c = CHR ''_''"

definition is_digit_char :: "char \<Rightarrow> bool" where
  "is_digit_char c \<longleftrightarrow> CHR ''0'' \<le> c \<and> c \<le> CHR ''9''"

text \<open>The pattern \<open>LEAN_NAME\<close>.\<close>

definition lean_name_ok :: "string \<Rightarrow> bool" where
  "lean_name_ok s \<longleftrightarrow>
     (case s of [] \<Rightarrow> False
      | c # cs \<Rightarrow> is_alpha c \<and> length cs \<le> 199 \<and>
          list_all (\<lambda>x. is_alpha x \<or> is_digit_char x \<or> x = CHR ''.'' \<or> x = CHR 0x27) cs)"

record node_create =
  nc_type :: string
  nc_title :: string
  nc_statement :: string
  nc_assumptions :: "string list"
  nc_lean_header :: "string option"
  nc_lean_statement :: "string option"
  nc_lean_name :: "string option"
  nc_edges :: "(string \<times> string) list"
  nc_artifacts :: "string list"

definition bounded :: "nat \<Rightarrow> nat \<Rightarrow> string \<Rightarrow> bool" where
  "bounded lo hi s \<longleftrightarrow> lo \<le> length s \<and> length s \<le> hi"

definition node_create_ok :: "node_create \<Rightarrow> bool" where
  "node_create_ok r \<longleftrightarrow>
     nc_type r \<in> set authored_node_types \<and> bounded 1 200 (nc_title r) \<and>
     bounded 1 8000 (nc_statement r) \<and> length (nc_assumptions r) \<le> 32 \<and>
     list_all (bounded 1 512) (nc_assumptions r) \<and>
     pred_option (\<lambda>h. length h \<le> 2000) (nc_lean_header r) \<and>
     pred_option (bounded 1 20000) (nc_lean_statement r) \<and>
     pred_option lean_name_ok (nc_lean_name r) \<and> length (nc_edges r) \<le> 16 \<and>
     list_all (\<lambda>(rel, t). rel \<in> set edge_relations \<and> bounded 1 36 t) (nc_edges r) \<and>
     length (nc_artifacts r) \<le> 12 \<and> list_all (bounded 1 36) (nc_artifacts r) \<and>
     strip (nc_title r) \<noteq> [] \<and> strip (nc_statement r) \<noteq> [] \<and>
     (nc_lean_name r = None \<longleftrightarrow> nc_lean_statement r = None) \<and>
     \<not> (nc_lean_header r \<noteq> None \<and> nc_lean_statement r = None) \<and>
     distinct (nc_edges r) \<and> distinct (nc_artifacts r) \<and>
     \<not> (nc_type r = ''tangent'' \<and> \<not> (\<exists>(rel, t) \<in> set (nc_edges r). rel = ''motivated_by''))"

definition node_fields :: "node_create \<Rightarrow> dict" where
  "node_fields r =
     [(''node_type'', JStr (nc_type r)), (''title'', JStr (nc_title r)),
      (''statement'', JStr (nc_statement r)), (''assumptions'', strings (nc_assumptions r)),
      (''lean_header'', jopt (nc_lean_header r)), (''lean_statement'', jopt (nc_lean_statement r)),
      (''lean_name'', jopt (nc_lean_name r)), (''artifact_ids'', strings (nc_artifacts r))]"

text \<open>\<open>request.model_dump(mode="json")\<close>; the digest of a command does not depend on the order.\<close>

definition node_data :: "node_create \<Rightarrow> dict" where
  "node_data r = node_fields r @
     [(''edges'', JList (map (\<lambda>(rel, t). JObj [(''relation'', JStr rel), (''target_id'', JStr t)])
        (nc_edges r)))]"

section \<open>Nodes\<close>

text \<open>The digest of the normalized statement and assumptions.\<close>

definition normalized :: "(string \<Rightarrow> string) \<Rightarrow> string \<Rightarrow> string" where
  "normalized nfkc text_in = one_line (nfkc text_in)"

definition statement_key :: "(string \<Rightarrow> string) \<Rightarrow> world \<Rightarrow> json \<Rightarrow> json list \<Rightarrow> json" where
  "statement_key nfkc w statement assumptions =
     JStr (digest_of w (JObj
       [(''statement'', JStr (normalized nfkc (text_of statement))),
        (''assumptions'', strings (sort (map (\<lambda>a. normalized nfkc (text_of a)) assumptions)))]))"

definition writer_of :: "principal \<Rightarrow> string" where
  "writer_of actor = (if opt_true (pr_branch actor) then the (pr_branch actor)
                      else ''actor:'' @ pr_id actor)"

definition node_payload :: "(string \<Rightarrow> string) \<Rightarrow> world \<Rightarrow> row \<Rightarrow> dict \<Rightarrow> herr + dict" where
  "node_payload nfkc w experiment fs =
     (let header = dget fs ''lean_header''; name = dget fs ''lean_name'';
          statement = dget fs ''lean_statement'';
          assumptions = as_list (dget_or fs ''assumptions'' (JList []))
      in bindE (dneed fs ''node_type'') (\<lambda>node_type.
         bindE (dneed fs ''title'') (\<lambda>title.
         bindE (dneed fs ''statement'') (\<lambda>informal.
         bindE (dneed fs ''status'') (\<lambda>status.
         bindE (dneed fs ''status_reason'') (\<lambda>reason.
         bindE (need experiment ''target_digest'') (\<lambda>target.
         Inr [(''experiment_id'', JStr (r_id experiment)), (''node_type'', node_type),
              (''title'', title), (''statement'', informal), (''assumptions'', JList assumptions),
              (''statement_key'', statement_key nfkc w informal assumptions),
              (''lean_header'', header), (''lean_statement'', statement), (''lean_name'', name),
              (''lean_statement_sha256'', lean_digest w header name statement),
              (''lean_elaborated'', JBool False), (''lean_writer'', dget fs ''lean_writer''),
              (''lean_module'', dget fs ''lean_module''), (''lean_source'', JNull),
              (''status'', status), (''status_reason'', reason),
              (''status_evidence'', JObj (as_dict (jor (dget fs ''status_evidence'') (JObj [])))),
              (''topic_id'', JNull),
              (''artifact_ids'', JList (as_list (dget_or fs ''artifact_ids'' (JList [])))),
              (''citation_count'', JInt 0), (''last_activity_at'', JTime (now w)),
              (''target_digest'', target)])))))))"

text \<open>\<open>Commons.N\<close> and 8, 12 or 16 hexadecimal digits of the id, the first that no node of the
  experiment has.\<close>

definition module_named :: "nat \<Rightarrow> string \<Rightarrow> string" where
  "module_named width node_id = ''Commons.N'' @ take width (filter (\<lambda>c. c \<noteq> CHR ''-'') node_id)"

definition starts_with :: "string \<Rightarrow> string \<Rightarrow> bool" where
  "starts_with pre s \<longleftrightarrow> take (length pre) s = pre"

definition experiment_node :: "row \<Rightarrow> row \<Rightarrow> bool" where
  "experiment_node experiment r \<longleftrightarrow>
     r_project r = r_project experiment \<and> r_kind r = CommonsNode \<and>
     field r ''experiment_id'' = JStr (r_id experiment)"

definition module_taken :: "world \<Rightarrow> row \<Rightarrow> string \<Rightarrow> nat \<Rightarrow> bool" where
  "module_taken w experiment node_id width \<longleftrightarrow>
     (\<exists>r \<in> set (records w). experiment_node experiment r \<and>
        (if width = 8 then starts_with (take 8 node_id) (r_id r)
         else field r ''lean_module'' = JStr (module_named width node_id)))"

definition new_module :: "world \<Rightarrow> row \<Rightarrow> string \<Rightarrow> herr + string" where
  "new_module w experiment node_id =
     (case find (\<lambda>width. \<not> module_taken w experiment node_id width) [8, 12, 16] of
        None \<Rightarrow> Inl (fail ''COMMONS_MODULE_COLLISION'' 409)
      | Some width \<Rightarrow> Inr (module_named width node_id))"

definition node_evidence :: "world \<Rightarrow> row \<Rightarrow> principal \<Rightarrow> string \<Rightarrow> herr + unit" where
  "node_evidence w experiment actor i =
     bindE (get_row w Artifact (JStr i) actor) (\<lambda>artifact.
     evidence_public artifact (JStr (r_id experiment)))"

text \<open>The node's topic, in the same transaction, and its id on the node.\<close>

definition open_node_thread ::
  "string \<Rightarrow> row \<Rightarrow> dict \<Rightarrow> principal \<Rightarrow> world \<Rightarrow> herr + (dict \<times> world)" where
  "open_node_thread op experiment node actor w =
     bindE (discussion_experiment w (JStr (r_id experiment)) actor) (\<lambda>(_, target).
     bindE (dneed node ''branch_id'') (\<lambda>b.
     bindE (insert_topic op experiment target b
              (take 200 (CHR ''['' # text_of (dget node ''node_type'') @ ''] '' @ text_of (dget node ''title'')))
              (take 4000 (text_of (dget node ''statement''))) actor
              (Some (text_of (dget node ''id''))) w) (\<lambda>(topic, w1).
     case find_json w1 (dget node ''id'') of
       None \<Rightarrow> Inl (ValueError ''node'')
     | Some r \<Rightarrow> replace_row w1 r [(''topic_id'', dget topic ''id'')] None)))"

section \<open>Edges\<close>

definition max_graph_nodes :: nat where "max_graph_nodes = 5000"

definition max_graph_edges :: int where "max_graph_edges = 50000"

definition graph_too_large :: herr where
  "graph_too_large = fail ''COMMONS_GRAPH_TOO_LARGE'' 409"

text \<open>The query is cut one row past the bound, and then refused.\<close>

definition experiment_dependencies :: "world \<Rightarrow> row \<Rightarrow> herr + dependency list" where
  "experiment_dependencies w experiment =
     (let nodes = map r_id (filter (experiment_node experiment) (records w));
          es = map (\<lambda>d. (d_source d, d_target d))
                 (filter (\<lambda>d. d_project d = r_project experiment \<and> d_relation d = depends_on \<and>
                    d_source d \<in> set nodes) (edges w))
      in if max_graph_edges < int (length es) then Inl graph_too_large else Inr es)"

text \<open>A link that the target's dependencies lead back from is refused; so is one that cannot be
  decided within the bound.\<close>

definition check_acyclic :: "world \<Rightarrow> row \<Rightarrow> string \<Rightarrow> string \<Rightarrow> herr + unit" where
  "check_acyclic w experiment source_id target_id =
     bindE (experiment_dependencies w experiment) (\<lambda>es.
     let (reached, truncated) =
           depends_closure (dependency_children es None) target_id max_graph_nodes
     in if source_id \<in> set reached then Inl (fail ''DEPENDENCY_CYCLE'' 409)
        else if truncated then Inl graph_too_large else Inr ())"

definition add_edge ::
  "string \<Rightarrow> row \<Rightarrow> string \<Rightarrow> string \<Rightarrow> string \<Rightarrow> principal \<Rightarrow> bool \<Rightarrow> world \<Rightarrow> herr + (bool \<times> world)"
where
  "add_edge op experiment source_id relation target_id actor new_source w =
     (if target_id = source_id then Inl (fail ''SELF_EDGE'' 422)
      else bindE (commons_node w (JStr target_id) actor (JStr (r_id experiment))) (\<lambda>target.
        let stored = edge_prefix @ relation
        in if find_edge w source_id target_id stored \<noteq> None then Inr (False, w)
           else bindE (if relation = ''depends_on'' \<and> \<not> new_source
                       then check_acyclic w experiment source_id target_id else Inr ()) (\<lambda>_.
             let w1 = w\<lparr>edges := edges w @ [\<lparr>d_source = source_id, d_target = target_id,
                   d_relation = stored, d_project = r_project experiment\<rparr>]\<rparr>;
                 w2 = emit actor op ''commons.edge_added'' source_id
                   [(''experiment_id'', JStr (r_id experiment)), (''source_id'', JStr source_id),
                    (''relation'', JStr relation), (''target_id'', JStr target_id),
                    (''branch_id'', jopt (pr_branch actor))] False w1
             in if relation \<noteq> ''depends_on'' then Inr (True, w2)
                else case find_row w2 source_id of
                  None \<Rightarrow> Inl (ValueError ''source'')
                | Some source \<Rightarrow>
                    bindE (auto_subscribe op (field target ''topic_id'')
                      (case field source ''branch_id'' of JStr b \<Rightarrow> Some b | _ \<Rightarrow> None) actor w2)
                      (\<lambda>(_, w3). Inr (True, w3)))))"

definition link_action :: "string \<Rightarrow> string \<Rightarrow> string \<Rightarrow> string \<Rightarrow> principal \<Rightarrow> action" where
  "link_action experiment_id source_id relation target_id actor op w =
     bindE (commons_experiment w (JStr experiment_id) actor True) (\<lambda>experiment.
     bindE (commons_node w (JStr source_id) actor (JStr experiment_id)) (\<lambda>_.
     bindE (add_edge op experiment source_id relation target_id actor False w) (\<lambda>(created, w1).
     Inr ([(''experiment_id'', JStr experiment_id), (''source_id'', JStr source_id),
           (''relation'', JStr relation), (''target_id'', JStr target_id),
           (''created'', JBool created)], w1))))"

definition link_nodes ::
  "int \<Rightarrow> string \<Rightarrow> string \<Rightarrow> string \<Rightarrow> string \<Rightarrow> principal \<Rightarrow> string \<Rightarrow> world \<Rightarrow> herr + (dict \<times> world)"
where
  "link_nodes elapsed experiment_id source_id relation target_id actor key w =
     bindE (research_role actor) (\<lambda>_.
     if relation \<notin> set edge_relations then Inl (fail ''INVALID_EDGE'' 422)
     else execute elapsed actor key ''commons.link''
       (JObj [(''experiment_id'', JStr experiment_id), (''source_id'', JStr source_id),
              (''relation'', JStr relation), (''target_id'', JStr target_id)])
       (link_action experiment_id source_id relation target_id actor) w)"

section \<open>Creating a node\<close>

definition insert_node ::
  "(string \<Rightarrow> string) \<Rightarrow> row \<Rightarrow> node_create \<Rightarrow> principal \<Rightarrow> string \<Rightarrow> string \<Rightarrow> world \<Rightarrow>
   herr + (dict \<times> world)"
where
  "insert_node nfkc experiment request actor op node_id w =
     bindE (new_module w experiment node_id) (\<lambda>module.
     bindE (node_payload nfkc w experiment (node_fields request @
              [(''status'', JStr ''open''), (''status_reason'', JStr ''proposed''),
               (''lean_writer'', if opt_true (nc_lean_statement request) then JStr (writer_of actor) else JNull),
               (''lean_module'', JStr module)])) (\<lambda>payload.
     bindE (insert_row w CommonsNode actor (payload @ [(''branch_id'', jopt (pr_branch actor))])
              (Some node_id)) (\<lambda>(made, w1).
     Inr (made, emit actor op ''commons.node_created'' (text_of (dget made ''id''))
       [(''experiment_id'', JStr (r_id experiment)), (''node_id'', dget made ''id''),
        (''node_type'', JStr (nc_type request)), (''branch_id'', jopt (pr_branch actor))] False w1))))"

definition create_node_action ::
  "(string \<Rightarrow> string) \<Rightarrow> string \<Rightarrow> node_create \<Rightarrow> principal \<Rightarrow> action" where
  "create_node_action nfkc experiment_id request actor op w =
     bindE (commons_experiment w (JStr experiment_id) actor True) (\<lambda>experiment.
     bindE (checkE (node_evidence w experiment actor) (nc_artifacts request)) (\<lambda>_.
     let (node_id, w1) = new_id w
     in bindE (insert_node nfkc experiment request actor op node_id w1) (\<lambda>(made, w2).
        bindE (open_node_thread op experiment made actor w2) (\<lambda>(node, w3).
        bindE (auto_subscribe op (dget node ''topic_id'') (pr_branch actor) actor w3)
          (\<lambda>(subscribed, w4).
        bindE (foldE (\<lambda>(relation, target) v.
                  bindE (add_edge op experiment (text_of (dget node ''id'')) relation target actor True v)
                    (\<lambda>(_, v'). Inr v')) (nc_edges request) w4) (\<lambda>w5.
        Inr (dput ''auto_subscribed'' (JBool subscribed) node, w5)))))))"

definition create_node ::
  "(string \<Rightarrow> string) \<Rightarrow> int \<Rightarrow> string \<Rightarrow> node_create \<Rightarrow> principal \<Rightarrow> string \<Rightarrow> world \<Rightarrow>
   herr + (dict \<times> world)"
where
  "create_node nfkc elapsed experiment_id request actor key w =
     bindE (research_role actor) (\<lambda>_.
     if nc_type request = ''goal'' then Inl (fail ''GOAL_NODE_RESERVED'' 403)
     else if pr_role actor = Agent \<and> \<not> opt_true (pr_branch actor)
     then Inl (fail ''BRANCH_AUTHORITY'' 403)
     else execute elapsed actor key ''commons.node_create''
       (JObj ((''experiment_id'', JStr experiment_id) # node_data request))
       (create_node_action nfkc experiment_id request actor) w)"

section \<open>The goal\<close>

definition goal_row :: "world \<Rightarrow> row \<Rightarrow> row option" where
  "goal_row w experiment =
     (case select_sorted (\<lambda>r. experiment_node experiment r \<and> field r ''node_type'' = JStr ''goal'') w of
        [] \<Rightarrow> None | r # _ \<Rightarrow> Some r)"

definition reviewed_target :: "world \<Rightarrow> row \<Rightarrow> herr + row option" where
  "reviewed_target w experiment =
     bindE (need experiment ''problem_id'') (\<lambda>p.
     Inr (case find_json w p of
            None \<Rightarrow> None
          | Some target \<Rightarrow>
              if r_kind target \<noteq> Problem \<or> r_project target \<noteq> r_project experiment \<or>
                 field target ''semantic_review'' \<noteq> JStr ''approved'' \<or>
                 field target ''target_digest'' \<noteq> field experiment ''target_digest''
              then None else Some target))"

text \<open>The goal mirrors the reviewed target.\<close>

definition goal_fields :: "row \<Rightarrow> herr + dict" where
  "goal_fields target =
     bindE (need target ''title'') (\<lambda>title.
     bindE (need target ''informal_statement'') (\<lambda>informal.
     Inr [(''node_type'', JStr ''goal''), (''title'', title),
          (''statement'', JStr (take 8000 (text_of informal))),
          (''assumptions'', JList (map (\<lambda>a. JStr (take 512 (text_of a)))
             (take 32 (as_list (field target ''assumptions''))))),
          (''status'', JStr ''open''), (''status_reason'', JStr ''reviewed target''),
          (''status_evidence'', JObj [(''review_id'', field target ''review_id'')])]))"

definition insert_goal ::
  "(string \<Rightarrow> string) \<Rightarrow> row \<Rightarrow> row \<Rightarrow> string \<Rightarrow> world \<Rightarrow> herr + (dict \<times> world)" where
  "insert_goal nfkc experiment target op w =
     (let actor = platform (r_project experiment)
      in bindE (goal_fields target) (\<lambda>fs.
         bindE (node_payload nfkc w experiment fs) (\<lambda>payload.
         bindE (insert_row w CommonsNode actor
             (payload @ [(''branch_id'', JNull), (''formal_target'', JBool True),
                         (''problem_revision_id'', JStr (r_id target))]) None) (\<lambda>(made, w1).
         open_node_thread op experiment made actor
           (emit actor op ''commons.node_created'' (text_of (dget made ''id''))
             [(''experiment_id'', JStr (r_id experiment)), (''node_id'', dget made ''id''),
              (''node_type'', JStr ''goal'')] False w1)))))"

definition goal_node :: "(string \<Rightarrow> string) \<Rightarrow> row \<Rightarrow> string option \<Rightarrow> world \<Rightarrow> herr + (dict \<times> world)" where
  "goal_node nfkc experiment op w =
     (case goal_row w experiment of
        Some r \<Rightarrow> Inr (r_payload r, w)
      | None \<Rightarrow>
          bindE (reviewed_target w experiment) (\<lambda>found.
          case found of
            None \<Rightarrow> Inl (fail ''TARGET_REVIEW_REQUIRED'' 409)
          | Some target \<Rightarrow>
              let (op', w1) = (if opt_true op then (the op, w) else new_id w)
              in insert_goal nfkc experiment target op' w1))"

definition ensure_goal_node ::
  "(string \<Rightarrow> string) \<Rightarrow> string \<Rightarrow> principal \<Rightarrow> world \<Rightarrow> herr + (dict \<times> world)" where
  "ensure_goal_node nfkc experiment_id actor w =
     bindE (research_role actor) (\<lambda>_.
     bindE (commons_experiment w (JStr experiment_id) actor False) (\<lambda>experiment.
     goal_node nfkc experiment None w))"

definition ensure_goal_for_read ::
  "(string \<Rightarrow> string) \<Rightarrow> string \<Rightarrow> principal \<Rightarrow> world \<Rightarrow> herr + world" where
  "ensure_goal_for_read nfkc experiment_id actor w =
     bindE (commons_experiment w (JStr experiment_id) actor False) (\<lambda>experiment.
     if goal_row w experiment \<noteq> None then Inr w
     else bindE (reviewed_target w experiment) (\<lambda>found.
       if found = None then Inr w
       else bindE (ensure_goal_node nfkc experiment_id actor w) (\<lambda>(_, w1). Inr w1)))"

section \<open>Status\<close>

definition closed_statuses :: "string list" where
  "closed_statuses = [''accepted'', ''refuted'', ''abandoned'']"

definition allowed_transitions :: "json \<Rightarrow> string list" where
  "allowed_transitions old =
     (if in_strings old (''open'' # legacy_open_statuses) then closed_statuses else [])"

definition one_quoted :: "string \<Rightarrow> nat \<Rightarrow> string" where
  "one_quoted s limit = quoted (take limit (one_line s))"

text \<open>The announcement of a move: an author's reason is quoted, so it cannot pose as the platform's.\<close>

definition status_note :: "char \<Rightarrow> row \<Rightarrow> json \<Rightarrow> string \<Rightarrow> string" where
  "status_note arrow node old new =
     (let reason = text_of (field node ''status_reason'');
          move = ''Status '' @ text_of old @ '' '' @ [arrow] @ '' '' @ new
      in take 600
           (if truthy (dget (as_dict (field node ''status_evidence'')) ''abandoned_by'') then
              move @ '' by its author'' @
              (if truthy (field node ''branch_id'')
               then '' '' @ take 8 (text_of (field node ''branch_id'')) else []) @
              '': '' @ one_quoted reason 400
            else move @ '': '' @ reason))"

text \<open>A platform note on a node's thread.\<close>

definition note_data :: "string \<Rightarrow> string \<Rightarrow> json \<Rightarrow> dict" where
  "note_data abstract node_id status =
     [(''kind'', JStr ''update''), (''content'', JStr abstract), (''abstract'', JStr abstract),
      (''artifact_ids'', JList []), (''reference_post_ids'', JList []),
      (''reply_to_post_id'', JNull), (''node_id'', JStr node_id), (''cites'', JList []),
      (''platform_status'', status), (''branch_id'', JNull)]"

definition post_note :: "row \<Rightarrow> string \<Rightarrow> json \<Rightarrow> string \<Rightarrow> world \<Rightarrow> herr + world" where
  "post_note node abstract status op w =
     (case find_json w (jor (field node ''topic_id'') (JStr [])) of
        None \<Rightarrow> Inr w
      | Some topic \<Rightarrow>
          if r_kind topic \<noteq> DiscussionTopic then Inr w
          else bindE (insert_post op topic (note_data abstract (r_id node) status)
                 (platform (r_project node)) w) (\<lambda>(_, w1). Inr w1))"

definition post_status_update :: "char \<Rightarrow> row \<Rightarrow> json \<Rightarrow> string \<Rightarrow> string \<Rightarrow> world \<Rightarrow> herr + world" where
  "post_status_update arrow node old new op w =
     post_note node (status_note arrow node old new)
       (JObj [(''from'', old), (''to'', JStr new), (''reason'', field node ''status_reason'')]) op w"

definition post_route_compiled :: "row \<Rightarrow> json \<Rightarrow> json \<Rightarrow> string \<Rightarrow> world \<Rightarrow> herr + world" where
  "post_route_compiled node branch_id route op w =
     post_note node
       (''Node '' @ take 8 (r_id node) @ '' compiled'' @
        (if truthy branch_id then '' by '' @ take 8 (text_of branch_id) else []) @
        (if truthy route then '' (route: '' @ quoted (one_line (text_of route)) @ '')'' else []) @
        ''; consider stopping your route.'')
       (JObj [(''compiled_by'', branch_id), (''route'', route)]) op w"

text \<open>The single status gate.\<close>

definition set_node_status ::
  "char \<Rightarrow> row \<Rightarrow> string \<Rightarrow> string \<Rightarrow> dict \<Rightarrow> string \<Rightarrow> string option \<Rightarrow> world \<Rightarrow> herr + (dict \<times> world)"
where
  "set_node_status arrow node status reason evidence op branch_id w =
     bindE (need node ''status'') (\<lambda>old.
     if status \<notin> set (allowed_transitions old) then Inl (fail ''ILLEGAL_STATUS_TRANSITION'' 409)
     else bindE (replace_row w node
         [(''status'', JStr status), (''status_reason'', JStr (take 2000 reason)),
          (''status_evidence'', JObj evidence), (''last_activity_at'', JTime (now w))] None)
         (\<lambda>(written, w1).
       bindE (dneed written ''experiment_id'') (\<lambda>e.
       let w2 = emit (platform (r_project node)) op ''commons.node_status'' (r_id node)
             [(''experiment_id'', e), (''node_id'', dget written ''id''), (''from'', old),
              (''to'', JStr status), (''reason'', JStr (take 2000 reason)),
              (''branch_id'', jopt branch_id)] False w1
       in case find_row w2 (r_id node) of
            None \<Rightarrow> Inl (ValueError ''node'')
          | Some fresh \<Rightarrow>
              bindE (post_status_update arrow fresh (public_status old) status op w2)
                (\<lambda>w3. Inr (written, w3)))))"

definition author_may :: "row \<Rightarrow> principal \<Rightarrow> bool" where
  "author_may node actor \<longleftrightarrow>
     (if truthy (field node ''branch_id'') then field node ''branch_id'' = jopt (pr_branch actor)
      else field node ''origin_actor_id'' = JStr (pr_id actor))"

definition abandon_action :: "char \<Rightarrow> string \<Rightarrow> string \<Rightarrow> principal \<Rightarrow> action" where
  "abandon_action arrow node_id reason actor op w =
     bindE (get_row w CommonsNode (JStr node_id) actor) (\<lambda>node.
     bindE (need node ''experiment_id'') (\<lambda>e.
     bindE (commons_experiment w e actor True) (\<lambda>_.
     bindE (need node ''node_type'') (\<lambda>k.
     if k = JStr ''goal'' then Inl (fail ''GOAL_NODE_RESERVED'' 403)
     else if \<not> author_may node actor then Inl (fail ''NODE_AUTHORITY'' 403)
     else bindE (need node ''status'') (\<lambda>status.
       if \<not> is_open status then Inl (fail ''NODE_CLOSED'' 409)
       else set_node_status arrow node ''abandoned'' reason
              [(''abandoned_by'', JStr (pr_id actor))] op (pr_branch actor) w)))))"

definition abandon_node ::
  "char \<Rightarrow> int \<Rightarrow> string \<Rightarrow> string \<Rightarrow> principal \<Rightarrow> string \<Rightarrow> world \<Rightarrow> herr + (dict \<times> world)" where
  "abandon_node arrow elapsed node_id reason actor key w =
     bindE (research_role actor) (\<lambda>_.
     if strip reason = [] \<or> 2000 < length reason then Inl (fail ''INVALID_REASON'' 422)
     else execute elapsed actor key ''commons.node_abandon''
       (JObj [(''node_id'', JStr node_id), (''reason'', JStr reason)])
       (abandon_action arrow node_id reason actor) w)"

section \<open>Posts on a node\<close>

record node_post =
  np_kind :: string
  np_abstract :: string
  np_body :: string
  np_cites :: "string list"
  np_artifacts :: "string list"
  np_reply :: "string option"

definition node_post_ok :: "node_post \<Rightarrow> bool" where
  "node_post_ok r \<longleftrightarrow>
     np_kind r \<in> {''question'', ''finding'', ''objection'', ''attempt_failed'', ''synthesis'', ''update''} \<and>
     bounded 1 600 (np_abstract r) \<and> length (np_body r) \<le> 12000 \<and>
     length (np_cites r) \<le> 20 \<and> list_all (bounded 1 36) (np_cites r) \<and>
     length (np_artifacts r) \<le> 12 \<and> list_all (bounded 1 36) (np_artifacts r) \<and>
     pred_option (bounded 1 36) (np_reply r) \<and> strip (np_abstract r) \<noteq> [] \<and>
     distinct (np_cites r) \<and> distinct (np_artifacts r)"

definition node_post_data :: "node_post \<Rightarrow> dict" where
  "node_post_data r =
     [(''kind'', JStr (np_kind r)), (''abstract'', JStr (np_abstract r)),
      (''body'', JStr (np_body r)), (''cites'', strings (np_cites r)),
      (''artifact_ids'', strings (np_artifacts r)), (''reply_to_post_id'', jopt (np_reply r))]"

text \<open>One cited node gains a citation and the poster follows its thread.\<close>

definition cite_node ::
  "string \<Rightarrow> principal \<Rightarrow> row \<Rightarrow> bool \<times> world \<Rightarrow> herr + (bool \<times> world)" where
  "cite_node op actor cited0 st =
     (case st of (followed, w) \<Rightarrow>
        case find_row w (r_id cited0) of
          None \<Rightarrow> Inl (ValueError ''node'')
        | Some cited \<Rightarrow>
        bindE (need cited ''citation_count'') (\<lambda>n.
        bindE (replace_row w cited [(''citation_count'', JInt (as_int n + 1))] None) (\<lambda>(_, w1).
        bindE (auto_subscribe op (field cited ''topic_id'') (pr_branch actor) actor w1)
          (\<lambda>(subscribed, w2). Inr (followed \<and> subscribed, w2)))))"

definition node_post_fields :: "node_post \<Rightarrow> row \<Rightarrow> principal \<Rightarrow> dict" where
  "node_post_fields request node actor =
     [(''kind'', JStr (np_kind request)),
      (''content'', JStr (if strip (np_body request) \<noteq> [] then np_body request else np_abstract request)),
      (''abstract'', JStr (np_abstract request)), (''artifact_ids'', strings (np_artifacts request)),
      (''reference_post_ids'', JList []), (''reply_to_post_id'', jopt (np_reply request)),
      (''node_id'', JStr (r_id node)), (''cites'', strings (np_cites request)),
      (''branch_id'', jopt (pr_branch actor))]"

definition post_target :: "world \<Rightarrow> string \<Rightarrow> string \<Rightarrow> principal \<Rightarrow> herr + (row \<times> row \<times> row)" where
  "post_target w node_id post_kind actor =
     bindE (get_row w CommonsNode (JStr node_id) actor) (\<lambda>node.
     bindE (need node ''experiment_id'') (\<lambda>e.
     bindE (commons_experiment w e actor True) (\<lambda>experiment.
     bindE (need node ''status'') (\<lambda>status.
     if \<not> is_open status \<and> post_kind \<notin> {''synthesis'', ''update''} then Inl (fail ''NODE_CLOSED'' 409)
     else if \<not> truthy (field node ''topic_id'') then Inl (fail ''NODE_THREAD_MISSING'' 409)
     else bindE (discussion_topic w (field node ''topic_id'') actor) (\<lambda>(topic, _, _).
       Inr (node, experiment, topic))))))"

definition post_node_action :: "string \<Rightarrow> node_post \<Rightarrow> principal \<Rightarrow> action" where
  "post_node_action node_id request actor op w =
     bindE (post_target w node_id (np_kind request) actor) (\<lambda>(node, experiment, topic).
     bindE (if opt_true (np_reply request)
            then bindE (discussion_post w (jopt (np_reply request)) actor (Some topic)) (\<lambda>_. Inr ())
            else Inr ()) (\<lambda>_.
     bindE (checkE (node_evidence w experiment actor) (np_artifacts request)) (\<lambda>_.
     bindE (mapE (\<lambda>i. commons_node w (JStr i) actor (JStr (r_id experiment))) (np_cites request))
       (\<lambda>cited.
     bindE (foldE (cite_node op actor) cited (True, w)) (\<lambda>(followed, w1).
     bindE (insert_post op topic (node_post_fields request node actor) actor w1) (\<lambda>(post, w2).
     case find_row w2 (r_id node) of
       None \<Rightarrow> Inl (ValueError ''node'')
     | Some fresh \<Rightarrow>
         bindE (touch_node fresh actor op w2) (\<lambda>w3.
         Inr (dput ''auto_subscribed'' (JBool followed) post, w3))))))))"

definition post_on_node ::
  "int \<Rightarrow> string \<Rightarrow> node_post \<Rightarrow> principal \<Rightarrow> string \<Rightarrow> world \<Rightarrow> herr + (dict \<times> world)" where
  "post_on_node elapsed node_id request actor key w =
     bindE (research_role actor) (\<lambda>_.
     if pr_role actor = Agent \<and> \<not> opt_true (pr_branch actor)
     then Inl (fail ''BRANCH_AUTHORITY'' 403)
     else execute elapsed actor key ''commons.node_post''
       (JObj ((''node_id'', JStr node_id) # node_post_data request))
       (post_node_action node_id request actor) w)"

end
