(* ===== verification/Teams.thy ===== *)
theory Teams
  imports Workforce Lean_Modules Commons
begin

text \<open>
  The rest of the workforce (\<open>workforce.py\<close>): the policy of a root task's continuations, recruitment
  under a scope, published profiles and the directory of them, research teams, capacity requests, and
  the synthesis of public discussion that a controller's tick schedules. \<open>_workforce_lock\<close> is
  \<open>active\<close>.
\<close>

section \<open>Root replans\<close>

definition root_replans_action :: "string \<Rightarrow> int \<Rightarrow> principal \<Rightarrow> action" where
  "root_replans_action task_id max_replans actor op w =
     bindE (get_row w Task (JStr task_id) actor) (\<lambda>task.
     bindE (need task ''branch_id'') (\<lambda>branch_id.
     bindE (get_row w Branch branch_id actor) (\<lambda>branch.
     if truthy (field branch ''parent_id'') \<or> truthy (field task ''delegated_from_task_id'') \<or>
        truthy (field task ''review_assignment'')
     then Inl (fail ''ROOT_TASK_REQUIRED'' 409)
     else
       let existing = field task ''root_replan_limit''
       in if existing \<noteq> JNull then
            (if existing \<noteq> JInt max_replans then Inl (fail ''ROOT_REPLAN_POLICY_CONFLICT'' 409)
             else Inr (r_payload task, w))
          else if field task ''status'' \<noteq> JStr ''queued'' \<or> find_lease w task_id \<noteq> None
          then Inl (fail ''TASK_NOT_QUEUED'' 409)
          else bindE (if truthy (field task ''target_digest'') then Inr (field task ''target_digest'')
                      else bindE (need task ''experiment_id'') (\<lambda>e.
                        bindE (get_row w Experiment e actor) (\<lambda>experiment.
                        need experiment ''target_digest''))) (\<lambda>digest.
            bindE (replace_row w task
                [(''root_replan_limit'', JInt max_replans), (''root_replans_used'', JInt 0),
                 (''root_target_digest'', digest)] None) (\<lambda>(result, w1).
            Inr (result, emit actor op ''task.root_replan_policy'' task_id
              [(''max_replans'', JInt max_replans)] False w1))))))"

definition configure_root_replans ::
  "int \<Rightarrow> string \<Rightarrow> int \<Rightarrow> principal \<Rightarrow> string \<Rightarrow> world \<Rightarrow> herr + (dict \<times> world)"
where
  "configure_root_replans elapsed task_id max_replans actor key w =
     (if pr_role actor \<notin> {Operator, Admin} then Inl (fail ''FORBIDDEN'' 403)
      else if \<not> (0 \<le> max_replans \<and> max_replans \<le> 8) then Inl (fail ''ROOT_REPLAN_LIMIT'' 409)
      else execute elapsed actor key ''task.root-replan-policy''
        (JObj [(''task_id'', JStr task_id), (''max_replans'', JInt max_replans)])
        (root_replans_action task_id max_replans actor) w)"

section \<open>Recruitment\<close>

record recruit_request =
  rc_parent :: string
  rc_title :: string
  rc_objective :: string
  rc_relation :: string
  rc_model :: "nat option"
  rc_refs :: "string list"
  rc_synthesis :: bool
  rc_detached :: bool
  rc_summary :: "string option"
  rc_scope :: "string option"

definition recruit_request_ok :: "recruit_request \<Rightarrow> bool" where
  "recruit_request_ok q \<longleftrightarrow>
     bounded 1 200 (rc_title q) \<and> bounded 1 20000 (rc_objective q) \<and>
     rc_relation q \<in> {''helper'', ''collaborator'', ''competing''} \<and>
     (case rc_model q of None \<Rightarrow> True | Some i \<Rightarrow> i \<le> 99) \<and> length (rc_refs q) \<le> 20 \<and>
     strip (rc_title q) \<noteq> [] \<and> strip (rc_objective q) \<noteq> [] \<and>
     (case rc_summary q of None \<Rightarrow> True | Some t \<Rightarrow> length t \<le> 1000 \<and> strip t \<noteq> [])"

text \<open>\<open>scope_statement_error\<close> on a node in hand.\<close>

definition scope_statement :: "dict \<Rightarrow> herr + unit" where
  "scope_statement node =
     bindE (node_refusal node) (\<lambda>refusal.
     if refusal = None \<and> truthy (dget node ''lean_elaborated'') \<and> truthy (dget node ''lean_name'') \<and>
        truthy (dget node ''lean_statement'')
     then Inr () else Inl (fail ''SCOPE_NEEDS_STATEMENT'' 422))"

definition recruit_scope ::
  "world \<Rightarrow> string \<Rightarrow> principal \<Rightarrow> string option \<Rightarrow> herr + dict option" where
  "recruit_scope w experiment_id actor scope_node_id =
     (case scope_node_id of
        None \<Rightarrow> Inr None
      | Some i \<Rightarrow>
          bindE (commons_node w (JStr i) actor (JStr experiment_id)) (\<lambda>row.
          let node = r_payload row
          in bindE (scope_statement node) (\<lambda>_.
             bindE (dneed node ''id'') (\<lambda>node_id.
             bindE (node_module node) (\<lambda>module.
             Inr (Some [(''node_id'', node_id), (''lean_statement_sha256'', statement_digest w node),
                        (''module'', module)]))))))"

text \<open>A referenced post is of this experiment and its reviewed target.\<close>

definition post_of_target :: "world \<Rightarrow> string \<Rightarrow> row \<Rightarrow> principal \<Rightarrow> string \<Rightarrow> herr + unit" where
  "post_of_target w experiment_id experiment actor identifier =
     bindE (get_row w DiscussionPost (JStr identifier) actor) (\<lambda>post.
     if field post ''experiment_id'' \<noteq> JStr experiment_id
     then Inl (fail ''DISCUSSION_SCOPE'' 409)
     else bindE (need experiment ''target_digest'') (\<lambda>digest.
       if field post ''target_digest'' \<noteq> digest then Inl (fail ''DISCUSSION_SCOPE'' 409)
       else Inr ()))"

definition recruited_work :: "recruit_request \<Rightarrow> dict option \<Rightarrow> branch_work" where
  "recruited_work q scope =
     \<lparr>k_title = rc_title q, k_objective = rc_objective q, k_parent = Some (rc_parent q),
      k_relation = rc_relation q, k_model = rc_model q, k_refs = rc_refs q,
      k_synthesis = rc_synthesis q, k_synthesis_scope = JNull, k_detached = rc_detached q,
      k_summary = rc_summary q,
      k_task_extra = (case scope of None \<Rightarrow> None | Some s \<Rightarrow> Some [(''scope'', JObj s)]),
      k_branch_extra = None\<rparr>"

definition recruit_action :: "string \<Rightarrow> recruit_request \<Rightarrow> principal \<Rightarrow> action" where
  "recruit_action experiment_id q actor op w =
     bindE (active w (JStr experiment_id) actor) (\<lambda>experiment.
     if \<not> distinct (rc_refs q) then Inl (fail ''DUPLICATE_REFERENCE'' 409)
     else if rc_synthesis q \<and> rc_refs q = [] then Inl (fail ''SYNTHESIS_REFS_REQUIRED'' 409)
     else bindE (checkE (post_of_target w experiment_id experiment actor) (rc_refs q)) (\<lambda>_.
       bindE (recruit_scope w experiment_id actor (rc_scope q)) (\<lambda>scope.
       bindE (branch_model experiment (rc_model q) (find_row w (rc_parent q))) (\<lambda>model.
       bindE (admit_research_tasks w (JStr experiment_id) actor 1 False [model]) (\<lambda>_.
       bindE (new_branch_task op experiment actor (recruited_work q scope) w) (\<lambda>(result, w1).
       Inr (dmerge [(''experiment_id'', JStr experiment_id)] result, w1)))))))"

definition recruit_inputs :: "string \<Rightarrow> recruit_request \<Rightarrow> json" where
  "recruit_inputs experiment_id q =
     JObj ([(''parent_branch_id'', JStr (rc_parent q)), (''title'', JStr (rc_title q)),
            (''objective'', JStr (rc_objective q)), (''relation'', JStr (rc_relation q)),
            (''model_index'', jnat (rc_model q)), (''discussion_refs'', strings (rc_refs q)),
            (''synthesis'', JBool (rc_synthesis q)), (''detached'', JBool (rc_detached q)),
            (''public_summary'', jopt (rc_summary q))] @
           (case rc_scope q of None \<Rightarrow> [] | Some i \<Rightarrow> [(''scope_node_id'', JStr i)]) @
           [(''experiment_id'', JStr experiment_id)])"

definition recruit_researcher ::
  "int \<Rightarrow> string \<Rightarrow> recruit_request \<Rightarrow> principal \<Rightarrow> string \<Rightarrow> world \<Rightarrow> herr + (dict \<times> world)"
where
  "recruit_researcher elapsed experiment_id q actor key w =
     bindE (research_role actor) (\<lambda>_.
     execute elapsed actor key ''workforce.recruit'' (recruit_inputs experiment_id q)
       (recruit_action experiment_id q actor) w)"

section \<open>Profiles, teams and capacity requests\<close>

definition branch_owner :: "world \<Rightarrow> string \<Rightarrow> string \<Rightarrow> principal \<Rightarrow> herr + row" where
  "branch_owner w experiment_id branch_id actor =
     bindE (writable_branch w (JStr branch_id) actor False) (\<lambda>branch.
     bindE (need branch ''experiment_id'') (\<lambda>e.
     if e \<noteq> JStr experiment_id then Inl (fail ''BRANCH_EXPERIMENT_MISMATCH'' 409) else Inr branch))"

text \<open>The workforce rows of one experiment, and which of two was made later: the ISO text of the
  instant, then the id.\<close>

definition workforce_rows :: "kind \<Rightarrow> principal \<Rightarrow> string \<Rightarrow> row \<Rightarrow> bool" where
  "workforce_rows k actor experiment_id r \<longleftrightarrow>
     r_project r = pr_project actor \<and> r_kind r = k \<and> field r ''experiment_id'' = JStr experiment_id"

definition made_at :: "row \<Rightarrow> int" where
  "made_at r = (case field r ''created_at'' of JTime t \<Rightarrow> t | _ \<Rightarrow> 0)"

definition made_after :: "row \<Rightarrow> row \<Rightarrow> bool" where
  "made_after r s \<longleftrightarrow> made_at s < made_at r \<or> (made_at s = made_at r \<and> r_id s < r_id r)"

text \<open>\<open>row_number() over (partition by key order by created_at desc, id desc) = 1\<close>.\<close>

definition latest_per :: "(row \<Rightarrow> 'k) \<Rightarrow> row list \<Rightarrow> row list" where
  "latest_per key rows =
     filter (\<lambda>r. \<forall>s \<in> set rows. key s = key r \<longrightarrow> \<not> made_after s r) rows"

definition latest_branch_record ::
  "world \<Rightarrow> kind \<Rightarrow> string \<Rightarrow> json \<Rightarrow> principal \<Rightarrow> row option" where
  "latest_branch_record w k experiment_id branch_id actor =
     (let rows = select_rows (\<lambda>r. workforce_rows k actor experiment_id r \<and>
                   field r ''branch_id'' = branch_id \<and> branch_id \<noteq> JNull) w
      in find (\<lambda>r. \<forall>s \<in> set rows. \<not> made_after s r) rows)"

definition max_teams :: nat where "max_teams = 12"

text \<open>The teams a branch is in: the latest row of each team says so.\<close>

definition team_rows :: "world \<Rightarrow> string \<Rightarrow> json \<Rightarrow> principal \<Rightarrow> row list" where
  "team_rows w experiment_id branch_id actor =
     select_rows (\<lambda>r. workforce_rows WorkforceTeam actor experiment_id r \<and>
       field r ''branch_id'' = branch_id) w"

definition team_of :: "row \<Rightarrow> string" where
  "team_of r = text_of (field r ''team'')"

definition joined_teams :: "world \<Rightarrow> string \<Rightarrow> json \<Rightarrow> principal \<Rightarrow> string list" where
  "joined_teams w experiment_id branch_id actor =
     sort (map team_of (filter (\<lambda>r. field r ''joined'' = JBool True)
       (latest_per team_of (team_rows w experiment_id branch_id actor))))"

definition public_team_labels :: "world \<Rightarrow> string \<Rightarrow> json \<Rightarrow> principal \<Rightarrow> string list" where
  "public_team_labels w experiment_id branch_id actor =
     take max_teams (joined_teams w experiment_id branch_id actor)"

definition public_team_directory ::
  "world \<Rightarrow> string \<Rightarrow> principal \<Rightarrow> string option \<Rightarrow> dict list" where
  "public_team_directory w experiment_id actor branch_id =
     (let rows = select_rows (\<lambda>r. workforce_rows WorkforceTeam actor experiment_id r \<and>
                   (branch_id = None \<or> field r ''branch_id'' = jopt branch_id)) w;
          joined = filter (\<lambda>r. field r ''joined'' = JBool True)
                     (latest_per (\<lambda>r. (field r ''branch_id'', team_of r)) rows);
          teams = sort (dedup (map team_of joined))
      in map (\<lambda>name. [(''name'', JStr name),
            (''member_count'', JInt (int (length (filter (\<lambda>r. team_of r = name) joined))))])
          (take 50 teams))"

record profile_request =
  pf_branch :: string
  pf_published :: bool
  pf_summary :: string
  pf_interests :: "string list"
  pf_assignment :: string

definition profile_request_ok :: "profile_request \<Rightarrow> bool" where
  "profile_request_ok q \<longleftrightarrow>
     length (pf_summary q) \<le> 1000 \<and> length (pf_interests q) \<le> 12 \<and> length (pf_assignment q) \<le> 300 \<and>
     (pf_published q \<longrightarrow> strip (pf_summary q) \<noteq> []) \<and>
     (\<forall>i \<in> set (pf_interests q). strip i \<noteq> [] \<and> length i \<le> 100)"

definition profile_data :: "profile_request \<Rightarrow> string \<Rightarrow> dict" where
  "profile_data q experiment_id =
     [(''branch_id'', JStr (pf_branch q)), (''published'', JBool (pf_published q)),
      (''summary'', JStr (pf_summary q)), (''interests'', strings (pf_interests q)),
      (''assignment'', JStr (pf_assignment q)), (''experiment_id'', JStr experiment_id)]"

text \<open>What the three requests of a branch's owner share: a row and its event.\<close>

definition record_workforce ::
  "string \<Rightarrow> kind \<Rightarrow> string \<Rightarrow> dict \<Rightarrow> string \<Rightarrow> principal \<Rightarrow> world \<Rightarrow> herr + (dict \<times> world)" where
  "record_workforce op k event data experiment_id actor w =
     bindE (insert_row w k actor data None) (\<lambda>(made, w1).
     Inr (made, emit actor op event (text_of (dget made ''id''))
       [(''experiment_id'', JStr experiment_id)] False w1))"

definition profile_action :: "string \<Rightarrow> profile_request \<Rightarrow> principal \<Rightarrow> action" where
  "profile_action experiment_id q actor op w =
     bindE (active w (JStr experiment_id) actor) (\<lambda>_.
     bindE (branch_owner w experiment_id (pf_branch q) actor) (\<lambda>_.
     if pf_published q \<and> strip (pf_summary q) = []
     then Inl (fail ''PROFILE_SUMMARY_REQUIRED'' 409)
     else record_workforce op WorkforceProfile ''workforce.profile'' (profile_data q experiment_id)
            experiment_id actor w))"

definition publish_research_profile ::
  "int \<Rightarrow> string \<Rightarrow> profile_request \<Rightarrow> principal \<Rightarrow> string \<Rightarrow> world \<Rightarrow> herr + (dict \<times> world)"
where
  "publish_research_profile elapsed experiment_id q actor key w =
     bindE (research_role actor) (\<lambda>_.
     execute elapsed actor key ''workforce.profile'' (JObj (profile_data q experiment_id))
       (profile_action experiment_id q actor) w)"

record team_request =
  tm_branch :: string
  tm_team :: string
  tm_joined :: bool

definition team_request_ok :: "team_request \<Rightarrow> bool" where
  "team_request_ok q \<longleftrightarrow> bounded 1 100 (tm_team q)"

definition team_data :: "team_request \<Rightarrow> string \<Rightarrow> dict" where
  "team_data q experiment_id =
     [(''branch_id'', JStr (tm_branch q)), (''team'', JStr (tm_team q)),
      (''joined'', JBool (tm_joined q)), (''experiment_id'', JStr experiment_id)]"

definition team_action :: "string \<Rightarrow> team_request \<Rightarrow> principal \<Rightarrow> action" where
  "team_action experiment_id q actor op w =
     bindE (active w (JStr experiment_id) actor) (\<lambda>_.
     bindE (branch_owner w experiment_id (tm_branch q) actor) (\<lambda>_.
     let held = public_team_labels w experiment_id (JStr (tm_branch q)) actor
     in if tm_joined q \<and> tm_team q \<notin> set held \<and> max_teams \<le> length held
        then Inl (fail ''TEAM_LIMIT'' 409)
        else record_workforce op WorkforceTeam ''workforce.team'' (team_data q experiment_id)
               experiment_id actor w))"

definition join_research_team ::
  "int \<Rightarrow> string \<Rightarrow> team_request \<Rightarrow> principal \<Rightarrow> string \<Rightarrow> world \<Rightarrow> herr + (dict \<times> world)"
where
  "join_research_team elapsed experiment_id q actor key w =
     bindE (research_role actor) (\<lambda>_.
     execute elapsed actor key ''workforce.team'' (JObj (team_data q experiment_id))
       (team_action experiment_id q actor) w)"

record capacity_request =
  cq_branch :: string
  cq_workers :: int
  cq_rationale :: string

definition capacity_request_ok :: "capacity_request \<Rightarrow> bool" where
  "capacity_request_ok q \<longleftrightarrow>
     1 \<le> cq_workers q \<and> cq_workers q \<le> 1000 \<and> bounded 1 1000 (cq_rationale q)"

definition capacity_data :: "capacity_request \<Rightarrow> string \<Rightarrow> dict" where
  "capacity_data q experiment_id =
     [(''branch_id'', JStr (cq_branch q)), (''requested_workers'', JInt (cq_workers q)),
      (''rationale'', JStr (cq_rationale q)), (''experiment_id'', JStr experiment_id)]"

definition capacity_action :: "string \<Rightarrow> capacity_request \<Rightarrow> principal \<Rightarrow> action" where
  "capacity_action experiment_id q actor op w =
     bindE (active w (JStr experiment_id) actor) (\<lambda>_.
     bindE (branch_owner w experiment_id (cq_branch q) actor) (\<lambda>_.
     record_workforce op WorkforceCapacityRequest ''workforce.capacity_requested''
       (capacity_data q experiment_id @
         [(''status'', JStr ''requested''), (''granted_workers'', JInt 0)])
       experiment_id actor w))"

definition request_research_capacity ::
  "int \<Rightarrow> string \<Rightarrow> capacity_request \<Rightarrow> principal \<Rightarrow> string \<Rightarrow> world \<Rightarrow> herr + (dict \<times> world)"
where
  "request_research_capacity elapsed experiment_id q actor key w =
     bindE (research_role actor) (\<lambda>_.
     execute elapsed actor key ''workforce.capacity_request'' (JObj (capacity_data q experiment_id))
       (capacity_action experiment_id q actor) w)"

section \<open>The directory and the capacity\<close>

text \<open>\<open>scan_profiles\<close>: the loop over the rows of a page; the state is the items, how many rows were
  scanned and the last of them. A profile shows when it is its branch's latest and published.\<close>

definition profile_item :: "world \<Rightarrow> string \<Rightarrow> principal \<Rightarrow> row \<Rightarrow> herr + dict" where
  "profile_item w experiment_id actor r =
     bindE (need r ''branch_id'') (\<lambda>branch_id.
     bindE (need r ''summary'') (\<lambda>summary.
     bindE (need r ''interests'') (\<lambda>interests.
     Inr [(''branch_id'', branch_id), (''summary'', summary), (''interests'', interests),
          (''profile_id'', JStr (r_id r)), (''assignment'', dget_or (r_payload r) ''assignment'' (JStr [])),
          (''teams'', strings (public_team_labels w experiment_id branch_id actor))])))"

definition profile_shows :: "world \<Rightarrow> string \<Rightarrow> principal \<Rightarrow> row \<Rightarrow> herr + bool" where
  "profile_shows w experiment_id actor r =
     bindE (need r ''branch_id'') (\<lambda>branch_id.
     case latest_branch_record w WorkforceProfile experiment_id branch_id actor of
       None \<Rightarrow> Inl (ValueError ''attribute'')
     | Some latest \<Rightarrow>
         if r_id latest \<noteq> r_id r then Inr False
         else bindE (need r ''published'') (\<lambda>published. Inr (truthy published)))"

fun scan_profiles ::
  "(row \<Rightarrow> herr + bool) \<Rightarrow> (row \<Rightarrow> herr + dict) \<Rightarrow> nat \<Rightarrow> row list \<Rightarrow>
   dict list \<times> nat \<times> string option \<Rightarrow> herr + (dict list \<times> nat \<times> string option)"
where
  "scan_profiles shows item limit [] st = Inr st"
| "scan_profiles shows item limit (r # rows) (items, scanned, final) =
     bindE (shows r) (\<lambda>shown.
     if \<not> shown then scan_profiles shows item limit rows (items, Suc scanned, Some (r_id r))
     else bindE (item r) (\<lambda>i.
       let st = (items @ [i], Suc scanned, Some (r_id r))
       in if limit \<le> Suc (length items) then Inr st
          else scan_profiles shows item limit rows st))"

definition directory_view :: "dict list \<Rightarrow> string option \<Rightarrow> dict list \<Rightarrow> dict" where
  "directory_view items next_cursor teams =
     [(''items'', JList (map JObj items)), (''next_cursor'', jopt next_cursor),
      (''teams'', JList (map JObj teams))]"

definition research_directory ::
  "world \<Rightarrow> string \<Rightarrow> principal \<Rightarrow> string option \<Rightarrow> nat \<Rightarrow> herr + dict" where
  "research_directory w experiment_id actor after limit =
     bindE (research_role actor) (\<lambda>_.
     if \<not> (1 \<le> limit \<and> limit \<le> 50) then Inl (fail ''INVALID_PAGE_SIZE'' 422)
     else bindE (get_row w Experiment (JStr experiment_id) actor) (\<lambda>experiment.
     let own_branch = pr_role actor = Agent \<and> field experiment ''sharing'' \<noteq> JStr ''ideas''
     in if own_branch \<and> \<not> opt_true (pr_branch actor) then Inr (directory_view [] None [])
        else
          let rows = take 201 (select_sorted (\<lambda>r.
                workforce_rows WorkforceProfile actor experiment_id r \<and>
                (own_branch \<longrightarrow> field r ''branch_id'' = jopt (pr_branch actor)) \<and>
                (opt_true after \<longrightarrow> the after < r_id r)) w)
          in bindE (scan_profiles (profile_shows w experiment_id actor)
                (profile_item w experiment_id actor) limit (take 200 rows) ([], 0, None))
             (\<lambda>(items, scanned, final).
             Inr (directory_view items
               (if opt_true final \<and> scanned < length rows then final else None)
               (public_team_directory w experiment_id actor
                  (if own_branch then pr_branch actor else None))))))"

definition capacity_item :: "principal \<Rightarrow> row \<Rightarrow> herr + dict list" where
  "capacity_item actor r =
     bindE (need r ''branch_id'') (\<lambda>branch_id.
     if pr_role actor = Agent \<and> branch_id \<noteq> jopt (pr_branch actor) then Inr []
     else bindE (need r ''requested_workers'') (\<lambda>requested.
       bindE (need r ''rationale'') (\<lambda>rationale.
       Inr [[(''id'', JStr (r_id r)), (''branch_id'', branch_id),
             (''requested_workers'', requested), (''rationale'', rationale)]])))"

definition research_capacity :: "world \<Rightarrow> string \<Rightarrow> principal \<Rightarrow> herr + dict" where
  "research_capacity w experiment_id actor =
     bindE (research_role actor) (\<lambda>_.
     bindE (get_row w Experiment (JStr experiment_id) actor) (\<lambda>experiment.
     let policy = workforce_policy w (JStr experiment_id) actor;
         (total_limit, pending_limit) = task_caps experiment policy;
         tasks = select_rows (workforce_rows Task actor experiment_id) w;
         counted = (\<lambda>status. int (length (filter (\<lambda>r. field r ''status'' = JStr status) tasks)));
         requests = take 20 (rev (select_sorted
           (workforce_rows WorkforceCapacityRequest actor experiment_id) w))
     in case find_budget w experiment_id of
          None \<Rightarrow> Inl (ValueError ''attribute'')
        | Some budget \<Rightarrow>
            bindE (mapE (capacity_item actor) requests) (\<lambda>shown.
            Inr [(''experiment_id'', JStr experiment_id), (''queued_tasks'', JInt (counted ''queued'')),
                 (''running_tasks'', JInt (counted ''running'')),
                 (''total_tasks'', JInt (int (length tasks))),
                 (''max_total_tasks'', jint total_limit), (''max_pending_tasks'', jint pending_limit),
                 (''synthesis_interval_posts'', case policy of None \<Rightarrow> JInt 0
                    | Some p \<Rightarrow> dget_or (r_payload p) ''synthesis_interval_posts'' (JInt 0)),
                 (''active_workers'', JInt (b_active_workers budget)),
                 (''max_concurrency'', JInt (b_max_concurrency budget)),
                 (''requests'', JList (map JObj (concat shown)))])))"

section \<open>Synthesis of public discussion\<close>

text \<open>The first sampled post's branch that exists, is visible and is not a referee.\<close>

definition synthesis_parent :: "world \<Rightarrow> row \<Rightarrow> row list \<Rightarrow> principal \<Rightarrow> string option" where
  "synthesis_parent w experiment sampled actor =
     map_option r_id (List.find
       (\<lambda>b. r_kind b = Branch \<and> r_project b = r_project experiment \<and>
            field b ''experiment_id'' = JStr (r_id experiment) \<and> field b ''hat'' \<noteq> referee_hat \<and>
            in_scope w actor b)
       (List.map_filter (\<lambda>post. find_json w (jor (field post ''branch_id'') (JStr []))) sampled))"

text \<open>The sample so far: its posts' ids, the posts, their topics, the first post's topic (\<open>JNull\<close> before there is one) and how many
  posts were eligible.\<close>

record sample_state =
  sm_ids :: "json list"
  sm_posts :: "row list"
  sm_topics :: "json list"
  sm_first :: json
  sm_count :: int

definition max_sample :: nat where "max_sample = 20"

text \<open>The first nineteen posts stay; the twentieth gives way to one of another topic.\<close>

definition sample_post :: "bool \<Rightarrow> row \<Rightarrow> sample_state \<Rightarrow> herr + sample_state" where
  "sample_post is_society post st0 =
     (if \<not> truthy (field post ''branch_id'') \<and> \<not> is_society then Inr st0
      else
        let st = st0\<lparr>sm_count := sm_count st0 + 1\<rparr>
        in bindE (need post ''topic_id'') (\<lambda>topic.
           if length (sm_ids st) < max_sample then
             Inr (st\<lparr>sm_ids := sm_ids st @ [JStr (r_id post)], sm_posts := sm_posts st @ [post],
                     sm_topics := List.insert topic (sm_topics st),
                     sm_first := (if sm_first st = JNull then topic else sm_first st)\<rparr>)
           else if topic \<noteq> sm_first st \<and> length (sm_topics st) = 1 then
             Inr (st\<lparr>sm_ids := butlast (sm_ids st) @ [JStr (r_id post)],
                     sm_posts := butlast (sm_posts st) @ [post],
                     sm_topics := List.insert topic (sm_topics st)\<rparr>)
           else Inr st))"

definition new_posts :: "world \<Rightarrow> principal \<Rightarrow> string \<Rightarrow> int \<Rightarrow> event_row list" where
  "new_posts w actor experiment_id watermark =
     take 101 (sort_key e_sequence (filter (\<lambda>e. e_project e = pr_project actor \<and>
       e_kind e = ''discussion.post_created'' \<and> watermark < e_sequence e \<and>
       dget (e_payload e) ''experiment_id'' = JStr experiment_id) (events w)))"

definition event_post ::
  "world \<Rightarrow> string \<Rightarrow> row \<Rightarrow> row \<Rightarrow> principal \<Rightarrow> event_row \<Rightarrow> herr + row" where
  "event_post w experiment_id experiment target actor e =
     (let post_id = dget (e_payload e) ''post_id''
      in if \<not> truthy post_id then Inl (fail ''DISCUSSION_EVENT_SCOPE'' 409)
         else bindE (get_row w DiscussionPost post_id actor) (\<lambda>post.
           if field post ''experiment_id'' \<noteq> JStr experiment_id
           then Inl (fail ''DISCUSSION_SCOPE'' 409)
           else bindE (need experiment ''target_digest'') (\<lambda>digest.
             if field post ''target_digest'' \<noteq> digest \<or>
                field post ''environment_digest'' \<noteq> field target ''environment_digest''
             then Inl (fail ''DISCUSSION_SCOPE'' 409) else Inr post)))"

definition pending_sample :: "world \<Rightarrow> principal \<Rightarrow> row \<Rightarrow> herr + sample_state" where
  "pending_sample w actor policy =
     (let ids = as_list (dget_or (r_payload policy) ''pending_synthesis_post_ids'' (JList []))
      in bindE (mapE (\<lambda>i. get_row w DiscussionPost i actor) ids) (\<lambda>posts.
         bindE (mapE (\<lambda>post. need post ''topic_id'') posts) (\<lambda>topics.
         Inr \<lparr>sm_ids = ids, sm_posts = posts, sm_topics = dedup topics,
              sm_first = (case topics of [] \<Rightarrow> JNull | t # _ \<Rightarrow> t),
              sm_count = as_int (dget_or (r_payload policy) ''pending_synthesis_post_count'' (JInt 0))\<rparr>)))"

definition synthesis_values :: "int \<Rightarrow> json list \<Rightarrow> int \<Rightarrow> dict" where
  "synthesis_values through ids eligible =
     [(''last_synthesis_sequence'', JInt through), (''pending_synthesis_post_ids'', JList ids),
      (''pending_synthesis_post_count'', JInt eligible)]"

definition not_scheduled :: "string \<Rightarrow> dict" where
  "not_scheduled reason = [(''scheduled'', JBool False), (''reason'', JStr reason)]"

definition short_reason :: "int \<Rightarrow> int \<Rightarrow> json list \<Rightarrow> string" where
  "short_reason eligible interval topics =
     (if eligible < interval then ''insufficient_posts''
      else if length topics < 2 then ''single_topic'' else ''source_branch_missing'')"

definition synthesis_work :: "string option \<Rightarrow> sample_state \<Rightarrow> int \<Rightarrow> string \<Rightarrow> branch_work" where
  "synthesis_work parent st through objective =
     \<lparr>k_title = ''Research discussion synthesis'', k_objective = objective, k_parent = parent,
      k_relation = ''competing'', k_model = None, k_refs = map text_of (sm_ids st),
      k_synthesis = True,
      k_synthesis_scope = JObj
        [(''coverage'', JStr ''bounded_sample''), (''eligible_post_count'', JInt (sm_count st)),
         (''sampled_post_count'', JInt (int (length (sm_ids st)))),
         (''through_sequence'', JInt through)],
      k_detached = True, k_summary = Some ''Synthesis of sampled public research discussions'',
      k_task_extra = None, k_branch_extra = None\<rparr>"

definition synthesis_objective :: string where
  "synthesis_objective =
     ''Compare only the sampled, attributed posts in discussion_refs. '' @
     ''Preserve disagreements and objections present in those sampled posts '' @
     ''with exact source IDs; do not claim to cover all discussion. '' @
     ''Identify useful next experiments; treat every claim as unverified '' @
     ''until the normal verifier accepts independent evidence.''"

definition outstanding_synthesis :: "world \<Rightarrow> principal \<Rightarrow> string \<Rightarrow> row option" where
  "outstanding_synthesis w actor experiment_id =
     find (\<lambda>r. workforce_rows Task actor experiment_id r \<and> field r ''synthesis'' = JBool True \<and>
       in_strings (field r ''status'') [''queued'', ''running'']) (records w)"

text \<open>What follows the sample: a task when enough posts of two topics are in, otherwise the sample
  waits in the policy.\<close>

definition sample_parent :: "world \<Rightarrow> row \<Rightarrow> sample_state \<Rightarrow> principal \<Rightarrow> bool \<Rightarrow> string option" where
  "sample_parent w experiment st actor is_society =
     (if is_society then synthesis_parent w experiment (sm_posts st) actor
      else case find (\<lambda>post. truthy (field post ''branch_id'')) (sm_posts st) of
             None \<Rightarrow> None | Some post \<Rightarrow> Some (text_of (field post ''branch_id'')))"

definition schedule_sample ::
  "string \<Rightarrow> string \<Rightarrow> row \<Rightarrow> row \<Rightarrow> int \<Rightarrow> bool \<Rightarrow> sample_state \<Rightarrow> int \<Rightarrow> principal \<Rightarrow> world \<Rightarrow>
   herr + (dict \<times> world)"
where
  "schedule_sample op experiment_id experiment policy interval is_society st through actor w =
     (let topics = map JStr (sort (map text_of (sm_topics st)));
          parent = sample_parent w experiment st actor is_society
      in if sm_count st < interval \<or> length topics < 2 \<or> (\<not> opt_true parent \<and> \<not> is_society) then
           bindE (replace_row w policy (synthesis_values through (sm_ids st) (sm_count st))
              (Some (r_rev policy))) (\<lambda>(_, w1).
           Inr (not_scheduled (short_reason (sm_count st) interval topics) @
             [(''eligible_posts'', JInt (sm_count st)), (''through_sequence'', JInt through)], w1))
         else
           bindE (branch_model experiment None (find_opt w parent)) (\<lambda>model.
           bindE (admit_research_tasks w (JStr experiment_id) actor 1 False [model]) (\<lambda>_.
           bindE (new_branch_task op experiment actor
                (synthesis_work parent st through synthesis_objective) w) (\<lambda>(made, w1).
           bindE (replace_row w1 policy (synthesis_values through [] 0) (Some (r_rev policy)))
             (\<lambda>(_, w2).
           Inr (dmerge
             [(''scheduled'', JBool True), (''experiment_id'', JStr experiment_id),
              (''source_post_ids'', JList (sm_ids st)), (''source_topic_ids'', JList topics),
              (''through_sequence'', JInt through), (''eligible_post_count'', JInt (sm_count st)),
              (''sampled_post_count'', JInt (int (length (sm_ids st)))),
              (''parent_branch_id'', jopt parent)] made, w2))))))"

definition synthesis_action :: "string \<Rightarrow> principal \<Rightarrow> action" where
  "synthesis_action experiment_id actor op w =
     bindE (active w (JStr experiment_id) actor) (\<lambda>experiment.
     case workforce_policy w (JStr experiment_id) actor of
       None \<Rightarrow> Inr (not_scheduled ''disabled'', w)
     | Some policy \<Rightarrow>
         let interval = as_int (dget_or (r_payload policy) ''synthesis_interval_posts'' (JInt 0));
             watermark = as_int (dget_or (r_payload policy) ''last_synthesis_sequence'' (JInt 0));
             found = new_posts w actor experiment_id watermark;
             is_society = truthy (field experiment ''society'')
         in if interval = 0 then Inr (not_scheduled ''disabled'', w)
            else if field experiment ''sharing'' \<noteq> JStr ''ideas''
            then Inr (not_scheduled ''ideas_sharing_required'', w)
            else case outstanding_synthesis w actor experiment_id of
              Some task \<Rightarrow>
                Inr (not_scheduled ''outstanding'' @ [(''task_id'', JStr (r_id task))], w)
            | None \<Rightarrow>
                if found = [] then Inr (not_scheduled ''no_new_posts'', w)
                else bindE (need experiment ''problem_id'') (\<lambda>problem_id.
                  case find_json w problem_id of
                    None \<Rightarrow> Inl (fail ''TARGET_SCOPE'' 409)
                  | Some target \<Rightarrow>
                      if r_project target \<noteq> pr_project actor then Inl (fail ''TARGET_SCOPE'' 409)
                      else
                        let window = take 100 found
                        in bindE (mapE (event_post w experiment_id experiment target actor) window)
                             (\<lambda>posts.
                           bindE (pending_sample w actor policy) (\<lambda>st0.
                           bindE (foldE (sample_post is_society) posts st0) (\<lambda>st.
                           schedule_sample op experiment_id experiment policy interval is_society st
                             (e_sequence (last window)) actor w)))))"

definition schedule_research_synthesis ::
  "int \<Rightarrow> string \<Rightarrow> principal \<Rightarrow> string \<Rightarrow> world \<Rightarrow> herr + (dict \<times> world)"
where
  "schedule_research_synthesis elapsed experiment_id actor key w =
     (if pr_role actor \<notin> {Operator, Admin} then Inl (fail ''FORBIDDEN'' 403)
      else execute elapsed actor key ''workforce.synthesis_schedule''
        (JObj [(''experiment_id'', JStr experiment_id)]) (synthesis_action experiment_id actor) w)"

section \<open>Teams stay within their limit\<close>

lemma latest_per_snoc:
  "r \<in> set (latest_per key (rows @ [r0])) \<Longrightarrow> r = r0 \<or> r \<in> set (latest_per key rows)"
  by (simp add: latest_per_def split: if_splits) blast

lemma latest_per_one:
  assumes "distinct (map r_id rows)" "r \<in> set (latest_per key rows)" "s \<in> set (latest_per key rows)"
    and "key r = key s"
  shows "r = s"
proof -
  have "\<not> made_after r s" "\<not> made_after s r" "r \<in> set rows" "s \<in> set rows"
    using assms by (auto simp: latest_per_def)
  then have "r_id r = r_id s" by (auto simp: made_after_def linorder_neq_iff)
  with \<open>r \<in> set rows\<close> \<open>s \<in> set rows\<close> show ?thesis
    using assms(1) by (auto simp: distinct_map dest: inj_onD)
qed

definition joined_set :: "row list \<Rightarrow> string set" where
  "joined_set rows =
     team_of ` {r \<in> set (latest_per team_of rows). field r ''joined'' = JBool True}"

lemma length_joined_teams:
  assumes "distinct (map r_id (records w))"
  shows "length (joined_teams w e b actor) = card (joined_set (team_rows w e b actor))"
proof -
  let ?rows = "team_rows w e b actor"
  let ?in = "filter (\<lambda>r. field r ''joined'' = JBool True) (latest_per team_of ?rows)"
  have d: "distinct (map r_id ?rows)"
    using assms by (simp add: team_rows_def select_rows_def distinct_map_filter)
  have "distinct (map team_of ?in)"
    unfolding distinct_map
    using d latest_per_one [OF d, of _ team_of]
    by (auto simp: latest_per_def distinct_map inj_on_def)
  then have "card (team_of ` set ?in) = length ?in" using distinct_card by fastforce
  moreover have "team_of ` set ?in = joined_set ?rows" by (auto simp: joined_set_def)
  ultimately show ?thesis by (simp add: joined_teams_def)
qed

lemma set_joined_teams: "set (joined_teams w e b actor) = joined_set (team_rows w e b actor)"
  by (auto simp: joined_teams_def joined_set_def)

lemma joined_set_snoc:
  "joined_set (rows @ [r]) \<subseteq>
     joined_set rows \<union> (if field r ''joined'' = JBool True then {team_of r} else {})"
  using latest_per_snoc [of _ team_of rows r] by (fastforce simp: joined_set_def)

lemma finite_joined_set [simp]: "finite (joined_set rows)"
  by (simp add: joined_set_def)

definition teams_ok :: "world \<Rightarrow> bool" where
  "teams_ok w \<longleftrightarrow> distinct (map r_id (records w)) \<and>
     (\<forall>e i actor. i \<noteq> [] \<longrightarrow> length (joined_teams w e (JStr i) actor) \<le> max_teams)"

lemma teams_ok_cong: "records b = records a \<Longrightarrow> teams_ok a \<Longrightarrow> teams_ok b"
  by (simp add: teams_ok_def joined_teams_def team_rows_def select_rows_def)

lemma records_insert_row:
  assumes "insert_row w k actor data None = Inr (made, w')"
  shows "records w' = records w @ [\<lparr>r_id = fst (new_id w), r_project = pr_project actor, r_kind = k,
      r_rev = 1, r_payload = made\<rparr>]" "fst (new_id w) \<notin> r_id ` set (records w)"
  by (rule insert_row_InrE [OF assms];
      simp add: inserted_id_def set_row_def put_row_def find_row_def lookup_row_None_iff)+

lemma record_workforce_records:
  assumes "record_workforce op k ev data e actor w = Inr (made, w')"
  shows "\<exists>w1. insert_row w k actor data None = Inr (made, w1) \<and> records w' = records w1"
  using assms by (auto simp: record_workforce_def bindE_Inr_iff)

text \<open>A row of another kind, or of a branch it names truly, leaves the teams in bounds.\<close>

lemma teams_ok_other:
  assumes "record_workforce op k ev data e actor w = Inr (made, w')" "k \<noteq> WorkforceTeam" "teams_ok w"
  shows "teams_ok w'"
proof -
  obtain w1 where "insert_row w k actor data None = Inr (made, w1)" and w': "records w' = records w1"
    using record_workforce_records [OF assms(1)] by blast
  note r = records_insert_row [OF this(1)]
  have "team_rows w' e b a = team_rows w e b a" for e b a
    using assms(2) by (simp add: team_rows_def select_rows_def w' r workforce_rows_def)
  then show ?thesis using assms(3) r(2) by (simp add: teams_ok_def joined_teams_def w' r)
qed

lemma teams_ok_join:
  assumes "record_workforce op WorkforceTeam ev (team_data q e) e actor w = Inr (made, w')"
    and "teams_ok w" and room: "tm_joined q \<and>
       tm_team q \<notin> set (public_team_labels w e (JStr (tm_branch q)) actor) \<longrightarrow>
       length (public_team_labels w e (JStr (tm_branch q)) actor) < max_teams"
    and branch: "\<And>i. i \<noteq> [] \<Longrightarrow> dget made ''branch_id'' = JStr i \<Longrightarrow> i = tm_branch q"
    and fields: "dget made ''team'' = JStr (tm_team q)" "dget made ''joined'' = JBool (tm_joined q)"
      "dget made ''experiment_id'' = JStr e"
  shows "teams_ok w'"
proof -
  obtain w1 where "insert_row w WorkforceTeam actor (team_data q e) None = Inr (made, w1)"
    and w': "records w' = records w1"
    using record_workforce_records [OF assms(1)] by blast
  note r = records_insert_row [OF this(1)]
  let ?r = "\<lparr>r_id = fst (new_id w), r_project = pr_project actor, r_kind = WorkforceTeam, r_rev = 1,
    r_payload = made\<rparr>"
  have d: "distinct (map r_id (records w))" "distinct (map r_id (records w'))"
    using assms(2) r(2) by (simp_all add: teams_ok_def w' r)
  have "length (joined_teams w' x (JStr i) a) \<le> max_teams" if "i \<noteq> []" for x i a
  proof -
    have old: "length (joined_teams w x (JStr i) a) \<le> max_teams"
      using assms(2) that by (simp add: teams_ok_def)
    let ?rows = "team_rows w x (JStr i) a"
    show ?thesis
    proof (cases "pr_project actor = pr_project a \<and> x = e \<and> dget made ''branch_id'' = JStr i")
      case False
      then have "team_rows w' x (JStr i) a = ?rows"
        by (auto simp: team_rows_def select_rows_def w' r workforce_rows_def fields)
      then show ?thesis using old by (simp add: joined_teams_def)
    next
      case True
      then have i: "i = tm_branch q" using branch that by blast
      have same: "team_rows w' x (JStr i) a = ?rows @ [?r]"
        using True by (simp add: team_rows_def select_rows_def w' r workforce_rows_def fields)
      have held: "public_team_labels w e (JStr (tm_branch q)) actor = joined_teams w x (JStr i) a"
        using True old by (simp add: public_team_labels_def joined_teams_def i team_rows_def workforce_rows_def)
      have sub: "joined_set (?rows @ [?r]) \<subseteq>
          joined_set ?rows \<union> (if tm_joined q then {tm_team q} else {})"
        using joined_set_snoc [of ?rows ?r] by (cases "tm_joined q") (simp_all add: fields team_of_def text_of_def)
      have c: "card (joined_set ?rows) \<le> max_teams"
        using old by (simp add: length_joined_teams [OF d(1)])
      have "card (joined_set ?rows \<union> (if tm_joined q then {tm_team q} else {})) \<le> max_teams"
      proof (cases "tm_joined q \<and> tm_team q \<notin> joined_set ?rows")
        case True
        then have "card (joined_set ?rows) < max_teams"
          using room by (simp add: held set_joined_teams length_joined_teams [OF d(1)])
        then show ?thesis using True by simp
      next
        case False
        then show ?thesis using c by (auto simp: insert_absorb)
      qed
      then have "card (joined_set (?rows @ [?r])) \<le> max_teams"
        using card_mono [OF _ sub] by fastforce
      then show ?thesis by (simp add: length_joined_teams [OF d(2)] same)
    qed
  qed
  then show ?thesis using d(2) by (simp add: teams_ok_def)
qed

lemma team_record_fields:
  assumes "insert_row w WorkforceTeam actor (team_data q e) None = Inr (made, w')"
  shows "dget made ''team'' = JStr (tm_team q)" "dget made ''joined'' = JBool (tm_joined q)"
    "dget made ''experiment_id'' = JStr e"
    "\<And>i. i \<noteq> [] \<Longrightarrow> dget made ''branch_id'' = JStr i \<Longrightarrow> i = tm_branch q \<or>
       (tm_branch q = [] \<and> pr_role actor = Agent \<and> pr_branch actor = Some i)"
proof -
  obtain data where a: "attribute_record w WorkforceTeam actor (team_data q e) = Inr data"
    and f: "dget made ''team'' = dget data ''team''" "dget made ''joined'' = dget data ''joined''"
      "dget made ''experiment_id'' = dget data ''experiment_id''"
      "dget made ''branch_id'' = dget data ''branch_id''"
    using insert_row_field [OF assms, of "''team''"] insert_row_field [OF assms, of "''joined''"]
      insert_row_field [OF assms, of "''experiment_id''"] insert_row_field [OF assms, of "''branch_id''"]
    by auto
  have l: "link_references w actor (dput ''origin_actor_id'' x (team_data q e)) b = Inr (None, b)" for x b
    by (simp add: link_references_def reference_fields_def link_reference_def team_data_def Let_def jor_def as_dict_def)
  show "dget made ''team'' = JStr (tm_team q)" "dget made ''joined'' = JBool (tm_joined q)"
    "dget made ''experiment_id'' = JStr e"
    using a f by (auto simp: attribute_record_def Let_def l [unfolded team_data_def] bindE_Inr_iff
        team_data_def split: if_splits)
  show "i = tm_branch q \<or> (tm_branch q = [] \<and> pr_role actor = Agent \<and> pr_branch actor = Some i)"
    if "i \<noteq> []" "dget made ''branch_id'' = JStr i" for i
    using a f(4) that
    by (auto simp: attribute_record_def Let_def l [unfolded team_data_def] bindE_Inr_iff declared_branch_def
        team_data_def jor_def as_dict_def split: if_splits)
qed

lemma team_action_ok:
  assumes "team_action e q actor op w = Inr (made, w')" "teams_ok w" "principal_ok actor"
  shows "teams_ok w'"
proof -
  obtain ex branch where own: "branch_owner w e (tm_branch q) actor = Inr branch"
    and room: "tm_joined q \<longrightarrow> tm_team q \<in> set (public_team_labels w e (JStr (tm_branch q)) actor) \<or>
      length (public_team_labels w e (JStr (tm_branch q)) actor) < max_teams"
    and r: "record_workforce op WorkforceTeam ''workforce.team'' (team_data q e) e actor w = Inr (made, w')"
    using assms(1) by (auto simp: team_action_def bindE_Inr_iff Let_def split: if_splits)
  obtain w1 where ins: "insert_row w WorkforceTeam actor (team_data q e) None = Inr (made, w1)"
    using record_workforce_records [OF r] by blast
  have "writable_branch w (JStr (tm_branch q)) actor False = Inr branch"
    using own by (auto simp: branch_owner_def bindE_Inr_iff split: if_splits)
  then have "\<not> (tm_branch q = [] \<and> pr_role actor = Agent \<and> pr_branch actor = Some i)" if "i \<noteq> []" for i
    using that assms(3) by (auto simp: writable_branch_def bindE_Inr_iff principal_ok_def)
  then have "\<And>i. i \<noteq> [] \<Longrightarrow> dget made ''branch_id'' = JStr i \<Longrightarrow> i = tm_branch q"
    using team_record_fields(4) [OF ins] by blast
  then show ?thesis
    using teams_ok_join [OF r assms(2)] room team_record_fields(1-3) [OF ins] by blast
qed

datatype team_command =
    Join team_request
  | Profile profile_request
  | Capacity capacity_request

text \<open>One command of the workforce's self-description: the time it took, its actor, key and
  experiment. No principal is made that \<open>principal_ok\<close> refuses.\<close>

fun team_step ::
  "int \<times> principal \<times> string \<times> string \<times> team_command \<Rightarrow> world \<Rightarrow> herr + world" where
  "team_step (elapsed, actor, key, e, c) w =
     (if \<not> principal_ok actor then Inl (ValueError ''principal'')
      else bindE (case c of
          Join q \<Rightarrow> join_research_team elapsed e q actor key w
        | Profile q \<Rightarrow> publish_research_profile elapsed e q actor key w
        | Capacity q \<Rightarrow> request_research_capacity elapsed e q actor key w) (\<lambda>(_, w'). Inr w'))"

lemma team_step_ok: "teams_ok w \<Longrightarrow> team_step c w = Inr w' \<Longrightarrow> teams_ok w'"
proof -
  assume ok: "teams_ok w" and s: "team_step c w = Inr w'"
  obtain elapsed actor key e tc where c: "c = (elapsed, actor, key, e, tc)" by (metis prod_cases5)
  have p: "principal_ok actor" using s by (simp add: c split: if_splits)
  obtain made operation inputs act where x: "execute elapsed actor key operation inputs act w = Inr (made, w')"
    and act: "\<And>op w1 res w2. teams_ok w1 \<Longrightarrow> act op w1 = Inr (res, w2) \<Longrightarrow> teams_ok w2"
  proof (cases tc)
    case (Join q)
    then obtain made where x: "execute elapsed actor key ''workforce.team'' (JObj (team_data q e))
        (team_action e q actor) w = Inr (made, w')"
      using s p by (auto simp: c join_research_team_def bindE_Inr_iff)
    show ?thesis by (rule that [OF x]) (rule team_action_ok [OF _ _ p])
  next
    case (Profile q)
    then obtain made where x: "execute elapsed actor key ''workforce.profile'' (JObj (profile_data q e))
        (profile_action e q actor) w = Inr (made, w')"
      using s p by (auto simp: c publish_research_profile_def bindE_Inr_iff)
    show ?thesis
      by (rule that [OF x]) (auto simp: profile_action_def bindE_Inr_iff intro: teams_ok_other
        split: if_splits)
  next
    case (Capacity q)
    then obtain made where x: "execute elapsed actor key ''workforce.capacity_request''
        (JObj (capacity_data q e)) (capacity_action e q actor) w = Inr (made, w')"
      using s p by (auto simp: c request_research_capacity_def bindE_Inr_iff)
    show ?thesis
      by (rule that [OF x]) (auto simp: capacity_action_def bindE_Inr_iff intro: teams_ok_other)
  qed
  show "teams_ok w'"
    by (rule execute_preserves [where P = teams_ok, OF x ok])
      (use act in \<open>auto simp: same_tables_def intro: teams_ok_cong\<close>)
qed

interpretation team_machine: guarded_machine team_step teams_ok
  by unfold_locales (rule team_step_ok)

text \<open>C26. A branch never belongs to more than twelve teams. Whatever joins, leaves, profiles and capacity
  requests run, by whatever principals and in whatever order, the teams whose latest row says the branch
  joined stay within the limit, whichever clock stamped the rows; so the labels the directory shows of a
  branch are all of its teams.\<close>

theorem teams_stay_bounded:
  assumes "teams_ok w" and "i \<noteq> []"
  shows "length (joined_teams (run team_step cs w) e (JStr i) actor) \<le> 12 \<and>
    public_team_labels (run team_step cs w) e (JStr i) actor =
      joined_teams (run team_step cs w) e (JStr i) actor"
proof -
  have "teams_ok (run team_step cs w)" by (rule team_machine.run_inv [OF assms(1)])
  then have "length (joined_teams (run team_step cs w) e (JStr i) actor) \<le> max_teams"
    using assms(2) by (simp add: teams_ok_def)
  then show ?thesis by (simp add: public_team_labels_def max_teams_def)
qed

lemma sample_teams_ok: "teams_ok sample"
proof -
  have "distinct (map r_id (records sample))" by code_simp
  moreover have "\<forall>r \<in> set (records sample). r_kind r \<noteq> WorkforceTeam" by code_simp
  then have "team_rows sample e b a = []" for e b a
    by (auto simp: team_rows_def select_rows_def workforce_rows_def filter_empty_conv)
  ultimately show ?thesis by (simp add: teams_ok_def joined_teams_def latest_per_def)
qed

definition sample_joins :: "(int \<times> principal \<times> string \<times> string \<times> team_command) list" where
  "sample_joins =
     [(0, sample_agent, ''k1'', ''e'', Join \<lparr>tm_branch = ''b1'', tm_team = ''operators'', tm_joined = True\<rparr>),
      (0, sample_agent, ''k2'', ''e'', Join \<lparr>tm_branch = ''b1'', tm_team = ''spectra'', tm_joined = True\<rparr>),
      (5, sample_agent, ''k3'', ''e'', Join \<lparr>tm_branch = ''b1'', tm_team = ''operators'', tm_joined = False\<rparr>)]"

theorem teams_stay_bounded_witness:
  "joined_teams (run team_step sample_joins sample) ''e'' (JStr ''b1'') sample_agent = [''spectra''] \<and>
   public_team_labels (run team_step sample_joins sample) ''e'' (JStr ''b1'') sample_agent = [''spectra'']"
proof -
  have "joined_teams (run team_step sample_joins sample) ''e'' (JStr ''b1'') sample_agent = [''spectra'']"
    by code_simp
  with teams_stay_bounded [OF sample_teams_ok, of "''b1''" sample_joins "''e''" sample_agent]
  show ?thesis by simp
qed

section \<open>Synthesis is earned\<close>

definition eligible :: "bool \<Rightarrow> row \<Rightarrow> bool" where
  "eligible is_society post \<longleftrightarrow> truthy (field post ''branch_id'') \<or> is_society"

lemma sample_post_count:
  "sample_post soc post st0 = Inr st \<Longrightarrow>
     sm_count st = sm_count st0 + (if eligible soc post then 1 else 0)"
  by (auto simp: sample_post_def eligible_def bindE_Inr_iff Let_def split: if_splits)

lemma sample_post_ids:
  assumes "sample_post soc post st0 = Inr st"
  shows "sm_ids st = sm_ids st0 \<or>
    (length (sm_ids st0) < max_sample \<and> sm_ids st = sm_ids st0 @ [JStr (r_id post)]) \<or>
    (\<not> length (sm_ids st0) < max_sample \<and> sm_ids st = butlast (sm_ids st0) @ [JStr (r_id post)])"
proof (cases "length (sm_ids st0) < max_sample")
  case True
  then show ?thesis
    using assms by (auto simp: sample_post_def bindE_Inr_iff Let_def split: if_splits)
next
  case False
  then show ?thesis
    using assms by (auto simp: sample_post_def bindE_Inr_iff Let_def split: if_splits)
qed

lemma sample_post_InrD:
  assumes "sample_post soc post st0 = Inr st"
  shows "set (sm_ids st) \<subseteq> insert (JStr (r_id post)) (set (sm_ids st0))"
    "length (sm_ids st0) \<le> max_sample \<Longrightarrow> length (sm_ids st) \<le> max_sample"
  using sample_post_ids [OF assms] by (auto dest: in_set_butlastD simp: max_sample_def)

lemma sample_posts:
  assumes "foldE (sample_post soc) posts st0 = Inr st"
  shows "sm_count st = sm_count st0 + int (length (filter (eligible soc) posts))"
    "set (sm_ids st) \<subseteq> set (sm_ids st0) \<union> JStr ` r_id ` set posts"
    "length (sm_ids st0) \<le> max_sample \<Longrightarrow> length (sm_ids st) \<le> max_sample"
proof -
  have "sm_count st = sm_count st0 + int (length (filter (eligible soc) posts)) \<and>
    set (sm_ids st) \<subseteq> set (sm_ids st0) \<union> JStr ` r_id ` set posts \<and>
    (length (sm_ids st0) \<le> max_sample \<longrightarrow> length (sm_ids st) \<le> max_sample)"
    using assms
  proof (induction posts arbitrary: st0)
    case (Cons p posts)
    then obtain s1 where "sample_post soc p st0 = Inr s1" "foldE (sample_post soc) posts s1 = Inr st"
      by (auto simp: bindE_Inr_iff)
    with Cons.IH [of s1] sample_post_InrD [of soc p st0 s1] sample_post_count [of soc p st0 s1]
    show ?case by fastforce
  qed simp
  then show "sm_count st = sm_count st0 + int (length (filter (eligible soc) posts))"
    "set (sm_ids st) \<subseteq> set (sm_ids st0) \<union> JStr ` r_id ` set posts"
    "length (sm_ids st0) \<le> max_sample \<Longrightarrow> length (sm_ids st) \<le> max_sample" by auto
qed

lemma event_posts_ids:
  assumes "mapE (event_post w e experiment target actor) es = Inr posts" "p \<in> set posts"
  shows "\<exists>x \<in> set es. dget (e_payload x) ''post_id'' = JStr (r_id p)"
  using assms
  by (induction es arbitrary: posts)
    (auto simp: bindE_Inr_iff event_post_def Let_def dest!: get_row_InrD(1) split: if_splits)

lemma new_posts_after: "x \<in> set (new_posts w actor e n) \<Longrightarrow> n < e_sequence x"
  by (auto simp: new_posts_def dest: in_set_takeD)

lemma pending_sample_InrD:
  "pending_sample w actor policy = Inr st \<Longrightarrow>
     sm_ids st = as_list (dget_or (r_payload policy) ''pending_synthesis_post_ids'' (JList [])) \<and>
     sm_count st = as_int (dget_or (r_payload policy) ''pending_synthesis_post_count'' (JInt 0))"
  by (auto simp: pending_sample_def bindE_Inr_iff Let_def)

lemma schedule_sample_scheduled:
  assumes "schedule_sample op e experiment policy interval soc st through actor w = Inr (made, w')"
    and "dget made ''scheduled'' = JBool True"
  shows "interval \<le> sm_count st" "2 \<le> length (sm_topics st)"
    "dget made ''source_post_ids'' = JList (sm_ids st)" "dget made ''through_sequence'' = JInt through"
    "dget made ''eligible_post_count'' = JInt (sm_count st)"
    "\<exists>p. find_row w' (r_id policy) = Some p \<and> field p ''last_synthesis_sequence'' = JInt through \<and>
       field p ''pending_synthesis_post_ids'' = JList [] \<and> field p ''pending_synthesis_post_count'' = JInt 0"
proof -
  obtain made0 w1 r parent where c: "interval \<le> sm_count st" "2 \<le> length (sm_topics st)"
    and n: "new_branch_task op experiment actor
        (synthesis_work parent st through synthesis_objective) w = Inr (made0, w1)"
    and rp: "replace_row w1 policy (synthesis_values through [] 0) (Some (r_rev policy)) = Inr (r, w')"
    and made: "made = dmerge
       [(''scheduled'', JBool True), (''experiment_id'', JStr e),
        (''source_post_ids'', JList (sm_ids st)),
        (''source_topic_ids'', JList (map JStr (sort (map text_of (sm_topics st))))),
        (''through_sequence'', JInt through), (''eligible_post_count'', JInt (sm_count st)),
        (''sampled_post_count'', JInt (int (length (sm_ids st)))),
        (''parent_branch_id'', jopt parent)] made0"
    using assms
    by (auto simp: schedule_sample_def Let_def bindE_Inr_iff not_scheduled_def split: if_splits)
  have k: "fst ` set made0 = {''branch'', ''task''}"
    by (rule new_branch_task_InrE [OF n]) simp
  show "interval \<le> sm_count st" "2 \<le> length (sm_topics st)" by (rule c)+
  show "dget made ''source_post_ids'' = JList (sm_ids st)" "dget made ''through_sequence'' = JInt through"
    "dget made ''eligible_post_count'' = JInt (sm_count st)"
    by (simp_all add: made k dget_dmerge_other)
  obtain stored where f: "find_row w' (r_id policy) = Some (stored\<lparr>r_rev := r_rev policy + 1, r_payload := r\<rparr>)"
    using replace_row_found(1) [OF rp] by blast
  have r: "r = replacement_of policy (synthesis_values through [] 0)"
    by (rule replace_row_InrE [OF rp])
  show "\<exists>p. find_row w' (r_id policy) = Some p \<and> field p ''last_synthesis_sequence'' = JInt through \<and>
       field p ''pending_synthesis_post_ids'' = JList [] \<and> field p ''pending_synthesis_post_count'' = JInt 0"
    by (simp add: f r replacement_of_def synthesis_values_def)
qed

text \<open>What the policy of an experiment says of its synthesis.\<close>

definition policy_int :: "row \<Rightarrow> string \<Rightarrow> int" where
  "policy_int policy k = as_int (dget_or (r_payload policy) k (JInt 0))"

definition pending_posts :: "row \<Rightarrow> json list" where
  "pending_posts policy =
     as_list (dget_or (r_payload policy) ''pending_synthesis_post_ids'' (JList []))"

lemma synthesis_action_scheduled:
  assumes "synthesis_action e actor op w = Inr (made, w')" "dget made ''scheduled'' = JBool True"
    and "workforce_policy w (JStr e) actor = Some policy"
  obtains ex target posts st0 st where
    "active w (JStr e) actor = Inr ex" "field ex ''sharing'' = JStr ''ideas''"
    "policy_int policy ''synthesis_interval_posts'' \<noteq> 0"
    "take 100 (new_posts w actor e (policy_int policy ''last_synthesis_sequence'')) \<noteq> []"
    "mapE (event_post w e ex target actor)
       (take 100 (new_posts w actor e (policy_int policy ''last_synthesis_sequence''))) = Inr posts"
    "pending_sample w actor policy = Inr st0"
    "foldE (sample_post (truthy (field ex ''society''))) posts st0 = Inr st"
    "schedule_sample op e ex policy (policy_int policy ''synthesis_interval_posts'')
       (truthy (field ex ''society'')) st
       (e_sequence (last (take 100 (new_posts w actor e (policy_int policy ''last_synthesis_sequence'')))))
       actor w = Inr (made, w')"
  using assms
  by (auto simp: synthesis_action_def bindE_Inr_iff Let_def not_scheduled_def policy_int_def
      split: if_splits option.splits)


text \<open>A society whose two topics got four posts since the operator asked for a synthesis of every four.\<close>

definition told_post :: "string \<Rightarrow> string \<Rightarrow> row" where
  "told_post i topic = sample_row DiscussionPost i
     [(''experiment_id'', JStr ''e''), (''branch_id'', JStr ''b2''), (''topic_id'', JStr topic),
      (''problem_revision_id'', JStr ''t''), (''target_digest'', JStr ''digest''),
      (''environment_digest'', JStr ''env'')]"

definition told_event :: "int \<Rightarrow> string \<Rightarrow> event_row" where
  "told_event n i =
     \<lparr>e_sequence = n, e_project = ''p'', e_kind = ''discussion.post_created'', e_aggregate = i,
      e_operation = ''o'', e_payload = [(''experiment_id'', JStr ''e''), (''post_id'', JStr i)],
      e_created = 0\<rparr>"

definition synthesis_policy :: row where
  "synthesis_policy = sample_row WorkforcePolicy ''wp''
     [(''experiment_id'', JStr ''e''), (''synthesis_interval_posts'', JInt 4),
      (''last_synthesis_sequence'', JInt 0), (''pending_synthesis_post_ids'', JList []),
      (''pending_synthesis_post_count'', JInt 0)]"

definition told_society :: world where
  "told_society = society\<lparr>
     records := map (\<lambda>r. if r_kind r = Branch
         then r\<lparr>r_payload := r_payload r @ [(''model_configuration'', JObj [(''model'', JStr ''m'')])]\<rparr>
         else r) (records society) @ [synthesis_policy, told_post ''p1'' ''tp'', told_post ''p2'' ''tp'',
       told_post ''p3'' ''tq'', told_post ''p4'' ''tp''],
     events := [told_event 1 ''p1'', told_event 2 ''p2'', told_event 3 ''p3'', told_event 4 ''p4'']\<rparr>"


end
