(* ===== verification/Blueprint.thy ===== *)
theory Blueprint
  imports Commons
begin

text \<open>
  What the commands of the commons keep: every node stays in its place and closes at most once, step by
  step, and the dependency edges of every experiment stay acyclic over all runs.
\<close>

lemma case_option_Inr_iff:
  "(case x of None \<Rightarrow> Inl e | Some y \<Rightarrow> f y) = Inr z \<longleftrightarrow> (\<exists>y. x = Some y \<and> f y = Inr z)"
  by (cases x) auto

lemmas run_iffs = bindE_Inr_iff if_Inl_Inr_iff case_option_Inr_iff split_paired_Ex prod.case Let_def
  sum.inject(2) prod.inject

section \<open>What a step leaves of the nodes\<close>

text \<open>An open node closes in one way: the goal is accepted, any other node is abandoned.\<close>

definition closes :: "json \<Rightarrow> json \<Rightarrow> bool" where
  "closes node_type new \<longleftrightarrow>
     new = (if node_type = JStr ''goal'' then JStr ''accepted'' else JStr ''abandoned'')"

lemma closes_not_open: "closes k s \<Longrightarrow> \<not> is_open s"
  by (auto simp: closes_def is_open_def public_status_def in_strings_def legacy_open_statuses_def)

definition node_follows :: "row \<Rightarrow> row \<Rightarrow> bool" where
  "node_follows r r' \<longleftrightarrow>
     r_kind r' = CommonsNode \<and> r_project r' = r_project r \<and>
     field r' ''experiment_id'' = field r ''experiment_id'' \<and>
     field r' ''node_type'' = field r ''node_type'' \<and>
     field r' ''lean_source'' = field r ''lean_source'' \<and>
     (field r' ''status'' = field r ''status'' \<or>
      is_open (field r ''status'') \<and> closes (field r ''node_type'') (field r' ''status''))"

definition nodes_follow :: "world \<Rightarrow> world \<Rightarrow> bool" where
  "nodes_follow w w' \<longleftrightarrow>
     (\<forall>i r. find_row w i = Some r \<and> r_kind r = CommonsNode \<longrightarrow>
        (\<exists>r'. find_row w' i = Some r' \<and> node_follows r r'))"

lemma node_follows_trans: "node_follows a b \<Longrightarrow> node_follows b c \<Longrightarrow> node_follows a c"
  by (auto simp: node_follows_def dest: closes_not_open)

lemma nodes_follow_refl [simp]: "nodes_follow w w"
  by (auto simp: nodes_follow_def node_follows_def)

lemma nodes_follow_trans: "nodes_follow a b \<Longrightarrow> nodes_follow b c \<Longrightarrow> nodes_follow a c"
  unfolding nodes_follow_def by (meson node_follows_def node_follows_trans)

lemma nodes_follow_same: "(\<And>i. find_row w' i = find_row w i) \<Longrightarrow> nodes_follow w w'"
  by (auto simp: nodes_follow_def node_follows_def)

lemma nodes_follow_insert: "insert_row w k actor d i = Inr (x, w') \<Longrightarrow> nodes_follow w w'"
  using insert_row_found(2,4) unfolding nodes_follow_def node_follows_def
  by (metis option.distinct(1))

text \<open>Replacing a row that is no node, or fields of a node that do not place it.\<close>

definition placing_fields :: "string list" where
  "placing_fields = [''experiment_id'', ''node_type'', ''status'', ''lean_source'']"

lemma nodes_follow_replace:
  assumes "replace_row w r vals e = Inr (x, w')" and "find_row w (r_id r) = Some r"
    and "r_kind r = CommonsNode \<Longrightarrow> fst ` set vals \<inter> set placing_fields = {}"
  shows "nodes_follow w w'"
  unfolding nodes_follow_def
proof (intro allI impI, elim conjE)
  fix i n assume n: "find_row w i = Some n" "r_kind n = CommonsNode"
  show "\<exists>n'. find_row w' i = Some n' \<and> node_follows n n'"
  proof (cases "i = r_id r")
    case False
    then show ?thesis using replace_row_found(2) [OF assms(1)] n by (auto simp: node_follows_def)
  next
    case True
    then have r: "n = r" using n assms(2) by simp
    have "dget x f = field r f" if "f \<in> set placing_fields" for f
      using dget_replacement(1) [OF assms(1)] assms(3) n(2) r that by (auto simp: placing_fields_def)
    then show ?thesis
      using replace_row_found(1) [OF assms(1)] True r n
      by (auto simp: node_follows_def placing_fields_def)
  qed
qed

text \<open>A step that writes records alone, keeps them well-formed and lets the nodes follow.\<close>

definition steps_to :: "world \<Rightarrow> world \<Rightarrow> bool" where
  "steps_to w w' \<longleftrightarrow>
     records_ok w \<longrightarrow> records_ok w' \<and> only_records w w' \<and> nodes_follow w w'"

lemma steps_to_refl [simp]: "steps_to w w"
  by (simp add: steps_to_def)

lemma steps_to_trans: "steps_to a b \<Longrightarrow> steps_to b c \<Longrightarrow> steps_to a c"
  unfolding steps_to_def using only_records_trans nodes_follow_trans by blast

lemma steps_to_new_id [simp]: "steps_to w (snd (new_id w))"
  by (simp add: steps_to_def records_ok_def nodes_follow_same)

lemma steps_to_emit [simp]: "steps_to w (emit a op k ag pl d v) \<longleftrightarrow> steps_to w v"
  by (simp add: steps_to_def records_ok_def nodes_follow_def)

lemma steps_to_insert: "insert_row w k actor d i = Inr (x, w') \<Longrightarrow> steps_to w w'"
  by (simp add: steps_to_def insert_row_records_ok only_records_insert nodes_follow_insert)

lemma steps_to_replace:
  assumes "replace_row w r vals e = Inr (x, w')"
    and "records_ok w \<Longrightarrow> find_row w (r_id r) = Some r"
    and "r_kind r = CommonsNode \<Longrightarrow> fst ` set vals \<inter> set placing_fields = {}"
    and "fst ` set vals \<inter> set identity_fields = {}"
  shows "steps_to w w'"
  unfolding steps_to_def
  using replace_row_records_ok [OF assms(1)] only_records_replace [OF assms(1)]
    nodes_follow_replace [OF assms(1)] assms(2-4) by blast

lemmas kept_fields = placing_fields_def identity_fields_def

section \<open>Subscriptions and threads\<close>

lemma prior_subscriptionD:
  "prior_subscription p e k t w = Some r \<Longrightarrow> r \<in> set (records w) \<and> r_kind r = DiscussionSubscription"
  by (auto simp: prior_subscription_def of_reader_def dest!: find_SomeD)

lemma write_subscription_steps:
  assumes "write_subscription topic e k b prior subscribed actor w = Inr (x, w')"
    and "\<And>r. prior = Some r \<Longrightarrow> r \<in> set (records w) \<and> r_kind r = DiscussionSubscription"
  shows "steps_to w w'"
proof (cases prior)
  case None
  then show ?thesis using assms(1) steps_to_insert by (auto simp: write_subscription_def)
next
  case (Some r)
  then obtain s where "replace_row w r [(''subscribed'', JBool subscribed), (''start_sequence'', s)] None
      = Inr (x, w')"
    using assms(1) by (auto simp: write_subscription_def bindE_Inr_iff)
  then show ?thesis using assms(2) [OF Some] find_row_of_set
    by (elim steps_to_replace) (auto simp: kept_fields)
qed

lemma change_subscription_steps:
  assumes "change_subscription op topic e k b prior subscribed actor w = Inr (x, w')"
    and "\<And>r. prior = Some r \<Longrightarrow> r \<in> set (records w) \<and> r_kind r = DiscussionSubscription"
  shows "steps_to w w'"
  using assms(1) write_subscription_steps [OF _ assms(2)]
  by (auto simp: change_subscription_def bindE_Inr_iff split: if_splits)

lemma set_subscription_steps:
  "set_subscription op topic b subscribed actor w = Inr (x, w') \<Longrightarrow> steps_to w w'"
  unfolding set_subscription_def if_Inl_Inr_iff bindE_Inr_iff
  using change_subscription_steps prior_subscriptionD by blast

lemma try_subscribe_steps: "try_subscribe op topic b actor w = Inr (x, w') \<Longrightarrow> steps_to w w'"
  by (auto simp: try_subscribe_def split: sum.splits herr.splits if_splits dest: set_subscription_steps)

lemma release_evictable_steps: "release_evictable op e b writer w = Inr (x, w') \<Longrightarrow> steps_to w w'"
  by (auto simp: release_evictable_def Let_def bindE_Inr_iff split: option.splits
      dest: set_subscription_steps)

lemma subscribe_or_free_steps:
  assumes "subscribe_or_free op topic b writer w = Inr (x, w')"
  shows "steps_to w w'"
proof -
  obtain subscribed w1 where t: "try_subscribe op topic b writer w = Inr (subscribed, w1)"
    using assms unfolding subscribe_or_free_def bindE_Inr_iff by auto
  note w1 = try_subscribe_steps [OF t]
  show ?thesis
  proof (cases subscribed)
    case True
    then show ?thesis using assms t w1 by (simp add: subscribe_or_free_def)
  next
    case False
    then obtain e freed w2 where r: "release_evictable op e b writer w1 = Inr (freed, w2)"
      and last: "w' = w2 \<or> try_subscribe op topic b writer w2 = Inr (x, w')"
      using assms t by (auto simp: subscribe_or_free_def bindE_Inr_iff split: if_splits)
    have "steps_to w w2" by (rule steps_to_trans [OF w1 release_evictable_steps [OF r]])
    then show ?thesis using last try_subscribe_steps steps_to_trans by blast
  qed
qed

lemma auto_subscribe_steps: "auto_subscribe op t b actor w = Inr (x, w') \<Longrightarrow> steps_to w w'"
  by (auto simp: auto_subscribe_def split: if_splits option.splits dest: subscribe_or_free_steps)

lemma insert_topic_steps:
  "insert_topic op ex target b title summary actor n w = Inr (x, w') \<Longrightarrow> steps_to w w'"
  by (auto simp: insert_topic_def bindE_Inr_iff dest: steps_to_insert)

lemma open_node_thread_steps:
  assumes "open_node_thread op ex node actor w = Inr (x, w')"
  shows "steps_to w w'"
proof -
  obtain target b title summary n topic w1 r where
    t: "insert_topic op ex target b title summary actor n w = Inr (topic, w1)"
    and r: "find_json w1 (dget node ''id'') = Some r"
      "replace_row w1 r [(''topic_id'', dget topic ''id'')] None = Inr (x, w')"
    using assms unfolding open_node_thread_def bindE_Inr_iff split_paired_Ex prod.case
    by (fastforce split: option.splits)
  have "steps_to w1 w'"
    by (rule steps_to_replace [OF r(2)]) (use find_json_SomeD [OF r(1)] in \<open>auto simp: kept_fields\<close>)
  then show ?thesis using insert_topic_steps [OF t] steps_to_trans by blast
qed

lemma insert_post_steps:
  assumes "insert_post op topic data actor w = Inr (x, w')"
  shows "steps_to w w'"
proof -
  obtain payload made w1 a ag pl r where
    i: "insert_row w DiscussionPost actor payload None = Inr (made, w1)"
    and r: "find_json (emit a op ''discussion.post_created'' ag pl False w1) (dget made ''id'') = Some r"
      "replace_row (emit a op ''discussion.post_created'' ag pl False w1) r
        [(''sequence'', JInt (next_sequence w1))] None = Inr (x, w')"
    using assms unfolding insert_post_def bindE_Inr_iff Let_def split_paired_Ex prod.case
    by (fastforce split: option.splits)
  have "steps_to (emit a op ''discussion.post_created'' ag pl False w1) w'"
    by (rule steps_to_replace [OF r(2)]) (use find_json_SomeD [OF r(1)] in \<open>auto simp: kept_fields\<close>)
  moreover have "steps_to w (emit a op ''discussion.post_created'' ag pl False w1)"
    using steps_to_insert [OF i] by simp
  ultimately show ?thesis using steps_to_trans by blast
qed

lemma insert_node_steps:
  "insert_node nfkc ex request actor op i w = Inr (x, w') \<Longrightarrow> steps_to w w'"
  by (auto simp: insert_node_def bindE_Inr_iff dest: steps_to_insert)

lemma find_fresh: "find_row w i = Some r \<Longrightarrow> find_row w (r_id r) = Some r"
  using find_row_id by fastforce

lemma cite_node_steps:
  assumes "cite_node op actor cited0 (followed, w) = Inr (b, w')"
  shows "steps_to w w'"
proof -
  obtain cited n y w1 subscribed where c: "find_row w (r_id cited0) = Some cited"
    and r: "replace_row w cited [(''citation_count'', JInt n)] None = Inr (y, w1)"
    and a: "auto_subscribe op (field cited ''topic_id'') (pr_branch actor) actor w1
      = Inr (subscribed, w')"
    using assms unfolding cite_node_def prod.case
    by (cases "find_row w (r_id cited0)") (fastforce simp: bindE_Inr_iff)+
  have "steps_to w w1"
    by (rule steps_to_replace [OF r]) (use find_fresh [OF c] in \<open>auto simp: kept_fields\<close>)
  then show ?thesis using auto_subscribe_steps [OF a] steps_to_trans by blast
qed

lemma touch_node_steps:
  assumes "touch_node node actor op w = Inr w'" and "find_row w (r_id node) = Some node"
  shows "steps_to w w'"
proof -
  obtain y w1 where r: "replace_row w node [(''last_activity_at'', JTime (now w))] None = Inr (y, w1)"
    and rest: "w' = w1 \<or> (\<exists>claim ttl written w2 b.
      claim_row w1 node b = Inr (Some claim) \<and>
      replace_row w1 claim [(''expires_at'',
        JTime (expiry (now w) ttl (field claim ''time_box_until'')))] None = Inr (written, w2) \<and>
      w' = claim_event actor op written ''renew'' False w2)"
    using assms(1) unfolding touch_node_def bindE_Inr_iff split_paired_Ex prod.case
    by (fastforce simp: bindE_Inr_iff split: if_splits option.splits)
  have w1: "steps_to w w1"
    by (rule steps_to_replace [OF r]) (use assms(2) in \<open>auto simp: kept_fields\<close>)
  have "steps_to w1 w'"
    using rest
  proof (elim disjE exE conjE)
    fix claim ttl written w2 b
    assume c: "claim_row w1 node b = Inr (Some claim)"
      and r: "replace_row w1 claim [(''expires_at'',
        JTime (expiry (now w) ttl (field claim ''time_box_until'')))] None = Inr (written, w2)"
      and w': "w' = claim_event actor op written ''renew'' False w2"
    have "steps_to w1 w2"
      by (rule steps_to_replace [OF r]) (use claim_rowD(1) [OF c] in \<open>auto simp: kept_fields\<close>)
    then show ?thesis by (simp add: w' claim_event_def)
  qed simp
  then show ?thesis using w1 steps_to_trans by blast
qed

lemma post_note_steps: "post_note node abstract status op w = Inr w' \<Longrightarrow> steps_to w w'"
  by (auto simp: post_note_def bindE_Inr_iff split: option.splits if_splits dest: insert_post_steps)

text \<open>The status gate: an open node closes, nothing else moves.\<close>

lemma allowed_transitions_close:
  assumes "s \<in> set (allowed_transitions old)"
  shows "is_open old"
  using assms
  by (auto simp: allowed_transitions_def is_open_def public_status_def
      in_strings_def legacy_open_statuses_def split: if_splits json.splits)

lemma set_node_status_steps:
  assumes "set_node_status arrow node s reason ev op b w = Inr (x, w')"
    and fresh: "find_row w (r_id node) = Some node" and way: "closes (field node ''node_type'') (JStr s)"
  shows "steps_to w w'"
proof -
  let ?vals = "[(''status'', JStr s), (''status_reason'', JStr (take 2000 reason)),
    (''status_evidence'', JObj ev), (''last_activity_at'', JTime (now w))]"
  obtain old w1 a ag pl node' where old: "need node ''status'' = Inr old"
    and s: "s \<in> set (allowed_transitions old)"
    and r: "replace_row w node ?vals None = Inr (x, w1)"
    and p: "post_status_update arrow node' (public_status old) s op
      (emit a op ''commons.node_status'' ag pl False w1) = Inr w'"
    using assms(1) unfolding set_node_status_def bindE_Inr_iff Let_def split_paired_Ex prod.case
    by (fastforce simp: bindE_Inr_iff split: if_splits option.splits)
  have "nodes_follow w w1" unfolding nodes_follow_def
  proof (intro allI impI, elim conjE)
    fix i n assume n: "find_row w i = Some n" "r_kind n = CommonsNode"
    show "\<exists>n'. find_row w1 i = Some n' \<and> node_follows n n'"
    proof (cases "i = r_id node")
      case False
      then show ?thesis using replace_row_found(2) [OF r] n by (auto simp: node_follows_def)
    next
      case True
      then have "n = node" using n fresh by simp
      moreover have "is_open (field node ''status'')"
        using allowed_transitions_close [OF s] need_field [OF old] by simp
      moreover have "dget x ''status'' = JStr s" by (rule dget_replacement(2) [OF r]) simp_all
      moreover have "dget x ''experiment_id'' = field node ''experiment_id''"
          "dget x ''node_type'' = field node ''node_type''"
          "dget x ''lean_source'' = field node ''lean_source''"
        by (rule dget_replacement(1) [OF r]; simp)+
      ultimately show ?thesis
        using replace_row_found(1) [OF r] True n way by (auto simp: node_follows_def)
    qed
  qed
  moreover have "records_ok w \<Longrightarrow> records_ok w1"
    by (rule replace_row_records_ok [OF r _ fresh]) (auto simp: identity_fields_def)
  ultimately have "steps_to w w1" by (simp add: steps_to_def only_records_replace [OF r])
  moreover have "steps_to w1 w'"
    by (rule steps_to_trans [OF _ post_note_steps [OF p [unfolded post_status_update_def]]]) simp
  ultimately show ?thesis using steps_to_trans by blast
qed

section \<open>The dependency edges\<close>

definition dependencies :: "world \<Rightarrow> (string \<times> string) set" where
  "dependencies w = {(d_source d, d_target d) |d. d \<in> set (edges w) \<and> d_relation d = depends_on}"

text \<open>Both ends of a dependency are nodes of one experiment, in the edge's project.\<close>

definition edge_placed :: "world \<Rightarrow> edge_row \<Rightarrow> bool" where
  "edge_placed w d \<longleftrightarrow>
     (\<exists>a b. find_row w (d_source d) = Some a \<and> find_row w (d_target d) = Some b \<and>
        r_kind a = CommonsNode \<and> r_kind b = CommonsNode \<and> r_project a = d_project d \<and>
        r_project b = d_project d \<and> field a ''experiment_id'' = field b ''experiment_id'')"

definition commons_ok :: "world \<Rightarrow> bool" where
  "commons_ok w \<longleftrightarrow>
     records_ok w \<and> acyclic (dependencies w) \<and>
     (\<forall>d \<in> set (edges w). d_relation d = depends_on \<longrightarrow> edge_placed w d)"

lemma nodes_followD:
  assumes "nodes_follow w w'" and "find_row w i = Some r" and "r_kind r = CommonsNode"
  obtains r' where "find_row w' i = Some r'" "r_kind r' = CommonsNode" "r_project r' = r_project r"
    "field r' ''experiment_id'' = field r ''experiment_id''"
  using assms unfolding nodes_follow_def node_follows_def by blast

lemma edge_placed_follows:
  assumes f: "nodes_follow w w'" and "edge_placed w d"
  shows "edge_placed w' d"
proof -
  obtain a b where ab: "find_row w (d_source d) = Some a" "find_row w (d_target d) = Some b"
      "r_kind a = CommonsNode" "r_kind b = CommonsNode" "r_project a = d_project d"
      "r_project b = d_project d" "field a ''experiment_id'' = field b ''experiment_id''"
    using assms(2) by (auto simp: edge_placed_def)
  obtain a' where "find_row w' (d_source d) = Some a'" "r_kind a' = CommonsNode"
      "r_project a' = r_project a" "field a' ''experiment_id'' = field a ''experiment_id''"
    by (rule nodes_followD [OF f ab(1,3)])
  moreover obtain b' where "find_row w' (d_target d) = Some b'" "r_kind b' = CommonsNode"
      "r_project b' = r_project b" "field b' ''experiment_id'' = field b ''experiment_id''"
    by (rule nodes_followD [OF f ab(2,4)])
  ultimately show ?thesis using ab by (simp add: edge_placed_def)
qed

lemma commons_ok_steps: "commons_ok w \<Longrightarrow> steps_to w w' \<Longrightarrow> commons_ok w'"
  using edge_placed_follows
  by (auto simp: commons_ok_def steps_to_def dependencies_def dest: only_recordsD(6))

lemma dependenciesE:
  assumes "(s, t) \<in> dependencies w" and "commons_ok w"
  obtains d a b where "d \<in> set (edges w)" "d_relation d = depends_on" "d_source d = s"
    "d_target d = t" "find_row w s = Some a" "find_row w t = Some b" "r_kind a = CommonsNode"
    "r_kind b = CommonsNode" "r_project a = d_project d" "r_project b = d_project d"
    "field a ''experiment_id'' = field b ''experiment_id''"
  using assms by (fastforce simp: dependencies_def commons_ok_def edge_placed_def)

text \<open>What the walk is given: the dependencies of the experiment, all of them.\<close>

lemma experiment_dependencies_all:
  assumes "experiment_dependencies w ex = Inr es"
  shows "set es = (\<lambda>d. (d_source d, d_target d)) ` {d \<in> set (edges w). d_project d = r_project ex \<and>
    d_relation d = depends_on \<and> d_source d \<in> r_id ` {r \<in> set (records w). experiment_node ex r}}"
proof -
  let ?all = "map (\<lambda>d. (d_source d, d_target d)) (filter (\<lambda>d. d_project d = r_project ex \<and>
    d_relation d = depends_on \<and> d_source d \<in> set (map r_id (filter (experiment_node ex) (records w))))
    (edges w))"
  have "es = ?all"
    using assms by (simp add: experiment_dependencies_def Let_def split: if_splits)
  then show ?thesis by simp
qed

lemma experiment_node_follows:
  assumes "nodes_follow w w'" and "find_row w i = Some r" and "experiment_node ex r"
  shows "\<exists>r'. find_row w' i = Some r' \<and> experiment_node ex r'"
proof -
  have "r_kind r = CommonsNode" using assms(3) by (simp add: experiment_node_def)
  then obtain r' where "find_row w' i = Some r'" "r_kind r' = CommonsNode" "r_project r' = r_project r"
      "field r' ''experiment_id'' = field r ''experiment_id''"
    by (rule nodes_followD [OF assms(1,2)])
  then show ?thesis using assms(3) by (simp add: experiment_node_def)
qed

text \<open>A path of dependencies from a node of the experiment runs over the experiment's edges.\<close>

lemma dependencies_within:
  assumes ok: "commons_ok w" and es: "experiment_dependencies w ex = Inr es"
    and path: "(t, x) \<in> (dependencies w)\<^sup>*"
    and t: "find_row w t = Some b" "experiment_node ex b"
  shows "(t, x) \<in> (set es)\<^sup>* \<and> (\<exists>c. find_row w x = Some c \<and> experiment_node ex c)"
  using path
proof (induction rule: rtrancl_induct)
  case base
  then show ?case using t by blast
next
  case (step y z)
  obtain c where c: "find_row w y = Some c" "experiment_node ex c" using step.IH by blast
  from dependenciesE [OF step.hyps(2) ok] obtain d a e where d: "d \<in> set (edges w)"
    "d_relation d = depends_on" "d_source d = y" "d_target d = z" "find_row w y = Some a"
    "find_row w z = Some e" "r_kind e = CommonsNode" "r_project a = d_project d"
    "r_project e = d_project d" "field a ''experiment_id'' = field e ''experiment_id''" by blast
  have a: "a = c" using d(5) c(1) by simp
  have "experiment_node ex e" using c(2) d(7-10) a by (simp add: experiment_node_def)
  moreover have "d_source d \<in> r_id ` {r \<in> set (records w). experiment_node ex r}"
    using find_row_in [OF c(1)] find_row_id [OF c(1)] c(2) d(3) by auto
  then have "(y, z) \<in> set es"
    unfolding experiment_dependencies_all [OF es]
    by (intro image_eqI [where x = d]) (use d a c(2) in \<open>simp_all add: experiment_node_def\<close>)
  ultimately show ?case using step.IH d(6) by (meson rtrancl.rtrancl_into_rtrancl)
qed

lemma check_acyclic_sound:
  assumes "check_acyclic w ex s t = Inr ()" and "commons_ok w" and "s \<noteq> t"
    and "find_row w t = Some b" "experiment_node ex b"
  shows "acyclic (insert (s, t) (dependencies w))"
proof -
  obtain es reached where es: "experiment_dependencies w ex = Inr es"
    and walk: "depends_closure (dependency_children es None) t max_graph_nodes = (reached, False)"
    and s: "s \<notin> set reached"
    using assms(1) unfolding check_acyclic_def bindE_Inr_iff Let_def split_def if_Inl_Inr_iff
    by (metis (full_types) prod.collapse)
  have "(t, s) \<notin> (set es)\<^sup>*"
    using depends_closure_reaches(6) [OF walk] s assms(3)
    by (auto simp: depends_children_eq rtranclp_rtrancl_eq)
  then have "(t, s) \<notin> (dependencies w)\<^sup>*"
    using dependencies_within [OF assms(2) es _ assms(4,5)] by blast
  then show ?thesis using assms(2) by (simp add: acyclic_insert commons_ok_def)
qed

section \<open>Edges and nodes\<close>

lemma commons_nodeD:
  assumes "commons_node w (JStr i) actor (JStr (r_id ex)) = Inr r" and "r_project ex = pr_project actor"
  shows "find_row w i = Some r" "experiment_node ex r"
  using assms
  by (auto simp: commons_node_def bindE_Inr_iff experiment_node_def get_row_Inr_iff split: if_splits)

lemma commons_experimentD:
  assumes "commons_experiment w (JStr i) actor b = Inr ex"
  shows "r_id ex = i" "r_project ex = pr_project actor" "find_row w i = Some ex"
  using assms
  by (auto simp: commons_experiment_def bindE_Inr_iff get_row_Inr_iff split: if_splits dest: find_row_id)

text \<open>Nothing depends on a node that was just made.\<close>

definition nothing_depends_on :: "world \<Rightarrow> string \<Rightarrow> bool" where
  "nothing_depends_on w s \<longleftrightarrow> s \<notin> Range (dependencies w)"

lemma dependencies_append:
  "dependencies (w\<lparr>edges := edges w @ [d]\<rparr>) =
     (if d_relation d = depends_on then insert (d_source d, d_target d) (dependencies w)
      else dependencies w)"
  by (auto simp: dependencies_def)

lemma new_source_acyclic:
  assumes "nothing_depends_on w s" and "acyclic (dependencies w)" and "s \<noteq> t"
  shows "acyclic (insert (s, t) (dependencies w))"
proof -
  have "(t, s) \<notin> (dependencies w)\<^sup>*"
    using assms(1,3) by (auto simp: nothing_depends_on_def elim: rtranclE)
  then show ?thesis using assms(2) by (simp add: acyclic_insert)
qed

lemma find_row_edges [simp]: "find_row (w\<lparr>edges := es\<rparr>) i = find_row w i"
  by (simp add: find_row_def)

text \<open>Inserting one edge between two nodes of the experiment that closes no cycle.\<close>

lemma edge_row_ok:
  fixes ex :: row
  defines "new_edge \<equiv> \<lambda>s t rel. \<lparr>d_source = s, d_target = t, d_relation = rel, d_project = r_project ex\<rparr>"
  assumes ok: "commons_ok w" and nodes: "find_row w s = Some a" "experiment_node ex a"
      "find_row w t = Some b" "experiment_node ex b"
    and acyclic: "rel = depends_on \<Longrightarrow> acyclic (insert (s, t) (dependencies w))"
  shows "commons_ok (w\<lparr>edges := edges w @ [new_edge s t rel]\<rparr>)"
proof -
  let ?w = "w\<lparr>edges := edges w @ [new_edge s t rel]\<rparr>"
  have "edge_placed ?w d" if d: "d \<in> set (edges ?w)" "d_relation d = depends_on" for d
  proof (cases "d \<in> set (edges w)")
    case True
    then show ?thesis using ok d(2) by (simp add: commons_ok_def edge_placed_def)
  next
    case False
    then have "d = new_edge s t rel" using d(1) by simp
    then show ?thesis
      using nodes by (simp add: new_edge_def edge_placed_def experiment_node_def)
  qed
  moreover have "acyclic (dependencies ?w)"
    using ok acyclic by (simp add: dependencies_append new_edge_def commons_ok_def)
  ultimately show ?thesis using ok by (simp add: commons_ok_def records_ok_def)
qed

lemma nodes_follow_edges [simp]:
  "nodes_follow (w\<lparr>edges := es\<rparr>) w' \<longleftrightarrow> nodes_follow w w'"
  "nodes_follow w (w'\<lparr>edges := es\<rparr>) \<longleftrightarrow> nodes_follow w w'"
  by (simp_all add: nodes_follow_def find_row_def)

lemma depends_on_relation: "edge_prefix @ relation = depends_on \<longleftrightarrow> relation = ''depends_on''"
  by (simp add: depends_on_def)

lemma add_edge_keeps:
  assumes run: "add_edge op ex s relation t actor new_source w = Inr (made, w')"
    and ok: "commons_ok w" and source: "find_row w s = Some a" "experiment_node ex a"
    and project: "r_project ex = pr_project actor"
    and fresh: "new_source \<Longrightarrow> nothing_depends_on w s"
  shows "commons_ok w' \<and> nodes_follow w w' \<and> (nothing_depends_on w s \<longrightarrow> nothing_depends_on w' s)"
proof -
  let ?rel = "edge_prefix @ relation"
  let ?w1 = "w\<lparr>edges := edges w @ [\<lparr>d_source = s, d_target = t, d_relation = ?rel,
    d_project = r_project ex\<rparr>]\<rparr>"
  obtain b where st: "t \<noteq> s" and target: "commons_node w (JStr t) actor (JStr (r_id ex)) = Inr b"
    and rest: "w' = w \<or> (relation = ''depends_on'' \<and> \<not> new_source \<longrightarrow> check_acyclic w ex s t = Inr ()) \<and>
      (\<exists>pl. steps_to (emit actor op ''commons.edge_added'' s pl False ?w1) w')"
    using run unfolding add_edge_def Let_def
    by (auto simp: bindE_Inr_iff split: if_splits option.splits dest!: auto_subscribe_steps
        intro: steps_to_refl)
  note t = commons_nodeD [OF target project]
  show ?thesis
  proof (cases "w' = w")
    case True
    then show ?thesis using ok by simp
  next
    case False
    then obtain pl where checked: "relation = ''depends_on'' \<and> \<not> new_source \<longrightarrow> check_acyclic w ex s t = Inr ()"
      and steps: "steps_to (emit actor op ''commons.edge_added'' s pl False ?w1) w'"
      using rest by blast
    have "acyclic (insert (s, t) (dependencies w))" if "?rel = depends_on"
    proof (cases new_source)
      case True
      then show ?thesis using new_source_acyclic fresh ok st by (auto simp: commons_ok_def)
    next
      case False
      then show ?thesis
        using check_acyclic_sound checked ok st t that by (auto simp: depends_on_relation)
    qed
    then have w1: "commons_ok ?w1" by (intro edge_row_ok [OF ok source t])
    have emitted: "steps_to ?w1 (emit actor op ''commons.edge_added'' s pl False ?w1)" by simp
    note both = steps_to_trans [OF emitted steps]
    have "records_ok ?w1" using w1 by (simp add: commons_ok_def)
    then have follow: "nodes_follow w w'" "edges w' = edges ?w1"
      using both by (auto simp: steps_to_def dest: only_recordsD(6))
    moreover have "nothing_depends_on w s \<longrightarrow> nothing_depends_on w' s"
    proof -
      have "dependencies w' = dependencies ?w1" using follow(2) by (simp add: dependencies_def)
      then show ?thesis using st by (auto simp: nothing_depends_on_def dependencies_append)
    qed
    ultimately show ?thesis using commons_ok_steps [OF w1 both] by blast
  qed
qed

lemma link_action_keeps:
  assumes run: "link_action e s relation t actor op w = Inr (x, w')" and ok: "commons_ok w"
  shows "commons_ok w' \<and> nodes_follow w w'"
proof -
  obtain ex a created where ex: "commons_experiment w (JStr e) actor True = Inr ex"
    and a: "commons_node w (JStr s) actor (JStr e) = Inr a"
    and add: "add_edge op ex s relation t actor False w = Inr (created, w')"
    using run unfolding link_action_def bindE_Inr_iff split_paired_Ex prod.case by auto
  note x = commons_experimentD [OF ex]
  note s = commons_nodeD [OF a [folded x(1)] x(2)]
  show ?thesis using add_edge_keeps [OF add ok s x(2)] by simp
qed

lemma insert_node_made:
  assumes "insert_node nfkc ex request actor op i w = Inr (made, w')"
    and "r_project ex = pr_project actor"
  defines "j \<equiv> inserted_id w (Some i)"
  shows "dget made ''id'' = JStr j" "find_row w j = None"
    "\<exists>r. find_row w' j = Some r \<and> experiment_node ex r"
proof -
  obtain payload w1 d a ag pl where
    p: "\<exists>fs. node_payload nfkc w ex fs = Inr payload"
    and r: "insert_row w CommonsNode actor (payload @ [(''branch_id'', d)]) (Some i) = Inr (made, w1)"
    and w': "w' = emit actor op ''commons.node_created'' ag pl False w1"
    using assms(1) unfolding insert_node_def bindE_Inr_iff split_paired_Ex prod.case by blast
  note found = insert_row_found [OF r, folded j_def]
  show "dget made ''id'' = JStr j" "find_row w j = None" using found by simp_all
  have "dget payload ''experiment_id'' = JStr (r_id ex)"
    using p unfolding node_payload_def Let_def bindE_Inr_iff by (auto simp: dget_def)
  then have "dget made ''experiment_id'' = JStr (r_id ex)"
    using insert_row_data [OF r, of "''experiment_id''"] by (simp add: dget_def split: option.splits)
  then show "\<exists>r. find_row w' j = Some r \<and> experiment_node ex r"
    using found(3) assms(2) by (simp add: w' experiment_node_def)
qed

text \<open>The id of a node with a thread is the one it was made with.\<close>

lemma open_node_thread_id:
  assumes "open_node_thread op ex made actor w = Inr (node, w')" and "dget made ''id'' = JStr i"
    and "records_ok w"
  shows "dget node ''id'' = JStr i"
proof -
  obtain target b title summary n topic w1 r where
    t: "insert_topic op ex target b title summary actor n w = Inr (topic, w1)"
    and r: "find_json w1 (dget made ''id'') = Some r"
      "replace_row w1 r [(''topic_id'', dget topic ''id'')] None = Inr (node, w')"
    using assms unfolding open_node_thread_def bindE_Inr_iff split_paired_Ex prod.case
    by (fastforce split: option.splits)
  have "records_ok w1" using insert_topic_steps [OF t] assms(3) by (simp add: steps_to_def)
  then have "field r ''id'' = JStr (r_id r)"
    using find_json_SomeD [OF r(1)] by (auto simp: records_ok_def row_ok_def dest: find_row_in)
  moreover have "r_id r = i" using find_json_SomeD [OF r(1)] assms(2) by simp
  moreover have "dget node ''id'' = field r ''id''" by (rule dget_replacement(1) [OF r(2)]) simp_all
  ultimately show ?thesis by simp
qed

lemma nothing_depends_on_new:
  assumes "commons_ok w" and "find_row w i = None"
  shows "nothing_depends_on w i"
  using assms by (fastforce simp: nothing_depends_on_def dependencies_def commons_ok_def edge_placed_def)

lemma create_node_action_keeps:
  assumes run: "create_node_action nfkc e request actor op w = Inr (x, w')" and ok: "commons_ok w"
  shows "commons_ok w' \<and> nodes_follow w w'"
proof -
  let ?w1 = "snd (new_id w)" and ?i = "inserted_id (snd (new_id w)) (Some (fst (new_id w)))"
  obtain ex made w2 node w3 subscribed w4 where
    ex: "commons_experiment w (JStr e) actor True = Inr ex"
    and made: "insert_node nfkc ex request actor op (fst (new_id w)) ?w1 = Inr (made, w2)"
    and thread: "open_node_thread op ex made actor w2 = Inr (node, w3)"
    and sub: "auto_subscribe op (dget node ''topic_id'') (pr_branch actor) actor w3 = Inr (subscribed, w4)"
    and adds: "foldE (\<lambda>(relation, target) v.
        bindE (add_edge op ex (text_of (dget node ''id'')) relation target actor True v)
          (\<lambda>(_, v'). Inr v')) (nc_edges request) w4 = Inr w'"
    using run unfolding create_node_action_def bindE_Inr_iff split_paired_Ex prod.case split_def Let_def
    by auto
  note x = commons_experimentD [OF ex]
  note m = insert_node_made [OF made x(2)]
  note steps = steps_to_trans [OF steps_to_new_id insert_node_steps [OF made]]
  note rest = steps_to_trans [OF open_node_thread_steps [OF thread] auto_subscribe_steps [OF sub]]
  note all = steps_to_trans [OF steps rest]
  have ok4: "commons_ok w4" by (rule commons_ok_steps [OF ok all])
  have follow4: "nodes_follow w w4" "edges w4 = edges w"
    using all ok by (auto simp: steps_to_def commons_ok_def dest: only_recordsD(6))
  have w2: "records_ok w2" using steps ok by (simp add: steps_to_def commons_ok_def)
  have id: "text_of (dget node ''id'') = ?i"
    using open_node_thread_id [OF thread m(1) w2] by (simp add: text_of_def)
  obtain a where "find_row w2 ?i = Some a" "experiment_node ex a" using m(3) by blast
  then obtain a4 where a4: "find_row w4 ?i = Some a4" "experiment_node ex a4"
    using experiment_node_follows rest w2 unfolding steps_to_def by blast
  have "nothing_depends_on w ?i" using nothing_depends_on_new [OF ok] m(2) by simp
  then have lonely: "nothing_depends_on w4 ?i"
    using follow4(2) by (simp add: nothing_depends_on_def dependencies_def)
  have "commons_ok w' \<and> nodes_follow w w' \<and> nothing_depends_on w' ?i \<and>
      (\<exists>b. find_row w' ?i = Some b \<and> experiment_node ex b)"
  proof (rule foldE_invariant [OF adds])
    show "commons_ok w4 \<and> nodes_follow w w4 \<and> nothing_depends_on w4 ?i \<and>
        (\<exists>b. find_row w4 ?i = Some b \<and> experiment_node ex b)"
      using ok4 follow4 lonely a4 by blast
    fix edge v v'
    assume inv: "commons_ok v \<and> nodes_follow w v \<and> nothing_depends_on v ?i \<and>
        (\<exists>b. find_row v ?i = Some b \<and> experiment_node ex b)"
      and step: "(case edge of (relation, target) \<Rightarrow> \<lambda>v.
        bindE (add_edge op ex (text_of (dget node ''id'')) relation target actor True v)
          (\<lambda>(_, v'). Inr v')) v = Inr v'"
    obtain b where b: "find_row v ?i = Some b" "experiment_node ex b" using inv by blast
    obtain relation target c where add: "add_edge op ex ?i relation target actor True v = Inr (c, v')"
      using step by (cases edge) (auto simp: bindE_Inr_iff id)
    have "commons_ok v' \<and> nodes_follow v v' \<and> nothing_depends_on v' ?i"
      using add_edge_keeps [OF add _ b x(2)] inv by blast
    then show "commons_ok v' \<and> nodes_follow w v' \<and> nothing_depends_on v' ?i \<and>
        (\<exists>b. find_row v' ?i = Some b \<and> experiment_node ex b)"
      using inv nodes_follow_trans experiment_node_follows [OF _ b] by blast
  qed
  then show ?thesis by blast
qed

lemma post_node_action_steps:
  assumes "post_node_action i request actor op w = Inr (x, w')"
  shows "steps_to w w'"
proof -
  obtain node :: row and topic cited followed w1 fs post w2 fresh where
    c: "foldE (cite_node op actor) cited (True, w) = Inr (followed, w1)"
    and p: "insert_post op topic fs actor w1 = Inr (post, w2)"
    and f: "find_row w2 (r_id node) = Some fresh" and t: "touch_node fresh actor op w2 = Inr w'"
    using assms unfolding post_node_action_def run_iffs by auto
  have "steps_to w (snd (followed, w1))"
    by (rule foldE_invariant [where I = "\<lambda>st. steps_to w (snd st)", OF c])
      (auto dest!: cite_node_steps elim: steps_to_trans)
  moreover have "find_row w2 (r_id fresh) = Some fresh" using f find_row_id by fastforce
  ultimately show ?thesis
    using insert_post_steps [OF p] touch_node_steps [OF t] steps_to_trans by fastforce
qed

lemma abandon_action_steps:
  assumes "abandon_action arrow i reason actor op w = Inr (x, w')"
  shows "steps_to w w'"
proof -
  obtain node b where n: "get_row w CommonsNode (JStr i) actor = Inr node"
    and s: "set_node_status arrow node ''abandoned'' reason [(''abandoned_by'', JStr (pr_id actor))] op b w
      = Inr (x, w')"
    and k: "\<exists>k. need node ''node_type'' = Inr k \<and> k \<noteq> JStr ''goal''"
    using assms unfolding abandon_action_def by (auto simp: bindE_Inr_iff split: if_splits)
  have "closes (field node ''node_type'') (JStr ''abandoned'')"
    using k need_field by (auto simp: closes_def)
  then show ?thesis by (rule set_node_status_steps [OF s get_row_InrD(2) [OF n]])
qed

lemma insert_goal_steps:
  assumes "insert_goal nfkc ex target op w = Inr (x, w')"
  shows "steps_to w w'"
proof -
  obtain actor payload made w1 ag pl where
    m: "insert_row w CommonsNode actor payload None = Inr (made, w1)"
    and t: "open_node_thread op ex made actor (emit actor op ''commons.node_created'' ag pl False w1)
      = Inr (x, w')"
    using assms unfolding insert_goal_def run_iffs by blast
  have "steps_to w (emit actor op ''commons.node_created'' ag pl False w1)"
    using steps_to_insert [OF m] by simp
  then show ?thesis using open_node_thread_steps [OF t] steps_to_trans by blast
qed

lemma goal_node_steps:
  assumes "goal_node nfkc ex op w = Inr (x, w')"
  shows "steps_to w w'"
proof -
  consider "w' = w" | target where "insert_goal nfkc ex target (the op) w = Inr (x, w')"
    | target where "insert_goal nfkc ex target (fst (new_id w)) (snd (new_id w)) = Inr (x, w')"
    using assms by (auto simp: goal_node_def bindE_Inr_iff split_def Let_def split: option.splits if_splits)
  then show ?thesis
  proof cases
    case 3
    show ?thesis by (rule steps_to_trans [OF steps_to_new_id insert_goal_steps [OF 3]])
  qed (simp_all add: insert_goal_steps)
qed

lemma ensure_goal_steps: "ensure_goal_node nfkc e actor w = Inr (x, w') \<Longrightarrow> steps_to w w'"
  unfolding ensure_goal_node_def run_iffs by (blast dest: goal_node_steps)

section \<open>Runs of commands\<close>

datatype commons_command =
    Create_Node string node_create
  | Link_Nodes string string string string
  | Post_On_Node string node_post
  | Abandon_Node string string
  | Ensure_Goal string

record commons_call =
  cc_actor :: principal
  cc_key :: string
  cc_elapsed :: int
  cc_command :: commons_command

definition dropped :: "'e + ('a \<times> 's) \<Rightarrow> 'e + 's" where
  "dropped m = bindE m (\<lambda>(_, s). Inr s)"

lemma dropped_Inr_iff: "dropped m = Inr s \<longleftrightarrow> (\<exists>x. m = Inr (x, s))"
  by (cases m) (auto simp: dropped_def)

definition commons_step ::
  "(string \<Rightarrow> string) \<Rightarrow> char \<Rightarrow> commons_call \<Rightarrow> world \<Rightarrow> herr + world" where
  "commons_step nfkc arrow c w =
     (let actor = cc_actor c; key = cc_key c; elapsed = cc_elapsed c
      in dropped (case cc_command c of
           Create_Node e request \<Rightarrow> create_node nfkc elapsed e request actor key w
         | Link_Nodes e s rel t \<Rightarrow> link_nodes elapsed e s rel t actor key w
         | Post_On_Node i request \<Rightarrow> post_on_node elapsed i request actor key w
         | Abandon_Node i reason \<Rightarrow> abandon_node arrow elapsed i reason actor key w
         | Ensure_Goal e \<Rightarrow> ensure_goal_node nfkc e actor w))"

lemma execute_keeps:
  assumes "execute elapsed actor key operation inputs act w = Inr (result, w')" and "commons_ok w"
    and "\<And>op v res v'. commons_ok v \<Longrightarrow> act op v = Inr (res, v') \<Longrightarrow> commons_ok v' \<and> nodes_follow v v'"
  shows "commons_ok w' \<and> nodes_follow w w'"
proof (rule execute_preserves [OF assms(1), where P = "\<lambda>v. commons_ok v \<and> nodes_follow w v"])
  show "commons_ok w \<and> nodes_follow w w" using assms(2) by simp
  show "commons_ok b \<and> nodes_follow w b" if "same_tables a b" "commons_ok a \<and> nodes_follow w a" for a b
    using that same_tables_find(1) [OF that(1)]
    by (auto simp: commons_ok_def same_tables_def records_ok_def dependencies_def edge_placed_def
        nodes_follow_def)
  show "commons_ok v' \<and> nodes_follow w v'"
    if "commons_ok v \<and> nodes_follow w v" "act op v = Inr (res, v')" for op v res v'
    using assms(3) that nodes_follow_trans by blast
qed

lemma steps_keep: "steps_to w w' \<Longrightarrow> commons_ok w \<Longrightarrow> commons_ok w' \<and> nodes_follow w w'"
  by (rule conjI, erule (1) commons_ok_steps) (simp add: steps_to_def commons_ok_def)

lemma commons_step_keeps:
  assumes ok: "commons_ok w" and step: "commons_step nfkc arrow c w = Inr w'"
  shows "commons_ok w' \<and> nodes_follow w w'"
proof (cases "cc_command c")
  case (Create_Node e request)
  then obtain x where "execute (cc_elapsed c) (cc_actor c) (cc_key c) ''commons.node_create''
      (JObj ((''experiment_id'', JStr e) # node_data request))
      (create_node_action nfkc e request (cc_actor c)) w = Inr (x, w')"
    using step unfolding commons_step_def Create_Node Let_def commons_command.case dropped_Inr_iff
      create_node_def run_iffs by blast
  then show ?thesis by (rule execute_keeps [OF _ ok]) (rule create_node_action_keeps)
next
  case (Link_Nodes e s rel t)
  then obtain x inputs where "execute (cc_elapsed c) (cc_actor c) (cc_key c) ''commons.link'' inputs
      (link_action e s rel t (cc_actor c)) w = Inr (x, w')"
    using step unfolding commons_step_def Link_Nodes Let_def commons_command.case dropped_Inr_iff
      link_nodes_def run_iffs by blast
  then show ?thesis by (rule execute_keeps [OF _ ok]) (rule link_action_keeps)
next
  case (Post_On_Node i request)
  then obtain x inputs where "execute (cc_elapsed c) (cc_actor c) (cc_key c) ''commons.node_post'' inputs
      (post_node_action i request (cc_actor c)) w = Inr (x, w')"
    using step unfolding commons_step_def Post_On_Node Let_def commons_command.case dropped_Inr_iff
      post_on_node_def run_iffs by blast
  then show ?thesis by (rule execute_keeps [OF _ ok]) (rule steps_keep [OF post_node_action_steps])
next
  case (Abandon_Node i reason)
  then obtain x inputs where "execute (cc_elapsed c) (cc_actor c) (cc_key c) ''commons.node_abandon'' inputs
      (abandon_action arrow i reason (cc_actor c)) w = Inr (x, w')"
    using step unfolding commons_step_def Abandon_Node Let_def commons_command.case dropped_Inr_iff
      abandon_node_def run_iffs by blast
  then show ?thesis by (rule execute_keeps [OF _ ok]) (rule steps_keep [OF abandon_action_steps])
next
  case (Ensure_Goal e)
  then obtain x where "ensure_goal_node nfkc e (cc_actor c) w = Inr (x, w')"
    using step unfolding commons_step_def Ensure_Goal Let_def commons_command.case dropped_Inr_iff
    by blast
  then show ?thesis using steps_keep [OF ensure_goal_steps ok] by blast
qed

interpretation commons_machine: guarded_machine "commons_step nfkc arrow" commons_ok
  by unfold_locales (use commons_step_keeps in blast)

text \<open>C3. Whatever commands the commons runs, in whatever order and by whomever (nodes with edges,
  links, posts, abandonments, the goal), no experiment's dependencies ever form a cycle.\<close>

theorem dependencies_stay_acyclic:
  assumes "commons_ok w"
  shows "acyclic (dependencies (run (commons_step nfkc arrow) cs w))"
  using commons_machine.run_inv [OF assms] by (simp add: commons_ok_def)

section \<open>Runs on the sample society\<close>

definition second_node :: row where
  "second_node = sample_row CommonsNode ''n2''
     [(''experiment_id'', JStr ''e''), (''branch_id'', JStr ''b1''), (''node_type'', JStr ''lemma''),
      (''title'', JStr ''step''), (''status'', JStr ''open''), (''topic_id'', JStr ''tp''),
      (''citation_count'', JInt 0)]"

text \<open>The first branch's lemma rests on the second branch's node.\<close>

definition linked :: world where
  "linked = society\<lparr>records := records society @ [second_node],
     edges := [\<lparr>d_source = ''n2'', d_target = ''nd'', d_relation = depends_on, d_project = ''p''\<rparr>]\<rparr>"

definition call_of :: "string \<Rightarrow> commons_command \<Rightarrow> commons_call" where
  "call_of key c = \<lparr>cc_actor = sample_agent, cc_key = key, cc_elapsed = 1, cc_command = c\<rparr>"

text \<open>The link back would close a cycle; the second one is no dependency.\<close>

definition linking_back :: "commons_call list" where
  "linking_back =
     [call_of ''k1'' (Link_Nodes ''e'' ''nd'' ''depends_on'' ''n2''),
      call_of ''k2'' (Link_Nodes ''e'' ''nd'' ''motivated_by'' ''n2'')]"

abbreviation sample_run :: "commons_call list \<Rightarrow> world" where
  "sample_run cs \<equiv> run (commons_step (\<lambda>s. s) (CHR ''>'')) cs linked"

lemma linked_ok: "commons_ok linked"
proof -
  have "distinct (map r_id (records linked))" "list_all row_ok (records linked)" by code_simp+
  moreover have "dependencies linked = {(''n2'', ''nd'')}" by (auto simp: dependencies_def linked_def)
  moreover have "edge_placed linked d" if "d \<in> set (edges linked)" for d
  proof -
    have "find_row linked ''n2'' = Some second_node" "find_row linked ''nd'' = Some sample_node"
      by code_simp+
    then show ?thesis
      using that by (simp add: linked_def edge_placed_def second_node_def sample_node_def sample_row_def dget_def)
  qed
  moreover have "acyclic {(''n2'', ''nd'')}"
    using acyclic_insert [of "''n2''" "''nd''" "{}"] by (simp add: acyclic_def)
  ultimately show ?thesis by (simp add: commons_ok_def records_ok_def list_all_iff)
qed

theorem dependencies_stay_acyclic_witness:
  "acyclic (dependencies (sample_run linking_back)) \<and>
   map (\<lambda>d. (d_source d, d_target d, d_relation d)) (edges (sample_run linking_back)) =
     [(''n2'', ''nd'', ''commons:depends_on''), (''nd'', ''n2'', ''commons:motivated_by'')]"
proof
  show "acyclic (dependencies (sample_run linking_back))"
    by (rule dependencies_stay_acyclic [OF linked_ok])
qed code_simp

end
