(* ===== verification/Lean_Scan.thy ===== *)
theory Lean_Scan
  imports Commons
begin

text \<open>
  The scanner of Lean source (\<open>orchestration/lean_session.py\<close>): comments become white space, literals,
  escaped names and syntax quotations become opaque tokens, and what is left is code; with the rules
  for a declaration's signature that are read off the code. A place in a text is what lies before it, reversed, and the
  rest. Interpolations and quotations nest: \<open>depth\<close> is how deep the interpreter's stack lets them,
  and \<open>None\<close> is its \<open>RecursionError\<close>. The loop over one level has fuel for each character it may read.
  The SHA-256 of a text is the parameter \<open>sha\<close>.
\<close>

section \<open>Characters\<close>

text \<open>\<open>str.isalnum\<close> and the identifier characters of Lean, on code points up to 255.\<close>

definition is_alnum :: "char \<Rightarrow> bool" where
  "is_alnum c \<longleftrightarrow>
     (let n = (of_char c :: nat)
      in 48 \<le> n \<and> n \<le> 57 \<or> 65 \<le> n \<and> n \<le> 90 \<or> 97 \<le> n \<and> n \<le> 122 \<or>
         n \<in> {170, 178, 179, 181, 185, 186, 188, 189, 190} \<or> 192 \<le> n \<and> n \<notin> {215, 247})"

definition is_word :: "char \<Rightarrow> bool" where
  "is_word c \<longleftrightarrow> is_alnum c \<or> c = CHR ''_''"

definition id_first :: "char \<Rightarrow> bool" where
  "id_first c \<longleftrightarrow>
     (let n = (of_char c :: nat) in 65 \<le> n \<and> n \<le> 90 \<or> 97 \<le> n \<and> n \<le> 122 \<or> n = 95)"

definition id_rest :: "char \<Rightarrow> bool" where
  "id_rest c \<longleftrightarrow> id_first c \<or> is_digit c \<or> c = CHR 0x27"

definition is_hex :: "char \<Rightarrow> bool" where
  "is_hex c \<longleftrightarrow> c \<in> set ''0123456789abcdefABCDEF''"

definition newline :: char where "newline = CHR 0x0A"

definition nul :: char where "nul = CHR 0x00"

definition starts :: "string \<Rightarrow> string \<Rightarrow> bool" where
  "starts p s \<longleftrightarrow> take (length p) s = p"

fun ident_before :: "string \<Rightarrow> bool" where
  "ident_before [] = False"
| "ident_before (c # _) = (is_alnum c \<or> c \<in> set ''_!?.'' \<or> c = CHR 0x27)"

definition interpolation_prefix :: "string \<Rightarrow> bool" where
  "interpolation_prefix pre =
     (case pre of
        bang # letter # earlier \<Rightarrow>
          bang = CHR ''!'' \<and> letter \<in> set ''fms'' \<and> \<not> ident_before earlier
      | _ \<Rightarrow> False)"

section \<open>Tokens\<close>

text \<open>How many characters of the text after \<open>/-\<close> the comment takes.\<close>

function comment_length :: "nat \<Rightarrow> string \<Rightarrow> nat" where
  "comment_length depth s =
     (if s = [] then 0
      else if starts ''/-'' s then 2 + comment_length (Suc depth) (drop 2 s)
      else if starts ''-/'' s then
        (if depth = 1 then 2 else 2 + comment_length (depth - 1) (drop 2 s))
      else Suc (comment_length depth (drop 1 s)))"
  by pat_completeness auto
termination
  by (relation "measure (\<lambda>(_, s). length s)") (auto simp: starts_def neq_Nil_conv)

declare comment_length.simps [simp del]

definition upper :: "char \<Rightarrow> char" where
  "upper c =
     (let n = (of_char c :: nat) in if 97 \<le> n \<and> n \<le> 122 then char_of (n - 32) else c)"

definition opaque :: "(string \<Rightarrow> string) \<Rightarrow> string \<Rightarrow> string" where
  "opaque sha text = nul # map upper (take 16 (sha text)) @ [nul]"

text \<open>The index of the first \<open>p\<close> in a text, or none.\<close>

fun index_of :: "string \<Rightarrow> string \<Rightarrow> nat option" where
  "index_of p [] = (if p = [] then Some 0 else None)"
| "index_of p (c # s) =
     (if starts p (c # s) then Some 0 else map_option Suc (index_of p s))"

text \<open>A raw string \<open>r#"..."#\<close>: its length, if one starts here.\<close>

definition raw_string :: "string \<Rightarrow> nat option" where
  "raw_string s =
     (if \<not> starts ''r'' s then None
      else let hashes = takeWhile ((=) (CHR ''#'')) (drop 1 s);
               inside = drop (Suc (length hashes)) s
           in if \<not> starts [CHR 0x22] inside then None
              else Some (case index_of (CHR 0x22 # hashes) (drop 1 inside) of
                  None \<Rightarrow> length s
                | Some n \<Rightarrow> length hashes + 2 + n + 1 + length hashes))"

text \<open>A character literal: the first reading of what follows the quote that a quote ends.\<close>

definition char_bodies :: "string \<Rightarrow> nat list" where
  "char_bodies s =
     (case s of
        [] \<Rightarrow> []
      | c # t \<Rightarrow>
          if c = CHR 0x5C then
            (if starts ''x'' t \<and> 3 \<le> length t \<and> list_all is_hex (take 2 (drop 1 t)) then [4] else []) @
            (if starts ''u'' t \<and> 5 \<le> length t \<and> list_all is_hex (take 4 (drop 1 t)) then [6] else []) @
            (let digits = takeWhile is_hex (drop 2 t)
             in if starts ''u{'' t \<and> digits \<noteq> [] \<and> starts ''}'' (drop (2 + length digits) t)
                then [4 + length digits] else []) @
            (if t \<noteq> [] \<and> hd t \<noteq> newline then [2] else [])
          else if c = CHR 0x27 \<or> c = newline then [] else [1])"

definition char_literal :: "string \<Rightarrow> nat option" where
  "char_literal s =
     (if \<not> starts [CHR 0x27] s then None
      else map_option (\<lambda>n. n + 2)
        (find (\<lambda>n. starts [CHR 0x27] (drop n (drop 1 s))) (char_bodies (drop 1 s))))"

section \<open>Scanning\<close>

text \<open>A scan from a place up to an unmatched \<open>close\<close>: the code, the characters read and the escaped names.\<close>

type_synonym scanned = "(string \<times> nat \<times> string list) option"
type_synonym scanner = "string \<Rightarrow> string \<Rightarrow> char option \<Rightarrow> scanned"

definition opener :: "char \<Rightarrow> char" where
  "opener close = (if close = CHR '')'' then CHR ''('' else CHR ''{'')"

text \<open>One step of a loop: it stops, a nested scan is too deep, or it reads \<open>n\<close> characters, which leave
  code and escaped names and the brackets open.\<close>

datatype piece = Stop nat | Deep | Piece string nat "string list" nat

text \<open>A string from after its opening quote: its length with the closing one.\<close>

definition string_piece :: "scanner \<Rightarrow> bool \<Rightarrow> string \<Rightarrow> string \<Rightarrow> piece" where
  "string_piece nested interpolated pre s =
     (case s of
        [] \<Rightarrow> Stop 0
      | c # t \<Rightarrow>
          if c = CHR 0x5C then Piece [] (min 2 (length s)) [] 0
          else if c = CHR 0x22 then Stop 1
          else if interpolated \<and> c = CHR ''{'' then
            (case nested (c # pre) t (Some (CHR ''}'')) of
               None \<Rightarrow> Deep
             | Some (_, n, es) \<Rightarrow> Piece [] (Suc n) es 0)
          else Piece [] 1 [] 0)"

primrec string_length ::
  "scanner \<Rightarrow> bool \<Rightarrow> nat \<Rightarrow> string \<Rightarrow> string \<Rightarrow> (nat \<times> string list) option" where
  "string_length nested interpolated 0 pre s = None"
| "string_length nested interpolated (Suc fuel) pre s =
     (case string_piece nested interpolated pre s of
        Stop n \<Rightarrow> Some (n, [])
      | Deep \<Rightarrow> None
      | Piece _ n es _ \<Rightarrow> map_option (\<lambda>(m, es'). (n + m, es @ es'))
          (string_length nested interpolated fuel (rev (take n s) @ pre) (drop n s)))"

definition token :: "(string \<Rightarrow> string) \<Rightarrow> string \<Rightarrow> nat \<Rightarrow> string list \<Rightarrow> nat \<Rightarrow> piece" where
  "token sha s n es depth = Piece (opaque sha (take n s)) n es depth"

definition next_piece ::
  "(string \<Rightarrow> string) \<Rightarrow> scanner \<Rightarrow> string \<Rightarrow> string \<Rightarrow> char option \<Rightarrow> nat \<Rightarrow> piece" where
  "next_piece sha nested pre s close depth =
     (case s of
        [] \<Rightarrow> Stop 0
      | c # t \<Rightarrow>
          if starts ''--'' s then
            Piece '' '' (length (takeWhile (\<lambda>x. x \<noteq> newline) s)) [] depth
          else if starts ''/-'' s then
            (let n = 2 + comment_length 1 (drop 2 s)
             in Piece (CHR '' '' # filter ((=) newline) (take n s)) n [] depth)
          else if c = CHR 0x22 then
            (case string_length nested (interpolation_prefix pre) (Suc (length t)) (c # pre) t of
               None \<Rightarrow> Deep
             | Some (n, es) \<Rightarrow> token sha s (Suc n) es depth)
          else if c = CHR ''r'' \<and> \<not> ident_before pre \<and> raw_string s \<noteq> None then
            token sha s (the (raw_string s)) [] depth
          else if c = CHR 0x27 \<and> \<not> ident_before pre \<and> char_literal s \<noteq> None then
            token sha s (the (char_literal s)) [] depth
          else if c = CHR 0xAB then
            (let n = (case index_of [CHR 0xBB] t of None \<Rightarrow> length s | Some k \<Rightarrow> k + 2)
             in token sha s n [take n s] depth)
          else if c = CHR 0x60 \<and>
                  (starts [CHR 0x60, CHR ''(''] s \<or> starts [CHR 0x60, CHR 0x60, CHR ''(''] s) then
            (let k = (if starts [CHR 0x60, CHR ''(''] s then 2 else 3)
             in case nested (rev (take k s) @ pre) (drop k s) (Some (CHR '')'')) of
                  None \<Rightarrow> Deep
                | Some (_, n, es) \<Rightarrow> token sha s (k + n) es depth)
          else
            (case close of
               None \<Rightarrow> Piece [c] 1 [] depth
             | Some e \<Rightarrow>
                 if c = opener e then Piece [c] 1 [] (Suc depth)
                 else if c = e then (if depth = 0 then Stop 1 else Piece [c] 1 [] (depth - 1))
                 else Piece [c] 1 [] depth))"

primrec scan_loop ::
  "(string \<Rightarrow> string) \<Rightarrow> scanner \<Rightarrow> nat \<Rightarrow> string \<Rightarrow> string \<Rightarrow> char option \<Rightarrow> nat \<Rightarrow> scanned" where
  "scan_loop sha nested 0 pre s close depth = None"
| "scan_loop sha nested (Suc fuel) pre s close depth =
     (case next_piece sha nested pre s close depth of
        Stop n \<Rightarrow> Some ([], n, [])
      | Deep \<Rightarrow> None
      | Piece out n es depth' \<Rightarrow> map_option (\<lambda>(out', m, es'). (out @ out', n + m, es @ es'))
          (scan_loop sha nested fuel (rev (take n s) @ pre) (drop n s) close depth'))"

declare string_length.simps(2) [simp del] scan_loop.simps(2) [simp del]

primrec scan :: "(string \<Rightarrow> string) \<Rightarrow> nat \<Rightarrow> scanner" where
  "scan sha 0 = (\<lambda>pre s close. None)"
| "scan sha (Suc depth) =
     (\<lambda>pre s close. scan_loop sha (scan sha depth) (Suc (length s)) pre s close 0)"

definition scanned_code :: "(string \<Rightarrow> string) \<Rightarrow> nat \<Rightarrow> string \<Rightarrow> string option" where
  "scanned_code sha depth source = map_option fst (scan sha depth [] source None)"

definition lean_code :: "(string \<Rightarrow> string) \<Rightarrow> nat \<Rightarrow> string \<Rightarrow> string" where
  "lean_code sha depth source = (case scanned_code sha depth source of None \<Rightarrow> [] | Some code \<Rightarrow> code)"

section \<open>A scan ends\<close>

definition consuming :: "scanner \<Rightarrow> bool" where
  "consuming f \<longleftrightarrow> (\<forall>pre s close out n es. f pre s close = Some (out, n, es) \<longrightarrow> n \<le> length s)"

lemma consumingD: "consuming f \<Longrightarrow> f pre s close = Some (out, n, es) \<Longrightarrow> n \<le> length s"
  unfolding consuming_def by blast

text \<open>\<open>f\<close> answers on every text shorter than \<open>k\<close>.\<close>

definition answers_below :: "nat \<Rightarrow> scanner \<Rightarrow> bool" where
  "answers_below k f \<longleftrightarrow> (\<forall>pre s close. length s < k \<longrightarrow> f pre s close \<noteq> None)"

lemma answersD: "answers_below k f \<Longrightarrow> length s < k \<Longrightarrow> f pre s close \<noteq> None"
  unfolding answers_below_def by blast

text \<open>What one step of a loop is: it ends inside the text, a nested scan of less failed, or it goes on.\<close>

definition sound_piece :: "scanner \<Rightarrow> string \<Rightarrow> piece \<Rightarrow> bool" where
  "sound_piece nested s x \<longleftrightarrow>
     (case x of
        Stop n \<Rightarrow> n \<le> length s
      | Deep \<Rightarrow> \<exists>pre t close. length t < length s \<and> nested pre t close = None
      | Piece _ n _ _ \<Rightarrow> 1 \<le> n \<and> n \<le> length s)"

text \<open>A loop of such steps, by how far it reads.\<close>

definition advances ::
  "scanner \<Rightarrow> string \<Rightarrow> nat option \<Rightarrow> ('st \<Rightarrow> string \<Rightarrow> nat option) \<Rightarrow> bool" where
  "advances nested s r loop \<longleftrightarrow>
     (\<exists>n. r = Some n \<and> n \<le> length s) \<or>
     (r = None \<and> (\<exists>pre t close. length t < length s \<and> nested pre t close = None)) \<or>
     (\<exists>k st. 1 \<le> k \<and> k \<le> length s \<and> r = map_option ((+) k) (loop st (drop k s)))"

definition string_reads ::
  "scanner \<Rightarrow> bool \<Rightarrow> nat \<Rightarrow> string \<Rightarrow> string \<Rightarrow> nat option" where
  "string_reads nested interpolated fuel pre s = map_option fst (string_length nested interpolated fuel pre s)"

definition level_reads ::
  "(string \<Rightarrow> string) \<Rightarrow> scanner \<Rightarrow> char option \<Rightarrow> nat \<Rightarrow> string \<times> nat \<Rightarrow> string \<Rightarrow> nat option" where
  "level_reads sha nested close fuel st s =
     map_option (\<lambda>y. fst (snd y)) (scan_loop sha nested fuel (fst st) s close (snd st))"

lemma string_reads_Suc:
  "string_reads nested interpolated (Suc fuel) pre s =
     (case string_piece nested interpolated pre s of
        Stop n \<Rightarrow> Some n
      | Deep \<Rightarrow> None
      | Piece _ n _ _ \<Rightarrow> map_option ((+) n)
          (string_reads nested interpolated fuel (rev (take n s) @ pre) (drop n s)))"
  by (auto simp: string_reads_def string_length.simps(2) option.map_comp comp_def split_beta split: piece.split)

lemma level_reads_Suc:
  "level_reads sha nested close (Suc fuel) st s =
     (case next_piece sha nested (fst st) s close (snd st) of
        Stop n \<Rightarrow> Some n
      | Deep \<Rightarrow> None
      | Piece _ n _ depth \<Rightarrow> map_option ((+) n)
          (level_reads sha nested close fuel (rev (take n s) @ fst st, depth) (drop n s)))"
  by (auto simp: level_reads_def scan_loop.simps(2) option.map_comp comp_def split_beta split: piece.split)

lemma string_piece_sound:
  assumes "consuming nested"
  shows "sound_piece nested s (string_piece nested interpolated pre s)"
proof (cases s)
  case (Cons c t)
  have fails: "nested (c # pre) t e = None \<Longrightarrow> \<exists>p u e. length u < Suc (length t) \<and> nested p u e = None" for e
    by blast
  show ?thesis
    using Cons by (auto simp: string_piece_def sound_piece_def fails dest: consumingD [OF assms] split: option.split)
qed (simp add: string_piece_def sound_piece_def)

lemma string_advances:
  assumes "consuming nested"
  shows "advances nested s (string_reads nested interpolated (Suc fuel) pre s) (string_reads nested interpolated fuel)"
  using string_piece_sound [OF assms, of s interpolated pre]
  unfolding sound_piece_def advances_def string_reads_Suc
  by (cases "string_piece nested interpolated pre s") auto

text \<open>Such a loop reads no more than there is, and ends where the nested scan does.\<close>

lemma loop_le:
  assumes "\<And>fuel pre s. advances nested s (loop (Suc fuel) pre s) (loop fuel)" and "\<And>pre s. loop 0 pre s = None"
    and "loop fuel pre s = Some n"
  shows "n \<le> length s"
  using assms(3)
proof (induction fuel arbitrary: pre s n)
  case (Suc fuel)
  show ?case
    using assms(1) [of s fuel pre] Suc.prems Suc.IH unfolding advances_def by fastforce
qed (simp add: assms(2))

lemma loop_ends:
  assumes "\<And>fuel pre s. advances nested s (loop (Suc fuel) pre s) (loop fuel)"
    and "answers_below k nested" and "length s \<le> k" and "length s < fuel"
  shows "loop fuel pre s \<noteq> None"
  using assms(3,4)
proof (induction fuel arbitrary: pre s)
  case (Suc fuel)
  show ?case
  proof
    assume none: "loop (Suc fuel) pre s = None"
    consider (inner) pre' t close where "length t < length s" "nested pre' t close = None"
      | (on) j pre' where "1 \<le> j" "j \<le> length s" "loop fuel pre' (drop j s) = None"
      using assms(1) [of s fuel pre] none unfolding advances_def by auto
    then show False
    proof cases
      case inner
      then show False using answersD [OF assms(2), of t] Suc.prems(1) by simp
    next
      case on
      then show False using Suc.IH [of "drop j s" pre'] Suc.prems by simp
    qed
  qed
qed simp

lemma starts_length: "starts p s \<Longrightarrow> length p \<le> length s"
  by (auto simp: starts_def) (metis length_take min.bounded_iff order_refl)

lemma comment_length_le: "comment_length d s \<le> length s"
proof (induction d s rule: comment_length.induct)
  case (1 depth s)
  have le: "2 \<le> length s" if "starts ''/-'' s \<or> starts ''-/'' s"
    using that starts_length [of "''/-''" s] starts_length [of "''-/''" s] by auto
  consider "s = []" | "s \<noteq> []" "starts ''/-'' s" | "s \<noteq> []" "\<not> starts ''/-'' s" "starts ''-/'' s"
    | "s \<noteq> []" "\<not> starts ''/-'' s" "\<not> starts ''-/'' s" by blast
  then show ?case
  proof cases
    case 2
    then show ?thesis using 1(1) le by (subst comment_length.simps) simp
  next
    case 3
    then show ?thesis using 1(2) le by (cases "depth = 1"; subst comment_length.simps) auto
  next
    case 4
    then show ?thesis using 1(3) by (subst comment_length.simps) (cases s; simp)
  qed (simp add: comment_length.simps)
qed

lemma index_of_le: "index_of p s = Some n \<Longrightarrow> n + length p \<le> length s"
  by (induction s arbitrary: n) (auto split: if_splits dest: starts_length)

lemma raw_string_le:
  assumes "raw_string s = Some n"
  shows "1 \<le> n \<and> n \<le> length s"
proof -
  define hashes where "hashes = takeWhile ((=) (CHR ''#'')) (drop 1 s)"
  define inside where "inside = drop (Suc (length hashes)) s"
  have st: "starts ''r'' s" "starts [CHR 0x22] inside"
    using assms unfolding raw_string_def hashes_def inside_def Let_def by (auto split: if_splits)
  have l: "1 \<le> length inside" "length inside = length s - Suc (length hashes)"
    using starts_length [OF st(2)] by (simp_all add: inside_def)
  have r: "n = (case index_of (CHR 0x22 # hashes) (drop 1 inside) of
      None \<Rightarrow> length s | Some k \<Rightarrow> length hashes + 2 + k + 1 + length hashes)"
    using assms st unfolding raw_string_def hashes_def [symmetric] inside_def [symmetric] Let_def by simp
  show ?thesis
  proof (cases "index_of (CHR 0x22 # hashes) (drop 1 inside)")
    case None
    then show ?thesis using r l by auto
  next
    case (Some k)
    then show ?thesis using r l index_of_le [OF Some] by simp
  qed
qed

lemma char_literal_le:
  assumes "char_literal s = Some n"
  shows "1 \<le> n \<and> n \<le> length s"
proof -
  obtain k where k: "n = k + 2" "starts [CHR 0x27] (drop k (drop 1 s))"
    using assms unfolding char_literal_def by (auto split: if_splits dest!: find_SomeD)
  from starts_length [OF k(2)] k(1) show ?thesis by simp
qed


lemma string_length_le:
  assumes "consuming nested" and "string_length nested interpolated fuel pre s = Some (n, es)"
  shows "n \<le> length s"
proof (rule loop_le [where loop = "string_reads nested interpolated", OF string_advances [OF assms(1)]])
  show "string_reads nested interpolated 0 pre s = None" for pre s by (simp add: string_reads_def)
  show "string_reads nested interpolated fuel pre s = Some n" using assms(2) by (simp add: string_reads_def)
qed

lemma string_length_fails:
  assumes "consuming nested" and "string_length nested interpolated fuel pre s = None" and "length s < fuel"
  shows "\<exists>p u e. length u < length s \<and> nested p u e = None"
proof (rule ccontr)
  assume "\<not> ?thesis"
  then have "answers_below (length s) nested" unfolding answers_below_def by meson
  from loop_ends [where loop = "string_reads nested interpolated",
      OF string_advances [OF assms(1)] this order_refl assms(3), of pre] assms(2)
  show False by (simp add: string_reads_def)
qed

lemma takeWhile_dash: "starts ''--'' s \<Longrightarrow> 1 \<le> length (takeWhile (\<lambda>x. x \<noteq> newline) s)"
  by (cases s) (auto simp: starts_def newline_def)

lemma quotation_length:
  assumes "starts [CHR 0x60, CHR ''(''] s \<or> starts [CHR 0x60, CHR 0x60, CHR ''(''] s"
  shows "1 \<le> (if starts [CHR 0x60, CHR ''(''] s then 2 else 3 :: nat) \<and>
      (if starts [CHR 0x60, CHR ''(''] s then 2 else 3) \<le> length s"
  using assms starts_length [of "[CHR 0x60, CHR ''('']" s] starts_length [of "[CHR 0x60, CHR 0x60, CHR ''('']" s]
  by auto

lemma next_piece_sound:
  assumes "consuming nested"
  shows "sound_piece nested s (next_piece sha nested pre s close depth)"
proof (cases s)
  case (Cons c t)
  have t: "length s = Suc (length t)" using Cons by simp
  have if_rule: "(A \<Longrightarrow> sound_piece nested s x) \<Longrightarrow> (\<not> A \<Longrightarrow> sound_piece nested s y) \<Longrightarrow>
      sound_piece nested s (if A then x else y)" for A x y by simp
  have piece: "1 \<le> n \<and> n \<le> length s \<Longrightarrow> sound_piece nested s (Piece out n es d)" for out n es d
    by (simp add: sound_piece_def)
  have opaque_piece: "1 \<le> n \<and> n \<le> length s \<Longrightarrow> sound_piece nested s (token sha s n es d)" for n es d
    by (simp add: sound_piece_def token_def)
  have dash: "1 \<le> length (takeWhile (\<lambda>x. x \<noteq> newline) s) \<and> length (takeWhile (\<lambda>x. x \<noteq> newline) s) \<le> length s"
    if "starts ''--'' s"
    using takeWhile_dash [OF that] length_takeWhile_le by blast
  have comment: "1 \<le> 2 + comment_length 1 (drop 2 s) \<and> 2 + comment_length 1 (drop 2 s) \<le> length s"
    if "starts ''/-'' s"
    using comment_length_le [of 1 "drop 2 s"] starts_length [OF that] by simp
  have quoted: "sound_piece nested s (case string_length nested i (Suc (length t)) p t of
      None \<Rightarrow> Deep | Some (n, es) \<Rightarrow> token sha s (Suc n) es depth)" for i p
  proof (cases "string_length nested i (Suc (length t)) p t")
    case None
    then obtain p u e where "length u < length t" "nested p u e = None"
      using string_length_fails [OF assms None] by auto
    then have "length u < length s \<and> nested p u e = None" using t by simp
    with None show ?thesis unfolding sound_piece_def by auto
  next
    case (Some a)
    then obtain n es where a: "string_length nested i (Suc (length t)) p t = Some (n, es)" by (cases a) auto
    then show ?thesis using string_length_le [OF assms a] t by (simp add: opaque_piece)
  qed
  have raw: "1 \<le> the (raw_string s) \<and> the (raw_string s) \<le> length s" if "raw_string s \<noteq> None"
    using that raw_string_le by auto
  have char: "1 \<le> the (char_literal s) \<and> the (char_literal s) \<le> length s" if "char_literal s \<noteq> None"
    using that char_literal_le by auto
  have name: "1 \<le> (case index_of [CHR 0xBB] t of None \<Rightarrow> length s | Some k \<Rightarrow> k + 2) \<and>
      (case index_of [CHR 0xBB] t of None \<Rightarrow> length s | Some k \<Rightarrow> k + 2) \<le> length s"
    using t index_of_le [of "[CHR 0xBB]" t] by (auto split: option.split)
  have quotation: "sound_piece nested s (case nested p (drop k s) e of
      None \<Rightarrow> Deep | Some (a, n, es) \<Rightarrow> token sha s (k + n) es depth)"
    if "1 \<le> k \<and> k \<le> length s" for k p e
  proof (cases "nested p (drop k s) e")
    case None
    moreover have "length (drop k s) < length s" using that t by simp
    ultimately have "\<exists>p u e. length u < length s \<and> nested p u e = None" by blast
    with None show ?thesis by (simp add: sound_piece_def)
  next
    case (Some a)
    then obtain out n es where a: "nested p (drop k s) e = Some (out, n, es)" by (cases a) auto
    have "n \<le> length s - k" using consumingD [OF assms a] by simp
    then have "1 \<le> k + n \<and> k + n \<le> length s" using that by linarith
    with a show ?thesis by (simp add: opaque_piece)
  qed
  have plain: "sound_piece nested s
      (case close of
         None \<Rightarrow> Piece [c] 1 [] depth
       | Some e \<Rightarrow>
           if c = opener e then Piece [c] 1 [] (Suc depth)
           else if c = e then (if depth = 0 then Stop 1 else Piece [c] 1 [] (depth - 1))
           else Piece [c] 1 [] depth)"
    using t by (auto simp: sound_piece_def split: option.split)
  show ?thesis
    unfolding next_piece_def Let_def list.case(2) [of _ _ c t, folded Cons]
    by (intro if_rule piece opaque_piece dash comment quoted raw char name plain quotation quotation_length)
      blast+
qed (simp add: next_piece_def sound_piece_def)

lemma level_advances:
  assumes "consuming nested"
  shows "advances nested s (level_reads sha nested close (Suc fuel) st s) (level_reads sha nested close fuel)"
proof (cases "next_piece sha nested (fst st) s close (snd st)")
  case (Piece out n es depth)
  then have "1 \<le> n \<and> n \<le> length s"
    using next_piece_sound [OF assms, of s sha "fst st" close "snd st"] by (simp add: sound_piece_def)
  with Piece show ?thesis unfolding advances_def level_reads_Suc by fastforce
qed (use next_piece_sound [OF assms, of s sha "fst st" close "snd st"] in
  \<open>auto simp: sound_piece_def advances_def level_reads_Suc\<close>)

lemma scan_loop_le:
  assumes "consuming nested" and "scan_loop sha nested fuel pre s close depth = Some (out, n, es)"
  shows "n \<le> length s"
proof (rule loop_le [where loop = "level_reads sha nested close", OF level_advances [OF assms(1)]])
  show "level_reads sha nested close 0 st s = None" for st s by (simp add: level_reads_def)
  show "level_reads sha nested close fuel (pre, depth) s = Some n"
    using assms(2) by (simp add: level_reads_def)
qed

lemma scan_consuming: "consuming (scan sha d)"
proof (induction d)
  case (Suc d)
  show ?case unfolding consuming_def scan.simps by (intro allI impI scan_loop_le [OF Suc])
qed (simp add: consuming_def)

text \<open>Depth beyond the length of the text always suffices, whatever is nested in it.\<close>

lemma scan_answers: "answers_below d (scan sha d)"
proof (induction d)
  case (Suc d)
  have "scan sha (Suc d) pre s close \<noteq> None" if "length s < Suc d" for pre s close
  proof -
    from that have le: "length s \<le> d" by simp
    have "level_reads sha (scan sha d) close (Suc (length s)) (pre, 0) s \<noteq> None"
      by (rule loop_ends [where loop = "level_reads sha (scan sha d) close",
          OF level_advances [OF scan_consuming] Suc.IH le lessI])
    then show ?thesis by (simp add: level_reads_def)
  qed
  then show ?case by (simp add: answers_below_def)
qed (simp add: answers_below_def)

lemma scanned_code_total: "length source < depth \<Longrightarrow> scanned_code sha depth source \<noteq> None"
  using answersD [OF scan_answers, of source depth sha "[]" None] by (simp add: scanned_code_def)

section \<open>Words and lines\<close>

definition split_nl :: "string \<Rightarrow> string list" where
  "split_nl s = (let (ls, l) = foldr (\<lambda>c (ls, l). if c = newline then (l # ls, []) else (ls, c # l)) s ([], [])
     in l # ls)"

fun split_at_char :: "char \<Rightarrow> string \<Rightarrow> string list" where
  "split_at_char d [] = [[]]"
| "split_at_char d (c # s) =
     (if c = d then [] # split_at_char d s
      else case split_at_char d s of l # ls \<Rightarrow> (c # l) # ls | [] \<Rightarrow> [[c]])"

text \<open>\<open>_COMMAND_WORDS\<close> and \<open>_command_word\<close>: a word that may start a command.\<close>

definition command_words :: "string list" where
  "command_words =
    [''abbrev'', ''alias'', ''attribute'', ''axiom'', ''class'', ''coinductive'', ''def'',
     ''deriving'', ''dsimproc'', ''elab'', ''end'', ''example'', ''export'', ''hiding'', ''import'',
     ''in'', ''include'', ''inductive'', ''infix'', ''infixl'', ''infixr'', ''initialize'',
     ''instance'', ''lemma'', ''local'', ''macro'', ''meta'', ''module'', ''mutual'', ''namespace'',
     ''noncomputable'', ''nonrec'', ''notation'', ''notation3'', ''omit'', ''opaque'', ''open'',
     ''partial'', ''postfix'', ''prefix'', ''prelude'', ''private'', ''protected'', ''public'',
     ''recall'', ''renaming'', ''reprove'', ''scoped'', ''seal'', ''section'', ''simproc'',
     ''structure'', ''syntax'', ''theorem'', ''universe'', ''unsafe'', ''unseal'', ''variable'']"

definition snake_case :: "string \<Rightarrow> bool" where
  "snake_case s \<longleftrightarrow>
     CHR ''_'' \<in> set s \<and> list_all (\<lambda>c. c = CHR ''_'' \<or> c \<in> set ''abcdefghijklmnopqrstuvwxyz'') s"

definition command_word :: "string \<Rightarrow> bool" where
  "command_word s \<longleftrightarrow> s \<in> set command_words \<or> snake_case s"

section \<open>Signatures\<close>

definition unterminated :: "(string \<Rightarrow> string) \<Rightarrow> nat \<Rightarrow> string \<Rightarrow> bool" where
  "unterminated sha depth text =
     (case scanned_code sha depth (text @ [newline, CHR 0x01]) of
        None \<Rightarrow> True
      | Some code \<Rightarrow> code = [] \<or> last code \<noteq> CHR 0x01)"

definition bracket_closer :: "char \<Rightarrow> char option" where
  "bracket_closer c =
     (if c = CHR ''('' then Some (CHR '')'')
      else if c = CHR ''['' then Some (CHR '']'')
      else if c = CHR ''{'' then Some (CHR ''}'') else None)"

definition is_closer :: "char \<Rightarrow> bool" where
  "is_closer c \<longleftrightarrow> c \<in> set '')]}''"

definition word_mark :: "char \<Rightarrow> bool" where
  "word_mark c \<longleftrightarrow> is_word c \<or> c \<in> set ''!?'' \<or> c = CHR 0x27"

definition where_here :: "string \<Rightarrow> string \<Rightarrow> bool" where
  "where_here pre s \<longleftrightarrow>
     \<not> (case pre of [] \<Rightarrow> False | c # _ \<Rightarrow> word_mark c \<or> c = CHR ''.'') \<and> starts ''where'' s \<and>
     \<not> (case drop 5 s of [] \<Rightarrow> False | c # _ \<Rightarrow> word_mark c)"

text \<open>The loop over the code of a signature; the open brackets are held as the closers they wait for.\<close>

fun signature_loop :: "string \<Rightarrow> string \<Rightarrow> char list \<Rightarrow> bool \<Rightarrow> string option" where
  "signature_loop pre [] stack bar = (if stack \<noteq> [] then Some ''unbalanced_brackets'' else None)"
| "signature_loop pre (c # s) stack bar =
     (case bracket_closer c of
        Some closer \<Rightarrow> signature_loop (c # pre) s (closer # stack) bar
      | None \<Rightarrow>
          if is_closer c then
            (if stack = [] \<or> hd stack \<noteq> c then Some ''unbalanced_brackets''
             else signature_loop (c # pre) s (tl stack) bar)
          else if stack \<noteq> [] then signature_loop (c # pre) s stack bar
          else if starts '':='' (c # s) then Some ''declaration_value''
          else if c = CHR ''|'' then signature_loop (c # pre) s stack True
          else if bar \<and> starts ''=>'' (c # s) then Some ''match_alternatives''
          else if where_here pre (c # s) then Some ''where_clause''
          else signature_loop (c # pre) s stack bar)"

text \<open>\<open>_SIGNATURE_COMMAND\<close>: a line that could open a command at its first column.\<close>

definition command_line :: "string \<Rightarrow> bool" where
  "command_line l \<longleftrightarrow>
     starts ''#'' l \<and> (case drop 1 l of [] \<Rightarrow> False | c # _ \<Rightarrow> id_first c \<and> c \<noteq> CHR ''_'') \<or>
     starts ''@['' l \<or>
     (\<exists>w \<in> set (''set_option'' # command_words).
        starts w l \<and>
        \<not> (case drop (length w) l of [] \<Rightarrow> False | c # _ \<Rightarrow> word_mark c \<or> c = CHR ''.''))"

definition unindented :: "string \<Rightarrow> bool" where
  "unindented l \<longleftrightarrow> l = [] \<or> \<not> is_space (hd l)"

definition signature_problem :: "(string \<Rightarrow> string) \<Rightarrow> nat \<Rightarrow> json \<Rightarrow> string option" where
  "signature_problem sha depth signature =
     (case signature of
        JStr text \<Rightarrow>
          if strip text = [] then Some ''empty''
          else (case scanned_code sha depth text of
             None \<Rightarrow> Some ''unreadable''
           | Some code \<Rightarrow>
               if strip code = [] then Some ''unreadable''
               else if unterminated sha depth text then Some ''unterminated''
               else (case signature_loop [] code [] False of
                  Some problem \<Rightarrow> Some problem
                | None \<Rightarrow>
                    if \<exists>l \<in> set (tl (split_nl text)). unindented l \<and> command_line l
                    then Some ''command_line'' else None))
      | _ \<Rightarrow> Some ''empty'')"

section \<open>Headers\<close>

definition is_blank :: "char \<Rightarrow> bool" where
  "is_blank c \<longleftrightarrow> c = CHR '' '' \<or> c = CHR 0x09"

fun blank_words :: "string \<Rightarrow> string \<Rightarrow> string list" where
  "blank_words acc [] = (if acc = [] then [] else [rev acc])"
| "blank_words acc (c # cs) =
     (if is_blank c then (if acc = [] then blank_words [] cs else rev acc # blank_words [] cs)
      else blank_words (c # acc) cs)"

definition is_atom :: "string \<Rightarrow> bool" where
  "is_atom s \<longleftrightarrow> s \<noteq> [] \<and> id_first (hd s) \<and> list_all id_rest s"

definition is_ident :: "string \<Rightarrow> bool" where
  "is_ident s \<longleftrightarrow> list_all is_atom (split_at_char (CHR ''.'') s)"

definition blank_then :: "string \<Rightarrow> bool" where
  "blank_then s \<longleftrightarrow> s \<noteq> [] \<and> is_blank (hd s)"

text \<open>The names of a line \<open>open A B (c d)\<close>; \<open>scoped\<close> is a modifier where a name follows it.\<close>

definition open_names :: "string \<Rightarrow> string list option" where
  "open_names text =
     (let body = drop 4 text; front = takeWhile (\<lambda>c. c \<noteq> CHR ''('') body;
          list = drop (length front) body; ws = blank_words [] front;
          names = (if ws \<noteq> [] \<and> hd ws = ''scoped'' \<and> tl ws \<noteq> [] then tl ws else ws);
          inner = blank_words [] (butlast (tl list))
      in if starts ''open'' text \<and> blank_then front \<and> names \<noteq> [] \<and> list_all is_ident names \<and>
            (list = [] \<or>
             1 < length list \<and> last list = CHR '')'' \<and> inner \<noteq> [] \<and>
             list_all (list_all (\<lambda>c. word_mark c \<or> c = CHR ''.'')) inner)
         then Some names else None)"

definition universe_names :: "string \<Rightarrow> string list option" where
  "universe_names text =
     (let body = drop 8 text; names = blank_words [] body
      in if starts ''universe'' text \<and> blank_then body \<and> names \<noteq> [] \<and> list_all is_atom names
         then Some names else None)"

definition option_value :: "string \<Rightarrow> bool" where
  "option_value v \<longleftrightarrow>
     v = ''true'' \<or> v = ''false'' \<or> v \<noteq> [] \<and> list_all is_digit v \<or>
     length v = 18 \<and> hd v = nul \<and> last v = nul \<and>
     list_all (\<lambda>c. c \<in> set ''0123456789ABCDEF'') (butlast (tl v))"

text \<open>The option and the value of a \<open>set_option\<close> line.\<close>

definition set_option_line :: "string \<Rightarrow> (string \<times> string) option" where
  "set_option_line text =
     (case blank_words [] text of
        [w, opt, v] \<Rightarrow> if w = ''set_option'' \<and> is_ident opt \<and> option_value v then Some (opt, v) else None
      | _ \<Rightarrow> None)"

definition is_module_name :: "string \<Rightarrow> bool" where
  "is_module_name s \<longleftrightarrow>
     s \<noteq> [] \<and> id_first (hd s) \<and> list_all (\<lambda>c. is_word c \<or> c = CHR ''.'' \<or> c = CHR 0x27) s"

definition import_line :: "string \<Rightarrow> bool" where
  "import_line text =
     (let ws = words_of [] text;
          ws1 = (if ws \<noteq> [] \<and> hd ws = ''public'' then tl ws else ws);
          ws2 = (if ws1 \<noteq> [] \<and> hd ws1 = ''meta'' then tl ws1 else ws1)
      in case ws2 of [w, name] \<Rightarrow> w = ''import'' \<and> is_module_name name | _ \<Rightarrow> False)"

definition header_options :: "string list" where
  "header_options =
     [''maxHeartbeats'', ''maxRecDepth'', ''maxSynthPendingDepth'', ''synthInstance.maxHeartbeats'',
      ''synthInstance.maxSize'', ''exponentiation.threshold'', ''autoImplicit'', ''relaxedAutoImplicit'']"

definition header_option_prefixes :: "string list" where
  "header_option_prefixes = [''pp.'', ''linter.'']"

definition header_option_ok :: "string \<Rightarrow> bool" where
  "header_option_ok opt \<longleftrightarrow>
     opt \<in> set header_options \<or> (\<exists>p \<in> set header_option_prefixes. starts p opt)"

text \<open>The loop over the lines; \<open>opened\<close> says that the command before was an \<open>open\<close>.\<close>

fun header_lines :: "bool \<Rightarrow> string list \<Rightarrow> string option" where
  "header_lines opened [] = None"
| "header_lines opened (l # ls) =
     (let text = strip l; opt = set_option_line text
      in if text = [] then header_lines opened ls
         else
           let found =
             (case open_names text of
                Some ns \<Rightarrow> Some (ns, False)
              | None \<Rightarrow>
                  (case universe_names text of
                     Some ns \<Rightarrow> Some (ns, False)
                   | None \<Rightarrow>
                       if opt \<noteq> None \<or> import_line text then Some ([], False)
                       else if opened \<and> \<not> unindented l \<and> blank_words [] text \<noteq> [] \<and>
                               list_all is_ident (blank_words [] text)
                       then Some (words_of [] text, True) else None))
           in case found of
                None \<Rightarrow> Some ''header_line''
              | Some (names, continued) \<Rightarrow>
                  if list_ex command_word names then Some ''header_line''
                  else if (case opt of None \<Rightarrow> False
                           | Some (opt, v) \<Rightarrow> starts [nul] v \<or> \<not> header_option_ok opt)
                  then Some ''set_option_not_allowed''
                  else header_lines (if continued then opened else starts ''open'' text) ls)"

definition header_problem :: "(string \<Rightarrow> string) \<Rightarrow> nat \<Rightarrow> json \<Rightarrow> string option" where
  "header_problem sha depth header =
     (case header of
        JNull \<Rightarrow> None
      | JStr text \<Rightarrow>
          (case scanned_code sha depth text of
             None \<Rightarrow> Some ''unreadable''
           | Some code \<Rightarrow>
               if unterminated sha depth text then Some ''unterminated''
               else header_lines False (split_nl code))
      | _ \<Rightarrow> Some ''not_text'')"

section \<open>What a signature may hold\<close>

inductive balanced :: "string \<Rightarrow> bool" where
  balanced_nil: "balanced []"
| balanced_plain: "bracket_closer c = None \<Longrightarrow> \<not> is_closer c \<Longrightarrow> balanced u \<Longrightarrow> balanced (c # u)"
| balanced_pair: "bracket_closer c = Some d \<Longrightarrow> balanced u \<Longrightarrow> balanced v \<Longrightarrow> balanced (c # u @ d # v)"

inductive completes :: "char list \<Rightarrow> string \<Rightarrow> bool" where
  completes_top: "balanced s \<Longrightarrow> completes [] s"
| completes_open: "balanced u \<Longrightarrow> completes stack v \<Longrightarrow> completes (d # stack) (u @ d # v)"

lemma closer_of_opener: "bracket_closer c = Some d \<Longrightarrow> is_closer d \<and> bracket_closer d = None"
  by (auto simp: bracket_closer_def is_closer_def split: if_splits)

lemma completes_plain:
  assumes "completes stack s" and "bracket_closer c = None" and "\<not> is_closer c"
  shows "completes stack (c # s)"
  using assms
proof cases
  case (completes_open u st v d)
  then have "completes (d # st) ((c # u) @ d # v)"
    using assms(2,3) by (intro completes.completes_open balanced_plain)
  then show ?thesis using completes_open by simp
qed (use assms in \<open>auto intro: completes.intros balanced.intros\<close>)

lemma completes_pair:
  assumes "completes (d # stack) s" and "bracket_closer c = Some d"
  shows "completes stack (c # s)"
proof -
  from assms(1) obtain u v where s: "s = u @ d # v" "balanced u" "completes stack v"
    by cases auto
  show ?thesis
    using s(3)
  proof cases
    case completes_top
    then show ?thesis using s assms(2) by (auto intro!: completes.completes_top balanced_pair)
  next
    case (completes_open u' st v' d')
    then have "completes (d' # st) ((c # u @ d # u') @ d' # v')"
      using s assms(2) by (intro completes.completes_open balanced_pair)
    then show ?thesis using s completes_open by simp
  qed
qed

lemma signature_loop_completes:
  "signature_loop pre s stack bar = None \<Longrightarrow> completes stack s"
proof (induction pre s stack bar rule: signature_loop.induct)
  case (2 pre c s stack bar)
  show ?case
  proof (cases "bracket_closer c")
    case (Some d)
    then show ?thesis using 2 by (auto intro: completes_pair)
  next
    case None
    show ?thesis
    proof (cases "is_closer c")
      case True
      then have st: "stack \<noteq> []" "hd stack = c" and "signature_loop (c # pre) s (tl stack) bar = None"
        using None "2.prems" by (simp_all split: if_splits)
      with "2.IH"(1) [OF None True] have "stack = c # tl stack" "completes (tl stack) s" by auto
      then show ?thesis using completes_open [of "[]" "tl stack" s c] balanced_nil by simp
    next
      case False
      have "completes stack s"
        using None False "2.prems" "2.IH"(2-) by (auto split: if_splits)
      with None False show ?thesis by (intro completes_plain)
    qed
  qed
qed (auto intro: completes.intros balanced.intros split: if_splits)

lemma signature_loop_past:
  assumes "balanced u" and "signature_loop pre (u @ v) stack bar = None"
  shows "\<exists>bar'. (bar \<longrightarrow> bar') \<and> signature_loop (rev u @ pre) v stack bar' = None"
  using assms
proof (induction u arbitrary: pre v stack bar rule: balanced.induct)
  case (balanced_plain c u)
  then have "\<exists>bar1. (bar \<longrightarrow> bar1) \<and> signature_loop (c # pre) (u @ v) stack bar1 = None"
    by (auto split: if_splits)
  then obtain bar1 where 1: "bar \<longrightarrow> bar1" "signature_loop (c # pre) (u @ v) stack bar1 = None" by blast
  from balanced_plain.IH [OF 1(2)] 1(1) show ?case by auto
next
  case (balanced_pair c d u v')
  have "signature_loop (c # pre) (u @ d # v' @ v) (d # stack) bar = None"
    using balanced_pair.prems balanced_pair.hyps by simp
  from balanced_pair.IH(1) [OF this] obtain bar1 where
      1: "bar \<longrightarrow> bar1" "signature_loop (rev u @ c # pre) (d # v' @ v) (d # stack) bar1 = None" by auto
  then have "signature_loop (d # rev u @ c # pre) (v' @ v) stack bar1 = None"
    using closer_of_opener [OF balanced_pair.hyps(1)] by simp
  from balanced_pair.IH(2) [OF this] 1(1) show ?case by auto
qed auto


text \<open>C18. A signature that is accepted is one declaration's: read as code its brackets balance, and
  outside every bracket it neither starts a value, nor a \<open>where\<close>, nor an alternative after a bar.\<close>

theorem accepted_signature_is_one:
  assumes "signature_problem sha depth (JStr text) = None"
  shows "\<exists>code. scanned_code sha depth text = Some code \<and> balanced code \<and>
    (\<forall>u v. code = u @ v \<and> balanced u \<longrightarrow> \<not> starts '':='' v \<and> \<not> where_here (rev u) v) \<and>
    (\<forall>u v x. code = u @ ''|'' @ v @ x \<and> balanced u \<and> balanced v \<longrightarrow> \<not> starts ''=>'' x)"
proof -
  obtain code where code: "scanned_code sha depth text = Some code" "signature_loop [] code [] False = None"
    using assms by (auto simp: signature_problem_def split: if_splits option.splits)
  have top: "\<exists>bar. signature_loop (rev u) v [] bar = None" if "code = u @ v" "balanced u" for u v
    using signature_loop_past [OF that(2), of "[]" v "[]" False] code(2) that(1) by auto
  have head: "\<not> starts '':='' v \<and> \<not> where_here (rev u) v" if uv: "code = u @ v" "balanced u" for u v
  proof -
    obtain bar where go: "signature_loop (rev u) v [] bar = None" using top [OF uv] by blast
    show ?thesis
    proof (cases v)
      case (Cons c t)
      then show ?thesis using go
        by (auto simp: starts_def where_here_def bracket_closer_def is_closer_def split: if_splits)
    qed (simp add: starts_def where_here_def)
  qed
  have alternative: "\<not> starts ''=>'' x"
    if uvx: "code = u @ ''|'' @ v @ x" "balanced u" "balanced v" for u v x
  proof -
    obtain bar where go: "signature_loop (rev u) (''|'' @ v @ x) [] bar = None" using top [OF uvx(1,2)] by blast
    have "signature_loop (CHR ''|'' # rev u) (v @ x) [] True = None"
      using go by (auto simp: bracket_closer_def is_closer_def split: if_splits)
    from signature_loop_past [OF uvx(3) this]
    have go: "signature_loop (rev v @ CHR ''|'' # rev u) x [] True = None" by auto
    show ?thesis
    proof (cases x)
      case (Cons c t)
      then show ?thesis using go by (auto simp: starts_def bracket_closer_def is_closer_def split: if_splits)
    qed (simp add: starts_def)
  qed
  have "balanced code"
    using signature_loop_completes [OF code(2)] by cases
  with code(1) head alternative show ?thesis by blast
qed

theorem accepted_signature_is_one_witness:
  "\<exists>code. scanned_code (\<lambda>s. s) 1 ''(n : Nat) : n = n'' = Some code \<and> balanced code"
proof -
  have "signature_problem (\<lambda>s. s) 1 (JStr ''(n : Nat) : n = n'') = None" by code_simp
  from accepted_signature_is_one [OF this] show ?thesis by blast
qed

end
