(* ===== verification/Module_Gate.thy ===== *)
theory Module_Gate
  imports Lean_Scan Lean_Modules
begin

text \<open>
  What a published Lean module may hold (\<open>commons_sources.py\<close>): its imports, the scopes it leaves open
  and \<open>refused_command\<close>, the gate that keeps code out of importers' machines. Everything is read off
  the scanned code. The text of \<open>ESCAPED_NAME\<close> holds a character beyond 255 and is the parameter
  \<open>escaped_name\<close>.
\<close>

section \<open>Module names\<close>

definition is_lower_hex :: "char \<Rightarrow> bool" where
  "is_lower_hex c \<longleftrightarrow> c \<in> set ''0123456789abcdef''"

text \<open>\<open>COMMONS_IMPORT\<close> and \<open>MODULE\<close>, matched in full.\<close>

definition commons_import :: "string \<Rightarrow> bool" where
  "commons_import s \<longleftrightarrow>
     starts ''Commons.N'' s \<and> length (drop 9 s) \<in> {8, 12, 16} \<and> list_all is_lower_hex (drop 9 s)"

text \<open>\<open>COMMONS_IMPORT.search\<close>.\<close>

fun mentions_module :: "string \<Rightarrow> bool" where
  "mentions_module [] = False"
| "mentions_module (c # s) = (commons_import (take 17 (c # s)) \<or> mentions_module s)"

fun by_fours :: "string \<Rightarrow> string" where
  "by_fours (a # b # c # d # s) = CHR ''-'' # a # b # c # d # by_fours s"
| "by_fours s = []"

text \<open>\<open>module_prefix\<close>: the dashed prefix of a record's id that a module's name encodes.\<close>

definition module_prefix :: "json \<Rightarrow> string option" where
  "module_prefix m =
     (case m of
        JStr s \<Rightarrow>
          if commons_import s then (let h = drop 9 s in Some (take 8 h @ by_fours (drop 8 h))) else None
      | _ \<Rightarrow> None)"

section \<open>Imports\<close>

fun until_dashes :: "string \<Rightarrow> string" where
  "until_dashes [] = []"
| "until_dashes (c # s) = (if starts ''--'' (c # s) then [] else c # until_dashes s)"

definition import_name :: "string \<Rightarrow> bool" where
  "import_name name \<longleftrightarrow> is_module_name name \<and> \<not> command_word name"

text \<open>The loop over the code lines: the modules and environment imports so far, the index of the line
  and the end of the imports.\<close>

fun import_lines ::
  "string list \<Rightarrow> string list \<Rightarrow> string list \<Rightarrow> nat \<Rightarrow> nat \<Rightarrow> string list \<times> string list \<times> nat" where
  "import_lines [] modules env index end_line = (modules, env, end_line)"
| "import_lines (l # ls) modules env index end_line =
     (case words_of [] (until_dashes l) of
        [] \<Rightarrow> import_lines ls modules env (Suc index) end_line
      | w # names \<Rightarrow>
          if w \<noteq> ''import'' \<or> names = [] \<or> \<not> list_all import_name names then (modules, env, index)
          else
            let found = filter (\<lambda>n. commons_import n \<and> n \<notin> set modules) names;
                others = filter (\<lambda>n. \<not> commons_import n) names
            in import_lines ls (modules @ found)
                 (if others = [] then env else env @ [''import '' @ join_with '' '' others])
                 (Suc index) (Suc index))"

record imports_of =
  i_modules :: "string list"
  i_env :: "string list"
  i_lines :: "string list"
  i_first :: nat

definition split_imports :: "(string \<Rightarrow> string) \<Rightarrow> nat \<Rightarrow> string \<Rightarrow> imports_of" where
  "split_imports sha depth source =
     (let code = lean_code sha depth source;
          (modules, env, n) =
            import_lines (split_nl (if code = [] then source else code)) [] [] 0 0
      in \<lparr>i_modules = modules, i_env = env, i_lines = drop n (split_nl source), i_first = n\<rparr>)"

section \<open>Scopes\<close>

definition name_char :: "char \<Rightarrow> bool" where
  "name_char c \<longleftrightarrow> id_rest c \<or> c \<in> set ''!?''"

definition free_before :: "string \<Rightarrow> bool" where
  "free_before pre \<longleftrightarrow> (case pre of [] \<Rightarrow> True | c # _ \<Rightarrow> \<not> name_char c \<and> c \<noteq> CHR ''.'')"

definition scope_words :: "string list" where
  "scope_words = [''namespace'', ''section'', ''mutual'', ''end'']"

definition scope_word :: "string \<Rightarrow> string \<Rightarrow> string option" where
  "scope_word pre s =
     (if free_before pre then
        find (\<lambda>w. starts w s \<and> (case drop (length w) s of [] \<Rightarrow> True | c # _ \<Rightarrow> \<not> name_char c)) scope_words
      else None)"

text \<open>The name after a scope's keyword, on the same line.\<close>

definition scope_name :: "string \<Rightarrow> string" where
  "scope_name s =
     (if blank_then s then takeWhile (\<lambda>c. word_mark c \<or> c = CHR ''.'') (dropWhile is_blank s) else [])"

text \<open>The labels of the open scopes, the last opened first; \<open>None\<close> where an \<open>end\<close> closes none. A
  match never overlaps the next one, and a word of another never starts inside it.\<close>

fun open_scopes :: "string \<Rightarrow> string \<Rightarrow> string list \<Rightarrow> string list option" where
  "open_scopes pre [] stack = Some stack"
| "open_scopes pre (c # s) stack =
     (case scope_word pre (c # s) of
        None \<Rightarrow> open_scopes (c # pre) s stack
      | Some w \<Rightarrow>
          if w = ''end'' then (if stack = [] then None else open_scopes (c # pre) s (tl stack))
          else open_scopes (c # pre) s
            ((if w = ''mutual'' then [] else scope_name (drop (length w) (c # s))) # stack))"

definition strip_end :: "string \<Rightarrow> string" where
  "strip_end s = rev (dropWhile is_space (rev s))"

definition scope_closers :: "(string \<Rightarrow> string) \<Rightarrow> nat \<Rightarrow> string \<Rightarrow> herr + string list" where
  "scope_closers sha depth source =
     (case open_scopes [] (lean_code sha depth source) [] of
        None \<Rightarrow> Inl (fail ''COMMONS_MODULE_REFUSED'' 422)
      | Some stack \<Rightarrow> Inr (map (\<lambda>l. strip_end (''end '' @ l)) stack))"

section \<open>Words of the gate\<close>

definition runs_code :: "string list" where
  "runs_code =
    [''run_cmd'', ''run_elab'', ''run_meta'', ''run_tac'', ''by_elab'', ''elab'', ''elab_rules'',
     ''macro'', ''macro_rules'', ''syntax'', ''declare_syntax_cat'', ''binder_predicate'',
     ''initialize'', ''builtin_initialize'', ''simproc'', ''dsimproc'', ''simproc_decl'',
     ''dsimproc_decl'']"

definition registers :: "string list" where
  "registers = [''builtin_'', ''declare_'', ''register_'']"

definition notations :: "string list" where
  "notations =
    [''notation'', ''notation3'', ''infix'', ''infixl'', ''infixr'', ''prefix'', ''postfix'']"

definition code_attributes :: "string list" where
  "code_attributes =
    [''command_elab'', ''term_elab'', ''tactic'', ''macro'', ''init'', ''builtin_init'',
     ''implemented_by'', ''extern'', ''env_linter'', ''delab'', ''app_unexpander'', ''norm_num'',
     ''positivity'', ''simproc'', ''dsimproc'', ''widget_module'']"

definition code_attribute_suffixes :: "string list" where
  "code_attribute_suffixes =
     [''_elab'', ''_parser'', ''_delab'', ''_unexpander'', ''_code_action'', ''_formatter'',
      ''_parenthesizer'']"

definition runs_terms :: "string list" where
  "runs_terms =
    [''#eval'', ''#exit'', ''#exec'', ''#guard'', ''#html'', ''#widget'', ''#test'', ''#sample'',
     ''#time'', ''#count_heartbeats'', ''#help'', ''#find'', ''#norm_num'', ''#simp'', ''#conv'',
     ''#whnf'', ''#reduce'', ''#grind_lint'', ''#check_tactic'', ''#check_simp'', ''#lint'',
     ''#list_linters'', ''#leansearch'', ''#loogle'', ''#moogle'', ''#search'', ''#statesearch'',
     ''#min_imports'', ''#import_bumps'', ''#clear_deprecations'', ''#create_deprecated_module'',
     ''#unfold'']"

definition module_options :: "string list" where
  "module_options = header_options @ [''push_neg.use_distrib'', ''simprocs'', ''tactic.hygienic'']"

definition module_option_prefixes :: "string list" where
  "module_option_prefixes = header_option_prefixes @ [''backward.'']"

definition meta_namespaces :: "string list" where
  "meta_namespaces = [''Lean'', ''IO'', ''EIO'', ''BaseIO'']"

definition starts_any :: "string list \<Rightarrow> string \<Rightarrow> bool" where
  "starts_any ps s \<longleftrightarrow> (\<exists>p \<in> set ps. starts p s)"

definition ends_any :: "string list \<Rightarrow> string \<Rightarrow> bool" where
  "ends_any ps s \<longleftrightarrow> (\<exists>p \<in> set ps. starts (rev p) (rev s))"

definition meta_name :: "string \<Rightarrow> bool" where
  "meta_name s \<longleftrightarrow> (\<exists>x \<in> set (split_at_char (CHR ''.'') s). x \<in> set meta_namespaces)"

definition unsafe_name :: "string \<Rightarrow> bool" where
  "unsafe_name s \<longleftrightarrow> (\<exists>x \<in> set (split_at_char (CHR ''.'') s). starts ''unsafe'' x)"

section \<open>Tokens of the gate\<close>

definition simple_word :: "string \<Rightarrow> string" where
  "simple_word s = (case s of [] \<Rightarrow> [] | c # _ \<Rightarrow> if id_first c then takeWhile name_char s else [])"

text \<open>A word with its dotted parts, at the head of a text; the fuel bounds the parts.\<close>

primrec dotted_word :: "nat \<Rightarrow> string \<Rightarrow> string" where
  "dotted_word 0 s = simple_word s"
| "dotted_word (Suc n) s =
     (let w = simple_word s; t = drop (length w) s
      in if w \<noteq> [] \<and> starts ''.'' t \<and> simple_word (drop 1 t) \<noteq> []
         then w @ ''.'' @ dotted_word n (drop 1 t) else w)"

definition whole_word :: "string \<Rightarrow> string" where
  "whole_word s = dotted_word (length s) s"

text \<open>The token that starts here, if one does.\<close>

definition token_here :: "string \<Rightarrow> string \<Rightarrow> string" where
  "token_here pre s =
     (if starts ''#'' s \<and> simple_word (drop 1 s) \<noteq> [] then CHR ''#'' # simple_word (drop 1 s)
      else if starts ''@['' s then ''@[''
      else if free_before pre then whole_word s else [])"

text \<open>Every token with what lies before it, reversed, and what follows it.\<close>

function gate_tokens :: "string \<Rightarrow> string \<Rightarrow> (string \<times> string \<times> string) list" where
  "gate_tokens pre s =
     (if s = [] then []
      else let w = token_here pre s
           in if w = [] then gate_tokens (hd s # pre) (tl s)
              else (pre, w, drop (length w) s) # gate_tokens (rev w @ pre) (drop (length w) s))"
  by pat_completeness auto
termination by (relation "measure (\<lambda>(_, s). length s)") auto

declare gate_tokens.simps [simp del]

text \<open>\<open>_bracketed\<close>: the text up to its unmatched closing bracket.\<close>

fun bracketed :: "nat \<Rightarrow> string \<Rightarrow> string option" where
  "bracketed depth [] = None"
| "bracketed depth (c # s) =
     (if c = CHR ''['' then map_option ((#) c) (bracketed (Suc depth) s)
      else if c = CHR '']'' then
        (if depth = 0 then Some [] else map_option ((#) c) (bracketed (depth - 1) s))
      else map_option ((#) c) (bracketed depth s))"

section \<open>Modifiers of a notation\<close>

text \<open>The reversed text before a word, of which the last 64 characters are searched.\<close>

definition modifier_at :: "string \<Rightarrow> string \<Rightarrow> string \<Rightarrow> bool" where
  "modifier_at w window earlier \<longleftrightarrow>
     starts (rev w) window \<and> free_before (drop (length w) window @ earlier)"

definition is_local :: "string \<Rightarrow> bool" where
  "is_local pre \<longleftrightarrow>
     (let window = take 64 pre
      in window \<noteq> [] \<and> is_space (hd window) \<and>
         modifier_at ''local'' (dropWhile is_space window) (drop 64 pre))"

fun scoped_bracket :: "string \<Rightarrow> string \<Rightarrow> bool" where
  "scoped_bracket [] earlier = False"
| "scoped_bracket (c # s) earlier =
     (c \<noteq> CHR '']'' \<and>
      (c = CHR ''['' \<and> modifier_at ''scoped'' (dropWhile is_space s) earlier \<or> scoped_bracket s earlier))"

definition is_scoped :: "string \<Rightarrow> bool" where
  "is_scoped pre \<longleftrightarrow>
     (let window = take 64 pre; rest = dropWhile is_space window
      in window \<noteq> [] \<and> is_space (hd window) \<and>
         (modifier_at ''scoped'' rest (drop 64 pre) \<or>
          rest \<noteq> [] \<and> hd rest = CHR '']'' \<and> scoped_bracket (tl rest) (drop 64 pre)))"

section \<open>The gate\<close>

definition bad_attribute :: "string \<Rightarrow> bool" where
  "bad_attribute name \<longleftrightarrow>
     name \<in> set code_attributes \<or> starts ''builtin_'' name \<or> ends_any code_attribute_suffixes name"

text \<open>What a token is refused as. An \<open>attribute\<close> that no bracket follows is no command.\<close>

definition refused_attribute :: "string \<Rightarrow> string \<Rightarrow> string option" where
  "refused_attribute word after =
     (let opening = (if word = ''attribute'' then dropWhile is_space after else CHR ''['' # after)
      in if \<not> starts ''['' opening then None
         else (case bracketed 0 (tl opening) of
             None \<Rightarrow> Some word
           | Some content \<Rightarrow>
               map_option (\<lambda>name. if word = ''@['' then ''@['' @ name @ '']'' else ''attribute ['' @ name @ '']'')
                 (find bad_attribute (map (\<lambda>(_, w, _). w) (gate_tokens [] content)))))"

definition refused_option :: "string \<Rightarrow> string option" where
  "refused_option after =
     (let name = (if after \<noteq> [] \<and> is_space (hd after) then whole_word (dropWhile is_space after) else [])
      in if name \<notin> set module_options \<and> \<not> starts_any module_option_prefixes name
         then Some (strip_end (''set_option '' @ name)) else None)"

definition refused_token :: "string \<times> string \<times> string \<Rightarrow> string option" where
  "refused_token = (\<lambda>(pre, word, after).
     if starts ''#'' word then (if starts_any runs_terms word then Some word else None)
     else if word = ''@['' \<or> word = ''attribute'' then refused_attribute word after
     else if word = ''set_option'' then refused_option after
     else if word \<in> set notations then
       (if is_scoped pre then Some (''scoped '' @ word)
        else if \<not> is_local pre then Some word else None)
     else if word \<in> set runs_code \<or> starts_any registers word \<or> meta_name word \<or> unsafe_name word
     then Some word else None)"

fun first_some :: "('a \<Rightarrow> 'b option) \<Rightarrow> 'a list \<Rightarrow> 'b option" where
  "first_some f [] = None"
| "first_some f (x # xs) = (case f x of None \<Rightarrow> first_some f xs | Some y \<Rightarrow> Some y)"

definition refused_command :: "(string \<Rightarrow> string) \<Rightarrow> nat \<Rightarrow> string \<Rightarrow> string \<Rightarrow> string option" where
  "refused_command sha depth escaped_name source =
     (case scan sha depth [] (join_with [newline] (i_lines (split_imports sha depth source))) None of
        None \<Rightarrow> Some ''(a source too nested to scan)''
      | Some (code, _, escapes) \<Rightarrow>
          if escapes \<noteq> [] then Some escaped_name
          else first_some refused_token (gate_tokens [] code))"

section \<open>The gate reads every word\<close>

lemma simple_word_props:
  "\<exists>r. s = simple_word s @ r" "c \<in> set (simple_word s) \<Longrightarrow> name_char c"
proof -
  show "\<exists>r. s = simple_word s @ r"
    by (cases s) (auto simp: simple_word_def intro: exI [of _ "dropWhile name_char s"])
  show "name_char c" if "c \<in> set (simple_word s)"
    using that by (auto simp: simple_word_def split: list.splits if_splits dest: set_takeWhileD)
qed

lemma starts_iff: "starts p s \<longleftrightarrow> (\<exists>r. s = p @ r)"
  by (auto simp: starts_def) (metis append_take_drop_id)

lemma dotted_word_props:
  "(\<exists>r. s = dotted_word n s @ r) \<and> (\<forall>c \<in> set (dotted_word n s). name_char c \<or> c = CHR ''.'')"
proof (induction n arbitrary: s)
  case (Suc n)
  let ?w = "simple_word s"
  obtain r where r: "s = ?w @ r" using simple_word_props(1) by blast
  then have d: "drop (length ?w) s = r" by (metis append_eq_conv_conj)
  show ?case
  proof (cases "?w \<noteq> [] \<and> starts ''.'' r \<and> simple_word (drop 1 r) \<noteq> []")
    case True
    then obtain t where t: "r = CHR ''.'' # t" by (auto simp: starts_iff)
    have d1: "drop (Suc (length ?w)) s = t" using d t by (metis drop_Suc list.sel(3) tl_drop)
    have eq: "dotted_word (Suc n) s = ?w @ ''.'' @ dotted_word n t"
      using True t d d1 by (simp add: Let_def)
    obtain r' where "t = dotted_word n t @ r'" using Suc.IH by blast
    then have "s = dotted_word (Suc n) s @ r'" unfolding eq using r t by (metis append.assoc append_Cons append_Nil)
    with eq simple_word_props(2) [of _ s] Suc.IH [of t] show ?thesis by auto
  next
    case False
    then have "dotted_word (Suc n) s = ?w" using d by (auto simp: Let_def)
    with r simple_word_props(2) [of _ s] show ?thesis by auto
  qed
qed (use simple_word_props in auto)

lemma whole_word_props:
  "\<exists>r. s = whole_word s @ r" "c \<in> set (whole_word s) \<Longrightarrow> name_char c \<or> c = CHR ''.''"
  using dotted_word_props [of s "length s"] unfolding whole_word_def by blast+

lemma whole_word_head: "whole_word s \<noteq> [] \<Longrightarrow> id_first (hd s)"
  by (cases "length s"; cases s)
    (auto simp: whole_word_def simple_word_def Let_def split: if_splits)

lemma token_here_prefix: "\<exists>r. s = token_here pre s @ r"
proof -
  have "\<exists>r. s = CHR ''#'' # simple_word (drop 1 s) @ r" if "starts ''#'' s"
    using that simple_word_props(1) [of "drop 1 s"] by (cases s) (auto simp: starts_def)
  moreover have "\<exists>r. s = ''@['' @ r" if "starts ''@['' s" using that by (simp add: starts_iff)
  ultimately show ?thesis using whole_word_props(1) [of s] by (auto simp: token_here_def)
qed

text \<open>No word starts freely inside a token, but right after its \<open>#\<close>.\<close>

lemma inside_token:
  assumes "token_here pre s = u @ c # v" and "u \<noteq> []" and "id_first c"
  shows "last u = CHR ''#'' \<or> name_char (last u) \<or> last u = CHR ''.''"
proof -
  have mem: "last u \<in> set u" using assms(2) by simp
  have "token_here pre s = CHR ''#'' # simple_word (drop 1 s) \<or> token_here pre s = ''@['' \<or>
      token_here pre s = whole_word s \<or> token_here pre s = []"
    by (simp add: token_here_def)
  then consider "token_here pre s = CHR ''#'' # simple_word (drop 1 s)" | "token_here pre s = ''@[''"
    | "token_here pre s = whole_word s" | "token_here pre s = []"
    by blast
  then show ?thesis
  proof cases
    case 1
    then obtain u' where "u = CHR ''#'' # u'" "simple_word (drop 1 s) = u' @ c # v"
      using assms(1,2) by (cases u) auto
    then show ?thesis using simple_word_props(2) [of "last u'" "drop 1 s"] by auto
  next
    case 2
    then show ?thesis using assms by (cases u; cases "tl u") (auto simp: id_first_def)
  next
    case 3
    then have "last u \<in> set (whole_word s)" using mem assms(1) by (metis UnCI set_append)
    then show ?thesis using whole_word_props(2) by blast
  qed (use assms(1) in simp)
qed

lemma token_found:
  assumes "s = u @ w @ v" and "w \<noteq> []" and "w = whole_word (w @ v)" and "free_before (rev u @ pre)"
    and "u = [] \<or> last u \<noteq> CHR ''#''"
  shows "(rev u @ pre, w, v) \<in> set (gate_tokens pre s)"
  using assms(1,4,5)
proof (induction pre s arbitrary: u rule: gate_tokens.induct)
  case (1 pre s)
  have first: "id_first (hd w)" using whole_word_head [of "w @ v"] assms(2,3) by auto
  have ne: "s \<noteq> []" using "1.prems"(1) assms(2) by simp
  let ?t = "token_here pre s"
  obtain r where r: "s = ?t @ r" using token_here_prefix by blast
  then have dr: "drop (length ?t) s = r" by (metis append_eq_conv_conj)
  note unfold = gate_tokens.simps [of pre s]
  show ?case
  proof (cases u)
    case Nil
    then have s: "s = w @ v" using "1.prems"(1) by simp
    have "\<not> starts ''#'' s" "\<not> starts ''@['' s"
      using first s assms(2) by (auto simp: starts_iff id_first_def neq_Nil_conv)
    then have "?t = w" using Nil "1.prems"(2) s assms(3) by (simp add: token_here_def)
    then show ?thesis using unfold ne s Nil assms(2) by (simp add: Let_def)
  next
    case (Cons c u')
    show ?thesis
    proof (cases "?t = []")
      case True
      have "(rev u' @ hd s # pre, w, v) \<in> set (gate_tokens (hd s # pre) (tl s))"
        by (rule "1.IH"(1)) (use ne True "1.prems" Cons in \<open>auto split: if_splits\<close>)
      then show ?thesis using unfold ne True "1.prems"(1) Cons by (simp add: Let_def)
    next
      case False
      show ?thesis
      proof (cases "\<exists>u2. u = ?t @ u2 \<and> r = u2 @ w @ v")
        case True
        then obtain u2 where u2: "u = ?t @ u2" "r = u2 @ w @ v" by blast
        have rev_u: "rev u @ pre = rev u2 @ rev ?t @ pre"
          by (subst u2(1)) simp
        have rest: "drop (length ?t) s = u2 @ w @ v" by (simp only: dr u2(2))
        have free: "free_before (rev u2 @ rev ?t @ pre)" using "1.prems"(2) rev_u by metis
        have hash: "u2 = [] \<or> last u2 \<noteq> CHR ''#''"
          using "1.prems"(3) u2(1) by (metis append_is_Nil_conv last_appendR)
        have "(rev u2 @ rev ?t @ pre, w, v) \<in> set (gate_tokens (rev ?t @ pre) (drop (length ?t) s))"
          by (rule "1.IH"(2) [OF ne refl False rest free hash])
        moreover have "gate_tokens pre s =
            (pre, ?t, drop (length ?t) s) # gate_tokens (rev ?t @ pre) (drop (length ?t) s)"
          using unfold ne False by (simp add: Let_def)
        ultimately show ?thesis unfolding rev_u by simp
      next
        case long: False
        have "?t @ r = u @ w @ v" using r "1.prems"(1) by metis
        from append_eq_append_conv2 [THEN iffD1, OF this] long obtain t' where
            t': "?t = u @ t'" "w @ v = t' @ r" by metis
        with long have "t' \<noteq> []" by (metis append_Nil append_Nil2)
        moreover have "hd t' = hd w" using t'(2) assms(2) calculation by (metis hd_append2)
        ultimately have "?t = u @ hd w # tl t'" using t'(1) by (metis list.collapse)
        from inside_token [OF this _ first] Cons have "last u = CHR ''#'' \<or> name_char (last u) \<or> last u = CHR ''.''"
          by simp
        moreover have "u \<noteq> []" using Cons by simp
        then obtain l where "rev u @ pre = last u # l" by (cases u rule: rev_cases) auto
        with "1.prems"(2) have "\<not> name_char (last u)" "last u \<noteq> CHR ''.''"
          by (simp_all add: free_before_def)
        ultimately show ?thesis using "1.prems"(3) Cons by blast
      qed
    qed
  qed
qed


lemma first_some_None: "first_some f xs = None \<longleftrightarrow> (\<forall>x \<in> set xs. f x = None)"
  by (induction xs) (auto split: option.split)

lemma tame_words:
  "\<forall>w \<in> set (''attribute'' # ''set_option'' # notations).
     w \<notin> set runs_code \<and> \<not> starts_any registers w \<and> \<not> meta_name w \<and> \<not> unsafe_name w"
  "''attribute'' \<notin> set notations" "''set_option'' \<notin> set notations"
  by code_simp+

text \<open>C13. Where the gate lets a module through, every freely standing word of its code, dotted words
  included and however the text around it reads, runs no code, registers nothing, and has no
  component that is unsafe or names a namespace of metaprograms; and a notation is local.\<close>

theorem gate_misses_no_word:
  assumes "refused_command sha depth escaped_name source = None"
  shows "\<exists>code n. scan sha depth [] (join_with [newline] (i_lines (split_imports sha depth source))) None =
      Some (code, n, []) \<and>
    (\<forall>u w v. code = u @ w @ v \<and> w \<noteq> [] \<and> w = whole_word (w @ v) \<and> free_before (rev u) \<and>
        (u = [] \<or> last u \<noteq> CHR ''#'') \<longrightarrow>
      w \<notin> set runs_code \<and> \<not> starts_any registers w \<and> \<not> meta_name w \<and> \<not> unsafe_name w \<and>
      (w \<in> set notations \<longrightarrow> is_local (rev u) \<and> \<not> is_scoped (rev u)))"
proof -
  obtain code n where code: "scan sha depth [] (join_with [newline] (i_lines (split_imports sha depth source))) None =
      Some (code, n, [])" "first_some refused_token (gate_tokens [] code) = None"
    using assms by (auto simp: refused_command_def split: option.splits if_splits)
  have "w \<notin> set runs_code \<and> \<not> starts_any registers w \<and> \<not> meta_name w \<and> \<not> unsafe_name w \<and>
      (w \<in> set notations \<longrightarrow> is_local (rev u) \<and> \<not> is_scoped (rev u))"
    if w: "code = u @ w @ v" "w \<noteq> []" "w = whole_word (w @ v)" "free_before (rev u)" "u = [] \<or> last u \<noteq> CHR ''#''"
    for u w v
  proof -
    have "refused_token (rev u, w, v) = None"
      using token_found [OF w(1-3), of "[]"] w(4,5) code(2) by (auto simp: first_some_None)
    moreover have "id_first (hd w)" using whole_word_head [of "w @ v"] w(2,3) by auto
    then have "\<not> starts ''#'' w" "w \<noteq> ''@[''" using w(2) by (auto simp: starts_iff id_first_def)
    moreover note tame_words
    ultimately show ?thesis
      by (auto simp: refused_token_def split: if_splits)
  qed
  with code(1) show ?thesis by blast
qed


theorem gate_misses_no_word_witness:
  "refused_command (\<lambda>s. s) 2 [] ''open X'' = None \<and>
   \<not> unsafe_name ''X''"
proof -
  have ok: "refused_command (\<lambda>s. s) 2 [] ''open X'' = None"
    by code_simp
  from gate_misses_no_word [OF ok] obtain code n where
    scan: "scan (\<lambda>s. s) 2 [] (join_with [newline] (i_lines (split_imports (\<lambda>s. s) 2
      ''open X''))) None = Some (code, n, [])" and
    words: "\<And>u w v. code = u @ w @ v \<and> w \<noteq> [] \<and> w = whole_word (w @ v) \<and> free_before (rev u) \<and>
        (u = [] \<or> last u \<noteq> CHR ''#'') \<Longrightarrow> \<not> unsafe_name w" by blast
  have "scan (\<lambda>s. s) 2 [] (join_with [newline] (i_lines (split_imports (\<lambda>s. s) 2
      ''open X''))) None = Some (''open X'', 6, [])"
    by code_simp
  with scan have code: "code = ''open X''" by simp
  have "''X'' = whole_word (''X'' @ [])" "free_before (rev ''open '')" by code_simp+
  then have "\<not> unsafe_name ''X''"
    using words [of "''open ''" "''X''" "[]"] code by simp
  with ok show ?thesis by blast
qed

end
