(* ===== verification/Flattening.thy ===== *)
theory Flattening
  imports Module_Gate
begin

text \<open>
  One self-contained file from a source that imports modules of the commons (\<open>commons_sources.py\<close>,
  \<open>inline_commons\<close> and \<open>remap\<close>): each module once, after all it imports, inside a section of its own,
  then the caller's lines; and a check of that file reported on the caller's lines. \<open>resolve\<close> finds a module
  by its name.
\<close>

section \<open>Modules and expansions\<close>

record lean_module =
  m_name :: string
  m_node :: string
  m_source :: string
  m_rank :: json
  m_sha :: json
  m_artifact :: json
  m_branch :: json
  m_stale :: bool

text \<open>First line, last line, the module or the caller, and the line of origin.\<close>

type_synonym segment = "nat \<times> nat \<times> string option \<times> nat"

record expansion =
  x_source :: string
  x_modules :: "lean_module list"
  x_segments :: "segment list"
  x_complete :: bool
  x_stubs :: "string list"

definition max_commons_modules :: nat where "max_commons_modules = 200"

definition bytes :: "string \<Rightarrow> nat" where
  "bytes s = length (encode s)"

definition unchanged :: "string \<Rightarrow> expansion" where
  "unchanged source =
     \<lparr>x_source = source, x_modules = [], x_segments = [], x_complete = True, x_stubs = []\<rparr>"

section \<open>Visiting the modules\<close>

text \<open>The visit's state: the bytes so far, the names done and the modules in order, each with its imports
  and its scope closers.\<close>

type_synonym placed = "lean_module \<times> imports_of \<times> string list"
type_synonym visit_state = "nat \<times> string list \<times> placed list"

fun contains_text :: "string \<Rightarrow> string \<Rightarrow> bool" where
  "contains_text p [] = (p = [])"
| "contains_text p (c # s) = (starts p (c # s) \<or> contains_text p s)"

text \<open>What is read of a module before its imports are visited: its parts and the bytes with it.\<close>

definition open_module ::
  "(string \<Rightarrow> string) \<Rightarrow> nat \<Rightarrow> (string \<Rightarrow> herr + lean_module) \<Rightarrow> nat \<Rightarrow> string \<Rightarrow> nat \<Rightarrow>
   herr + (placed \<times> nat)" where
  "open_module sha depth resolve max_bytes name least =
     bindE (resolve name) (\<lambda>found.
     if contains_text ''#exit'' (m_source found) then Inl (fail ''COMMONS_MODULE_REFUSED'' 422)
     else
       let parts = split_imports sha depth (m_source found)
       in bindE (scope_closers sha depth (m_source found)) (\<lambda>closers.
          let least' = least + bytes (join_with [newline] (i_lines parts))
          in if max_bytes < least' then Inl (fail ''COMMONS_EXPANSION_TOO_LARGE'' 422)
             else Inr ((found, parts, closers), least')))"

text \<open>\<open>visit\<close>: \<open>busy\<close> are the names being visited. The fuel is what the bound leaves of them, so it
  runs out where the bound on the modules refuses.\<close>

primrec visit ::
  "nat \<Rightarrow> (string \<Rightarrow> nat \<Rightarrow> herr + (placed \<times> nat)) \<Rightarrow> string list \<Rightarrow> string \<Rightarrow> visit_state \<Rightarrow>
   herr + visit_state" where
  "visit 0 open_it busy name st =
     (if name \<in> set (fst (snd st)) then Inr st
      else if name \<in> set busy then Inl (fail ''COMMONS_IMPORT_CYCLE'' 422)
      else Inl (fail ''COMMONS_EXPANSION_LIMIT'' 422))"
| "visit (Suc fuel) open_it busy name st =
     (if name \<in> set (fst (snd st)) then Inr st
      else if name \<in> set busy then Inl (fail ''COMMONS_IMPORT_CYCLE'' 422)
      else if max_commons_modules \<le> length (fst (snd st)) + length busy
      then Inl (fail ''COMMONS_EXPANSION_LIMIT'' 422)
      else
        bindE (open_it name (fst st)) (\<lambda>(it, least).
        bindE (foldE (visit fuel open_it (busy @ [name])) (i_modules (fst (snd it)))
          (least, snd st)) (\<lambda>(least', done_names, ordered).
        Inr (least', done_names @ [name], ordered @ [it]))))"

definition visit_all ::
  "(string \<Rightarrow> string) \<Rightarrow> nat \<Rightarrow> (string \<Rightarrow> herr + lean_module) \<Rightarrow> nat \<Rightarrow> imports_of \<Rightarrow> herr + visit_state" where
  "visit_all sha depth resolve max_bytes own =
     foldE (visit max_commons_modules (open_module sha depth resolve max_bytes) []) (i_modules own)
       (bytes (join_with [newline] (i_lines own)), [], [])"

section \<open>Writing the file\<close>

definition merge_env :: "string list list \<Rightarrow> string list" where
  "merge_env envs = foldl (\<lambda>out env. out @ filter (\<lambda>l. l \<notin> set out) env) [] envs"

definition module_label :: "lean_module \<Rightarrow> string" where
  "module_label m =
     ''-- '' @ m_name m @ '': node '' @ m_node m @ '', '' @ text_of (m_rank m) @
     (if m_stale m then '', stale'' else [])"

definition module_block :: "placed \<Rightarrow> string list" where
  "module_block = (\<lambda>(found, parts, closers).
     [''section'', module_label found] @ i_lines parts @ closers @ [''end''])"

text \<open>The lines so far and the segments of the modules written.\<close>

fun write_blocks :: "placed list \<Rightarrow> string list \<Rightarrow> segment list \<Rightarrow> string list \<times> segment list" where
  "write_blocks [] out segments = (out, segments)"
| "write_blocks (p # ps) out segments =
     (let block = module_block p
      in write_blocks ps (out @ block)
           (segments @ [(length out + 1, length out + length block, Some (m_name (fst p)), 1)]))"

definition is_complete_rank :: "json \<Rightarrow> bool" where
  "is_complete_rank r \<longleftrightarrow> r \<in> {JStr ''complete'', JStr ''verified''}"

definition flat_lines :: "imports_of \<Rightarrow> placed list \<Rightarrow> string list" where
  "flat_lines own ordered =
     fst (write_blocks ordered (merge_env (i_env own # map (\<lambda>(_, parts, _). i_env parts) ordered)) []) @
     i_lines own"

definition flat_segments :: "imports_of \<Rightarrow> placed list \<Rightarrow> segment list" where
  "flat_segments own ordered =
     (let (out, segments) =
        write_blocks ordered (merge_env (i_env own # map (\<lambda>(_, parts, _). i_env parts) ordered)) []
      in segments @ [(length out + 1, length out + length (i_lines own), None, i_first own + 1)])"

definition inline_commons ::
  "(string \<Rightarrow> string) \<Rightarrow> nat \<Rightarrow> string \<Rightarrow> (string \<Rightarrow> herr + lean_module) \<Rightarrow> nat \<Rightarrow> herr + expansion" where
  "inline_commons sha depth source resolve max_bytes =
     (let own = split_imports sha depth source
      in if i_modules own = [] then Inr (unchanged source)
         else bindE (visit_all sha depth resolve max_bytes own) (\<lambda>(least, done_names, ordered).
           let flat = join_with [newline] (flat_lines own ordered); modules = map fst ordered
           in if max_bytes < bytes flat then Inl (fail ''COMMONS_EXPANSION_TOO_LARGE'' 422)
              else Inr \<lparr>x_source = flat, x_modules = modules, x_segments = flat_segments own ordered,
                x_complete = list_all (\<lambda>m. is_complete_rank (m_rank m)) modules,
                x_stubs = map m_node (filter (\<lambda>m. m_rank m = JStr ''stub'') modules)\<rparr>))"

section \<open>Reporting on the caller's lines\<close>

definition moved :: "segment list \<Rightarrow> dict \<Rightarrow> herr + dict" where
  "moved segments item =
     (case dget item ''line'' of
        JNull \<Rightarrow> Inr item
      | JInt line \<Rightarrow>
          (case find (\<lambda>(first, last_line, _). int first \<le> line \<and> line \<le> int last_line) segments of
             Some (first, _, None, origin) \<Rightarrow>
               Inr (dmerge item [(''line'', JInt (int origin + line - int first))])
           | Some (_, _, Some mname, _) \<Rightarrow>
               Inr (dmerge item [(''line'', JNull), (''module'', JStr mname), (''expanded_line'', JInt line)])
           | None \<Rightarrow> Inr (dmerge item [(''line'', JNull), (''expanded_line'', JInt line)]))
      | _ \<Rightarrow> Inl (ValueError ''line''))"

definition remap :: "dict \<Rightarrow> expansion \<Rightarrow> herr + dict" where
  "remap result x =
     (if x_modules x = [] then Inr result
      else
        bindE (dneed result ''messages'') (\<lambda>ms.
        bindE (mapE (\<lambda>m. moved (x_segments x) (as_dict m)) (as_list ms)) (\<lambda>messages.
        bindE (dneed result ''holes'') (\<lambda>hs.
        bindE (mapE (\<lambda>h. moved (x_segments x) (as_dict h)) (as_list hs)) (\<lambda>holes.
        Inr (dmerge result
          [(''messages'', JList (map JObj messages)), (''holes'', JList (map JObj holes))]))))))"

section \<open>The order of the modules\<close>

text \<open>Every module placed was resolved by its name and imports only names before its own.\<close>

definition well_placed ::
  "(string \<Rightarrow> string) \<Rightarrow> nat \<Rightarrow> (string \<Rightarrow> herr + lean_module) \<Rightarrow> string list \<Rightarrow> placed list \<Rightarrow> bool" where
  "well_placed sha depth resolve names ordered \<longleftrightarrow>
     distinct names \<and> length ordered = length names \<and>
     (\<forall>i < length names.
        resolve (names ! i) = Inr (fst (ordered ! i)) \<and>
        fst (snd (ordered ! i)) = split_imports sha depth (m_source (fst (ordered ! i))) \<and>
        set (i_modules (split_imports sha depth (m_source (fst (ordered ! i))))) \<subseteq> set (take i names))"

lemma well_placed_snoc:
  assumes "well_placed sha depth resolve names ordered" and "name \<notin> set names" and "resolve name = Inr (fst it)"
    and "fst (snd it) = split_imports sha depth (m_source (fst it))"
    and "set (i_modules (fst (snd it))) \<subseteq> set names"
  shows "well_placed sha depth resolve (names @ [name]) (ordered @ [it])"
  using assms by (auto simp: well_placed_def nth_append less_Suc_eq)

lemma open_module_Inr:
  "open_module sha depth resolve max_bytes name least = Inr (it, least') \<Longrightarrow>
   resolve name = Inr (fst it) \<and> fst (snd it) = split_imports sha depth (m_source (fst it))"
  by (auto simp: open_module_def Let_def bindE_Inr_iff split: if_splits)

definition placed_state ::
  "(string \<Rightarrow> string) \<Rightarrow> nat \<Rightarrow> (string \<Rightarrow> herr + lean_module) \<Rightarrow> visit_state \<Rightarrow> bool" where
  "placed_state sha depth resolve st \<longleftrightarrow> well_placed sha depth resolve (fst (snd st)) (snd (snd st))"

text \<open>What visiting leaves: the new names come after the old ones and none of them is being visited.\<close>

definition extends :: "string list \<Rightarrow> visit_state \<Rightarrow> visit_state \<Rightarrow> bool" where
  "extends busy st st' \<longleftrightarrow>
     (\<exists>more. fst (snd st') = fst (snd st) @ more \<and> set more \<inter> set busy = {} \<and>
        (more \<noteq> [] \<longrightarrow> length (fst (snd st')) + length busy \<le> max_commons_modules))"

lemma extends_refl: "extends busy st st"
  by (simp add: extends_def)

lemma extends_trans: "extends busy a b \<Longrightarrow> extends busy b c \<Longrightarrow> extends busy a c"
  by (fastforce simp: extends_def)

lemma foldE_extends:
  assumes step: "\<And>name st st'. placed_state sha depth resolve st \<Longrightarrow> f name st = Inr st' \<Longrightarrow>
      placed_state sha depth resolve st' \<and> extends busy st st' \<and> name \<in> set (fst (snd st'))"
    and "foldE f names st = Inr st'" and "placed_state sha depth resolve st"
  shows "placed_state sha depth resolve st' \<and> extends busy st st' \<and> set names \<subseteq> set (fst (snd st'))"
  using assms(2,3)
proof (induction names arbitrary: st)
  case (Cons name names)
  then obtain st1 where st1: "f name st = Inr st1" "foldE f names st1 = Inr st'"
    by (auto simp: bindE_Inr_iff)
  from step [OF Cons.prems(2) st1(1)] have 1: "placed_state sha depth resolve st1" "extends busy st st1"
    "name \<in> set (fst (snd st1))" by auto
  from Cons.IH [OF st1(2) 1(1)] have 2: "placed_state sha depth resolve st'" "extends busy st1 st'"
    "set names \<subseteq> set (fst (snd st'))" by auto
  from 1(3) 2(2) have "name \<in> set (fst (snd st'))" by (auto simp: extends_def)
  with 1 2 show ?case using extends_trans by auto
qed (simp add: extends_refl)

lemma visit_places:
  assumes "visit fuel (open_module sha depth resolve max_bytes) busy name st = Inr st'"
    and "placed_state sha depth resolve st"
  shows "placed_state sha depth resolve st' \<and> extends busy st st' \<and> name \<in> set (fst (snd st'))"
  using assms
proof (induction fuel arbitrary: busy name st st')
  case 0
  then show ?case by (auto simp: extends_refl split: if_splits)
next
  case (Suc fuel)
  show ?case
  proof (cases "name \<in> set (fst (snd st))")
    case True
    then show ?thesis using Suc.prems by (auto simp: extends_refl)
  next
    case False
    then obtain it least least' names ordered where
      new: "name \<notin> set busy" "length (fst (snd st)) + length busy < max_commons_modules"
      and opened: "open_module sha depth resolve max_bytes name (fst st) = Inr (it, least)"
      and inner: "foldE (visit fuel (open_module sha depth resolve max_bytes) (busy @ [name]))
        (i_modules (fst (snd it))) (least, snd st) = Inr (least', names, ordered)"
      and st': "st' = (least', names @ [name], ordered @ [it])"
      using Suc.prems(1) by (auto simp: bindE_Inr_iff split: if_splits)
    have "placed_state sha depth resolve (least, snd st)" using Suc.prems(2) by (simp add: placed_state_def)
    from foldE_extends [OF Suc.IH inner this, of "busy @ [name]"] Suc.IH
    have children: "placed_state sha depth resolve (least', names, ordered)"
      "extends (busy @ [name]) (least, snd st) (least', names, ordered)"
      "set (i_modules (fst (snd it))) \<subseteq> set names" by auto
    from children(2) obtain more where more: "names = fst (snd st) @ more" "set more \<inter> set (busy @ [name]) = {}"
      "more \<noteq> [] \<longrightarrow> length names + length (busy @ [name]) \<le> max_commons_modules"
      by (auto simp: extends_def)
    have "name \<notin> set names" using more(1,2) False by auto
    with children(1,3) open_module_Inr [OF opened]
    have "placed_state sha depth resolve st'" unfolding st' placed_state_def using \<open>name \<notin> set names\<close>
      by (auto intro!: well_placed_snoc)
    moreover have "extends busy st st'"
      unfolding extends_def st' using more new by (cases "more = []") auto
    ultimately show ?thesis by (simp add: st')
  qed
qed

text \<open>The fuel does not show: with the fuel the visit starts with, a visit is what the code writes.\<close>

lemma visit_unfold:
  assumes "fuel + length busy = max_commons_modules"
  shows "visit fuel open_it busy name st =
     (if name \<in> set (fst (snd st)) then Inr st
      else if name \<in> set busy then Inl (fail ''COMMONS_IMPORT_CYCLE'' 422)
      else if max_commons_modules \<le> length (fst (snd st)) + length busy
      then Inl (fail ''COMMONS_EXPANSION_LIMIT'' 422)
      else
        bindE (open_it name (fst st)) (\<lambda>(it, least).
        bindE (foldE (visit (fuel - 1) open_it (busy @ [name])) (i_modules (fst (snd it)))
          (least, snd st)) (\<lambda>(least', done_names, ordered).
        Inr (least', done_names @ [name], ordered @ [it]))))"
  using assms by (cases fuel) simp_all

text \<open>C19. An expansion holds each imported module once, found by its name, after every module that it
  imports itself; the caller's imports are among them, they are at most two hundred, and the file is
  within the bytes allowed. A source that imports no module is left as it is.\<close>

theorem expansion_in_order:
  assumes "inline_commons sha depth source resolve max_bytes = Inr x"
  shows "\<exists>names. distinct names \<and> length names = length (x_modules x) \<and>
     length names \<le> max_commons_modules \<and> set (i_modules (split_imports sha depth source)) \<subseteq> set names \<and>
     (\<forall>i < length names. resolve (names ! i) = Inr (x_modules x ! i) \<and>
        set (i_modules (split_imports sha depth (m_source (x_modules x ! i)))) \<subseteq> set (take i names)) \<and>
     (if names = [] then x_source x = source else bytes (x_source x) \<le> max_bytes)"
proof (cases "i_modules (split_imports sha depth source) = []")
  case True
  then show ?thesis using assms by (intro exI [of _ "[]"]) (auto simp: inline_commons_def unchanged_def)
next
  case False
  let ?own = "split_imports sha depth source"
  obtain least names ordered where v: "visit_all sha depth resolve max_bytes ?own = Inr (least, names, ordered)"
    and x: "x_modules x = map fst ordered" "bytes (x_source x) \<le> max_bytes"
    using assms False by (auto simp: inline_commons_def Let_def bindE_Inr_iff split: if_splits)
  have start: "placed_state sha depth resolve (bytes (join_with [newline] (i_lines ?own)), [], [])"
    by (simp add: placed_state_def well_placed_def)
  from foldE_extends [OF visit_places v [unfolded visit_all_def] start]
  have p: "well_placed sha depth resolve names ordered" "set (i_modules ?own) \<subseteq> set names"
    "extends [] (bytes (join_with [newline] (i_lines ?own)), [], []) (least, names, ordered)"
    by (auto simp: placed_state_def)
  from p(3) have len: "length names \<le> max_commons_modules" by (cases "names = []") (auto simp: extends_def)
  have "names \<noteq> []" using p(2) False by auto
  with p len x show ?thesis
    by (intro exI [of _ names]) (auto simp: well_placed_def)
qed

section \<open>Where a line came from\<close>

lemma write_blocks_append:
  "\<exists>more segs. write_blocks ps out segments = (out @ more, segments @ segs) \<and>
     (\<forall>(first, last_line, m, origin) \<in> set segs. length out < first \<and> last_line \<le> length (out @ more) \<and> m \<noteq> None)"
proof (induction ps arbitrary: out segments)
  case (Cons p ps)
  let ?b = "module_block p"
  let ?seg = "(length out + 1, length out + length ?b, Some (m_name (fst p)), 1)"
  obtain more segs where "write_blocks ps (out @ ?b) (segments @ [?seg]) = (out @ ?b @ more, segments @ ?seg # segs)"
    "\<forall>(first, last_line, m, origin) \<in> set segs. length (out @ ?b) < first \<and>
       last_line \<le> length (out @ ?b @ more) \<and> m \<noteq> None"
    using Cons.IH [of "out @ ?b" "segments @ [?seg]"] by auto
  then show ?case by (intro exI [of _ "?b @ more"] exI [of _ "?seg # segs"]) (auto simp: Let_def split_beta)
qed simp

lemma dget_moved [simp]:
  "dget (dmerge item [(''line'', v)]) ''line'' = v"
  "dget (dmerge item [(''line'', v), (''expanded_line'', e)]) ''line'' = v"
  "dget (dmerge item [(''line'', v), (''expanded_line'', e)]) ''expanded_line'' = e"
  "dget (dmerge item [(''line'', v), (''module'', m), (''expanded_line'', e)]) ''line'' = v"
  "dget (dmerge item [(''line'', v), (''module'', m), (''expanded_line'', e)]) ''expanded_line'' = e"
  by (simp_all)

lemma find_append: "find P (xs @ ys) = (case find P xs of None \<Rightarrow> find P ys | Some x \<Rightarrow> Some x)"
  by (induction xs) auto

text \<open>The flattened file is the inlined lines and then the caller's own, and only the last segment is the
  caller's.\<close>

lemma flattened_shape:
  assumes "inline_commons sha depth source resolve max_bytes = Inr x" and "x_modules x \<noteq> []"
  defines "own \<equiv> split_imports sha depth source"
  obtains pre segs where "x_source x = join_with [newline] (pre @ i_lines own)"
    and "x_segments x =
      segs @ [(length pre + 1, length pre + length (i_lines own), None, i_first own + 1)]"
    and "\<forall>(first, last_line, m, origin) \<in> set segs. last_line \<le> length pre \<and> m \<noteq> None"
proof -
  obtain least names ordered where x: "x_source x = join_with [newline] (flat_lines own ordered)"
      "x_segments x = flat_segments own ordered"
    using assms by (auto simp: inline_commons_def unchanged_def Let_def bindE_Inr_iff split: if_splits)
  define env where "env = merge_env (i_env own # map (\<lambda>(_, parts, _). i_env parts) ordered)"
  obtain more segs where w: "write_blocks ordered env [] = (env @ more, segs)"
    and segs: "\<forall>(first, last_line, m, origin) \<in> set segs. last_line \<le> length (env @ more) \<and> m \<noteq> None"
    using write_blocks_append [of ordered env "[]"] by fastforce
  have "flat_lines own ordered = (env @ more) @ i_lines own"
    using w by (simp add: flat_lines_def env_def)
  moreover have "x_segments x = segs @ [(length (env @ more) + 1,
      length (env @ more) + length (i_lines own), None, i_first own + 1)]"
    using w x(2) by (simp add: flat_segments_def env_def Let_def)
  ultimately show ?thesis using that x(1) segs by metis
qed

lemma moved_inlined:
  assumes "\<forall>(first, last_line, m, origin) \<in> set segs. last_line \<le> n \<and> m \<noteq> None"
    and "line \<le> n" and "dget item ''line'' = JInt (int line)"
  shows "\<exists>item'. moved (segs @ [(n + 1, last_line, None, origin)]) item = Inr item' \<and>
    dget item' ''line'' = JNull \<and> dget item' ''expanded_line'' = JInt (int line)"
proof (cases "find (\<lambda>(first, last_line, _). int first \<le> int line \<and> int line \<le> int last_line) segs")
  case None
  then show ?thesis using assms(2,3) by (simp add: moved_def find_append)
next
  case (Some seg)
  then obtain first last_line m origin where "seg = (first, last_line, Some m, origin)"
    using assms(1) by (cases seg) (auto dest!: find_SomeD)
  then show ?thesis using assms(2,3) Some by (simp add: moved_def find_append)
qed

lemma moved_own:
  assumes "\<forall>(first, last_line, m, origin) \<in> set segs. last_line \<le> n \<and> m \<noteq> None"
    and "j < len" and "dget item ''line'' = JInt (int (n + Suc j))"
  shows "\<exists>item'. moved (segs @ [(n + 1, n + len, None, first_line + 1)]) item = Inr item' \<and>
    dget item' ''line'' = JInt (int (Suc (first_line + j)))"
proof -
  have "find (\<lambda>(first, last_line, _). int first \<le> int (n + Suc j) \<and> int (n + Suc j) \<le> int last_line) segs
      = None"
    using assms(1) by (force simp: find_None_iff_all)
  then show ?thesis using assms(2,3) by (simp add: moved_def find_append)
qed


section \<open>A run\<close>

definition two_modules :: "string \<Rightarrow> herr + lean_module" where
  "two_modules name =
     (if name = ''Commons.N00000001'' then
        Inr \<lparr>m_name = name, m_node = ''n1'', m_source = ''import Commons.N00000002'' @ [newline] @ ''x'',
          m_rank = JStr ''complete'', m_sha = JNull, m_artifact = JNull, m_branch = JNull, m_stale = False\<rparr>
      else if name = ''Commons.N00000002'' then
        Inr \<lparr>m_name = name, m_node = ''n2'', m_source = ''y'', m_rank = JStr ''stub'', m_sha = JNull,
          m_artifact = JNull, m_branch = JNull, m_stale = False\<rparr>
      else Inl (fail ''COMMONS_MODULE_NOT_FOUND'' 404))"

definition two_source :: string where
  "two_source = ''import Commons.N00000001'' @ [newline] @ ''z''"

lemma two_parts:
  "split_imports (\<lambda>s. s) 0 two_source =
     \<lparr>i_modules = [''Commons.N00000001''], i_env = [], i_lines = [''z''], i_first = 1\<rparr>"
  "split_imports (\<lambda>s. s) 0 (''import Commons.N00000002'' @ [newline] @ ''x'') =
     \<lparr>i_modules = [''Commons.N00000002''], i_env = [], i_lines = [''x''], i_first = 1\<rparr>"
  "split_imports (\<lambda>s. s) 0 ''y'' = \<lparr>i_modules = [], i_env = [], i_lines = [''y''], i_first = 0\<rparr>"
  by code_simp+

lemma two_closers:
  "scope_closers (\<lambda>s. s) 0 (''import Commons.N00000002'' @ [newline] @ ''x'') = Inr []"
  "scope_closers (\<lambda>s. s) 0 ''y'' = Inr []"
  by code_simp+

definition two_expansion :: expansion where
  "two_expansion =
     \<lparr>x_source = join_with [newline]
         [''section'', ''-- Commons.N00000002: node n2, stub'', ''y'', ''end'',
          ''section'', ''-- Commons.N00000001: node n1, complete'', ''x'', ''end'', ''z''],
       x_modules = [projr (two_modules ''Commons.N00000002''), projr (two_modules ''Commons.N00000001'')],
       x_segments = [(1, 4, Some ''Commons.N00000002'', 1), (5, 8, Some ''Commons.N00000001'', 1), (9, 9, None, 2)],
       x_complete = False, x_stubs = [''n2'']\<rparr>"

lemma two_visit:
  "visit_all (\<lambda>s. s) 0 two_modules 1000 (split_imports (\<lambda>s. s) 0 two_source) =
     Inr (3, [''Commons.N00000002'', ''Commons.N00000001''],
        [(projr (two_modules ''Commons.N00000002''),
          \<lparr>i_modules = [], i_env = [], i_lines = [''y''], i_first = 0\<rparr>, []),
         (projr (two_modules ''Commons.N00000001''),
          \<lparr>i_modules = [''Commons.N00000002''], i_env = [], i_lines = [''x''], i_first = 1\<rparr>, [])])"
proof -
  let ?open = "open_module (\<lambda>s. s) 0 two_modules 1000"
  have first: "?open ''Commons.N00000001'' 1 =
      Inr ((projr (two_modules ''Commons.N00000001''),
        \<lparr>i_modules = [''Commons.N00000002''], i_env = [], i_lines = [''x''], i_first = 1\<rparr>, []), 2)"
    by code_simp
  have second: "?open ''Commons.N00000002'' 2 =
      Inr ((projr (two_modules ''Commons.N00000002''),
        \<lparr>i_modules = [], i_env = [], i_lines = [''y''], i_first = 0\<rparr>, []), 3)"
    by code_simp
  have one: "bytes (join_with [newline] [''z'']) = 1" by code_simp
  have inner: "visit 199 ?open [''Commons.N00000001''] ''Commons.N00000002'' (2, [], []) =
      Inr (3, [''Commons.N00000002''], [(projr (two_modules ''Commons.N00000002''),
        \<lparr>i_modules = [], i_env = [], i_lines = [''y''], i_first = 0\<rparr>, [])])"
    using visit_unfold [of 199 "[''Commons.N00000001'']" ?open "''Commons.N00000002''" "(2, [], [])"] second
    by (simp add: max_commons_modules_def)
  show ?thesis
    using visit_unfold [of 200 "[]" ?open "''Commons.N00000001''" "(1, [], [])"] first inner one
    by (simp add: visit_all_def two_parts max_commons_modules_def)
qed

lemma two_expand: "inline_commons (\<lambda>s. s) 0 two_source two_modules 1000 = Inr two_expansion"
proof -
  have fits: "bytes (join_with [newline]
      [''section'', ''-- Commons.N00000002: node n2, stub'', ''y'', ''end'',
       ''section'', ''-- Commons.N00000001: node n1, complete'', ''x'', ''end'', ''z'']) \<le> 1000"
    by code_simp
  have lines: "flat_lines (split_imports (\<lambda>s. s) 0 two_source)
       [(projr (two_modules ''Commons.N00000002''),
          \<lparr>i_modules = [], i_env = [], i_lines = [''y''], i_first = 0\<rparr>, []),
         (projr (two_modules ''Commons.N00000001''),
          \<lparr>i_modules = [''Commons.N00000002''], i_env = [], i_lines = [''x''], i_first = 1\<rparr>, [])] =
      [''section'', ''-- Commons.N00000002: node n2, stub'', ''y'', ''end'',
       ''section'', ''-- Commons.N00000001: node n1, complete'', ''x'', ''end'', ''z'']"
    unfolding two_parts by code_simp
  have segments: "flat_segments (split_imports (\<lambda>s. s) 0 two_source)
       [(projr (two_modules ''Commons.N00000002''),
          \<lparr>i_modules = [], i_env = [], i_lines = [''y''], i_first = 0\<rparr>, []),
         (projr (two_modules ''Commons.N00000001''),
          \<lparr>i_modules = [''Commons.N00000002''], i_env = [], i_lines = [''x''], i_first = 1\<rparr>, [])] =
      [(1, 4, Some ''Commons.N00000002'', 1), (5, 8, Some ''Commons.N00000001'', 1), (9, 9, None, 2)]"
    unfolding two_parts by code_simp
  have some: "i_modules (split_imports (\<lambda>s. s) 0 two_source) \<noteq> []" by (simp add: two_parts)
  show ?thesis
    unfolding inline_commons_def Let_def two_visit bindE_simps prod.case lines segments
    using fits some
    by (simp add: two_expansion_def two_modules_def is_complete_rank_def del: join_with.simps)
qed

lemma two_expansion_parts:
  "x_segments two_expansion =
     [(1, 4, Some ''Commons.N00000002'', 1), (5, 8, Some ''Commons.N00000001'', 1), (9, 9, None, 2)]"
  "x_modules two_expansion \<noteq> []" "length (x_modules two_expansion) = 2"
  by (simp_all add: two_expansion_def)

theorem expansion_in_order_witness:
  "\<exists>names. distinct names \<and> length names = 2 \<and> ''Commons.N00000001'' \<in> set names"
  using expansion_in_order [OF two_expand] by (auto simp: two_parts two_expansion_parts)


end
