(* ===== verification/Publishing.thy ===== *)
theory Publishing
  imports Blueprint Flattening
begin

text \<open>
  Published Lean sources (\<open>commons_sources.py\<close>): the module of a node as its importers inline it, and
  the publication of a checked source, by rank and under the gate, with its imports as dependencies.
  \<open>depth\<close> and \<open>escaped_name\<close> are the gate's parameters; what to write instead of a refused command is
  prose, the parameter \<open>remedy\<close>. An entry of a source's imports is written by the platform with its keys
  \<open>module\<close>, \<open>node_id\<close> and \<open>sha256\<close>. \<open>artifact_text\<close> stands for either decoding of a stored source, the
  strict one of a module and the replacing one of the gate.
\<close>

section \<open>The module of a node\<close>

definition module_node :: "world \<Rightarrow> string \<Rightarrow> principal \<Rightarrow> string \<Rightarrow> herr + row" where
  "module_node w mname actor experiment_id =
     (case module_prefix (JStr mname) of
        None \<Rightarrow> Inl (fail ''COMMONS_MODULE_NOT_FOUND'' 404)
      | Some prefix \<Rightarrow>
          (case find (\<lambda>r. field r ''experiment_id'' = JStr experiment_id \<and>
                        node_module (r_payload r) = Inr (JStr mname))
                 (prefix_candidates w prefix actor [CommonsNode] None) of
             None \<Rightarrow> Inl (fail ''COMMONS_MODULE_NOT_FOUND'' 404)
           | Some r \<Rightarrow> Inr r))"

text \<open>The live source at its effective rank, else a stub of an elaborated statement.\<close>

definition sourced_module :: "world \<Rightarrow> string \<Rightarrow> row \<Rightarrow> dict \<Rightarrow> herr + lean_module" where
  "sourced_module w name row source =
     (let digest = statement_digest w (r_payload row)
      in bindE (dneed source ''sha256'') (\<lambda>sha.
         bindE (artifact_text w (text_of sha)) (\<lambda>content.
         bindE (effective_rank source digest) (\<lambda>rank.
         bindE (dneed source ''artifact_id'') (\<lambda>artifact.
         bindE (dneed source ''branch_id'') (\<lambda>branch.
         Inr \<lparr>m_name = name, m_node = r_id row, m_source = content, m_rank = rank, m_sha = sha,
              m_artifact = artifact, m_branch = branch, m_stale = is_stale source digest\<rparr>))))))"

definition stub_module :: "string \<Rightarrow> row \<Rightarrow> herr + lean_module" where
  "stub_module name row =
     bindE (need row ''lean_name'') (\<lambda>lean_name.
     Inr \<lparr>m_name = name, m_node = r_id row,
          m_source = text_of (jor (field row ''lean_header'') (JStr [])) @ [newline, newline] @
            ''theorem '' @ text_of lean_name @ '' '' @ text_of (field row ''lean_statement'') @
            '' := sorry'' @ [newline],
          m_rank = JStr ''stub'', m_sha = JNull, m_artifact = JNull, m_branch = JNull, m_stale = False\<rparr>)"

definition lean_module_of ::
  "nat \<Rightarrow> string \<Rightarrow> world \<Rightarrow> string \<Rightarrow> principal \<Rightarrow> string \<Rightarrow> herr + lean_module" where
  "lean_module_of depth escaped_name w name actor experiment_id =
     bindE (module_node w name actor experiment_id) (\<lambda>row.
     bindE (need row ''node_type'') (\<lambda>k.
     if k = JStr ''goal'' then Inl (fail ''COMMONS_MODULE_NOT_FOUND'' 404)
     else if field row ''lean_source'' = JNull \<and> \<not> has_elaborated_statement (r_payload row)
     then Inl (fail ''COMMONS_MODULE_NOT_FOUND'' 404)
     else
       bindE (if field row ''lean_source'' \<noteq> JNull
              then sourced_module w name row (as_dict (field row ''lean_source''))
              else stub_module name row) (\<lambda>found.
       if refused_command (sha256_of w) depth escaped_name (m_source found) \<noteq> None
       then Inl (fail ''COMMONS_MODULE_REFUSED'' 422) else Inr found)))"

definition commons_module ::
  "nat \<Rightarrow> string \<Rightarrow> world \<Rightarrow> string \<Rightarrow> principal \<Rightarrow> herr + dict" where
  "commons_module depth escaped_name w node_id actor =
     bindE (research_role actor) (\<lambda>_.
     bindE (get_row w CommonsNode (JStr node_id) actor) (\<lambda>row.
     bindE (node_module (r_payload row)) (\<lambda>name.
     bindE (need row ''experiment_id'') (\<lambda>e.
     bindE (lean_module_of depth escaped_name w (text_of name) actor (text_of e)) (\<lambda>found.
     Inr [(''node_id'', JStr (m_node found)), (''module'', JStr (m_name found)),
          (''source'', JStr (m_source found)), (''rank'', m_rank found), (''sha256'', m_sha found)])))))"

definition expand_commons ::
  "nat \<Rightarrow> string \<Rightarrow> world \<Rightarrow> string \<Rightarrow> string \<Rightarrow> principal \<Rightarrow> nat \<Rightarrow> herr + expansion" where
  "expand_commons depth escaped_name w experiment_id source actor max_bytes =
     (if \<not> mentions_module source then Inr (unchanged source)
      else inline_commons (sha256_of w) depth source
        (\<lambda>name. lean_module_of depth escaped_name w name actor experiment_id) max_bytes)"

section \<open>What keeps a source in place\<close>

definition ended_statuses :: "string list" where
  "ended_statuses = [''completed'', ''failed'', ''blocked'']"

definition branch_live :: "world \<Rightarrow> string \<Rightarrow> json \<Rightarrow> bool" where
  "branch_live w project branch_id \<longleftrightarrow>
     branch_id \<noteq> JNull \<and>
     list_ex (\<lambda>r. r_project r = project \<and> r_kind r = Task \<and> field r ''branch_id'' = branch_id \<and>
        (case field r ''status'' of JStr s \<Rightarrow> s \<notin> set ended_statuses | _ \<Rightarrow> False)) (records w)"

definition holders_live :: "world \<Rightarrow> string \<Rightarrow> dict \<Rightarrow> bool" where
  "holders_live w project node \<longleftrightarrow>
     branch_live w project (dget (source_of node) ''branch_id'') \<or>
     branch_live w project (dget node ''branch_id'')"

definition source_blocking_rank ::
  "world \<Rightarrow> string \<Rightarrow> source_rank \<Rightarrow> principal \<Rightarrow> herr + source_rank option" where
  "source_blocking_rank w node_id rank actor =
     bindE (get_row w CommonsNode (JStr node_id) actor) (\<lambda>row.
     bindE (need row ''experiment_id'') (\<lambda>e.
     bindE (source_state w (graph_reading w e) (r_payload row)) (\<lambda>state.
     blocking_rank (r_payload row) rank (pr_branch actor) state
       (\<lambda>_. holders_live w (r_project row) (r_payload row)))))"

definition node_source_state :: "world \<Rightarrow> string \<Rightarrow> principal \<Rightarrow> herr + (dict \<times> json)" where
  "node_source_state w node_id actor =
     bindE (get_row w CommonsNode (JStr node_id) actor) (\<lambda>row.
     bindE (need row ''experiment_id'') (\<lambda>e.
     bindE (source_state w (graph_reading w e) (r_payload row)) (\<lambda>state.
     Inr (r_payload row, state))))"

section \<open>Import cycles\<close>

definition imported_ids :: "json \<Rightarrow> json list" where
  "imported_ids imports = map (\<lambda>e. dget (as_dict e) ''node_id'') (as_list imports)"

text \<open>The imports of the source a node holds now.\<close>

definition stored_imports :: "world \<Rightarrow> json \<Rightarrow> json list" where
  "stored_imports w node_id =
     (case find_json w node_id of
        None \<Rightarrow> []
      | Some r \<Rightarrow> imported_ids (dget_or (source_of (r_payload r)) ''imports'' (JList [])))"

function imports_walk ::
  "(json \<Rightarrow> json list) \<Rightarrow> json \<Rightarrow> json list \<Rightarrow> json list \<Rightarrow> bool" where
  "imports_walk next target [] seen = False"
| "imports_walk next target (current # queue) seen =
     (if current = target then True
      else if current \<in> set seen \<or> max_commons_modules \<le> length seen
      then imports_walk next target queue seen
      else imports_walk next target (queue @ next current) (current # seen))"
  by pat_completeness auto
termination
  by (relation "measures [\<lambda>(_, _, _, seen). max_commons_modules - length seen, \<lambda>(_, _, queue, _). length queue]")
    auto

definition imports_reach :: "world \<Rightarrow> json \<Rightarrow> json \<Rightarrow> bool" where
  "imports_reach w node_id imports = imports_walk (stored_imports w) node_id (imported_ids imports) []"

section \<open>Publishing a source\<close>

text \<open>What \<open>lean_check\<close> records of its check: \<open>rank\<close>, \<open>bytes\<close>, \<open>statement_check\<close>,
  \<open>lean_statement_sha256\<close>, \<open>imports\<close> and \<open>closure\<close>.\<close>

definition rank_json :: "source_rank \<Rightarrow> json" where
  "rank_json r =
     (case r of Partial_Rank \<Rightarrow> JStr ''partial'' | Complete_Rank \<Rightarrow> JStr ''complete''
      | Verified_Rank \<Rightarrow> JStr ''verified'')"

definition not_recorded :: "json \<Rightarrow> string \<Rightarrow> dict \<Rightarrow> dict" where
  "not_recorded mname reason details =
     [(''recorded'', JBool False), (''module'', mname), (''reason'', JStr reason)] @ details"

text \<open>The artifact is the publisher's own source in the node's experiment.\<close>

definition source_artifact ::
  "world \<Rightarrow> string \<Rightarrow> row \<Rightarrow> principal \<Rightarrow> herr + row" where
  "source_artifact w artifact_id experiment actor =
     bindE (get_row w Artifact (JStr artifact_id) actor) (\<lambda>artifact.
     if field artifact ''artifact_kind'' \<noteq> JStr ''lean_source'' \<or>
        field artifact ''experiment_id'' \<noteq> JStr (r_id experiment) \<or>
        field artifact ''branch_id'' \<noteq> jopt (pr_branch actor)
     then Inl (fail ''SOURCE_ARTIFACT_SCOPE'' 403) else Inr artifact)"

text \<open>The source as the node holds it.\<close>

definition source_record ::
  "world \<Rightarrow> row \<Rightarrow> json \<Rightarrow> dict \<Rightarrow> principal \<Rightarrow> herr + dict" where
  "source_record w artifact sha check actor =
     bindE (dneed check ''bytes'') (\<lambda>size_json.
     bindE (dneed check ''rank'') (\<lambda>rank.
     bindE (dneed check ''statement_check'') (\<lambda>statement_check.
     bindE (dneed check ''lean_statement_sha256'') (\<lambda>statement.
     bindE (dneed check ''imports'') (\<lambda>imported.
     Inr [(''artifact_id'', JStr (r_id artifact)), (''sha256'', sha), (''bytes'', size_json),
          (''branch_id'', jopt (pr_branch actor)),
          (''task_id'', case effects w of None \<Rightarrow> JNull | Some b \<Rightarrow> JStr (we_task b)), (''rank'', rank),
          (''statement_check'', statement_check), (''lean_statement_sha256'', statement),
          (''imports'', imported), (''closure'', dget check ''closure''),
          (''recorded_at'', JTime (now w))])))))"

text \<open>One import becomes a dependency; what would close a cycle or is the node itself is skipped.\<close>

definition skipped_edge_errors :: "string list" where
  "skipped_edge_errors = [''DEPENDENCY_CYCLE'', ''SELF_EDGE'']"

definition import_edge ::
  "string \<Rightarrow> row \<Rightarrow> string \<Rightarrow> principal \<Rightarrow> json \<Rightarrow> world \<Rightarrow> herr + world" where
  "import_edge op experiment node_id actor target w =
     (case add_edge op experiment node_id ''depends_on'' (text_of target) actor False w of
        Inr (_, w') \<Rightarrow> Inr w'
      | Inl (Harness code status retry) \<Rightarrow>
          if code \<in> set skipped_edge_errors then Inr w else Inl (Harness code status retry)
      | Inl e \<Rightarrow> Inl e)"

text \<open>The first time a node's elaborated statement is reached, its other claimants are told.\<close>

definition note_compiled ::
  "row \<Rightarrow> source_rank \<Rightarrow> json \<Rightarrow> dict \<Rightarrow> principal \<Rightarrow> string \<Rightarrow> world \<Rightarrow> herr + world" where
  "note_compiled row rank state node actor op w =
     (if is_complete (rank_json rank) \<and> has_elaborated_statement node \<and> \<not> is_complete state then
        bindE (active_claims w (JStr (r_id row)) (now w)) (\<lambda>claims.
        bindE (case find (\<lambda>c. dget c ''branch_id'' = jopt (pr_branch actor)) claims of
                 None \<Rightarrow> Inr JNull | Some c \<Rightarrow> dneed c ''route'') (\<lambda>route.
        post_route_compiled row (jopt (pr_branch actor)) route op w))
      else Inr w)"

text \<open>What is decided before anything is written: why a source is not recorded, or its rank, the state
  it replaces and its text's digest.\<close>

datatype publication =
    Not_Recorded dict
  | Publish row row row json json source_rank

definition judge_source ::
  "nat \<Rightarrow> string \<Rightarrow> (string \<Rightarrow> string) \<Rightarrow> string \<Rightarrow> string \<Rightarrow> dict \<Rightarrow> principal \<Rightarrow> world \<Rightarrow> herr + publication"
where
  "judge_source depth escaped_name remedy node_id artifact_id check actor w =
     bindE (get_row w CommonsNode (JStr node_id) actor) (\<lambda>row.
     bindE (need row ''experiment_id'') (\<lambda>e.
     bindE (commons_experiment w e actor True) (\<lambda>experiment.
     let node = r_payload row
     in bindE (node_module node) (\<lambda>mname.
     bindE (node_refusal node) (\<lambda>refusal.
     case refusal of
       Some reason \<Rightarrow> Inr (Not_Recorded (not_recorded mname reason []))
     | None \<Rightarrow>
     bindE (source_artifact w artifact_id experiment actor) (\<lambda>artifact.
     bindE (need artifact ''sha256'') (\<lambda>sha.
     bindE (artifact_text w (text_of sha)) (\<lambda>content.
     case refused_command (sha256_of w) depth escaped_name content of
       Some command \<Rightarrow> Inr (Not_Recorded (not_recorded mname ''refused_command''
         [(''command'', JStr command), (''remediation'', JStr (remedy command))]))
     | None \<Rightarrow>
     let digest = statement_digest w node
     in bindE (if digest = JNull then Inr False
               else bindE (dneed check ''lean_statement_sha256'') (\<lambda>d. Inr (d \<noteq> digest))) (\<lambda>changed.
     if changed then Inr (Not_Recorded (not_recorded mname ''statement_changed'' []))
     else case rank_of (dget check ''rank'') of
       None \<Rightarrow> Inl (fail ''INVALID_SOURCE_RECORD'' 422)
     | Some rank \<Rightarrow>
     if rank = Verified_Rank \<and> \<not> verified_evidence (dget check ''statement_check'')
     then Inl (fail ''INVALID_SOURCE_RECORD'' 422)
     else
     bindE (source_state w (graph_reading w (JStr (r_id experiment))) node) (\<lambda>state.
     bindE (blocking_rank node rank (pr_branch actor) state
              (\<lambda>_. holders_live w (r_project experiment) node)) (\<lambda>held.
     case held of
       Some r \<Rightarrow> Inr (Not_Recorded (not_recorded mname ''lower_rank'' [(''rank'', rank_json r)]))
     | None \<Rightarrow>
     bindE (dneed check ''imports'') (\<lambda>imported.
     if imports_reach w (JStr (r_id row)) imported
     then Inr (Not_Recorded (not_recorded mname ''imports_own_module'' []))
     else Inr (Publish row experiment artifact sha state rank)))))))))))))"

definition write_source ::
  "row \<Rightarrow> row \<Rightarrow> row \<Rightarrow> json \<Rightarrow> json \<Rightarrow> source_rank \<Rightarrow> dict \<Rightarrow> principal \<Rightarrow> action" where
  "write_source row experiment artifact sha state rank check actor op w =
     (let node = r_payload row; current = dget node ''lean_source''
      in bindE (source_record w artifact sha check actor) (\<lambda>source.
         bindE (replace_row w row [(''lean_source'', JObj source)] None) (\<lambda>(_, w1).
         bindE (foldE (import_edge op experiment (r_id row) actor)
                  (imported_ids (dget check ''imports'')) w1) (\<lambda>w2.
         case find_row w2 (r_id row) of
           None \<Rightarrow> Inl (ValueError ''node'')
         | Some fresh \<Rightarrow>
         bindE (touch_node fresh actor op w2) (\<lambda>w3.
         case find_row w3 (r_id row) of
           None \<Rightarrow> Inl (ValueError ''node'')
         | Some touched \<Rightarrow>
         bindE (note_compiled touched rank state node actor op w3) (\<lambda>w4.
         let replaced = (current \<noteq> JNull)
         in bindE (if replaced \<and> rank_of state \<noteq> None then dneed (as_dict current) ''rank'' else Inr JNull)
              (\<lambda>previous.
            bindE (node_module node) (\<lambda>mname.
            Inr ([(''recorded'', JBool True), (''module'', mname), (''rank'', dget check ''rank''),
                  (''replaced'', JBool replaced)],
                 emit actor op ''commons.source_published'' (r_id row)
                   [(''experiment_id'', JStr (r_id experiment)), (''node_id'', JStr (r_id row)),
                    (''branch_id'', jopt (pr_branch actor)), (''artifact_id'', JStr (r_id artifact)),
                    (''sha256'', sha), (''rank'', dget check ''rank''), (''replaced'', JBool replaced),
                    (''previous_rank'', previous)] False w4)))))))))"

definition record_source_action ::
  "nat \<Rightarrow> string \<Rightarrow> (string \<Rightarrow> string) \<Rightarrow> string \<Rightarrow> string \<Rightarrow> dict \<Rightarrow> principal \<Rightarrow> action" where
  "record_source_action depth escaped_name remedy node_id artifact_id check actor op w =
     bindE (judge_source depth escaped_name remedy node_id artifact_id check actor w) (\<lambda>judged.
     case judged of
       Not_Recorded answer \<Rightarrow> Inr (answer, w)
     | Publish row experiment artifact sha state rank \<Rightarrow>
         write_source row experiment artifact sha state rank check actor op w)"

definition record_lean_source ::
  "nat \<Rightarrow> string \<Rightarrow> (string \<Rightarrow> string) \<Rightarrow> int \<Rightarrow> string \<Rightarrow> string \<Rightarrow> json \<Rightarrow> principal \<Rightarrow> string \<Rightarrow> world \<Rightarrow>
   herr + (dict \<times> world)" where
  "record_lean_source depth escaped_name remedy elapsed node_id artifact_id check actor key w =
     bindE (research_role actor) (\<lambda>_.
     case check of
       JObj d \<Rightarrow>
         if rank_of (dget d ''rank'') = None then Inl (fail ''INVALID_SOURCE_RECORD'' 422)
         else execute elapsed actor key ''commons.source_publish''
           (JObj [(''node_id'', JStr node_id), (''artifact_id'', JStr artifact_id), (''record'', check)])
           (record_source_action depth escaped_name remedy node_id artifact_id d actor) w
     | _ \<Rightarrow> Inl (fail ''INVALID_SOURCE_RECORD'' 422))"

section \<open>The walk over imports\<close>

lemma imports_walk_closed:
  assumes "\<not> imports_walk next t queue seen" and "distinct seen" and "set seen \<union> set queue \<subseteq> R"
    and "\<And>a. a \<in> R \<Longrightarrow> set (next a) \<subseteq> R" and "finite R" and "card R \<le> max_commons_modules"
  shows "\<exists>C. set seen \<union> set queue \<subseteq> C \<and> t \<notin> C - set seen \<and> (\<forall>a \<in> C - set seen. set (next a) \<subseteq> C)"
  using assms
proof (induction "next" t queue seen rule: imports_walk.induct)
  case (1 "next" target seen)
  then show ?case by (intro exI [of _ "set seen"]) auto
next
  case (2 "next" target current queue seen)
  have new: "current \<noteq> target" using "2.prems"(1) by auto
  have few: "length seen < max_commons_modules" if "current \<notin> set seen"
  proof -
    have "set (current # seen) \<subseteq> R" using "2.prems"(3) by auto
    then have "card (set (current # seen)) \<le> card R" using "2.prems"(5) by (intro card_mono)
    moreover have "card (set (current # seen)) = Suc (length seen)"
      using that "2.prems"(2) distinct_card [of "current # seen"] by simp
    ultimately show ?thesis using "2.prems"(6) by linarith
  qed
  show ?case
  proof (cases "current \<in> set seen")
    case True
    have "\<exists>C. set seen \<union> set queue \<subseteq> C \<and> target \<notin> C - set seen \<and> (\<forall>a \<in> C - set seen. set (next a) \<subseteq> C)"
    proof (rule "2.IH"(1) [OF new disjI1 [OF True] _ "2.prems"(2) _ "2.prems"(4-6)])
      show "\<not> imports_walk next target queue seen" using "2.prems"(1) new True by simp
      show "set seen \<union> set queue \<subseteq> R" using "2.prems"(3) by simp
    qed
    then obtain C where "set seen \<union> set queue \<subseteq> C" "target \<notin> C - set seen"
        "\<forall>a \<in> C - set seen. set (next a) \<subseteq> C" by blast
    then show ?thesis using True by (intro exI [of _ C]) auto
  next
    case False
    have go: "\<not> (current \<in> set seen \<or> max_commons_modules \<le> length seen)" using few [OF False] False by simp
    have "\<exists>C. set (current # seen) \<union> set (queue @ next current) \<subseteq> C \<and> target \<notin> C - set (current # seen) \<and>
        (\<forall>a \<in> C - set (current # seen). set (next a) \<subseteq> C)"
    proof (rule "2.IH"(2) [OF new go _ _ _ "2.prems"(4-6)])
      show "\<not> imports_walk next target (queue @ next current) (current # seen)"
        using "2.prems"(1) new go by simp
      show "distinct (current # seen)" using "2.prems"(2) False by simp
      have "current \<in> R" using "2.prems"(3) by simp
      from "2.prems"(4) [OF this] "2.prems"(3)
      show "set (current # seen) \<union> set (queue @ next current) \<subseteq> R" by simp
    qed
    then obtain C where C: "set (current # seen) \<union> set (queue @ next current) \<subseteq> C"
        "target \<notin> C - set (current # seen)" "\<forall>a \<in> C - set (current # seen). set (next a) \<subseteq> C" by blast
    then show ?thesis using new by (intro exI [of _ C]) auto
  qed
qed

text \<open>All that the stored imports lead to.\<close>

definition import_edges :: "world \<Rightarrow> (json \<times> json) set" where
  "import_edges w = {(a, b). b \<in> set (stored_imports w a)}"

definition import_closure :: "world \<Rightarrow> json \<Rightarrow> json set" where
  "import_closure w imports = (import_edges w)\<^sup>* `` set (imported_ids imports)"

lemma imports_reach_closed:
  assumes "\<not> imports_reach w t imports" and "finite (import_closure w imports)"
    and "card (import_closure w imports) \<le> max_commons_modules"
  shows "\<exists>C. set (imported_ids imports) \<subseteq> C \<and> C \<subseteq> import_closure w imports \<and> t \<notin> C \<and>
    (\<forall>a \<in> C. set (stored_imports w a) \<subseteq> C)"
proof -
  let ?R = "import_closure w imports"
  have closed: "set (stored_imports w a) \<subseteq> ?R" if "a \<in> ?R" for a
    using that by (auto simp: import_closure_def import_edges_def intro: rtrancl_into_rtrancl)
  have start: "set [] \<union> set (imported_ids imports) \<subseteq> ?R" by (auto simp: import_closure_def)
  from imports_walk_closed [OF assms(1) [unfolded imports_reach_def] distinct.simps(1) [THEN iffD2, OF TrueI] start closed assms(2,3)]
  obtain C where C: "set (imported_ids imports) \<subseteq> C" "t \<notin> C" "\<forall>a \<in> C. set (stored_imports w a) \<subseteq> C"
    by auto
  then show ?thesis using closed start by (intro exI [of _ "C \<inter> ?R"]) auto
qed


section \<open>What a publication writes\<close>

lemma import_edge_keeps:
  assumes "import_edge op ex i actor target w = Inr w'" and "commons_ok w" and "find_row w i = Some a"
    and "experiment_node ex a" and "r_project ex = pr_project actor"
  shows "commons_ok w' \<and> nodes_follow w w'"
proof -
  consider made where "add_edge op ex i ''depends_on'' (text_of target) actor False w = Inr (made, w')" | "w' = w"
    using assms(1) by (auto simp: import_edge_def split: sum.splits herr.splits if_splits)
  then show ?thesis
  proof cases
    case 1
    then show ?thesis using add_edge_keeps [OF 1 assms(2-5)] by simp
  qed (use assms(2) in simp)
qed

lemma note_compiled_steps: "note_compiled row rank state node actor op w = Inr w' \<Longrightarrow> steps_to w w'"
  by (auto simp: note_compiled_def bindE_Inr_iff post_route_compiled_def split: if_splits dest: post_note_steps)

text \<open>Replacing a node's source alone leaves every node in its place.\<close>

lemma replace_source_keeps:
  assumes r: "replace_row w row [(''lean_source'', JObj source)] None = Inr (x, w1)"
    and row: "find_row w (r_id row) = Some row" and ok: "commons_ok w" and node: "experiment_node ex row"
  shows "commons_ok w1"
    and "\<exists>row1. find_row w1 (r_id row) = Some row1 \<and> experiment_node ex row1 \<and>
      field row1 ''lean_source'' = JObj source"
    and "j \<noteq> r_id row \<Longrightarrow> find_row w1 j = find_row w j"
proof -
  have f: "dget x f = field row f" if "f \<noteq> ''lean_source''" "f \<noteq> ''revision''" for f
    using dget_replacement(1) [OF r that(2)] that(1) by simp
  have source: "dget x ''lean_source'' = JObj source" by (rule dget_replacement(2) [OF r]) simp_all
  obtain row1 where row1: "find_row w1 (r_id row) = Some row1" "r_kind row1 = r_kind row"
      "r_project row1 = r_project row" "r_payload row1 = x"
    using replace_row_found(1) [OF r] row by auto
  show other: "find_row w1 j = find_row w j" if "j \<noteq> r_id row" for j
    by (rule replace_row_found(2) [OF r that])
  show "\<exists>row1. find_row w1 (r_id row) = Some row1 \<and> experiment_node ex row1 \<and>
      field row1 ''lean_source'' = JObj source"
    using row1 node f [of "''experiment_id''"] source by (auto simp: experiment_node_def)
  have stay: "\<exists>c'. find_row w1 i = Some c' \<and> r_kind c' = r_kind c \<and> r_project c' = r_project c \<and>
      field c' ''experiment_id'' = field c ''experiment_id''" if c: "find_row w i = Some c" for i c
  proof (cases "i = r_id row")
    case True
    then have "c = row" using c row by simp
    then show ?thesis using row1 True f [of "''experiment_id''"] by (intro exI [of _ row1]) simp
  next
    case False
    then show ?thesis using c other [OF False] by (intro exI [of _ c]) simp
  qed
  have "records_ok w" using ok by (simp add: commons_ok_def)
  from replace_row_records_ok [OF r this row] have "records_ok w1" by (simp add: identity_fields_def)
  moreover have "edges w1 = edges w" using only_records_replace [OF r] by (auto dest: only_recordsD(6))
  moreover have "edge_placed w1 d" if placed: "edge_placed w d" for d
  proof -
    obtain a b where ab: "find_row w (d_source d) = Some a" "find_row w (d_target d) = Some b"
        "r_kind a = CommonsNode" "r_kind b = CommonsNode" "r_project a = d_project d"
        "r_project b = d_project d" "field a ''experiment_id'' = field b ''experiment_id''"
      using placed unfolding edge_placed_def by blast
    from stay [OF ab(1)] stay [OF ab(2)] show ?thesis unfolding edge_placed_def using ab(3-7) by fastforce
  qed
  ultimately show "commons_ok w1" using ok by (simp add: commons_ok_def dependencies_def)
qed

text \<open>A node in its place: everything a step leaves of it but the source.\<close>

definition node_placed :: "row \<Rightarrow> row \<Rightarrow> bool" where
  "node_placed r r' \<longleftrightarrow>
     r_kind r' = CommonsNode \<and> r_project r' = r_project r \<and>
     field r' ''experiment_id'' = field r ''experiment_id'' \<and>
     field r' ''node_type'' = field r ''node_type'' \<and>
     (field r' ''status'' = field r ''status'' \<or>
      is_open (field r ''status'') \<and> closes (field r ''node_type'') (field r' ''status''))"

definition nodes_placed :: "world \<Rightarrow> world \<Rightarrow> bool" where
  "nodes_placed w w' \<longleftrightarrow>
     (\<forall>i r. find_row w i = Some r \<and> r_kind r = CommonsNode \<longrightarrow>
        (\<exists>r'. find_row w' i = Some r' \<and> node_placed r r'))"

lemma node_placed_trans: "node_placed a b \<Longrightarrow> node_placed b c \<Longrightarrow> node_placed a c"
  by (auto simp: node_placed_def dest: closes_not_open)

lemma nodes_placed_refl [simp]: "nodes_placed w w"
  by (auto simp: nodes_placed_def node_placed_def)

lemma nodes_placed_trans: "nodes_placed a b \<Longrightarrow> nodes_placed b c \<Longrightarrow> nodes_placed a c"
  unfolding nodes_placed_def by (meson node_placed_def node_placed_trans)

lemma nodes_follow_placed: "nodes_follow w w' \<Longrightarrow> nodes_placed w w'"
  unfolding nodes_follow_def nodes_placed_def node_follows_def node_placed_def by meson

lemma replace_source_placed:
  assumes r: "replace_row w row [(''lean_source'', JObj source)] None = Inr (x, w1)"
    and row: "find_row w (r_id row) = Some row"
  shows "nodes_placed w w1"
  unfolding nodes_placed_def
proof (intro allI impI, elim conjE)
  fix i n assume n: "find_row w i = Some n" "r_kind n = CommonsNode"
  show "\<exists>n'. find_row w1 i = Some n' \<and> node_placed n n'"
  proof (cases "i = r_id row")
    case False
    then show ?thesis using replace_row_found(2) [OF r] n by (auto simp: node_placed_def)
  next
    case True
    then have "n = row" using n row by simp
    moreover have "dget x f = field row f" if "f \<noteq> ''lean_source''" "f \<noteq> ''revision''" for f
      using dget_replacement(1) [OF r that(2)] that(1) by simp
    ultimately show ?thesis
      using replace_row_found(1) [OF r] True n by (auto simp: node_placed_def)
  qed
qed

lemma write_source_effect:
  assumes run: "write_source row ex artifact sha state rank check actor op w = Inr (res, w')"
    and row: "find_row w (r_id row) = Some row" and ok: "commons_ok w" and node: "experiment_node ex row"
    and project: "r_project ex = pr_project actor"
  shows "commons_ok w'"
    and "\<exists>source row'. source_record w artifact sha check actor = Inr source \<and>
      find_row w' (r_id row) = Some row' \<and> field row' ''lean_source'' = JObj source"
    and "j \<noteq> r_id row \<Longrightarrow> find_row w j = Some r \<Longrightarrow> r_kind r = CommonsNode \<Longrightarrow>
      \<exists>r'. find_row w' j = Some r' \<and> node_follows r r'"
    and "nodes_placed w w'"
proof -
  obtain source x w1 w2 fresh w3 touched w4 a ag pl where
    source: "source_record w artifact sha check actor = Inr source"
    and r: "replace_row w row [(''lean_source'', JObj source)] None = Inr (x, w1)"
    and adds: "foldE (import_edge op ex (r_id row) actor) (imported_ids (dget check ''imports'')) w1 = Inr w2"
    and fresh: "find_row w2 (r_id row) = Some fresh" and touch: "touch_node fresh actor op w2 = Inr w3"
    and note_it: "note_compiled touched rank state (r_payload row) actor op w3 = Inr w4"
    and w': "w' = emit a op ''commons.source_published'' ag pl False w4"
    using run unfolding write_source_def run_iffs by blast
  note keeps = replace_source_keeps [OF r row ok node]
  obtain row1 where row1: "find_row w1 (r_id row) = Some row1" "experiment_node ex row1"
    "field row1 ''lean_source'' = JObj source" using keeps(2) by blast
  have w2: "commons_ok w2 \<and> nodes_follow w1 w2"
  proof (rule foldE_invariant [OF adds, where I = "\<lambda>v. commons_ok v \<and> nodes_follow w1 v"])
    show "commons_ok w1 \<and> nodes_follow w1 w1" using keeps(1) by simp
    fix target v v'
    assume inv: "commons_ok v \<and> nodes_follow w1 v" and step: "import_edge op ex (r_id row) actor target v = Inr v'"
    obtain b where "find_row v (r_id row) = Some b" "experiment_node ex b"
      using experiment_node_follows [OF _ row1(1,2)] inv by blast
    from import_edge_keeps [OF step _ this project] inv
    show "commons_ok v' \<and> nodes_follow w1 v'" using nodes_follow_trans by blast
  qed
  have "find_row w2 (r_id fresh) = Some fresh" using fresh by (rule find_fresh)
  note steps = steps_to_trans [OF touch_node_steps [OF touch this] note_compiled_steps [OF note_it]]
  then have steps: "steps_to w2 w'" by (simp add: w')
  show "commons_ok w'" using commons_ok_steps [OF _ steps] w2 by blast
  have "nodes_follow w2 w'" using steps w2 by (simp add: steps_to_def commons_ok_def)
  then have follow: "nodes_follow w1 w'" using w2 nodes_follow_trans by blast
  show "nodes_placed w w'"
    using replace_source_placed [OF r row] nodes_follow_placed [OF follow] nodes_placed_trans by blast
  have kind: "r_kind row1 = CommonsNode" using row1(2) by (simp add: experiment_node_def)
  obtain row' where "find_row w' (r_id row) = Some row'" "node_follows row1 row'"
    using follow row1(1) kind unfolding nodes_follow_def by blast
  then show "\<exists>source row'. source_record w artifact sha check actor = Inr source \<and>
      find_row w' (r_id row) = Some row' \<and> field row' ''lean_source'' = JObj source"
    using source row1(3) by (auto simp: node_follows_def)
  show "\<exists>r'. find_row w' j = Some r' \<and> node_follows r r'"
    if "j \<noteq> r_id row" "find_row w j = Some r" "r_kind r = CommonsNode"
  proof -
    have "find_row w1 j = Some r" using keeps(3) [OF that(1)] that(2) by simp
    then show ?thesis using follow that(3) unfolding nodes_follow_def by blast
  qed
qed


section \<open>What a publication has earned\<close>

lemma judge_source_Publish:
  assumes "judge_source depth escaped_name remedy node_id artifact_id check actor w =
    Inr (Publish row ex artifact sha state rank)"
  shows "find_row w node_id = Some row" "r_id row = node_id" "experiment_node ex row"
    "r_project ex = pr_project actor" "node_refusal (r_payload row) = Inr None"
    "source_artifact w artifact_id ex actor = Inr artifact" "need artifact ''sha256'' = Inr sha"
    "\<exists>content. artifact_text w (text_of sha) = Inr content \<and>
       refused_command (sha256_of w) depth escaped_name content = None"
    "statement_digest w (r_payload row) = JNull \<or>
       dget check ''lean_statement_sha256'' = statement_digest w (r_payload row)"
    "rank_of (dget check ''rank'') = Some rank"
    "rank = Verified_Rank \<Longrightarrow> verified_evidence (dget check ''statement_check'')"
    "source_state w (graph_reading w (JStr (r_id ex))) (r_payload row) = Inr state"
    "blocking_rank (r_payload row) rank (pr_branch actor) state
       (\<lambda>_. holders_live w (r_project ex) (r_payload row)) = Inr None"
    "\<not> imports_reach w (JStr node_id) (dget check ''imports'')"
proof -
  have node: "get_row w CommonsNode (JStr node_id) actor = Inr row"
    and in_ex: "\<exists>e. need row ''experiment_id'' = Inr e \<and> commons_experiment w e actor True = Inr ex"
    and refusal: "node_refusal (r_payload row) = Inr None"
    and artifact: "source_artifact w artifact_id ex actor = Inr artifact" "need artifact ''sha256'' = Inr sha"
    and content: "\<exists>content. artifact_text w (text_of sha) = Inr content \<and>
       refused_command (sha256_of w) depth escaped_name content = None"
    and statement: "statement_digest w (r_payload row) = JNull \<or>
       dneed check ''lean_statement_sha256'' = Inr (statement_digest w (r_payload row))"
    and rank: "rank_of (dget check ''rank'') = Some rank"
      "rank = Verified_Rank \<Longrightarrow> verified_evidence (dget check ''statement_check'')"
    and state: "source_state w (graph_reading w (JStr (r_id ex))) (r_payload row) = Inr state"
    and held: "blocking_rank (r_payload row) rank (pr_branch actor) state
       (\<lambda>_. holders_live w (r_project ex) (r_payload row)) = Inr None"
    and reach: "\<exists>imported. dneed check ''imports'' = Inr imported \<and> \<not> imports_reach w (JStr (r_id row)) imported"
    using assms unfolding judge_source_def Let_def bindE_Inr_iff
    by (auto simp: bindE_Inr_iff split: option.splits if_splits)
  from node show "find_row w node_id = Some row" and id: "r_id row = node_id"
    using get_row_InrD [OF node] by auto
  obtain e where e: "need row ''experiment_id'' = Inr e" "commons_experiment w e actor True = Inr ex"
    using in_ex by blast
  have "e = JStr (r_id ex)"
    using e(2) by (auto simp: commons_experiment_def bindE_Inr_iff split: if_splits dest: get_row_InrD(1))
  with e(2) have ex: "r_project ex = pr_project actor" using commons_experimentD(2) by blast
  then show "r_project ex = pr_project actor" .
  show "experiment_node ex row"
    using need_field [OF e(1)] \<open>e = JStr (r_id ex)\<close> get_row_InrD [OF node] ex by (simp add: experiment_node_def)
  show "node_refusal (r_payload row) = Inr None" "source_artifact w artifact_id ex actor = Inr artifact"
    "need artifact ''sha256'' = Inr sha" "rank_of (dget check ''rank'') = Some rank"
    "\<exists>content. artifact_text w (text_of sha) = Inr content \<and>
       refused_command (sha256_of w) depth escaped_name content = None"
    "source_state w (graph_reading w (JStr (r_id ex))) (r_payload row) = Inr state"
    "blocking_rank (r_payload row) rank (pr_branch actor) state
       (\<lambda>_. holders_live w (r_project ex) (r_payload row)) = Inr None"
    by (fact refusal artifact rank(1) content state held)+
  show "verified_evidence (dget check ''statement_check'')" if "rank = Verified_Rank" by (rule rank(2) [OF that])
  show "statement_digest w (r_payload row) = JNull \<or>
       dget check ''lean_statement_sha256'' = statement_digest w (r_payload row)"
    using statement by (auto simp: dneed_def dget_def split: option.splits)
  show "\<not> imports_reach w (JStr node_id) (dget check ''imports'')"
    using reach id by (auto simp: dneed_def dget_def split: option.splits)
qed

text \<open>What the rank rule lets through: the held rank is not above the new one.\<close>

lemma blocking_rank_None:
  assumes "blocking_rank node rank branch_id state live = Inr None" and "rank_of state \<noteq> None"
  shows "\<exists>held. rank_of (dget (as_dict (dget node ''lean_source'')) ''rank'') = Some held \<and> held \<le> rank \<and>
    (held = rank \<and> is_complete (rank_json held) \<and>
       (held = Verified_Rank \<or> has_elaborated_statement node \<or> live ()) \<longrightarrow>
     jopt branch_id = dget (as_dict (dget node ''lean_source'')) ''branch_id'' \<or>
     jopt branch_id = dget node ''branch_id'')"
proof -
  obtain source name held where s: "dneed node ''lean_source'' = Inr source"
    "dneed (as_dict source) ''rank'' = Inr name" "rank_of name = Some held"
    and free: "\<not> rank < held"
      "\<not> (rank = held \<and> is_complete name \<and>
          jopt branch_id \<notin> {dget (as_dict source) ''branch_id'', dget node ''branch_id''} \<and>
          (held = Verified_Rank \<or> has_elaborated_statement node \<or> live ()))"
    using assms by (auto simp: blocking_rank_def Let_def bindE_Inr_iff split: option.splits if_splits)
  have "dget node ''lean_source'' = source" "dget (as_dict source) ''rank'' = name"
    using s by (auto simp: dneed_def dget_def split: option.splits)
  moreover have "rank_json held = name"
    using s(3) by (auto simp: rank_of_def rank_json_def split: if_splits)
  ultimately show ?thesis using s(3) free by auto
qed


lemma record_source_recorded:
  assumes "record_source_action depth escaped_name remedy node_id artifact_id check actor op w = Inr (res, w')"
    and "dget res ''recorded'' = JBool True"
  obtains row ex artifact sha state rank where
    "judge_source depth escaped_name remedy node_id artifact_id check actor w =
      Inr (Publish row ex artifact sha state rank)"
    "write_source row ex artifact sha state rank check actor op w = Inr (res, w')"
proof -
  have refused: "judge_source depth escaped_name remedy node_id artifact_id check actor w \<noteq> Inr (Not_Recorded res)"
    using assms(2) unfolding judge_source_def Let_def bindE_Inr_iff
    by (auto simp: bindE_Inr_iff not_recorded_def split: option.splits if_splits)
  obtain judged where j: "judge_source depth escaped_name remedy node_id artifact_id check actor w = Inr judged"
    using assms(1) by (auto simp: record_source_action_def bindE_Inr_iff)
  show ?thesis
  proof (cases judged)
    case (Not_Recorded answer)
    then show ?thesis using assms(1) j refused by (simp add: record_source_action_def)
  next
    case (Publish row ex artifact sha state rank)
    then show ?thesis using assms(1) j that by (simp add: record_source_action_def)
  qed
qed

lemma source_recordD:
  assumes "source_record w artifact sha check actor = Inr source"
  shows "dget source ''sha256'' = sha" "dget source ''rank'' = dget check ''rank''"
    "dget source ''branch_id'' = jopt (pr_branch actor)" "dget source ''imports'' = dget check ''imports''"
    "map_of source ''imports'' \<noteq> None"
  using assms by (auto simp: source_record_def bindE_Inr_iff dneed_def dget_def split: option.splits)

text \<open>C8. A source is recorded only for an open node that is not the goal, from an artifact of the
  publisher's own branch whose text the gate lets through; as verified only on evidence; and in
  place of a source that still stands only if that one ranks no higher. The node then holds that
  source, no other node's source changes, and the dependencies the imports add close no cycle.\<close>

theorem publication_is_earned:
  assumes "record_source_action depth escaped_name remedy node_id artifact_id check actor op w = Inr (res, w')"
    and "dget res ''recorded'' = JBool True" and "commons_ok w"
  shows "\<exists>row artifact content source row'.
    find_row w node_id = Some row \<and> is_open (field row ''status'') \<and> field row ''node_type'' \<noteq> JStr ''goal'' \<and>
    find_row w artifact_id = Some artifact \<and> field artifact ''branch_id'' = jopt (pr_branch actor) \<and>
    artifact_text w (text_of (field artifact ''sha256'')) = Inr content \<and>
    refused_command (sha256_of w) depth escaped_name content = None \<and>
    (dget check ''rank'' = JStr ''verified'' \<longrightarrow> verified_evidence (dget check ''statement_check'')) \<and>
    (\<forall>state. source_state w (graph_reading w (field row ''experiment_id'')) (r_payload row) = Inr state \<and>
        rank_of state \<noteq> None \<longrightarrow>
      (\<exists>held new. rank_of (dget (as_dict (field row ''lean_source'')) ''rank'') = Some held \<and>
         rank_of (dget check ''rank'') = Some new \<and> held \<le> new)) \<and>
    find_row w' node_id = Some row' \<and> field row' ''lean_source'' = JObj source \<and>
    dget source ''sha256'' = field artifact ''sha256'' \<and> dget source ''rank'' = dget check ''rank'' \<and>
    dget source ''branch_id'' = jopt (pr_branch actor) \<and>
    (\<forall>i r. i \<noteq> node_id \<and> find_row w i = Some r \<and> r_kind r = CommonsNode \<longrightarrow>
      (\<exists>r'. find_row w' i = Some r' \<and> field r' ''lean_source'' = field r ''lean_source'')) \<and>
    acyclic (dependencies w')"
proof -
  obtain row ex artifact sha state rank where
    j: "judge_source depth escaped_name remedy node_id artifact_id check actor w =
      Inr (Publish row ex artifact sha state rank)"
    and wr: "write_source row ex artifact sha state rank check actor op w = Inr (res, w')"
    by (rule record_source_recorded [OF assms(1,2)])
  note p = judge_source_Publish [OF j]
  note effect = write_source_effect [OF wr _ assms(3) p(3,4), unfolded p(2), OF p(1)]
  obtain source row' where s: "source_record w artifact sha check actor = Inr source"
      "find_row w' node_id = Some row'" "field row' ''lean_source'' = JObj source"
    using effect(2) by blast
  obtain content where content: "artifact_text w (text_of sha) = Inr content"
      "refused_command (sha256_of w) depth escaped_name content = None" using p(8) by blast
  have sha: "field artifact ''sha256'' = sha" by (rule need_field [OF p(7)])
  have art: "find_row w artifact_id = Some artifact" "field artifact ''branch_id'' = jopt (pr_branch actor)"
    using p(6) by (auto simp: source_artifact_def bindE_Inr_iff get_row_Inr_iff split: if_splits)
  have open_node: "is_open (field row ''status'')" "field row ''node_type'' \<noteq> JStr ''goal''"
    using p(5) by (auto simp: node_refusal_def bindE_Inr_iff dneed_def dget_def split: if_splits option.splits)
  have verified: "dget check ''rank'' = JStr ''verified'' \<longrightarrow> verified_evidence (dget check ''statement_check'')"
    using p(10,11) by (auto simp: rank_of_def split: if_splits)
  have ranked: "\<exists>held new. rank_of (dget (as_dict (field row ''lean_source'')) ''rank'') = Some held \<and>
      rank_of (dget check ''rank'') = Some new \<and> held \<le> new"
    if "source_state w (graph_reading w (field row ''experiment_id'')) (r_payload row) = Inr st" "rank_of st \<noteq> None" for st
  proof -
    have "st = state" using that(1) p(3,12) by (simp add: experiment_node_def)
    then show ?thesis using blocking_rank_None [OF p(13)] that(2) p(10) by blast
  qed
  have others: "\<exists>r'. find_row w' i = Some r' \<and> field r' ''lean_source'' = field r ''lean_source''"
    if "i \<noteq> node_id" "find_row w i = Some r" "r_kind r = CommonsNode" for i r
    using effect(3) [OF that] by (auto simp: node_follows_def)
  have "acyclic (dependencies w')" using effect(1) by (simp add: commons_ok_def)
  with p(1) open_node art content sha verified ranked s(2,3) source_recordD(1-3) [OF s(1)] others
  show ?thesis by (intro exI [of _ row] exI [of _ artifact] exI [of _ content] exI [of _ source] exI [of _ row']) auto
qed

text \<open>C20. A source that is recorded never imports itself: where what its imports lead to are at most
  two hundred nodes, no chain of stored imports leads from its node back to it afterwards.\<close>

theorem published_never_imports_itself:
  assumes "record_source_action depth escaped_name remedy node_id artifact_id check actor op w = Inr (res, w')"
    and "dget res ''recorded'' = JBool True" and "commons_ok w"
    and "finite (import_closure w (dget check ''imports''))"
    and "card (import_closure w (dget check ''imports'')) \<le> max_commons_modules"
    and "\<forall>i \<in> import_closure w (dget check ''imports''). \<exists>r. find_json w i = Some r \<and> r_kind r = CommonsNode"
  shows "(JStr node_id, JStr node_id) \<notin> (import_edges w')\<^sup>+"
proof -
  obtain row ex artifact sha state rank where
    j: "judge_source depth escaped_name remedy node_id artifact_id check actor w =
      Inr (Publish row ex artifact sha state rank)"
    and wr: "write_source row ex artifact sha state rank check actor op w = Inr (res, w')"
    by (rule record_source_recorded [OF assms(1,2)])
  note p = judge_source_Publish [OF j]
  note effect = write_source_effect [OF wr _ assms(3) p(3,4), unfolded p(2), OF p(1)]
  obtain source row' where s: "source_record w artifact sha check actor = Inr source"
      "find_row w' node_id = Some row'" "field row' ''lean_source'' = JObj source"
    using effect(2) by blast
  obtain C where C: "set (imported_ids (dget check ''imports'')) \<subseteq> C"
      "C \<subseteq> import_closure w (dget check ''imports'')" "JStr node_id \<notin> C"
      "\<forall>a \<in> C. set (stored_imports w a) \<subseteq> C"
    using imports_reach_closed [OF p(14) assms(4,5)] by blast
  have own: "stored_imports w' (JStr node_id) = imported_ids (dget check ''imports'')"
    using s(2,3) source_recordD(4,5) [OF s(1)]
    by (cases source) (auto simp: stored_imports_def source_of_def jor_def dget_or_def dget_def as_dict_def)
  have kept: "set (stored_imports w' a) \<subseteq> C" if a: "a \<in> C" for a
  proof -
    obtain r where r: "find_json w a = Some r" "r_kind r = CommonsNode" using assms(6) C(2) a by blast
    note id = find_json_SomeD [OF r(1)]
    have "r_id r \<noteq> node_id" using id C(3) a by auto
    from effect(3) [OF this _ r(2)] id obtain r' where "find_row w' (r_id r) = Some r'"
        "field r' ''lean_source'' = field r ''lean_source''" by (auto simp: node_follows_def)
    then have "stored_imports w' a = stored_imports w a"
      using r id by (simp add: stored_imports_def source_of_def find_json_def)
    then show ?thesis using C(4) a by simp
  qed
  have inside: "b \<in> C" if "(JStr node_id, b) \<in> (import_edges w')\<^sup>+" for b
    using that
  proof (induction rule: trancl_induct)
    case (base b)
    then show ?case using own C(1) by (auto simp: import_edges_def)
  next
    case (step b c)
    then show ?case using kept [OF step.IH] by (auto simp: import_edges_def)
  qed
  then show ?thesis using C(3) by blast
qed

section \<open>A publication on the sample society\<close>

definition own_source :: row where
  "own_source = sample_row Artifact ''src''
     [(''experiment_id'', JStr ''e''), (''branch_id'', JStr ''b1''), (''artifact_kind'', JStr ''lean_source''),
      (''sha256'', JStr ''s'')]"

definition with_source :: world where
  "with_source = linked\<lparr>records := records linked @ [own_source]\<rparr>"

definition checked :: dict where
  "checked = [(''rank'', JStr ''partial''), (''bytes'', JInt 1), (''statement_check'', JNull),
     (''lean_statement_sha256'', JNull), (''closure'', JNull),
     (''imports'', JList [JObj [(''node_id'', JStr ''nd''), (''sha256'', JStr ''x'')]])]"

lemma with_source_ok: "commons_ok with_source"
proof -
  have "distinct (map r_id (records with_source))" "list_all row_ok (records with_source)" by code_simp+
  moreover have "dependencies with_source = dependencies linked" by (simp add: dependencies_def with_source_def)
  moreover have "edge_placed with_source d" if "d \<in> set (edges with_source)" for d
  proof -
    have "find_row with_source ''n2'' = Some second_node" "find_row with_source ''nd'' = Some sample_node"
      by code_simp+
    then show ?thesis
      using that by (simp add: with_source_def linked_def edge_placed_def second_node_def sample_node_def sample_row_def dget_def)
  qed
  moreover have "acyclic (dependencies linked)" using linked_ok by (simp add: commons_ok_def)
  ultimately show ?thesis by (simp add: commons_ok_def records_ok_def list_all_iff)
qed

lemma publishing_run:
  obtains res w' where
    "record_source_action 1 [] (\<lambda>s. s) ''n2'' ''src'' checked sample_agent ''op'' with_source = Inr (res, w')"
    "dget res ''recorded'' = JBool True"
proof -
  have "(case record_source_action 1 [] (\<lambda>s. s) ''n2'' ''src'' checked sample_agent ''op'' with_source of
      Inr (res, w') \<Rightarrow> dget res ''recorded'' = JBool True | Inl _ \<Rightarrow> False)"
    by code_simp
  then show ?thesis using that by (auto split: sum.splits)
qed

theorem publication_is_earned_witness:
  "\<exists>res w' row. record_source_action 1 [] (\<lambda>s. s) ''n2'' ''src'' checked sample_agent ''op'' with_source = Inr (res, w') \<and>
     find_row w' ''n2'' = Some row \<and> dget (as_dict (field row ''lean_source'')) ''rank'' = JStr ''partial''"
proof -
  obtain res w' where run: "record_source_action 1 [] (\<lambda>s. s) ''n2'' ''src'' checked sample_agent ''op'' with_source = Inr (res, w')"
    "dget res ''recorded'' = JBool True" by (rule publishing_run)
  from publication_is_earned [OF run with_source_ok] obtain source row where
    "find_row w' ''n2'' = Some row" "field row ''lean_source'' = JObj source"
    "dget source ''rank'' = dget checked ''rank''" by blast
  moreover have "dget checked ''rank'' = JStr ''partial''" by code_simp
  ultimately show ?thesis using run by (auto simp: as_dict_def)
qed

lemma sample_imports: "import_closure with_source (dget checked ''imports'') = {JStr ''nd''}"
proof -
  have none: "stored_imports with_source (JStr ''nd'') = []" by code_simp
  have start: "imported_ids (dget checked ''imports'') = [JStr ''nd'']" by code_simp
  have "x = JStr ''nd''" if "(JStr ''nd'', x) \<in> (import_edges with_source)\<^sup>*" for x
    using that by (cases rule: converse_rtranclE) (auto simp: import_edges_def none)
  then show ?thesis by (auto simp: import_closure_def start)
qed

theorem published_never_imports_itself_witness:
  "\<exists>res w'. record_source_action 1 [] (\<lambda>s. s) ''n2'' ''src'' checked sample_agent ''op'' with_source = Inr (res, w') \<and>
     (JStr ''n2'', JStr ''n2'') \<notin> (import_edges w')\<^sup>+"
proof -
  obtain res w' where run: "record_source_action 1 [] (\<lambda>s. s) ''n2'' ''src'' checked sample_agent ''op'' with_source = Inr (res, w')"
    "dget res ''recorded'' = JBool True" by (rule publishing_run)
  have "find_row with_source ''nd'' = Some sample_node" "r_kind sample_node = CommonsNode" by code_simp+
  then have "\<forall>i \<in> import_closure with_source (dget checked ''imports'').
      \<exists>r. find_json with_source i = Some r \<and> r_kind r = CommonsNode"
    by (simp add: sample_imports)
  then have "(JStr ''n2'', JStr ''n2'') \<notin> (import_edges w')\<^sup>+"
    by (intro published_never_imports_itself [OF run with_source_ok]) (simp_all add: sample_imports max_commons_modules_def)
  with run show ?thesis by blast
qed

end
