(* ===== verification/Knowledge.thy ===== *)
theory Knowledge
  imports Artifacts "HOL-Library.Product_Lexorder"
begin

text \<open>
  Lossless text ingestion (\<open>knowledge/sources.py\<close>): a source cut into spans that bind to the original
  text; and the lexical index of lemma records (\<open>knowledge/index.py\<close>). The digest of a text is the
  parameter \<open>sha\<close>.
\<close>

section \<open>Source documents\<close>

record source_document =
  sd_uri :: string
  sd_revision :: string
  sd_format :: string
  sd_text :: string
  sd_sha :: string

record source_span =
  sp_uri :: string
  sp_revision :: string
  sp_document :: string
  sp_start :: nat
  sp_end :: nat
  sp_start_line :: nat
  sp_end_line :: nat
  sp_text :: string
  sp_sha :: string

definition newlines :: "string \<Rightarrow> nat" where
  "newlines s = length (filter (\<lambda>c. c = CHR 0x0A) s)"

text \<open>The validators of the three models; \<open>content_sha256\<close> and the like match \<open>[0-9a-f]{64}\<close>.\<close>

definition document_ok :: "(string \<Rightarrow> string) \<Rightarrow> source_document \<Rightarrow> bool" where
  "document_ok sha d \<longleftrightarrow>
     1 \<le> length (sd_uri d) \<and> length (sd_uri d) \<le> 4096 \<and>
     1 \<le> length (sd_revision d) \<and> length (sd_revision d) \<le> 256 \<and>
     sd_format d \<in> {''markdown'', ''latex''} \<and> sd_text d \<noteq> [] \<and>
     int (length (sd_text d)) \<le> 2000000 \<and> valid_digest (sd_sha d) \<and> sha (sd_text d) = sd_sha d"

definition span_ok :: "(string \<Rightarrow> string) \<Rightarrow> source_span \<Rightarrow> bool" where
  "span_ok sha s \<longleftrightarrow>
     0 < sp_end s \<and> 1 \<le> sp_start_line s \<and> 1 \<le> sp_end_line s \<and> sp_text s \<noteq> [] \<and>
     valid_digest (sp_document s) \<and> valid_digest (sp_sha s) \<and>
     int (sp_end s) - int (sp_start s) = int (length (sp_text s)) \<and>
     sp_start_line s \<le> sp_end_line s \<and> sha (sp_text s) = sp_sha s"

text \<open>\<open>text[a:b]\<close>.\<close>

definition slice :: "nat \<Rightarrow> nat \<Rightarrow> string \<Rightarrow> string" where
  "slice a b s = drop a (take b s)"

text \<open>\<open>bind_spans\<close>: the spans follow one another and cover the document exactly.\<close>

fun bind_from :: "source_document \<Rightarrow> source_span list \<Rightarrow> nat \<Rightarrow> nat \<Rightarrow> bool" where
  "bind_from d [] position line = (position = length (sd_text d))"
| "bind_from d (s # spans) position line =
     (sp_start s = position \<and> sp_document s = sd_sha d \<and> sp_uri s = sd_uri d \<and>
      sp_revision s = sd_revision d \<and> sp_text s = slice (sp_start s) (sp_end s) (sd_text d) \<and>
      sp_start_line s = line \<and> sp_end_line s = line + newlines (butlast (sp_text s)) \<and>
      bind_from d spans (sp_end s) (line + newlines (sp_text s)))"

definition bind_spans :: "source_document \<Rightarrow> source_span list \<Rightarrow> bool" where
  "bind_spans d spans = bind_from d spans 0 1"

section \<open>Ingestion\<close>

text \<open>The loop over \<open>range(0, len(text), chunk_chars)\<close>; \<open>rest\<close> is the text from \<open>start\<close> on.\<close>

function spans_from ::
  "(string \<Rightarrow> string) \<Rightarrow> source_document \<Rightarrow> nat \<Rightarrow> nat \<Rightarrow> nat \<Rightarrow> string \<Rightarrow> source_span list" where
  "spans_from sha d chunk start line rest =
     (if rest = [] \<or> chunk = 0 then []
      else
        let part = take chunk rest
        in \<lparr>sp_uri = sd_uri d, sp_revision = sd_revision d, sp_document = sd_sha d, sp_start = start,
            sp_end = start + length part, sp_start_line = line,
            sp_end_line = line + newlines (butlast part), sp_text = part, sp_sha = sha part\<rparr>
           # spans_from sha d chunk (start + length part) (line + newlines part) (drop chunk rest))"
  by pat_completeness auto
termination by (relation "measure (\<lambda>(_, _, _, _, _, rest). length rest)") auto

declare spans_from.simps [simp del]

definition ingest_text ::
  "(string \<Rightarrow> string) \<Rightarrow> string \<Rightarrow> string \<Rightarrow> string \<Rightarrow> string \<Rightarrow> int \<Rightarrow>
   herr + (source_document \<times> source_span list)"
where
  "ingest_text sha text_in format uri revision chunk =
     (if format \<notin> {''markdown'', ''latex''} then Inl (fail ''unsupported_source_format'' 409)
      else if text_in = [] \<or> 2000000 < int (length text_in) then Inl (fail ''source_limit'' 409)
      else if \<not> (1 \<le> chunk \<and> chunk \<le> 100000) then Inl (fail ''source_limit'' 409)
      else if 20000 < (int (length text_in) + chunk - 1) div chunk
      then Inl (fail ''source_limit'' 409)
      else
        let d = \<lparr>sd_uri = uri, sd_revision = revision, sd_format = format, sd_text = text_in,
                 sd_sha = sha text_in\<rparr>;
            spans = spans_from sha d (nat chunk) 0 1 text_in
        in if \<not> document_ok sha d \<or> \<not> list_all (span_ok sha) spans \<or> \<not> bind_spans d spans
           then Inl (ValueError ''validation'') else Inr (d, spans))"

text \<open>\<open>ingest_bytes\<close> after its decoding: \<open>decoded\<close> is \<open>None\<close> where the bytes are not UTF-8.\<close>

definition ingest_bytes ::
  "(string \<Rightarrow> string) \<Rightarrow> int \<Rightarrow> string option \<Rightarrow> string \<Rightarrow> string \<Rightarrow> string \<Rightarrow> int \<Rightarrow>
   herr + (source_document \<times> source_span list)"
where
  "ingest_bytes sha encoded decoded format uri revision chunk =
     (if format = ''pdf'' then Inl (fail ''pdf_ingestion_unavailable'' 409)
      else if 8000000 < encoded then Inl (fail ''source_limit'' 409)
      else case decoded of
             None \<Rightarrow> Inl (fail ''invalid_source_encoding'' 409)
           | Some s \<Rightarrow> ingest_text sha s format uri revision chunk)"

section \<open>Tokens\<close>

text \<open>\<open>str.casefold\<close> on the characters up to 255: capitals shift, the sharp s becomes two letters; the
  micro sign, whose folding lies beyond 255, stays.\<close>

definition fold_char :: "char \<Rightarrow> string" where
  "fold_char c =
     (let n = (of_char c :: nat)
      in if (65 \<le> n \<and> n \<le> 90) \<or> (192 \<le> n \<and> n \<le> 222 \<and> n \<noteq> 215) then [char_of (n + 32)]
         else if n = 223 then ''ss'' else [c])"

definition casefold :: "string \<Rightarrow> string" where
  "casefold s = concat (map fold_char s)"

text \<open>\<open>\w\<close>: letters, digits (superscripts and fractions count) and the underscore.\<close>

definition word_char :: "char \<Rightarrow> bool" where
  "word_char c \<longleftrightarrow>
     (let n = (of_char c :: nat)
      in (48 \<le> n \<and> n \<le> 57) \<or> (65 \<le> n \<and> n \<le> 90) \<or> n = 95 \<or> (97 \<le> n \<and> n \<le> 122) \<or>
         n \<in> {170, 178, 179, 181, 185, 186, 188, 189, 190} \<or>
         (192 \<le> n \<and> n \<le> 255 \<and> n \<noteq> 215 \<and> n \<noteq> 247))"

text \<open>\<open>re.findall(r"\w+", s)\<close>.\<close>

fun word_runs :: "string \<Rightarrow> string \<Rightarrow> string list" where
  "word_runs acc [] = (if acc = [] then [] else [rev acc])"
| "word_runs acc (c # cs) =
     (if word_char c then word_runs (c # acc) cs
      else if acc = [] then word_runs [] cs else rev acc # word_runs [] cs)"

definition tokens :: "string \<Rightarrow> string list" where
  "tokens s = remdups (word_runs [] (casefold s))"

section \<open>The lemma index\<close>

record lemma_record =
  lm_id :: string
  lm_revision :: string
  lm_environment :: string
  lm_target :: string
  lm_statement :: string
  lm_type :: string
  lm_status :: string
  lm_receipt :: "string option"
  lm_provenance :: string
  lm_dependencies :: "(string \<times> string) list"
  lm_spans :: "source_span list"
  lm_assumptions :: "string list"
  lm_limitations :: "string list"

definition lemma_statuses :: "string list" where
  "lemma_statuses = [''verified'', ''conditional'', ''conjecture'', ''rejected'']"

definition lemma_ok :: "(string \<Rightarrow> string) \<Rightarrow> lemma_record \<Rightarrow> bool" where
  "lemma_ok sha r \<longleftrightarrow>
     lm_id r \<noteq> [] \<and> lm_revision r \<noteq> [] \<and> valid_digest (lm_environment r) \<and>
     valid_digest (lm_target r) \<and> lm_statement r \<noteq> [] \<and> int (length (lm_statement r)) \<le> 100000 \<and>
     lm_type r \<noteq> [] \<and> int (length (lm_type r)) \<le> 100000 \<and> lm_status r \<in> set lemma_statuses \<and>
     lm_provenance r \<noteq> [] \<and> length (lm_dependencies r) \<le> 1000 \<and> length (lm_spans r) \<le> 1000 \<and>
     list_all (\<lambda>(i, v). i \<noteq> [] \<and> v \<noteq> []) (lm_dependencies r) \<and> list_all (span_ok sha) (lm_spans r) \<and>
     \<not> (lm_status r = ''verified'' \<and> \<not> opt_true (lm_receipt r))"

abbreviation lemma_key :: "lemma_record \<Rightarrow> string \<times> string" where
  "lemma_key r \<equiv> (lm_id r, lm_revision r)"

text \<open>\<open>LemmaIndex(records)\<close>: the index keeps one record per revision, in the order of first insertion.\<close>

definition add_lemma :: "(string \<Rightarrow> string) \<Rightarrow> lemma_record \<Rightarrow> lemma_record list \<Rightarrow> herr + lemma_record list"
where
  "add_lemma sha r index =
     (if \<not> lemma_ok sha r then Inl (ValueError ''validation'')
      else case lookup_row lemma_key (lemma_key r) index of
             Some held \<Rightarrow> if held \<noteq> r then Inl (ValueError ''conflicting'') else Inr index
           | None \<Rightarrow> Inr (index @ [r]))"

definition lemma_index :: "(string \<Rightarrow> string) \<Rightarrow> lemma_record list \<Rightarrow> herr + lemma_record list" where
  "lemma_index sha rs = foldE (add_lemma sha) rs []"

record search_query =
  sq_query :: string
  sq_environment :: string
  sq_statuses :: "string list"
  sq_revisions :: "(string \<times> string) list option"
  sq_type_query :: string
  sq_type_filter :: string
  sq_requires :: "(string \<times> string) list"
  sq_provenance :: "string list option"
  sq_limit :: int

record search_hit =
  hit_lemma :: lemma_record
  hit_score :: nat
  hit_terms :: "string list"

definition query_terms :: "search_query \<Rightarrow> string list" where
  "query_terms q = tokens (sq_query q)"

definition type_terms :: "search_query \<Rightarrow> string list" where
  "type_terms q = tokens (if sq_type_filter q \<noteq> [] then sq_type_filter q else sq_type_query q)"

definition admits :: "search_query \<Rightarrow> lemma_record \<Rightarrow> bool" where
  "admits q r \<longleftrightarrow>
     lm_environment r = sq_environment q \<and> lm_status r \<in> set (sq_statuses q) \<and>
     (case sq_revisions q of None \<Rightarrow> True | Some m \<Rightarrow> map_of m (lm_id r) = Some (lm_revision r)) \<and>
     (case sq_provenance q of None \<Rightarrow> True | Some uris \<Rightarrow> lm_provenance r \<in> set uris) \<and>
     set (sq_requires q) \<subseteq> set (lm_dependencies r) \<and>
     set (type_terms q) \<subseteq> set (tokens (lm_type r))"

definition hit_of :: "search_query \<Rightarrow> lemma_record \<Rightarrow> search_hit option" where
  "hit_of q r =
     (let terms = query_terms q; in_type = tokens (lm_type r); in_statement = tokens (lm_statement r);
          matches = filter (\<lambda>t. t \<in> set in_statement \<or> t \<in> set in_type) terms
      in if \<not> admits q r \<or> (terms \<noteq> [] \<and> matches = []) then None
         else Some \<lparr>hit_lemma = r,
                    hit_score = 2 * length (filter (\<lambda>t. t \<in> set in_statement) terms) +
                      length (filter (\<lambda>t. t \<in> set in_type) terms),
                    hit_terms = sort matches\<rparr>)"

text \<open>The order of the hits: the score downwards, then the id, then the revision.\<close>

definition hit_key :: "search_hit \<Rightarrow> int \<times> string \<times> string" where
  "hit_key h = (- int (hit_score h), lm_id (hit_lemma h), lm_revision (hit_lemma h))"

definition search_index :: "lemma_record list \<Rightarrow> search_query \<Rightarrow> herr + search_hit list" where
  "search_index index q =
     (if \<not> valid_digest (sq_environment q) then Inl (ValueError ''environment'')
      else if \<not> (1 \<le> sq_limit q \<and> sq_limit q \<le> 1000) then Inl (ValueError ''limit'')
      else if \<not> set (sq_statuses q) \<subseteq> set lemma_statuses then Inl (ValueError ''status'')
      else if sq_type_query q \<noteq> [] \<and> sq_type_filter q \<noteq> [] then Inl (ValueError ''type'')
      else Inr (take (nat (sq_limit q)) (sort_key hit_key (List.map_filter (hit_of q) index))))"

section \<open>Ingestion loses nothing\<close>

lemma newlines_append [simp]: "newlines (xs @ ys) = newlines xs + newlines ys"
  by (simp add: newlines_def)

lemma newlines_take_drop: "newlines (take n xs) + newlines (drop n xs) = newlines xs"
  by (metis append_take_drop_id newlines_append)

text \<open>What every span of the loop is: a part of the text at its offset and line.\<close>

definition span_at :: "(string \<Rightarrow> string) \<Rightarrow> source_document \<Rightarrow> nat \<Rightarrow> source_span \<Rightarrow> bool" where
  "span_at sha d chunk s \<longleftrightarrow>
     0 < length (sp_text s) \<and> length (sp_text s) \<le> chunk \<and> sp_sha s = sha (sp_text s) \<and>
     sp_document s = sd_sha d \<and> sp_end s = sp_start s + length (sp_text s) \<and>
     sp_text s = slice (sp_start s) (sp_end s) (sd_text d) \<and>
     sp_start_line s = 1 + newlines (take (sp_start s) (sd_text d)) \<and>
     sp_end_line s = 1 + newlines (take (sp_end s - 1) (sd_text d))"

lemma newlines_butlast_slice:
  assumes "a < b" "b \<le> length s"
  shows "newlines (take a s) + newlines (butlast (slice a b s)) = newlines (take (b - 1) s)"
proof -
  have "butlast (slice a b s) = slice a (b - 1) s"
    using assms by (simp add: slice_def butlast_drop butlast_take)
  moreover have "min a (b - 1) = a" using assms by simp
  then have "take a (take (b - 1) s) = take a s" by (simp add: take_take min.commute)
  ultimately show ?thesis
    using newlines_take_drop [of a "take (b - 1) s"] by (simp add: slice_def)
qed

lemma spans_from_covers:
  assumes "0 < chunk" and "rest = drop start (sd_text d)" and "start \<le> length (sd_text d)"
    and "line = 1 + newlines (take start (sd_text d))"
  shows "bind_from d (spans_from sha d chunk start line rest) start line \<and>
    list_all (span_at sha d chunk) (spans_from sha d chunk start line rest) \<and>
    concat (map sp_text (spans_from sha d chunk start line rest)) = rest \<and>
    chunk * length (spans_from sha d chunk start line rest) < length rest + chunk"
  using assms
proof (induction sha d chunk start line rest rule: spans_from.induct)
  case (1 sha d chunk start line rest)
  note step = spans_from.simps [of sha d chunk start line rest]
  show ?case
  proof (cases "rest = []")
    case True
    then have "start = length (sd_text d)" using "1.prems" by simp
    then show ?thesis using True "1.prems" step by simp
  next
    case False
    define part where "part = take chunk rest"
    let ?s = "\<lparr>sp_uri = sd_uri d, sp_revision = sd_revision d, sp_document = sd_sha d, sp_start = start,
      sp_end = start + length part, sp_start_line = line,
      sp_end_line = line + newlines (butlast part), sp_text = part, sp_sha = sha part\<rparr>"
    let ?more = "spans_from sha d chunk (start + length part) (line + newlines part) (drop chunk rest)"
    have e: "spans_from sha d chunk start line rest = ?s # ?more"
      using step False "1.prems"(1) by (simp add: Let_def part_def)
    have pos: "0 < length part" using False "1.prems"(1) by (simp add: part_def)
    have upto: "start + length part \<le> length (sd_text d)"
      using "1.prems"(2,3) by (auto simp: part_def)
    have at: "part = slice start (start + length part) (sd_text d)"
      using "1.prems"(2) by (simp add: part_def slice_def drop_take min_def)
    have rest: "drop chunk rest = drop (start + length part) (sd_text d)"
      using "1.prems"(2) by (simp add: part_def min_def add.commute)
    have line: "line + newlines part = 1 + newlines (take (start + length part) (sd_text d))"
      using newlines_take_drop [of start "take (start + length part) (sd_text d)"] "1.prems"(4) upto
      by (subst at) (simp add: slice_def min_def)
    have "\<not> (rest = [] \<or> chunk = 0)" using False "1.prems"(1) by simp
    note ih = "1.IH" [OF this refl "1.prems"(1), folded part_def, OF rest upto line]
    have "length part \<le> chunk" by (simp add: part_def)
    moreover have "start < start + length part" using pos by linarith
    from newlines_butlast_slice [OF this upto]
    have "line + newlines (butlast part) = 1 + newlines (take (start + length part - 1) (sd_text d))"
      unfolding at [symmetric] "1.prems"(4) by linarith
    ultimately have "span_at sha d chunk ?s"
      unfolding span_at_def source_span.simps using pos at "1.prems"(4) by blast
    moreover have "chunk * length (?s # ?more) < length rest + chunk"
    proof (cases "chunk \<le> length rest")
      case True
      then show ?thesis using ih by simp
    next
      case small: False
      then have "?more = []" by (simp add: spans_from.simps)
      then show ?thesis using False by simp
    qed
    moreover have "part @ drop chunk rest = rest" by (simp add: part_def)
    ultimately show ?thesis unfolding e using ih at by simp
  qed
qed

lemma newlines_take_mono:
  assumes "a \<le> b"
  shows "newlines (take a t) \<le> newlines (take b t)"
proof -
  have "take a (take b t) = take a t" using assms by (simp add: min_def)
  then show ?thesis using newlines_take_drop [of a "take b t"] by simp
qed

lemma span_at_ok:
  assumes "span_at sha d chunk s" and "\<And>x. valid_digest (sha x)" and "valid_digest (sd_sha d)"
  shows "span_ok sha s"
proof -
  have f: "0 < length (sp_text s)" "sp_sha s = sha (sp_text s)" "sp_document s = sd_sha d"
      "sp_end s = sp_start s + length (sp_text s)"
      "sp_start_line s = 1 + newlines (take (sp_start s) (sd_text d))"
      "sp_end_line s = 1 + newlines (take (sp_end s - 1) (sd_text d))"
    using assms(1) unfolding span_at_def by blast+
  then have "sp_start s \<le> sp_end s - 1" by linarith
  then have "sp_start_line s \<le> sp_end_line s" using newlines_take_mono f(5,6) by simp
  moreover have "sp_text s \<noteq> []" using f(1) by simp
  ultimately show ?thesis using f assms(2,3) unfolding span_ok_def by simp
qed

text \<open>C33. Ingestion loses nothing and always ends in a source that validates. For every Markdown or LaTeX
  text within the limits, whatever the digest function, the spans bind to the document, follow one
  another from its start, none longer than the chunk and each with the lines its text really stands on,
  and put together they are the original text; there are never more than twenty thousand of them.\<close>

theorem ingestion_round_trip:
  assumes "format \<in> {''markdown'', ''latex''}" and "content \<noteq> []" and "int (length content) \<le> 2000000"
    and "1 \<le> chunk" and "chunk \<le> 100000" and "(int (length content) + chunk - 1) div chunk \<le> 20000"
    and "1 \<le> length uri" "length uri \<le> 4096" "1 \<le> length revision" "length revision \<le> 256"
    and "\<And>s. valid_digest (sha s)"
  shows "\<exists>d spans. ingest_text sha content format uri revision chunk = Inr (d, spans) \<and>
    sd_text d = content \<and> concat (map sp_text spans) = content \<and> bind_spans d spans \<and>
    int (length spans) \<le> 20000 \<and>
    (\<forall>s \<in> set spans. int (length (sp_text s)) \<le> chunk \<and>
       sp_text s = slice (sp_start s) (sp_end s) content \<and>
       sp_start_line s = 1 + newlines (take (sp_start s) content) \<and>
       sp_end_line s = 1 + newlines (take (sp_end s - 1) content))"
proof -
  let ?d = "\<lparr>sd_uri = uri, sd_revision = revision, sd_format = format, sd_text = content,
    sd_sha = sha content\<rparr>"
  let ?spans = "spans_from sha ?d (nat chunk) 0 1 content"
  have "bind_from ?d ?spans 0 1 \<and> list_all (span_at sha ?d (nat chunk)) ?spans \<and>
      concat (map sp_text ?spans) = content \<and> nat chunk * length ?spans < length content + nat chunk"
    by (rule spans_from_covers) (use assms(4) in \<open>simp_all add: newlines_def\<close>)
  then have c: "bind_spans ?d ?spans" "\<forall>s \<in> set ?spans. span_at sha ?d (nat chunk) s"
    "concat (map sp_text ?spans) = content" "nat chunk * length ?spans < length content + nat chunk"
    by (auto simp: bind_spans_def list_all_iff)
  have "span_ok sha s" if "s \<in> set ?spans" for s
    by (rule span_at_ok [of sha ?d "nat chunk"]) (use c(2) that assms(11) in auto)
  then have "list_all (span_ok sha) ?spans" by (simp add: list_all_iff)
  moreover have "document_ok sha ?d" using assms by (auto simp: document_ok_def)
  ultimately have run: "ingest_text sha content format uri revision chunk = Inr (?d, ?spans)"
    using c(1) assms(1-6) by (auto simp: ingest_text_def Let_def)
  have "chunk * int (length ?spans) \<le> int (length content) + chunk - 1"
  proof -
    have "int (nat chunk * length ?spans) < int (length content + nat chunk)"
      using c(4) by (simp only: of_nat_less_iff)
    then show ?thesis using assms(4) by simp
  qed
  then have "int (length ?spans) \<le> (int (length content) + chunk - 1) div chunk"
    using zdiv_mono1 [of "chunk * int (length ?spans)" _ chunk] assms(4) by simp
  then have "int (length ?spans) \<le> 20000" using assms(6) by linarith
  moreover have "\<forall>s \<in> set ?spans. int (length (sp_text s)) \<le> chunk \<and>
       sp_text s = slice (sp_start s) (sp_end s) content \<and>
       sp_start_line s = 1 + newlines (take (sp_start s) content) \<and>
       sp_end_line s = 1 + newlines (take (sp_end s - 1) content)"
  proof
    fix s assume "s \<in> set ?spans"
    then have at: "span_at sha ?d (nat chunk) s" using c(2) by blast
    then have "length (sp_text s) \<le> nat chunk" "sp_text s = slice (sp_start s) (sp_end s) content"
      "sp_start_line s = 1 + newlines (take (sp_start s) content)"
      "sp_end_line s = 1 + newlines (take (sp_end s - 1) content)"
      unfolding span_at_def source_document.simps by blast+
    moreover from this(1) have "int (length (sp_text s)) \<le> chunk" using assms(4) by linarith
    ultimately show "int (length (sp_text s)) \<le> chunk \<and>
       sp_text s = slice (sp_start s) (sp_end s) content \<and>
       sp_start_line s = 1 + newlines (take (sp_start s) content) \<and>
       sp_end_line s = 1 + newlines (take (sp_end s - 1) content)" by blast
  qed
  ultimately show ?thesis using run c by auto
qed

definition zero_sha :: "string \<Rightarrow> string" where
  "zero_sha s = replicate 64 (CHR ''0'')"

definition two_lines :: string where
  "two_lines = ''ab'' @ [CHR 0x0A] @ ''cde''"

theorem ingestion_round_trip_witness:
  "\<exists>d spans. ingest_text zero_sha two_lines ''markdown'' ''u'' ''1'' 4 = Inr (d, spans) \<and>
     concat (map sp_text spans) = two_lines"
proof -
  have "two_lines \<noteq> []" "int (length two_lines) \<le> 2000000"
    "(int (length two_lines) + 4 - 1) div 4 \<le> 20000"
    by (simp_all add: two_lines_def)
  moreover have "valid_digest (zero_sha s)" for s by (simp add: valid_digest_def zero_sha_def list_all_iff)
  ultimately show ?thesis
    using ingestion_round_trip [of "''markdown''" two_lines 4 "''u''" "''1''" zero_sha] by auto
qed

end
