(* ===== verification/NodeReads.thy ===== *)
theory NodeReads
  imports Commons Lean_Modules Knowledge Governor
begin

text \<open>
  Reading the commons (\<open>commons.py\<close>): one node with its edges, what it rests on and its thread's digest;
  the frontier of open work and its long pole; the queries; and the acceptance of the goal, which a
  current independent receipt shows (\<open>acceptance.py\<close>, \<open>verified_target_receipt\<close>) and no read stores.
  A read has one clock instant. Scores are floats of the code, here rationals.
\<close>

section \<open>The goal's receipt\<close>

definition society_policy :: "world \<Rightarrow> string \<Rightarrow> principal \<Rightarrow> herr + json" where
  "society_policy w experiment_id actor =
     bindE (get_row w Experiment (JStr experiment_id) actor) (\<lambda>experiment.
     Inr (field experiment ''society''))"

definition current_receipt :: "principal \<Rightarrow> string \<Rightarrow> json \<Rightarrow> row \<Rightarrow> bool" where
  "current_receipt actor experiment_id digest r \<longleftrightarrow>
     r_project r = pr_project actor \<and> r_kind r = Verification \<and>
     field r ''experiment_id'' = JStr experiment_id \<and> field r ''status'' = JStr ''verified'' \<and>
     field r ''assurance'' = JStr ''independent_kernel'' \<and>
     field r ''target_digest'' = digest"

definition verified_target_receipt :: "world \<Rightarrow> string \<Rightarrow> principal \<Rightarrow> herr + dict option" where
  "verified_target_receipt w experiment_id actor =
     bindE (get_row w Experiment (JStr experiment_id) actor) (\<lambda>experiment.
     bindE (need experiment ''target_digest'') (\<lambda>digest.
     Inr (map_option
       (\<lambda>r. [(''receipt_id'', JStr (r_id r)), (''target_digest'', digest)])
       (find (\<lambda>r. accepted_evidence w r experiment [''independent_kernel''])
          (select_sorted (current_receipt actor experiment_id digest) w)))))"

definition open_goal :: "dict \<Rightarrow> bool" where
  "open_goal item \<longleftrightarrow> dget item ''node_type'' = JStr ''goal'' \<and> is_open (dget item ''status'')"

definition goal_receipt :: "world \<Rightarrow> string \<Rightarrow> principal \<Rightarrow> dict list \<Rightarrow> herr + dict option" where
  "goal_receipt w experiment_id actor items =
     (if list_ex open_goal items then verified_target_receipt w experiment_id actor else Inr None)"

definition goal_view :: "dict \<Rightarrow> dict option \<Rightarrow> dict" where
  "goal_view item0 receipt =
     (let item = dput ''status'' (public_status (dget item0 ''status'')) item0
      in case receipt of
           None \<Rightarrow> item
         | Some r \<Rightarrow>
             if \<not> open_goal item then item
             else dmerge item
               [(''status'', JStr ''accepted''), (''status_derived'', JBool True),
                (''status_reason'', JStr ''independent kernel receipt''),
                (''status_evidence'', JObj [(''receipt_id'', dget r ''receipt_id'')])])"

section \<open>One node\<close>

definition max_edge_list :: nat where "max_edge_list = 50"
definition max_rests_on :: nat where "max_rests_on = 500"
definition max_page :: nat where "max_page = 20"
definition recent_posts :: nat where "recent_posts = 10"

text \<open>The relations of a node's edges without their prefix, and the nodes at the other end.\<close>

definition edge_pairs :: "world \<Rightarrow> string \<Rightarrow> principal \<Rightarrow> bool \<Rightarrow> (string \<times> string) list" where
  "edge_pairs w node_id actor outgoing =
     (let here = (if outgoing then d_source else d_target);
          there = (if outgoing then d_target else d_source)
      in map (\<lambda>d. (drop (length edge_prefix) (d_relation d), there d))
           (take max_edge_list (sort_key (\<lambda>d. (d_relation d, there d))
             (filter (\<lambda>d. here d = node_id \<and> d_project d = pr_project actor \<and>
                d_relation d \<in> set commons_relations) (edges w)))))"

definition node_summary :: "world \<Rightarrow> node_graph \<Rightarrow> row \<Rightarrow> herr + (string \<times> dict)" where
  "node_summary w closures r =
     bindE (need r ''node_type'') (\<lambda>node_type.
     bindE (need r ''title'') (\<lambda>title.
     bindE (need r ''status'') (\<lambda>status.
     bindE (source_state w closures (r_payload r)) (\<lambda>state.
     Inr (r_id r, [(''node_type'', node_type), (''title'', title), (''status'', public_status status),
                   (''source'', state)])))))"

definition node_summaries ::
  "world \<Rightarrow> row \<Rightarrow> principal \<Rightarrow> string list \<Rightarrow> herr + (string \<times> dict) list" where
  "node_summaries w experiment actor identifiers =
     mapE (node_summary w (graph_reading w (JStr (r_id experiment))))
       (select_rows (\<lambda>r. r_id r \<in> set identifiers \<and> r_kind r = CommonsNode \<and>
          r_project r = pr_project actor \<and> field r ''experiment_id'' = JStr (r_id experiment) \<and>
          in_scope w actor r) w)"

text \<open>One line per recent post of the node's thread; the text is quoted.\<close>

definition post_line :: "row \<Rightarrow> herr + string" where
  "post_line post =
     bindE (if truthy (field post ''abstract'') then Inr (field post ''abstract'')
            else need post ''content'') (\<lambda>content.
     bindE (need post ''post_kind'') (\<lambda>post_kind.
     Inr (take 8 (r_id post) @ '' ['' @ text_of post_kind @ ''] from '' @
          take 8 (text_of (jor (field post ''branch_id'') (JStr ''platform''))) @ '': '' @
          quoted (take 200 (one_line (text_of content))))))"

definition thread_line :: "world \<Rightarrow> principal \<Rightarrow> event_row \<Rightarrow> herr + string list" where
  "thread_line w actor e =
     bindE (dneed (e_payload e) ''post_id'') (\<lambda>post_id.
     case find_json w post_id of
       None \<Rightarrow> Inr []
     | Some post \<Rightarrow>
         if \<not> in_scope w actor post then Inr []
         else bindE (post_line post) (\<lambda>line. Inr [line]))"

definition thread_digest ::
  "world \<Rightarrow> row \<Rightarrow> principal \<Rightarrow> int option \<Rightarrow> herr + (string list \<times> int option)" where
  "thread_digest w row actor before_seq =
     (let topic_id = field row ''topic_id''
      in if \<not> truthy topic_id then Inr ([], None)
         else
           let found = take (recent_posts + 1) (rev (sort_key e_sequence (filter (\<lambda>e.
                 e_project e = r_project row \<and> e_kind e = ''discussion.post_created'' \<and>
                 JStr (e_aggregate e) = topic_id \<and>
                 (case before_seq of None \<Rightarrow> True | Some b \<Rightarrow> e_sequence e < b)) (events w))));
               shown = take recent_posts found
           in bindE (mapE (thread_line w actor) (rev shown)) (\<lambda>lines.
              Inr (concat lines,
                   if recent_posts < length found then Some (e_sequence (last shown)) else None)))"

definition edge_view :: "(string \<times> dict) list \<Rightarrow> string \<times> string \<Rightarrow> dict list" where
  "edge_view views p =
     (case map_of views (snd p) of
        None \<Rightarrow> []
      | Some v \<Rightarrow> [[(''relation'', JStr (fst p)), (''node_id'', JStr (snd p)), (''title'', dget v ''title''),
                   (''status'', dget v ''status'')]])"

text \<open>What a node rests on: its dependencies near to far, those that are seen, whether one of them is
  not proved, and the stubs left to fill.\<close>

definition rests_on_view :: "(string \<times> dict) list \<Rightarrow> string list \<Rightarrow> bool \<Rightarrow> dict" where
  "rests_on_view views rests_on truncated =
     (let seen = List.map_filter (\<lambda>i. map_option (\<lambda>v. (i, v)) (map_of views i)) rests_on;
          states = map (\<lambda>(_, v). dget v ''source'') seen;
          stubs = map fst (filter (\<lambda>(_, v). dget v ''source'' = JStr ''stub'' \<and>
                    dget v ''status'' \<noteq> JStr ''abandoned'') seen)
      in [(''counts'', JObj (map (\<lambda>s. (text_of s, JInt (int (count_list states s)))) (dedup states))),
          (''conditional'', JBool (truncated \<or> list_ex (\<lambda>s. \<not> is_complete s) states)),
          (''truncated'', JBool truncated), (''stubs'', strings (take max_edge_list stubs))])"

definition read_node :: "world \<Rightarrow> string \<Rightarrow> principal \<Rightarrow> int option \<Rightarrow> herr + dict" where
  "read_node w node_id actor before_seq =
     bindE (research_role actor) (\<lambda>_.
     bindE (get_row w CommonsNode (JStr node_id) actor) (\<lambda>row.
     bindE (need row ''experiment_id'') (\<lambda>experiment_id.
     bindE (commons_experiment w experiment_id actor False) (\<lambda>experiment.
     bindE (source_state w (graph_reading w (JStr (r_id experiment))) (r_payload row)) (\<lambda>state.
     let node = dput ''source'' state (r_payload row);
         edges_out = edge_pairs w (r_id row) actor True;
         edges_in = edge_pairs w (r_id row) actor False
     in bindE (experiment_dependencies w experiment) (\<lambda>es.
        let (rests_on, truncated) = depends_closure (dependency_children es None) (r_id row) max_rests_on
        in bindE (node_summaries w experiment actor (map snd (edges_out @ edges_in) @ rests_on))
             (\<lambda>summaries.
           bindE (active_claims w (JStr (r_id row)) (now w)) (\<lambda>claims.
           bindE (thread_digest w row actor before_seq) (\<lambda>(posts, older).
           bindE (goal_receipt w (text_of experiment_id) actor (node # map snd summaries)) (\<lambda>receipt.
           let views = map (\<lambda>(i, s). (i, goal_view s receipt)) summaries
           in Inr [(''node'', JObj (goal_view node receipt)),
                   (''edges_out'', JList (map JObj (concat (map (edge_view views) edges_out)))),
                   (''edges_in'', JList (map JObj (concat (map (edge_view views) edges_in)))),
                   (''rests_on'', JObj (rests_on_view views rests_on truncated)),
                   (''claimants'', JList (map JObj (take max_page claims))),
                   (''recent_posts'', strings posts), (''older_before'', jint older)]))))))))))"

section \<open>The experiment's graph\<close>

definition experiment_nodes :: "world \<Rightarrow> row \<Rightarrow> principal \<Rightarrow> herr + row list" where
  "experiment_nodes w experiment actor =
     (let rows = select_sorted (experiment_node experiment) w
      in if int max_graph_nodes < int (length rows) then Inl graph_too_large
         else Inr (filter (in_scope w actor) rows))"

text \<open>The edges between visible nodes, for exports.\<close>

definition commons_edges ::
  "world \<Rightarrow> string \<Rightarrow> string \<Rightarrow> (string \<Rightarrow> bool) \<Rightarrow> herr + dict list" where
  "commons_edges w project experiment_id visible =
     (let nodes = map r_id (select_rows (\<lambda>r. r_project r = project \<and> r_kind r = CommonsNode \<and>
                    field r ''experiment_id'' = JStr experiment_id) w);
          rows = sort_key (\<lambda>d. (d_source d, d_relation d, d_target d))
            (filter (\<lambda>d. d_project d = project \<and> d_relation d \<in> set commons_relations \<and>
               d_source d \<in> set nodes) (edges w))
      in if max_graph_edges < int (length rows) then Inl graph_too_large
         else Inr (map (\<lambda>d. [(''source'', JStr (d_source d)), (''target'', JStr (d_target d)),
                (''relation'', JStr (drop (length edge_prefix) (d_relation d)))])
              (filter (\<lambda>d. visible (d_source d) \<and> visible (d_target d)) rows)))"

definition item_fields :: "string list" where
  "item_fields = [''id'', ''node_type'', ''title'', ''status'', ''lean_name'', ''citation_count'']"

definition node_item :: "world \<Rightarrow> node_graph \<Rightarrow> dict \<Rightarrow> herr + dict" where
  "node_item w closures node =
     bindE (mapE (\<lambda>k. bindE (dneed node k) (\<lambda>v. Inr (k, v))) item_fields) (\<lambda>item.
     bindE (dneed node ''statement'') (\<lambda>statement.
     bindE (if dget node ''node_type'' = JStr ''goal'' then Inr JNull else node_module node) (\<lambda>module.
     bindE (source_state w closures node) (\<lambda>state.
     Inr (dput ''status'' (public_status (dget item ''status'')) item @
          [(''statement'', JStr (take 300 (text_of statement))), (''module'', module),
           (''source'', state)] @
          (if truthy (dget node ''status_derived'') then [(''status_derived'', JBool True)] else []))))))"

section \<open>The frontier\<close>

text \<open>The nodes of a graph that are open work, by id; a node without an id raises.\<close>

abbreviation id_text :: "dict \<Rightarrow> string" where
  "id_text node \<equiv> text_of (node_id_of node)"

definition open_ids :: "world \<Rightarrow> node_graph \<Rightarrow> dict list \<Rightarrow> herr + string list" where
  "open_ids w closures nodes =
     bindE (mapE (\<lambda>n. bindE (open_work w closures n) (\<lambda>b. Inr (id_text n, b))) nodes) (\<lambda>ps.
     Inr (map fst (filter snd ps)))"

definition goal_id :: "dict list \<Rightarrow> string option" where
  "goal_id nodes =
     map_option id_text (find (\<lambda>n. dget n ''node_type'' = JStr ''goal'') nodes)"

definition waiting_dependents :: "dependency list \<Rightarrow> string list \<Rightarrow> string list \<Rightarrow> string \<Rightarrow> nat" where
  "waiting_dependents es opens visible i =
     length (filter (\<lambda>(s, t). s \<in> set opens \<and> t \<in> set visible \<and> t = i) es)"

definition root_path :: "dependency list \<Rightarrow> string list \<Rightarrow> string option \<Rightarrow> string list" where
  "root_path es visible goal =
     (case goal of
        None \<Rightarrow> []
      | Some g \<Rightarrow> g # fst (depends_closure (dependency_children es (Some (\<lambda>i. i \<in> set visible))) g
                        max_graph_nodes))"

text \<open>\<open>round(x, 4)\<close>.\<close>

definition round4 :: "rat \<Rightarrow> rat" where
  "round4 x = of_int (round_even (x * 10000)) / 10000"

record frontier_item =
  fr_item :: dict
  fr_score :: rat
  fr_root_path :: rat
  fr_waiting :: rat
  fr_neglect :: rat
  fr_claimants :: rat

definition neglect_of :: "int \<Rightarrow> int \<Rightarrow> rat" where
  "neglect_of t last_activity =
     round4 (min (max (of_int (t - last_activity) / 1000000) 0 / 60 / 30) 3)"

definition verified_proofs :: "dict \<Rightarrow> herr + nat" where
  "verified_proofs node =
     (let current = dget (source_of node) ''sha256''
      in bindE (mapE (\<lambda>p. dneed (as_dict p) ''sha256'')
           (as_list (jor (dget node ''in_verified_proof'') (JList [])))) (\<lambda>shas.
         Inr (length (filter (\<lambda>s. s = current) shas))))"

definition frontier_entry ::
  "world \<Rightarrow> node_graph \<Rightarrow> string list \<Rightarrow> (string \<Rightarrow> nat) \<Rightarrow> (json \<Rightarrow> nat) \<Rightarrow> dict \<Rightarrow>
   herr + frontier_item list"
where
  "frontier_entry w closures path waiting claims node =
     bindE (open_work w closures node) (\<lambda>is_work.
     if \<not> is_work then Inr []
     else bindE (dneed node ''last_activity_at'') (\<lambda>active_at.
       bindE (time_of active_at) (\<lambda>last_activity.
       bindE (node_item w closures node) (\<lambda>item.
       bindE (verified_proofs node) (\<lambda>proofs.
       let on_path = (if id_text node \<in> set path then 3 else 0);
           dependents = of_nat (min (waiting (id_text node)) 5);
           neglect = neglect_of (now w) last_activity;
           crowd = - of_nat (claims (node_id_of node))
       in Inr [\<lparr>fr_item = item @ (if proofs = 0 then []
                   else [(''in_verified_proof'', JInt (int proofs))]),
                fr_score = round4 (on_path + dependents + neglect + crowd), fr_root_path = on_path,
                fr_waiting = dependents, fr_neglect = neglect, fr_claimants = crowd\<rparr>])))))"

definition frontier ::
  "world \<Rightarrow> dict list \<Rightarrow> dict list \<Rightarrow> dependency list \<Rightarrow> nat \<Rightarrow> (json \<Rightarrow> nat) \<Rightarrow> herr + frontier_item list"
where
  "frontier w nodes selected es limit claims =
     (let closures = graph_over nodes; visible = map id_text nodes
      in bindE (open_ids w closures nodes) (\<lambda>opens.
         bindE (mapE (frontier_entry w closures (root_path es visible (goal_id nodes))
                  (waiting_dependents es opens visible) claims) selected) (\<lambda>items.
         Inr (take limit (sort_key (\<lambda>f. (- fr_score f, id_text (fr_item f))) (concat items))))))"

section \<open>The long pole\<close>

text \<open>\<open>_long_pole\<close> over ids: the open parts of the goal that wait on nothing open, or else the open nodes
  most open nodes depend on.\<close>

definition waiting_on_open :: "dependency list \<Rightarrow> string list \<Rightarrow> string \<Rightarrow> bool" where
  "waiting_on_open es opens i \<longleftrightarrow> list_ex (\<lambda>(s, t). s = i \<and> s \<in> set opens \<and> t \<in> set opens) es"

definition goal_parts :: "dependency list \<Rightarrow> string list \<Rightarrow> string option \<Rightarrow> string list" where
  "goal_parts es opens goal =
     (case goal of
        None \<Rightarrow> []
      | Some g \<Rightarrow>
          fst (depends_closure (dependency_children es (Some (\<lambda>i. i \<in> set opens \<or> i = g))) g
                 max_graph_nodes))"

definition actionable_parts :: "dependency list \<Rightarrow> string list \<Rightarrow> string option \<Rightarrow> string list" where
  "actionable_parts es opens goal =
     filter (\<lambda>i. i \<in> set opens \<and> \<not> waiting_on_open es opens i) (goal_parts es opens goal)"

definition open_dependents :: "dependency list \<Rightarrow> string list \<Rightarrow> string option \<Rightarrow> string list" where
  "open_dependents es opens goal =
     map snd (filter (\<lambda>(s, t). s \<in> set opens \<and> t \<in> set opens \<and> Some t \<noteq> goal) es)"

definition most_awaited :: "dependency list \<Rightarrow> string list \<Rightarrow> string option \<Rightarrow> string list" where
  "most_awaited es opens goal =
     (let ts = open_dependents es opens goal
      in filter (\<lambda>t. \<forall>u \<in> set ts. count_list ts u \<le> count_list ts t) (dedup ts))"

definition pole_ids :: "dependency list \<Rightarrow> string list \<Rightarrow> string option \<Rightarrow> string list" where
  "pole_ids es opens goal =
     (if actionable_parts es opens goal \<noteq> [] then actionable_parts es opens goal
      else most_awaited es opens goal)"

text \<open>The first three, the oldest first, with how long they have been open and who claims them.\<close>

definition pole_claimants :: "dict list \<Rightarrow> dict \<Rightarrow> herr + dict list" where
  "pole_claimants claims node =
     bindE (mapE (\<lambda>c. bindE (dneed c ''node_id'') (\<lambda>n.
       if n \<noteq> node_id_of node then Inr []
       else bindE (dneed c ''branch_id'') (\<lambda>b.
         Inr [[(''branch_id'', b), (''route'', dget c ''route'')]]))) claims) (\<lambda>found.
     Inr (sort_key (\<lambda>c. text_of (dget c ''branch_id'')) (concat found)))"

definition pole_item :: "world \<Rightarrow> dict list \<Rightarrow> dict \<times> int \<Rightarrow> herr + dict" where
  "pole_item w claims p =
     (let (node, created) = p
      in bindE (dneed node ''node_type'') (\<lambda>node_type.
         bindE (dneed node ''title'') (\<lambda>title.
         bindE (pole_claimants claims node) (\<lambda>claimants.
         Inr [(''id'', node_id_of node), (''node_type'', node_type), (''title'', title),
              (''open_minutes'', JInt (max (now w - created) 0 div 60000000)),
              (''claimants'', JList (map JObj claimants))]))))"

definition long_pole ::
  "world \<Rightarrow> dict list \<Rightarrow> dependency list \<Rightarrow> dict list \<Rightarrow> nat \<Rightarrow> herr + (dict list \<times> bool)" where
  "long_pole w nodes es claims limit =
     bindE (open_ids w (graph_over nodes) nodes) (\<lambda>opens.
     let chosen = pole_ids es opens (goal_id nodes)
     in if chosen = [] then Inr ([], True)
        else bindE (mapE (\<lambda>n. bindE (dneed n ''created_at'') (\<lambda>c.
               bindE (time_of c) (\<lambda>t. Inr (n, t))))
               (filter (\<lambda>n. id_text n \<in> set chosen) nodes)) (\<lambda>pole.
          bindE (mapE (pole_item w claims)
             (take limit (sort_key (\<lambda>(n, t). (t, id_text n)) pole))) (\<lambda>items.
          Inr (items, False))))"

definition goal_long_pole ::
  "world \<Rightarrow> row \<Rightarrow> principal \<Rightarrow> dict list \<Rightarrow> herr + (dict list \<times> bool)" where
  "goal_long_pole w experiment actor claims =
     bindE (experiment_nodes w experiment actor) (\<lambda>rows.
     bindE (experiment_dependencies w experiment) (\<lambda>es.
     long_pole w (map r_payload rows) es claims 3))"

section \<open>Queries\<close>

definition node_statuses :: "string list" where
  "node_statuses = [''open'', ''accepted'', ''refuted'', ''abandoned'']"

definition node_types :: "string list" where
  "node_types = ''goal'' # authored_node_types"

definition source_states :: "string list" where
  "source_states = [''verified'', ''complete'', ''partial'', ''stale'', ''stub'', ''none'']"

record node_query =
  nq_text :: "string option"
  nq_status :: "string option"
  nq_type :: "string option"
  nq_frontier :: bool
  nq_after :: "string option"
  nq_limit :: int
  nq_source :: "string option"

definition known :: "string option \<Rightarrow> string list \<Rightarrow> bool" where
  "known x xs \<longleftrightarrow> (case x of None \<Rightarrow> True | Some s \<Rightarrow> s \<in> set xs)"

definition node_query_ok :: "node_query \<Rightarrow> herr + unit" where
  "node_query_ok q =
     (if \<not> (1 \<le> nq_limit q \<and> nq_limit q \<le> int max_page) then Inl (fail ''INVALID_PAGE_SIZE'' 422)
      else if \<not> known (nq_status q) node_statuses \<or> \<not> known (nq_type q) node_types \<or>
              \<not> known (nq_source q) source_states \<or>
              (case nq_text q of None \<Rightarrow> False | Some t \<Rightarrow> 2000 < length t)
      then Inl (fail ''INVALID_QUERY'' 422)
      else if nq_frontier q \<and> nq_after q \<noteq> None then Inl (fail ''INVALID_QUERY'' 422)
      else Inr ())"

definition remove_prefix :: "string \<Rightarrow> string \<Rightarrow> string" where
  "remove_prefix p s = (if take (length p) s = p then drop (length p) s else s)"

definition node_corpus :: "dict \<Rightarrow> herr + string" where
  "node_corpus node =
     bindE (dneed node ''title'') (\<lambda>title.
     bindE (dneed node ''statement'') (\<lambda>statement.
     bindE (node_module node) (\<lambda>module.
     Inr (join_with '' ''
       [text_of title, text_of statement, text_of (jor (dget node ''lean_statement'') (JStr [])),
        text_of (jor (dget node ''lean_name'') (JStr [])),
        remove_prefix ''Commons.'' (text_of module)]))))"

definition node_matches :: "world \<Rightarrow> node_graph \<Rightarrow> node_query \<Rightarrow> dict \<Rightarrow> herr + bool" where
  "node_matches w closures q node =
     (if nq_status q \<noteq> None \<and> dget node ''status'' \<noteq> jopt (nq_status q) then Inr False
      else if nq_type q \<noteq> None \<and> dget node ''node_type'' \<noteq> jopt (nq_type q) then Inr False
      else bindE (if nq_source q = None then Inr (jopt (nq_source q)) else source_state w closures node)
        (\<lambda>state.
        if nq_source q \<noteq> None \<and> state \<noteq> jopt (nq_source q) then Inr False
        else case nq_text q of
               None \<Rightarrow> Inr True
             | Some t \<Rightarrow> bindE (node_corpus node) (\<lambda>corpus.
                 Inr (list_ex (\<lambda>k. k \<in> set (tokens corpus)) (tokens t)))))"

fun filterE :: "('a \<Rightarrow> 'e + bool) \<Rightarrow> 'a list \<Rightarrow> 'e + 'a list" where
  "filterE f [] = Inr []"
| "filterE f (x # xs) =
     bindE (f x) (\<lambda>b. bindE (filterE f xs) (\<lambda>ys. Inr (if b then x # ys else ys)))"

datatype node_page =
    Listed (listed_items: "dict list") (listed_next: "string option")
  | Frontier (frontier_items: "frontier_item list") (frontier_pole: "dict list") (frontier_hint: bool)

definition list_page ::
  "world \<Rightarrow> node_graph \<Rightarrow> string option \<Rightarrow> nat \<Rightarrow> dict list \<Rightarrow> herr + node_page" where
  "list_page w closures after limit selected0 =
     (let selected = sort_key id_text (filter (\<lambda>n. case after of None \<Rightarrow> True | Some a \<Rightarrow> a < id_text n)
            selected0);
          page = take limit selected
      in bindE (mapE (node_item w closures) page) (\<lambda>items.
         Inr (Listed items (if limit < length selected then Some (id_text (last page)) else None))))"

definition read_nodes :: "world \<Rightarrow> string \<Rightarrow> principal \<Rightarrow> node_query \<Rightarrow> herr + node_page" where
  "read_nodes w experiment_id actor q =
     bindE (commons_experiment w (JStr experiment_id) actor False) (\<lambda>experiment.
     bindE (experiment_nodes w experiment actor) (\<lambda>rows.
     let stored = map r_payload rows
     in bindE (if nq_frontier q then experiment_dependencies w experiment else Inr []) (\<lambda>es.
        let live = live_claim_rows w (r_project experiment) (JStr (r_id experiment)) (now w) None None
        in bindE (if nq_frontier q then long_pole w stored es (map r_payload live) 3
                  else Inr ([], False)) (\<lambda>(pole, hint).
           bindE (goal_receipt w experiment_id actor stored) (\<lambda>receipt.
           let nodes = map (\<lambda>n. goal_view n receipt) stored; closures = graph_over nodes
           in bindE (filterE (node_matches w closures q) nodes) (\<lambda>selected.
              if nq_frontier q then
                bindE (frontier w nodes selected es (nat (nq_limit q))
                  (live_claim_counts w experiment (now w))) (\<lambda>items.
                Inr (Frontier items pole hint))
              else list_page w closures (nq_after q) (nat (nq_limit q)) selected))))))"

text \<open>\<open>query_nodes\<close>: the goal node is made first where the target is reviewed, so a query may write.\<close>

definition query_nodes ::
  "(string \<Rightarrow> string) \<Rightarrow> string \<Rightarrow> principal \<Rightarrow> node_query \<Rightarrow> world \<Rightarrow> herr + (node_page \<times> world)" where
  "query_nodes nfkc experiment_id actor q w =
     bindE (research_role actor) (\<lambda>_.
     bindE (node_query_ok q) (\<lambda>_.
     bindE (ensure_goal_for_read nfkc experiment_id actor w) (\<lambda>w1.
     bindE (read_nodes w1 experiment_id actor q) (\<lambda>page. Inr (page, w1)))))"

section \<open>A branch's claims\<close>

definition branch_claim :: "(string \<times> dict) list \<Rightarrow> row \<Rightarrow> herr + dict list" where
  "branch_claim summaries r =
     bindE (need r ''node_id'') (\<lambda>node_id.
     case map_of summaries (text_of node_id) of
       None \<Rightarrow> Inr []
     | Some s \<Rightarrow> bindE (need r ''expires_at'') (\<lambda>expires_at.
         Inr [dmerge (dmerge [(''node_id'', node_id)] s)
           [(''expires_at'', expires_at), (''route'', field r ''route''),
            (''time_box_until'', field r ''time_box_until'')]]))"

definition branch_claims :: "world \<Rightarrow> string \<Rightarrow> principal \<Rightarrow> int \<Rightarrow> herr + dict list" where
  "branch_claims w experiment_id actor limit =
     bindE (research_role actor) (\<lambda>_.
     if \<not> (1 \<le> limit \<and> limit \<le> int max_page) then Inl (fail ''INVALID_PAGE_SIZE'' 422)
     else if \<not> opt_true (pr_branch actor) then Inr []
     else bindE (commons_experiment w (JStr experiment_id) actor False) (\<lambda>experiment.
       let rows = take (nat limit) (live_claim_rows w (r_project experiment) (JStr (r_id experiment))
             (now w) None (pr_branch actor))
       in bindE (mapE (\<lambda>r. bindE (need r ''node_id'') (\<lambda>n. Inr (text_of n))) rows) (\<lambda>ids.
          bindE (node_summaries w experiment actor ids) (\<lambda>summaries.
          bindE (mapE (branch_claim summaries) rows) (\<lambda>items. Inr (concat items))))))"

section \<open>Compact updates\<close>

text \<open>\<open>compact_update_lines\<close>: one line per delivered item. Only the platform writes a line's mark, kind
  and attribution; titles and excerpts are quoted. The parameter \<open>dots\<close> is the ellipsis character.\<close>

definition show_field :: "dict \<Rightarrow> string \<Rightarrow> string" where
  "show_field item k = one_line (text_of (jor (dget item k) (JStr [])))"

definition rstrip :: "string \<Rightarrow> string" where
  "rstrip s = rev (dropWhile is_space (rev s))"

definition compact_excerpt :: "char \<Rightarrow> dict \<Rightarrow> string" where
  "compact_excerpt dots item =
     (let excerpt = show_field item ''excerpt'';
          longer = 200 < length excerpt \<or> truthy (dget item ''truncated'')
      in quoted (one_line (rstrip (take 200 excerpt))) @ (if longer then [dots] else []))"

definition compact_line :: "char \<Rightarrow> dict \<Rightarrow> herr + string" where
  "compact_line dots item =
     (if dget item ''source_kind'' = JStr ''withdrawal''
      then Inr (''[withdrawn] '' @ show_field item ''excerpt'')
      else
        let who = take 8 (text_of (jor (dget item ''branch_id'') (JStr ''platform'')));
            excerpt = compact_excerpt dots item
        in if dget item ''source_kind'' = JStr ''message'' then
             bindE (dneed item ''id'') (\<lambda>i.
             Inr (''[message] from '' @ who @ '': '' @ excerpt @ '' (message_id '' @
                  take 8 (text_of i) @ '')''))
           else
             bindE (dneed item ''post_kind'') (\<lambda>post_kind.
             bindE (dneed item ''id'') (\<lambda>i.
             let mark = (if truthy (dget item ''urgent'') then ''! '' else []);
                 place = (if truthy (dget item ''node_id'')
                   then '' on '' @ take 8 (text_of (dget item ''node_id'')) @ '' '' @
                        quoted (take 80 (show_field item ''node_title''))
                   else [])
             in Inr (mark @ ''['' @ text_of post_kind @ '']'' @ place @ '' from '' @ who @ '': '' @
                     excerpt @ '' (post_id '' @ take 8 (text_of i) @ '')''))))"

definition compact_update_lines :: "char \<Rightarrow> string \<Rightarrow> dict list \<Rightarrow> herr + string" where
  "compact_update_lines dots header items =
     bindE (mapE (compact_line dots) items) (\<lambda>lines.
     Inr (join_with [CHR 0x0A] (header # lines)))"

section \<open>What the loops over nodes say\<close>

lemma mapE_Inr_iff: "mapE f xs = Inr ys \<longleftrightarrow> list_all2 (\<lambda>x y. f x = Inr y) xs ys"
proof (induction xs arbitrary: ys)
  case (Cons x xs)
  then show ?case by (cases ys) (auto simp: bindE_Inr_iff)
qed auto

lemma mapE_length: "mapE f xs = Inr ys \<Longrightarrow> length ys = length xs"
  by (simp add: mapE_Inr_iff list_all2_lengthD)

lemma mapE_in: "mapE f xs = Inr ys \<Longrightarrow> y \<in> set ys \<Longrightarrow> \<exists>x \<in> set xs. f x = Inr y"
  by (induction xs arbitrary: ys) (auto simp: bindE_Inr_iff)

lemma open_ids_in:
  assumes "open_ids w g nodes = Inr opens" "i \<in> set opens"
  shows "\<exists>n \<in> set nodes. i = id_text n \<and> open_work w g n = Inr True"
proof -
  obtain ps where ps: "mapE (\<lambda>n. bindE (open_work w g n) (\<lambda>b. Inr (id_text n, b))) nodes = Inr ps"
    and "opens = map fst (filter snd ps)"
    using assms(1) by (auto simp: open_ids_def bindE_Inr_iff)
  then have "(i, True) \<in> set ps" using assms(2) by force
  from mapE_in [OF ps this] show ?thesis by (auto simp: bindE_Inr_iff)
qed

section \<open>The long pole\<close>

text \<open>The open nodes the goal reaches through open nodes.\<close>

definition open_path :: "dependency list \<Rightarrow> string list \<Rightarrow> string \<Rightarrow> string \<Rightarrow> bool" where
  "open_path es opens g = (\<lambda>a b. (a, b) \<in> set es \<and> (a \<in> set opens \<or> a = g) \<and> b \<in> set opens)\<^sup>+\<^sup>+ g"

lemma open_path_target: "open_path es opens g x \<Longrightarrow> x \<in> set opens"
  unfolding open_path_def by (induction rule: tranclp_induct) auto

lemma goal_parts_reach:
  assumes "x \<in> set (goal_parts es opens (Some g))" "x \<in> set opens" 
  shows "open_path es opens g x"
proof -
  let ?within = "\<lambda>i. i \<in> set opens \<or> i = g"
  let ?ch = "dependency_children es (Some ?within)"
  obtain reached hit where r: "depends_closure ?ch g max_graph_nodes = (reached, hit)" by fastforce
  note c = depends_closure_reaches [OF r]
  have "x \<in> set reached" using assms(1) r by (simp add: goal_parts_def)
  then have "(depends ?ch)\<^sup>*\<^sup>* g x" "x \<noteq> g" using c(2,5) by auto
  moreover have "a = g \<or> a \<in> set opens \<and> open_path es opens g a" if "(depends ?ch)\<^sup>*\<^sup>* g a" for a
    using that
  proof (induction rule: rtranclp_induct)
    case (step a b)
    then have "(a, b) \<in> set es" "?within a" "?within b" by simp_all
    then show ?case
      using step.IH unfolding open_path_def
      by (cases "b = g") (auto intro: tranclp.r_into_trancl tranclp.trancl_into_trancl)
  qed simp
  ultimately show ?thesis by blast
qed

lemma open_path_parts:
  assumes "open_path es opens g x" "x \<noteq> g" and "set opens \<union> {g} \<subseteq> ids" "finite ids" "card ids \<le> max_graph_nodes"
  shows "x \<in> set (goal_parts es opens (Some g))"
proof -
  let ?within = "\<lambda>i. i \<in> set opens \<or> i = g"
  let ?ch = "dependency_children es (Some ?within)"
  obtain reached hit where r: "depends_closure ?ch g max_graph_nodes = (reached, hit)" by fastforce
  note c = depends_closure_reaches [OF r]
  have "y \<in> set opens \<or> y = g" if "(depends ?ch)\<^sup>*\<^sup>* g y" for y
    using that by (induction rule: rtranclp_induct) auto
  then have "set reached \<subseteq> ids - {g}" using c(2,5) assms(3) by auto
  then have "length reached \<le> card (ids - {g})"
    using c(1) assms(4) by (metis card_mono distinct_card finite_Diff)
  then have "length reached < max_graph_nodes"
    using assms(3,4,5) card_Diff1_less [of ids g] by auto
  then have full: "insert g (set reached) = {y. (depends ?ch)\<^sup>*\<^sup>* g y}" using c(4,6) by auto
  have "(depends ?ch)\<^sup>*\<^sup>* g x"
    using assms(1) unfolding open_path_def
    by (induction rule: tranclp_induct) (auto intro: rtranclp.rtrancl_into_rtrancl)
  then have "x \<in> set reached" using full assms(2) by blast
  then show ?thesis by (simp add: goal_parts_def r)
qed

lemma open_path_sink:
  assumes "acyclic (set es)" "open_path es opens g x0"
  obtains x where "open_path es opens g x" "x \<noteq> g" "\<not> waiting_on_open es opens x"
proof -
  have "wf ((set es)\<inverse>)" by (rule finite_acyclic_wf_converse) (use assms(1) in auto)
  then obtain x where x: "open_path es opens g x" and min: "\<And>y. (x, y) \<in> set es \<Longrightarrow> \<not> open_path es opens g y"
    using assms(2) wfE_min [of "(set es)\<inverse>" x0 "Collect (open_path es opens g)"] by auto
  have "\<not> waiting_on_open es opens x"
  proof
    assume "waiting_on_open es opens x"
    then obtain t where "(x, t) \<in> set es" "t \<in> set opens"
      by (auto simp: waiting_on_open_def list_ex_iff)
    then have "open_path es opens g t"
      using x open_path_target [OF x] unfolding open_path_def by (auto intro: tranclp.trancl_into_trancl)
    then show False using min \<open>(x, t) \<in> set es\<close> by blast
  qed
  moreover have "(a, b) \<in> (set es)\<^sup>+" if "(\<lambda>a b. (a, b) \<in> set es \<and> (a \<in> set opens \<or> a = g) \<and> b \<in> set opens)\<^sup>+\<^sup>+ a b" for a b
    using that by (induction rule: tranclp_induct) (auto intro: trancl_into_trancl)
  then have "x \<noteq> g" using x assms(1) by (auto simp: open_path_def acyclic_def)
  ultimately show ?thesis using x that by blast
qed

lemma actionable_iff:
  assumes "x \<in> set (actionable_parts es opens (Some g))"
  shows "open_path es opens g x" "x \<in> set opens" "(x, t) \<in> set es \<Longrightarrow> t \<notin> set opens"
  using assms goal_parts_reach
  by (auto simp: actionable_parts_def waiting_on_open_def list_ex_iff)

lemma pole_ids_actionable:
  assumes "acyclic (set es)" "open_path es opens g x0"
    and "set opens \<union> {g} \<subseteq> ids" "finite ids" "card ids \<le> max_graph_nodes"
  shows "pole_ids es opens (Some g) = actionable_parts es opens (Some g)" "pole_ids es opens (Some g) \<noteq> []"
proof -
  obtain x where x: "open_path es opens g x" "x \<noteq> g" "\<not> waiting_on_open es opens x"
    using open_path_sink [OF assms(1,2)] by blast
  then have "x \<in> set (actionable_parts es opens (Some g))"
    using open_path_parts [OF x(1,2) assms(3-5)] open_path_target [OF x(1)]
    by (simp add: actionable_parts_def)
  then show "pole_ids es opens (Some g) = actionable_parts es opens (Some g)"
    "pole_ids es opens (Some g) \<noteq> []"
    by (auto simp: pole_ids_def)
qed

lemma long_pole_items:
  assumes "long_pole w nodes es claims limit = Inr (items, hint)"
    and "open_ids w (graph_over nodes) nodes = Inr opens"
    and "goal_id nodes = Some g" "acyclic (set es)" "open_path es opens g x0"
    and "length nodes \<le> max_graph_nodes" "0 < limit"
  shows "\<not> hint \<and> items \<noteq> [] \<and> length items \<le> limit \<and>
    (\<forall>item \<in> set items. id_text item \<in> set (actionable_parts es opens (Some g)))"
proof -
  let ?ids = "set (map id_text nodes)"
  have sub: "set opens \<union> {g} \<subseteq> ?ids"
    using open_ids_in [OF assms(2)] assms(3) by (fastforce simp: goal_id_def dest: find_SomeD)
  have "card ?ids \<le> max_graph_nodes" using card_length [of "map id_text nodes"] assms(6) by simp
  note pole = pole_ids_actionable [OF assms(4,5) sub _ this]
  let ?chosen = "actionable_parts es opens (Some g)"
  have ne: "?chosen \<noteq> []" using pole by simp
  obtain timed where t: "mapE (\<lambda>n. bindE (dneed n ''created_at'') (\<lambda>c. bindE (time_of c) (\<lambda>t. Inr (n, t))))
        (filter (\<lambda>n. id_text n \<in> set ?chosen) nodes) = Inr timed"
    and i: "mapE (pole_item w claims) (take limit (sort_key (\<lambda>(n, t). (t, id_text n)) timed)) = Inr items"
    and h: "\<not> hint"
    using assms(1) pole by (auto simp: long_pole_def Let_def bindE_Inr_iff assms(2,3) split: if_splits)
  have "\<exists>n \<in> set nodes. id_text n \<in> set ?chosen"
    using ne sub actionable_iff(2) [of _ es opens g] by (cases ?chosen) fastforce+
  then have "filter (\<lambda>n. id_text n \<in> set ?chosen) nodes \<noteq> []" by (auto simp: filter_empty_conv)
  then have "timed \<noteq> []" using mapE_length [OF t] by auto
  then have "items \<noteq> []" using mapE_length [OF i] assms(7) by (cases timed) auto
  moreover have "length items \<le> limit" using mapE_length [OF i] by simp
  moreover have "id_text item \<in> set ?chosen" if it: "item \<in> set items" for item
  proof -
    obtain n c where "(n, c) \<in> set timed" "pole_item w claims (n, c) = Inr item"
      using mapE_in [OF i it] by (auto dest: in_set_takeD)
    then show ?thesis
      using mapE_in [OF t, of "(n, c)"] by (auto simp: pole_item_def bindE_Inr_iff)
  qed
  ultimately show ?thesis using h by blast
qed

section \<open>Acceptance\<close>

text \<open>A view that says accepted of an open goal carries a receipt that the one acceptance predicate
  takes, for the target the experiment has now.\<close>

lemma verified_target_receipt_InrD:
  assumes "verified_target_receipt w e actor = Inr (Some r)"
  shows "\<exists>experiment receipt. get_row w Experiment (JStr e) actor = Inr experiment \<and>
    receipt \<in> set (records w) \<and> dget r ''receipt_id'' = JStr (r_id receipt) \<and>
    current_receipt actor e (field experiment ''target_digest'') receipt \<and>
    accepted_evidence w receipt experiment [''independent_kernel'']"
proof -
  obtain ex digest where "get_row w Experiment (JStr e) actor = Inr ex"
    and d: "need ex ''target_digest'' = Inr digest"
    and "map_option (\<lambda>r. [(''receipt_id'', JStr (r_id r)), (''target_digest'', digest)])
       (find (\<lambda>r. accepted_evidence w r ex [''independent_kernel''])
          (select_sorted (current_receipt actor e digest) w)) = Some r"
    using assms by (auto simp: verified_target_receipt_def bindE_Inr_iff)
  then show ?thesis
    using need_field [OF d] by (auto simp: select_sorted_def dest!: find_SomeD)
qed

lemma goal_view_accepted:
  assumes "dget (goal_view item receipt) ''status'' = JStr ''accepted''" "is_open (dget item ''status'')"
  shows "\<exists>r. receipt = Some r \<and> dget item ''node_type'' = JStr ''goal'' \<and>
    dget (goal_view item receipt) ''status_evidence'' = JObj [(''receipt_id'', dget r ''receipt_id'')]"
proof (cases receipt)
  case None
  then show ?thesis using assms by (auto simp: goal_view_def is_open_def)
next
  case (Some r)
  have "open_goal (dput ''status'' (public_status (dget item ''status'')) item)"
    using assms Some by (auto simp: goal_view_def is_open_def Let_def split: if_splits)
  then show ?thesis using Some by (simp add: goal_view_def open_goal_def Let_def)
qed

text \<open>C12. A node reads as accepted on evidence alone. Where the stored status is still open, a read that
  shows it accepted is of the goal, and names the receipt it rests on: a verified record of the
  independent kernel for the experiment's target as it is now, which the one acceptance predicate
  takes.\<close>

theorem acceptance_is_evidenced:
  assumes "read_node w i actor since = Inr view" and "find_row w i = Some row"
    and "is_open (field row ''status'')"
    and "dget view ''node'' = JObj node" and "dget node ''status'' = JStr ''accepted''"
  shows "field row ''node_type'' = JStr ''goal'' \<and>
    (\<exists>experiment receipt. receipt \<in> set (records w) \<and>
       get_row w Experiment (JStr (text_of (field row ''experiment_id''))) actor = Inr experiment \<and>
       dget node ''status_evidence'' = JObj [(''receipt_id'', JStr (r_id receipt))] \<and>
       field receipt ''status'' = JStr ''verified'' \<and>
       field receipt ''assurance'' = JStr ''independent_kernel'' \<and>
       field receipt ''target_digest'' = field experiment ''target_digest'' \<and>
       accepted_evidence w receipt experiment [''independent_kernel''])"
proof -
  obtain row' e ex state receipt items where g: "get_row w CommonsNode (JStr i) actor = Inr row'"
    "need row' ''experiment_id'' = Inr e"
    "goal_receipt w (text_of e) actor items = Inr receipt"
    "node = goal_view (dput ''source'' state (r_payload row')) receipt"
    using assms(1,4) unfolding read_node_def bindE_Inr_iff Let_def split_def by auto
  have row: "row' = row" using get_row_InrD(1,2) [OF g(1)] assms(2) by auto
  obtain r where r: "receipt = Some r" "field row ''node_type'' = JStr ''goal''"
      "dget node ''status_evidence'' = JObj [(''receipt_id'', dget r ''receipt_id'')]"
    using goal_view_accepted [of "dput ''source'' state (r_payload row)" receipt] assms(3,5) g(4)
    by (auto simp: row)
  then have "verified_target_receipt w (text_of e) actor = Inr (Some r)"
    using g(3) by (auto simp: goal_receipt_def split: if_splits)
  moreover have "e = field row ''experiment_id''" using need_field [OF g(2)] by (simp add: row)
  ultimately show ?thesis
    using verified_target_receipt_InrD r(2,3) by (fastforce simp: current_receipt_def)
qed

text \<open>The sample society with its goal node; the independent receipt of the first artifact is in.\<close>

definition sample_goal :: row where
  "sample_goal = sample_row CommonsNode ''g''
     [(''experiment_id'', JStr ''e''), (''node_type'', JStr ''goal''), (''title'', JStr ''target''),
      (''statement'', JStr ''s''), (''status'', JStr ''open''), (''lean_name'', JNull),
      (''citation_count'', JInt 0)]"

definition evidenced :: world where
  "evidenced = society\<lparr>records := records society @ [sample_goal]\<rparr>"

theorem acceptance_is_evidenced_witness:
  "\<exists>view node receipt. read_node evidenced ''g'' sample_agent None = Inr view \<and>
     dget view ''node'' = JObj node \<and> dget node ''status'' = JStr ''accepted'' \<and>
     receipt \<in> set (records evidenced) \<and> field receipt ''assurance'' = JStr ''independent_kernel''"
proof -
  have "case read_node evidenced ''g'' sample_agent None of Inl _ \<Rightarrow> False
    | Inr view \<Rightarrow> (case dget view ''node'' of JObj node \<Rightarrow> dget node ''status'' = JStr ''accepted''
                  | _ \<Rightarrow> False)"
    by code_simp
  then obtain view node where v: "read_node evidenced ''g'' sample_agent None = Inr view"
      "dget view ''node'' = JObj node" "dget node ''status'' = JStr ''accepted''"
    by (auto split: sum.splits json.splits)
  have "find_row evidenced ''g'' = Some sample_goal" "is_open (field sample_goal ''status'')" by code_simp+
  from acceptance_is_evidenced [OF v(1) this v(2,3)] v show ?thesis by blast
qed

end
