(* ===== verification/Frontier.thy ===== *)
theory Frontier
  imports NodeReads Blueprint
begin

text \<open>
  Where the reads of the commons meet its writes: on whatever graph the commands leave, the long pole of
  a goal with open parts is work that can start.
\<close>

lemma experiment_dependencies_within:
  assumes "experiment_dependencies w ex = Inr es"
  shows "set es \<subseteq> dependencies w"
  using assms by (auto simp: experiment_dependencies_def dependencies_def Let_def split: if_splits)

lemma experiment_nodes_few:
  "experiment_nodes w ex actor = Inr rows \<Longrightarrow> length rows \<le> max_graph_nodes"
  by (auto simp: experiment_nodes_def Let_def intro: le_trans [OF length_filter_le] split: if_splits)

text \<open>C6. The long pole can be worked on. After any run of commons commands, when the goal reaches open
  work through open nodes, the reading of the long pole shows at least one node and at most three, no
  hint, and every node it shows is open, is reached by the goal through open nodes, and depends on no
  open node. It never falls back on the most awaited nodes, whatever the claims.\<close>

theorem long_pole_is_actionable:
  fixes cs nfkc arrow w0
  defines "w \<equiv> run (commons_step nfkc arrow) cs w0"
  assumes "commons_ok w0"
    and "goal_long_pole w ex actor claims = Inr (items, hint)"
    and "experiment_nodes w ex actor = Inr rows" and "experiment_dependencies w ex = Inr es"
    and "open_ids w (graph_over (map r_payload rows)) (map r_payload rows) = Inr opens"
    and "goal_id (map r_payload rows) = Some g" and "open_path es opens g part"
  shows "\<not> hint \<and> items \<noteq> [] \<and> length items \<le> 3 \<and>
    (\<forall>item \<in> set items. id_text item \<in> set opens \<and> open_path es opens g (id_text item) \<and>
       (\<forall>t. (id_text item, t) \<in> set es \<longrightarrow> t \<notin> set opens))"
proof -
  have "acyclic (dependencies w)"
    using commons_machine.run_inv [OF assms(2)] by (simp add: commons_ok_def w_def)
  then have ac: "acyclic (set es)"
    using experiment_dependencies_within [OF assms(5)] by (rule acyclic_subset)
  have l: "long_pole w (map r_payload rows) es claims 3 = Inr (items, hint)"
    using assms(3-5) by (simp add: goal_long_pole_def)
  have p: "\<not> hint \<and> items \<noteq> [] \<and> length items \<le> 3 \<and>
    (\<forall>item \<in> set items. id_text item \<in> set (actionable_parts es opens (Some g)))"
    using long_pole_items [OF l assms(6,7) ac assms(8)] experiment_nodes_few [OF assms(4)] by simp
  then show ?thesis using actionable_iff by blast
qed

text \<open>The sample graph with its goal: the goal rests on the first branch's lemma, which rests on the
  second branch's.\<close>

definition aimed :: world where
  "aimed = linked\<lparr>records := records linked @ [sample_goal],
     edges := edges linked @
       [\<lparr>d_source = ''g'', d_target = ''n2'', d_relation = depends_on, d_project = ''p''\<rparr>]\<rparr>"

lemma aimed_ok: "commons_ok aimed"
proof -
  have "distinct (map r_id (records aimed))" "list_all row_ok (records aimed)" by code_simp+
  moreover have d: "dependencies aimed = {(''n2'', ''nd''), (''g'', ''n2'')}"
    by (simp add: dependencies_def linked_def aimed_def) force
  moreover have "edge_placed aimed d" if "d \<in> set (edges aimed)" for d
  proof -
    have "find_row aimed ''n2'' = Some second_node" "find_row aimed ''nd'' = Some sample_node"
      "find_row aimed ''g'' = Some sample_goal" by code_simp+
    then show ?thesis
      using that by (auto simp: aimed_def linked_def edge_placed_def second_node_def sample_node_def
          sample_goal_def sample_row_def dget_def)
  qed
  moreover have "acyclic {(''n2'', ''nd''), (''g'', ''n2'')}"
    by (rule acyclicI_order [where f = "\<lambda>i. if i = ''g'' then 2 else if i = ''n2'' then 1 else (0::nat)"]) auto
  ultimately show ?thesis by (simp add: commons_ok_def records_ok_def list_all_iff)
qed

text \<open>The other branch's lemma is the pole: the first branch's still waits on it.\<close>

theorem long_pole_is_actionable_witness:
  "\<exists>items hint. goal_long_pole (run (commons_step (\<lambda>s. s) (CHR ''>'')) [] aimed) society_experiment
       sample_agent [] = Inr (items, hint) \<and> items \<noteq> [] \<and> map id_text items = [''nd'']"
proof -
  let ?w = "run (commons_step (\<lambda>s. s) (CHR ''>'')) [] aimed"
  let ?rows = "filter (\<lambda>r. r_kind r = CommonsNode) (select_sorted (\<lambda>r. True) aimed)"
  let ?es = "[(''n2'', ''nd''), (''g'', ''n2'')]"
  have run: "case goal_long_pole ?w society_experiment sample_agent [] of Inl _ \<Rightarrow> False
      | Inr (items, hint) \<Rightarrow> map id_text items = [''nd'']" by code_simp
  then obtain items hint where p: "goal_long_pole ?w society_experiment sample_agent [] = Inr (items, hint)"
      "map id_text items = [''nd'']" by (auto split: sum.splits)
  have r: "experiment_nodes ?w society_experiment sample_agent = Inr ?rows" by code_simp
  have e: "experiment_dependencies ?w society_experiment = Inr ?es" by code_simp
  have o: "open_ids ?w (graph_over (map r_payload ?rows)) (map r_payload ?rows) =
      Inr [''g'', ''n2'', ''nd'']" by code_simp
  have g: "goal_id (map r_payload ?rows) = Some ''g''" by code_simp
  have path: "open_path ?es [''g'', ''n2'', ''nd''] ''g'' ''n2''"
    unfolding open_path_def by (rule tranclp.r_into_trancl) simp
  have "items \<noteq> []" using long_pole_is_actionable [OF aimed_ok p(1) r e o g path] by (rule conjunct1 [OF conjunct2])
  then show ?thesis using p by (intro exI conjI)
qed

end
