(* ===== verification/Node_Writers.thy ===== *)
theory Node_Writers
  imports Publishing Frontier
begin

text \<open>
  The other commands that write nodes (\<open>commons_review.py\<close>): a Lean statement with its elaboration, and
  the acceptance of a goal on an independent receipt, with the provenance the proof leaves on the nodes
  it imported. Then runs of all of them, and what no run changes of a node. \<open>depth\<close>, \<open>escaped_name\<close>
  and \<open>remedy\<close> are the gate's parameters, \<open>nfkc\<close> and \<open>arrow\<close> those of the commons. A referee's
  review only touches the activity of its node and is not among the commands. The entries of
  \<open>commons_modules\<close> and \<open>in_verified_proof\<close> are the platform's and carry their keys.
\<close>

section \<open>Lean statements\<close>

record lean_request =
  lr_header :: "string option"
  lr_name :: string
  lr_statement :: string
  lr_ok :: bool
  lr_backend :: string
  lr_diagnostics :: string

text \<open>The pattern \<open>SHA256\<close>, and the request as it is validated.\<close>

definition sha256_ok :: "string \<Rightarrow> bool" where
  "sha256_ok s \<longleftrightarrow>
     length s = 64 \<and> list_all (\<lambda>c. is_digit_char c \<or> CHR ''a'' \<le> c \<and> c \<le> CHR ''f'') s"

definition lean_request_ok :: "lean_request \<Rightarrow> bool" where
  "lean_request_ok r \<longleftrightarrow>
     pred_option (\<lambda>h. length h \<le> 2000) (lr_header r) \<and> lean_name_ok (lr_name r) \<and>
     bounded 1 20000 (lr_statement r) \<and> bounded 1 200 (lr_backend r) \<and>
     sha256_ok (lr_diagnostics r) \<and> strip (lr_statement r) \<noteq> []"

definition lean_request_data :: "lean_request \<Rightarrow> dict" where
  "lean_request_data r =
     [(''lean_header'', jopt (lr_header r)), (''lean_name'', JStr (lr_name r)),
      (''lean_statement'', JStr (lr_statement r)),
      (''elaboration'', JObj [(''ok'', JBool (lr_ok r)), (''backend'', JStr (lr_backend r)),
         (''diagnostics_sha256'', JStr (lr_diagnostics r))])]"

definition lean_writer :: "dict \<Rightarrow> json" where
  "lean_writer node =
     jor (dget node ''lean_writer'')
       (jor (dget node ''branch_id'') (JStr (''actor:'' @ text_of (dget node ''origin_actor_id''))))"

definition may_formalize :: "world \<Rightarrow> row \<Rightarrow> principal \<Rightarrow> herr + bool" where
  "may_formalize w row actor =
     (let node = r_payload row
      in if author_may row actor then Inr True
         else bindE (need row ''experiment_id'') (\<lambda>e.
           bindE (source_state w (graph_reading w e) node) (\<lambda>state.
           if state = JStr ''verified'' \<or>
              dget node ''lean_statement'' \<noteq> JNull \<and> truthy (dget node ''lean_elaborated'') \<and>
              lean_writer node \<noteq> JStr (writer_of actor)
           then Inr False
           else if \<not> opt_true (pr_branch actor) then Inr False
           else bindE (active_claims w (JStr (r_id row)) (now w)) (\<lambda>claims.
             Inr (list_ex (\<lambda>c. dget c ''branch_id'' = jopt (pr_branch actor)) claims)))))"

text \<open>The fields written: an unchanged statement keeps its digest and its writer.\<close>

definition statement_fields :: "world \<Rightarrow> dict \<Rightarrow> lean_request \<Rightarrow> principal \<Rightarrow> herr + dict" where
  "statement_fields w node request actor =
     bindE (dneed node ''lean_statement_sha256'') (\<lambda>previous.
     let header = jopt (lr_header request); name = JStr (lr_name request);
         statement = JStr (lr_statement request);
         renewed = (jor (dget node ''lean_header'') (JStr []) \<noteq> jor header (JStr []) \<or>
           dget node ''lean_name'' \<noteq> name \<or> dget node ''lean_statement'' \<noteq> statement \<or> previous = JNull)
     in Inr [(''lean_header'', header), (''lean_name'', name), (''lean_statement'', statement),
          (''lean_statement_sha256'', if renewed then lean_digest w header name statement else previous),
          (''lean_elaborated'', JBool (lr_ok request)),
          (''lean_writer'', if renewed then JStr (writer_of actor) else lean_writer node)])"

definition dependent_count :: "world \<Rightarrow> row \<Rightarrow> int" where
  "dependent_count w row =
     int (length (filter (\<lambda>d. d_project d = r_project row \<and> d_target d = r_id row \<and>
       d_relation d = depends_on) (edges w)))"

definition lean_statement_action :: "string \<Rightarrow> lean_request \<Rightarrow> principal \<Rightarrow> action" where
  "lean_statement_action node_id request actor op w =
     bindE (get_row w CommonsNode (JStr node_id) actor) (\<lambda>row.
     bindE (need row ''experiment_id'') (\<lambda>e.
     bindE (commons_experiment w e actor True) (\<lambda>experiment.
     bindE (need row ''node_type'') (\<lambda>k.
     if k = JStr ''goal'' then Inl (fail ''GOAL_NODE_RESERVED'' 403)
     else bindE (need row ''status'') (\<lambda>status.
     if \<not> is_open status then Inl (fail ''NODE_CLOSED'' 409)
     else bindE (may_formalize w row actor) (\<lambda>allowed.
     if \<not> allowed then Inl (fail ''NODE_AUTHORITY'' 403)
     else bindE (statement_fields w (r_payload row) request actor) (\<lambda>vals.
     bindE (replace_row w row vals None) (\<lambda>(_, w1).
     let w2 = emit actor op ''commons.lean_statement_set'' (r_id row)
           [(''experiment_id'', JStr (r_id experiment)), (''node_id'', JStr (r_id row)),
            (''lean_statement_sha256'', dget vals ''lean_statement_sha256''),
            (''lean_elaborated'', JBool (lr_ok request)), (''backend'', JStr (lr_backend request)),
            (''diagnostics_sha256'', JStr (lr_diagnostics request)),
            (''branch_id'', jopt (pr_branch actor))] False w1
     in case find_row w2 (r_id row) of
          None \<Rightarrow> Inl (ValueError ''node'')
        | Some fresh \<Rightarrow>
            bindE (touch_node fresh actor op w2) (\<lambda>w3.
            case find_row w3 (r_id row) of
              None \<Rightarrow> Inl (ValueError ''node'')
            | Some touched \<Rightarrow>
                Inr (dput ''dependents'' (JInt (dependent_count w3 row)) (r_payload touched), w3))))))))))"

definition set_lean_statement ::
  "nat \<Rightarrow> string \<Rightarrow> int \<Rightarrow> string \<Rightarrow> lean_request \<Rightarrow> principal \<Rightarrow> string \<Rightarrow> world \<Rightarrow>
   herr + (dict \<times> world)" where
  "set_lean_statement depth escaped_name elapsed node_id request actor key w =
     bindE (research_role actor) (\<lambda>_.
     if \<not> lean_request_ok request then Inl (fail ''INVALID_LEAN_STATEMENT'' 422)
     else if header_problem (sha256_of w) depth (jopt (lr_header request)) \<noteq> None \<or>
             signature_problem (sha256_of w) depth (JStr (lr_statement request)) \<noteq> None
     then Inl (fail ''INVALID_LEAN_STATEMENT'' 422)
     else if refused_command (sha256_of w) depth escaped_name
               (text_of (jor (jopt (lr_header request)) (JStr [])) @ [newline] @ lr_statement request) \<noteq> None
     then Inl (fail ''INVALID_LEAN_STATEMENT'' 422)
     else execute elapsed actor key ''commons.lean_statement''
       (JObj ((''node_id'', JStr node_id) # lean_request_data request))
       (lean_statement_action node_id request actor) w)"

section \<open>Goal acceptance\<close>

definition max_proof_receipts :: nat where "max_proof_receipts = 20"

text \<open>One entry of the receipt's modules: the node still holds the very source that was inlined.\<close>

definition record_proof_import :: "row \<Rightarrow> row \<Rightarrow> json \<Rightarrow> world \<Rightarrow> herr + world" where
  "record_proof_import experiment receipt entry w =
     (let sha = dget (as_dict entry) ''sha256''
      in if truthy (dget (as_dict entry) ''stale'') \<or> \<not> truthy sha then Inr w
         else case find_json w (jor (dget (as_dict entry) ''node_id'') (JStr [])) of
           None \<Rightarrow> Inr w
         | Some row \<Rightarrow>
             if \<not> experiment_node experiment row \<or> dget (source_of (r_payload row)) ''sha256'' \<noteq> sha
             then Inr w
             else bindE (statement_state w (r_payload row)) (\<lambda>state.
               let proofs = as_list (jor (field row ''in_verified_proof'') (JList []))
               in if state = JStr ''stale'' \<or> max_proof_receipts \<le> length proofs \<or>
                     list_ex (\<lambda>p. dget (as_dict p) ''receipt_id'' = JStr (r_id receipt)) proofs
                  then Inr w
                  else bindE (replace_row w row [(''in_verified_proof'', JList (proofs @
                         [JObj [(''receipt_id'', JStr (r_id receipt)), (''sha256'', sha)]]))] None)
                       (\<lambda>(_, w1). Inr w1)))"

definition record_proof_imports :: "row \<Rightarrow> row \<Rightarrow> world \<Rightarrow> herr + world" where
  "record_proof_imports experiment receipt w =
     foldE (record_proof_import experiment receipt)
       (take max_commons_modules (as_list (jor (field receipt ''commons_modules'') (JList [])))) w"

definition goal_accepted ::
  "(string \<Rightarrow> string) \<Rightarrow> char \<Rightarrow> row \<Rightarrow> string \<Rightarrow> string \<Rightarrow> world \<Rightarrow> herr + (dict option \<times> world)" where
  "goal_accepted nfkc arrow experiment receipt_id op w =
     (if \<not> truthy (field experiment ''society'') then Inr (None, w)
      else case find_row w receipt_id of
        None \<Rightarrow> Inr (None, w)
      | Some receipt \<Rightarrow>
          if \<not> accepted_evidence w receipt experiment [''independent_kernel''] then Inr (None, w)
          else bindE (goal_node nfkc experiment (Some op) w) (\<lambda>(_, w1).
            case goal_row w1 experiment of
              None \<Rightarrow> Inl (ValueError ''goal'')
            | Some goal \<Rightarrow>
                bindE (need goal ''status'') (\<lambda>status.
                bindE (if ''accepted'' \<in> set (allowed_transitions status)
                       then bindE (set_node_status arrow goal ''accepted'' ''independent kernel receipt''
                              [(''receipt_id'', JStr receipt_id)] op None w1) (\<lambda>(d, v). Inr (Some d, v))
                       else Inr (None, w1)) (\<lambda>(accepted, w2).
                bindE (record_proof_imports experiment receipt w2) (\<lambda>w3. Inr (accepted, w3))))))"

text \<open>The part of a verification's commit that concerns the commons.\<close>

definition commit_acceptance ::
  "(string \<Rightarrow> string) \<Rightarrow> char \<Rightarrow> string \<Rightarrow> string \<Rightarrow> string \<Rightarrow> world \<Rightarrow> herr + (dict option \<times> world)" where
  "commit_acceptance nfkc arrow experiment_id receipt_id op w =
     (case find_row w experiment_id of
        None \<Rightarrow> Inr (None, w)
      | Some experiment \<Rightarrow> goal_accepted nfkc arrow experiment receipt_id op w)"

section \<open>What they leave of the nodes\<close>

lemma steps_toI: "(records_ok w \<Longrightarrow> steps_to w w') \<Longrightarrow> steps_to w w'"
  by (simp add: steps_to_def)

lemma statement_fields_kept:
  "statement_fields w node request actor = Inr vals \<Longrightarrow>
     fst ` set vals \<inter> set placing_fields = {} \<and> fst ` set vals \<inter> set identity_fields = {}"
  by (auto simp: statement_fields_def bindE_Inr_iff Let_def kept_fields)

lemma lean_statement_steps:
  assumes "lean_statement_action i request actor op w = Inr (x, w')"
  shows "steps_to w w'"
proof -
  obtain row vals y w1 a ag pl fresh where n: "get_row w CommonsNode (JStr i) actor = Inr row"
    and v: "statement_fields w (r_payload row) request actor = Inr vals"
    and r: "replace_row w row vals None = Inr (y, w1)"
    and f: "find_row (emit a op ''commons.lean_statement_set'' ag pl False w1) (r_id row) = Some fresh"
    and t: "touch_node fresh actor op (emit a op ''commons.lean_statement_set'' ag pl False w1) = Inr w'"
    using assms unfolding lean_statement_action_def run_iffs by blast
  have "steps_to w w1"
    by (rule steps_to_replace [OF r get_row_InrD(2) [OF n]]) (use statement_fields_kept [OF v] in auto)
  then have "steps_to w (emit a op ''commons.lean_statement_set'' ag pl False w1)" by simp
  then show ?thesis by (rule steps_to_trans [OF _ touch_node_steps [OF t find_fresh [OF f]]])
qed

lemma record_proof_import_steps:
  assumes "record_proof_import ex receipt entry w = Inr w'"
  shows "steps_to w w'"
proof -
  consider "w' = w" | row v y where "find_row w (r_id row) = Some row"
      "replace_row w row [(''in_verified_proof'', v)] None = Inr (y, w')"
    using assms unfolding record_proof_import_def Let_def
    by (auto simp: bindE_Inr_iff split: if_splits option.splits dest!: find_json_SomeD)
  then show ?thesis
  proof cases
    case 2
    show ?thesis by (rule steps_to_replace [OF 2(2) 2(1)]) (auto simp: kept_fields)
  qed simp
qed

lemma record_proof_imports_steps: "record_proof_imports ex receipt w = Inr w' \<Longrightarrow> steps_to w w'"
  unfolding record_proof_imports_def
  by (rule foldE_invariant [where I = "steps_to w"])
    (auto intro: steps_to_trans record_proof_import_steps)

lemma goal_rowD:
  assumes "goal_row w ex = Some goal" and "records_ok w"
  shows "find_row w (r_id goal) = Some goal" "experiment_node ex goal" "field goal ''node_type'' = JStr ''goal''"
proof -
  have "goal \<in> set (select_sorted (\<lambda>r. experiment_node ex r \<and> field r ''node_type'' = JStr ''goal'') w)"
    using assms(1) by (auto simp: goal_row_def split: list.splits)
  then show "find_row w (r_id goal) = Some goal" "experiment_node ex goal"
    "field goal ''node_type'' = JStr ''goal''"
    using find_row_of_set [OF assms(2)] by (auto simp: set_select_sorted)
qed

lemma goal_accepted_steps:
  assumes "goal_accepted nfkc arrow ex receipt op w = Inr (x, w')"
  shows "steps_to w w'"
proof (rule steps_toI)
  assume ok: "records_ok w"
  consider "w' = w" | r made w1 goal w2 y where "goal_node nfkc ex (Some op) w = Inr (made, w1)"
      "goal_row w1 ex = Some goal"
      "w2 = w1 \<or> set_node_status arrow goal ''accepted'' ''independent kernel receipt''
         [(''receipt_id'', JStr receipt)] op None w1 = Inr (y, w2)"
      "record_proof_imports ex r w2 = Inr w'"
    using assms unfolding goal_accepted_def
    by (auto simp: bindE_Inr_iff split: if_splits option.splits) blast+
  then show "steps_to w w'"
  proof cases
    case 2
    note w1 = goal_node_steps [OF 2(1)]
    then have "records_ok w1" using ok by (simp add: steps_to_def)
    note goal = goal_rowD [OF 2(2) this]
    have "steps_to w1 w2" using 2(3)
    proof
      assume "set_node_status arrow goal ''accepted'' ''independent kernel receipt''
         [(''receipt_id'', JStr receipt)] op None w1 = Inr (y, w2)"
      then show ?thesis by (rule set_node_status_steps [OF _ goal(1)]) (simp add: closes_def goal(3))
    qed simp
    then show ?thesis using w1 record_proof_imports_steps [OF 2(4)] steps_to_trans by blast
  qed simp
qed

lemma commit_acceptance_steps: "commit_acceptance nfkc arrow e r op w = Inr (x, w') \<Longrightarrow> steps_to w w'"
  by (auto simp: commit_acceptance_def split: option.splits dest: goal_accepted_steps)

lemma change_claim_steps:
  assumes "change_claim w actor ex node b act route minutes keep = Inr (claim, held, w')"
  shows "steps_to w w'"
proof -
  obtain prior where p: "claim_row w node b = Inr prior"
    and alt: "(\<exists>q. prior = Some q \<and> replace_row w q [(''released'', JBool True)] None = Inr (claim, w')) \<or>
      (\<exists>vals. claim_values w ex act prior held route minutes keep = Inr vals \<and>
        write_claim w actor ex node b prior vals = Inr (claim, w'))"
    using assms by (auto simp: change_claim_def bindE_Inr_iff split: if_splits option.splits)
  have repl: "steps_to w w'" if "prior = Some q" "replace_row w q vals None = Inr (claim, w')"
      "fst ` set vals \<inter> set identity_fields = {}" for q vals
  proof (rule steps_toI)
    assume "records_ok w"
    from claim_rowD [OF p [unfolded that(1)] this]
    show "steps_to w w'" by (intro steps_to_replace [OF that(2)]) (use that(3) in auto)
  qed
  from alt show ?thesis
  proof (elim disjE exE conjE)
    fix q assume "prior = Some q" "replace_row w q [(''released'', JBool True)] None = Inr (claim, w')"
    then show ?thesis by (rule repl) (simp add: identity_fields_def)
  next
    fix vals assume v: "claim_values w ex act prior held route minutes keep = Inr vals"
      and wr: "write_claim w actor ex node b prior vals = Inr (claim, w')"
    show ?thesis
    proof (cases prior)
      case None
      then show ?thesis using wr by (auto simp: write_claim_def intro: steps_to_insert)
    next
      case (Some q)
      have "replace_row w q vals None = Inr (claim, w')" using wr Some by (simp add: write_claim_def)
      moreover have "fst ` set vals \<inter> set identity_fields = {}"
        using v by (auto simp: claim_values_def bindE_Inr_iff Let_def identity_fields_def split: if_splits)
      ultimately show ?thesis using repl Some by blast
    qed
  qed
qed

lemma claim_action_steps:
  assumes "claim_action i act b route minutes keep actor op w = Inr (x, w')"
  shows "steps_to w w'"
proof -
  obtain node ex subscribed w1 claim held w2 where
    s: "(if act = ''claim'' then auto_subscribe op (field node ''topic_id'') (Some b) actor w
      else Inr (False, w)) = Inr (subscribed, w1)"
    and c: "change_claim w1 actor ex node b act route minutes keep = Inr (claim, held, w2)"
    and w': "w' = claim_event actor op claim act (act = ''claim'' \<and> \<not> held) w2"
    by (rule claim_action_InrE [OF assms])
  have "steps_to w w1" using s by (auto split: if_splits dest: auto_subscribe_steps)
  moreover have "steps_to w1 w'" using change_claim_steps [OF c] by (simp add: w' claim_event_def)
  ultimately show ?thesis by (rule steps_to_trans)
qed

section \<open>Runs\<close>

text \<open>The commands that write nodes: those of \<open>commons_step\<close>, claims, publications, Lean statements and
  the acceptance a verification commits.\<close>

datatype node_command =
    Commons_Call commons_command
  | Claim_Node string string "string option" "int option" bool
  | Publish_Source string string json
  | Lean_Statement string lean_request
  | Commit_Acceptance string string string

record node_call =
  nk_actor :: principal
  nk_key :: string
  nk_elapsed :: int
  nk_command :: node_command

definition node_step ::
  "(string \<Rightarrow> string) \<Rightarrow> char \<Rightarrow> nat \<Rightarrow> string \<Rightarrow> (string \<Rightarrow> string) \<Rightarrow> node_call \<Rightarrow> world \<Rightarrow>
   herr + world" where
  "node_step nfkc arrow depth escaped_name remedy c w =
     (let actor = nk_actor c; key = nk_key c; elapsed = nk_elapsed c
      in case nk_command c of
           Commons_Call cc \<Rightarrow> commons_step nfkc arrow
             \<lparr>cc_actor = actor, cc_key = key, cc_elapsed = elapsed, cc_command = cc\<rparr> w
         | Claim_Node i act route minutes keep \<Rightarrow>
             dropped (claim_node elapsed i act route minutes keep actor key w)
         | Publish_Source i artifact check \<Rightarrow>
             dropped (record_lean_source depth escaped_name remedy elapsed i artifact check actor key w)
         | Lean_Statement i request \<Rightarrow>
             dropped (set_lean_statement depth escaped_name elapsed i request actor key w)
         | Commit_Acceptance e receipt op \<Rightarrow> dropped (commit_acceptance nfkc arrow e receipt op w))"

lemma execute_places:
  assumes "execute elapsed actor key operation inputs act w = Inr (result, w')" and "commons_ok w"
    and "\<And>op v res v'. commons_ok v \<Longrightarrow> act op v = Inr (res, v') \<Longrightarrow> commons_ok v' \<and> nodes_placed v v'"
  shows "commons_ok w' \<and> nodes_placed w w'"
proof (rule execute_preserves [OF assms(1), where P = "\<lambda>v. commons_ok v \<and> nodes_placed w v"])
  show "commons_ok w \<and> nodes_placed w w" using assms(2) by simp
  show "commons_ok b \<and> nodes_placed w b" if "same_tables a b" "commons_ok a \<and> nodes_placed w a" for a b
    using that same_tables_find(1) [OF that(1)]
    by (auto simp: commons_ok_def same_tables_def records_ok_def dependencies_def edge_placed_def
        nodes_placed_def)
  show "commons_ok v' \<and> nodes_placed w v'"
    if "commons_ok v \<and> nodes_placed w v" "act op v = Inr (res, v')" for op v res v'
    using assms(3) that nodes_placed_trans by blast
qed

lemma steps_place: "steps_to w w' \<Longrightarrow> commons_ok w \<Longrightarrow> commons_ok w' \<and> nodes_placed w w'"
  using steps_keep nodes_follow_placed by blast

lemma record_source_places:
  assumes "commons_ok w"
    and "record_source_action depth escaped_name remedy i artifact_id check actor op w = Inr (res, w')"
  shows "commons_ok w' \<and> nodes_placed w w'"
proof -
  obtain judged where j: "judge_source depth escaped_name remedy i artifact_id check actor w = Inr judged"
    using assms(2) by (auto simp: record_source_action_def bindE_Inr_iff)
  show ?thesis
  proof (cases judged)
    case (Not_Recorded answer)
    then show ?thesis using assms j by (simp add: record_source_action_def)
  next
    case (Publish row ex artifact sha state rank)
    then have written: "write_source row ex artifact sha state rank check actor op w = Inr (res, w')"
      using assms(2) j by (simp add: record_source_action_def)
    note p = judge_source_Publish(1-4) [OF j [unfolded Publish]]
    have "find_row w (r_id row) = Some row" using p(1,2) by simp
    note effect = write_source_effect [OF written this assms(1) p(3,4)]
    show ?thesis using effect(1,4) by blast
  qed
qed

lemma node_step_places:
  assumes ok: "commons_ok w" and step: "node_step nfkc arrow depth escaped_name remedy c w = Inr w'"
  shows "commons_ok w' \<and> nodes_placed w w'"
proof (cases "nk_command c")
  case (Commons_Call cc)
  then show ?thesis
    using commons_step_keeps [OF ok] nodes_follow_placed step by (fastforce simp: node_step_def Let_def)
next
  case (Claim_Node i act route minutes keep)
  then obtain x where "claim_node (nk_elapsed c) i act route minutes keep (nk_actor c) (nk_key c) w = Inr (x, w')"
    using step by (auto simp: node_step_def dropped_Inr_iff Let_def)
  then obtain route' where "execute (nk_elapsed c) (nk_actor c) (nk_key c) ''commons.claim''
      (claim_inputs i act route' minutes keep)
      (claim_action i act (the (pr_branch (nk_actor c))) route' minutes keep (nk_actor c)) w = Inr (x, w')"
    using claim_node_runs(1) by blast
  then show ?thesis by (rule execute_places [OF _ ok]) (rule steps_place [OF claim_action_steps])
next
  case (Publish_Source i artifact check)
  then obtain x d inputs where "execute (nk_elapsed c) (nk_actor c) (nk_key c) ''commons.source_publish'' inputs
      (record_source_action depth escaped_name remedy i artifact d (nk_actor c)) w = Inr (x, w')"
    using step by (auto simp: node_step_def dropped_Inr_iff Let_def record_lean_source_def bindE_Inr_iff
        split: json.splits if_splits)
  then show ?thesis by (rule execute_places [OF _ ok]) (rule record_source_places)
next
  case (Lean_Statement i request)
  then obtain x inputs where "execute (nk_elapsed c) (nk_actor c) (nk_key c) ''commons.lean_statement'' inputs
      (lean_statement_action i request (nk_actor c)) w = Inr (x, w')"
    using step by (auto simp: node_step_def dropped_Inr_iff Let_def set_lean_statement_def bindE_Inr_iff
        split: if_splits)
  then show ?thesis by (rule execute_places [OF _ ok]) (rule steps_place [OF lean_statement_steps])
next
  case (Commit_Acceptance e receipt op)
  then obtain x where "commit_acceptance nfkc arrow e receipt op w = Inr (x, w')"
    using step by (auto simp: node_step_def dropped_Inr_iff Let_def)
  then show ?thesis using steps_place [OF commit_acceptance_steps ok] by blast
qed

interpretation node_machine: guarded_machine "node_step nfkc arrow depth escaped_name remedy" commons_ok
  by unfold_locales (use node_step_places in blast)

text \<open>C15. A node's place is for good: over any run of the commands that write nodes (new nodes, links,
  posts, abandonments, the goal, claims, publications, Lean statements and the acceptance a
  verification commits, accepted or refused, in any order and by anyone), a node stays in its
  experiment and keeps its type; its status changes at most once, from open to \<open>accepted\<close> if it is the
  goal and to \<open>abandoned\<close> if it is not; and a closed node keeps its status.\<close>

theorem closed_nodes_stay_closed:
  assumes "commons_ok w" and "find_row w i = Some r" and "r_kind r = CommonsNode"
  shows "\<exists>r'. find_row (run (node_step nfkc arrow depth escaped_name remedy) cs w) i = Some r' \<and>
    r_kind r' = CommonsNode \<and> field r' ''experiment_id'' = field r ''experiment_id'' \<and>
    field r' ''node_type'' = field r ''node_type'' \<and>
    (field r' ''status'' \<noteq> field r ''status'' \<longrightarrow>
       is_open (field r ''status'') \<and>
       field r' ''status'' =
         (if field r ''node_type'' = JStr ''goal'' then JStr ''accepted'' else JStr ''abandoned''))"
proof -
  have "nodes_placed w (run (node_step nfkc arrow depth escaped_name remedy) cs w)"
    by (rule node_machine.run_rel [OF assms(1), where R = nodes_placed])
      (simp, rule nodes_placed_trans, simp, simp, use node_step_places in blast)
  then obtain r' where "find_row (run (node_step nfkc arrow depth escaped_name remedy) cs w) i = Some r'"
      "node_placed r r'" using assms(2,3) unfolding nodes_placed_def by blast
  then show ?thesis by (auto simp: node_placed_def closes_def)
qed

text \<open>The goal is accepted and the first branch's lemma abandoned; then everything is tried on them.\<close>

definition node_call_of :: "string \<Rightarrow> node_command \<Rightarrow> node_call" where
  "node_call_of key c = \<lparr>nk_actor = sample_agent, nk_key = key, nk_elapsed = 1, nk_command = c\<rparr>"

definition settling :: "node_call list" where
  "settling =
     [node_call_of ''k1'' (Commit_Acceptance ''e'' ''v'' ''op1''),
      node_call_of ''k2'' (Commons_Call (Abandon_Node ''n2'' ''No way through.''))]"

definition sample_statement :: lean_request where
  "sample_statement =
     \<lparr>lr_header = None, lr_name = ''step'', lr_statement = '': n = n'', lr_ok = True, lr_backend = ''vm'',
      lr_diagnostics = replicate 64 (CHR ''0'')\<rparr>"

definition unsettling :: "node_call list" where
  "unsettling =
     [node_call_of ''k3'' (Commons_Call (Abandon_Node ''n2'' ''Again.'')),
      node_call_of ''k4'' (Commit_Acceptance ''e'' ''v'' ''op2''),
      node_call_of ''k5'' (Claim_Node ''n2'' ''claim'' None None False),
      node_call_of ''k6'' (Lean_Statement ''n2'' sample_statement)]"

abbreviation sample_node_run :: "node_call list \<Rightarrow> world" where
  "sample_node_run cs \<equiv> run (node_step (\<lambda>s. s) (CHR ''>'') 1 [] (\<lambda>s. s)) cs aimed"

theorem closed_nodes_stay_closed_witness:
  "\<exists>r g. find_row (sample_node_run (settling @ unsettling)) ''n2'' = Some r \<and>
     field r ''status'' = JStr ''abandoned'' \<and>
     find_row (sample_node_run (settling @ unsettling)) ''g'' = Some g \<and>
     field g ''status'' = JStr ''accepted''"
proof -
  let ?w = "sample_node_run settling"
  have "list_all (\<lambda>(i, s). case find_row ?w i of None \<Rightarrow> False
      | Some r \<Rightarrow> r_kind r = CommonsNode \<and> field r ''status'' = JStr s)
    [(''n2'', ''abandoned''), (''g'', ''accepted'')]" by code_simp
  then have settled: "(case find_row ?w i of None \<Rightarrow> False
      | Some r \<Rightarrow> r_kind r = CommonsNode \<and> field r ''status'' = JStr s)"
    if "(i, s) \<in> {(''n2'', ''abandoned''), (''g'', ''accepted'')}" for i s
    using that unfolding list_all_iff by fastforce
  have closed: "\<not> is_open (JStr ''abandoned'')" "\<not> is_open (JStr ''accepted'')" by code_simp+
  have ok: "commons_ok ?w" by (rule node_machine.run_inv [OF aimed_ok])
  have run: "sample_node_run (settling @ unsettling) =
      run (node_step (\<lambda>s. s) (CHR ''>'') 1 [] (\<lambda>s. s)) unsettling ?w"
    by (simp only: run_append)
  have "\<exists>r'. find_row (sample_node_run (settling @ unsettling)) i = Some r' \<and> field r' ''status'' = JStr s"
    if pair: "(i, s) \<in> {(''n2'', ''abandoned''), (''g'', ''accepted'')}" for i s
  proof -
    obtain r where r: "find_row ?w i = Some r" "r_kind r = CommonsNode" "field r ''status'' = JStr s"
      using settled [OF pair] by (auto split: option.splits)
    have "\<not> is_open (field r ''status'')" using pair closed r(3) by auto
    then show ?thesis
      using closed_nodes_stay_closed [OF ok r(1,2), where cs = unsettling] r(3) unfolding run by metis
  qed
  from this [of "''n2''" "''abandoned''"] this [of "''g''" "''accepted''"] show ?thesis by blast
qed

end
