(* ===== verification/Spec2Isabelle.thy ===== *)
theory Spec2Isabelle
  imports Ledger Governor Stagnation Findings Delivery Teams Node_Writers
begin

text \<open>
  A verification library of the physics research harness: the service that keeps the canonical
  records of a research project, decides who may read and change them, and lets many model workers
  and one operator work on them at once. All paths below are under
  \<open>src/src/physharness/\<close>.

  The program and its parts. One database holds every record as a row with a kind, a project, a
  revision and a JSON payload (\<open>storage.py\<close>). Everything that changes it is a command of the
  service (\<open>service.py\<close>, with \<open>collaboration.py\<close>, \<open>workforce.py\<close>, \<open>discussion.py\<close>, \<open>commons.py\<close>,
  \<open>commons_discourse.py\<close>, \<open>commons_sources.py\<close> as mixins): it runs in one transaction, under an idempotency key,
  with the effects of the calling worker checked before and after. Around the service stand a few
  local machines: the token governor, the detection of stagnation, the artifact stores, text
  ingestion.

  The theories, in the order they build on each other.

  \<^item> Prelude: results as sums, keyed rows, the two interfaces used throughout. \<open>keyed_table\<close> is what
    a table promises; \<open>guarded_machine\<close> is a step function that keeps an invariant, and the invariants over
    any run of commands below rest on its interpretations (books, tasks, commons, teams, governor).
  \<^item> Json, Canonical (\<open>domain.py\<close>): JSON values as the payloads hold them, dictionaries as
    association lists in insertion order, the canonical text of a value.
  \<^item> Store (\<open>storage.py\<close>, \<open>errors.py\<close>, \<open>domain.py\<close>): the record \<open>world\<close>, a list of rows per table together
    with what a command reads of its process (the clock, the source of new ids, digests, prices,
    texts of artifacts). Sample is a small world for the concrete runs.
  \<^item> Authority, Records, Commands (\<open>service.py\<close>, \<open>worker_authority.py\<close>): the read scope and the rule that
    without ideas sharing only independently accepted records cross branches; inserting and
    replacing records and appending events; the idempotent, lease-checked command.
  \<^item> Money, Pricing, Ledger (\<open>service.py\<close>, \<open>orchestration/pricing.py\<close>): amounts in micro-dollars,
    prices of tokens, reservations against the budget of an experiment and their settlement.
  \<^item> Lifecycle (\<open>service.py\<close>): campaigns, problems, reviews, the state machine of experiments.
  \<^item> Reading (\<open>service.py\<close>): pages of records and of events, complete reads, id prefixes.
  \<^item> Findings, Artifacts (\<open>service.py\<close>, \<open>artifacts.py\<close>): branches, artifacts, checkpoints, claims of a
    result; the content-addressed stores.
  \<^item> Tasks, Messages (\<open>collaboration.py\<close>): tasks with fenced leases and joined lineages; messages in
    scope and within a budget.
  \<^item> Subscriptions, Threads, Excerpts, Delivery (\<open>discussion.py\<close>): topics, posts and what a reader is
    delivered of them, as bounded excerpts, until it acknowledges.
  \<^item> Claims (\<open>commons_discourse.py\<close>): expiring claims of work on a node.
  \<^item> Workforce, Teams (\<open>workforce.py\<close>): admission under caps and budget, seeding, recruitment, teams,
    capacity, scheduled synthesis.
  \<^item> Commons, Dependencies, Blueprint (\<open>commons.py\<close>, \<open>commons_models.py\<close>): the blueprint of a proof as
    nodes and typed edges, and what its commands keep of it.
  \<^item> Lean_Modules, Standing (\<open>commons_sources.py\<close>): names and ranks of published Lean sources
    and whether a source still stands on what it inlined.
  \<^item> Lean_Scan (\<open>orchestration/lean_session.py\<close>): the scanner of Lean text (comments, strings, nested
    interpolations), the rules a signature and a module header must meet.
  \<^item> Module_Gate, Flattening, Publishing (\<open>commons_sources.py\<close>): the commands a published module may not
    contain; published modules inlined into one file with the lines mapped back; resolving and
    publishing a node's module.
  \<^item> NodeReads, Frontier (\<open>commons.py\<close>, \<open>acceptance.py\<close>): the reads of the blueprint; Frontier joins them to
    what the commands keep.
  \<^item> Node_Writers (\<open>commons_review.py\<close>, \<open>acceptance.py\<close>): Lean statements, the acceptance of a goal on an
    independent receipt, and runs of all the commands that write nodes. Only a referee's submitted
    review, which touches a node's last activity and nothing else of it, is not among them.
  \<^item> Governor (\<open>execution/admission.py\<close>), Stagnation (\<open>execution/stagnation.py\<close>), Knowledge
    (\<open>knowledge/sources.py\<close>, \<open>knowledge/index.py\<close>): the machines beside the service.

  How the model reads the code. A handler is a function from the world to
  \<open>herr + (dict \<times> world)\<close>: \<open>Inl\<close> is the exception, after which the transaction is rolled back, so the
  world before it stands; \<open>Inr\<close> is the answer and the world after it. Only
  \<open>acknowledge_discussion_updates\<close> commits in two transactions and returns a world with either
  answer. An error keeps code, HTTP status and retryability; its prose and remediation are left out.
  A missing key of a subscripted dictionary is an error of its own (\<open>need\<close>, \<open>dneed\<close>), as are the other
  Python exceptions that would escape. \<open>{**a, **b}\<close> is \<open>dmerge\<close>. A query with \<open>order_by(id)\<close> sorts;
  a query without an order reads in insertion order. A command reads one instant of the clock,
  in microseconds; only \<open>execute\<close> lets time pass, while its action runs. Floats are rationals.
  Characters are code points up to 255.

  What is a parameter: the SHA-256 digests of values and texts, the source of new ids (a field of the
  world, of which nothing but what the database enforces is assumed: a duplicate key fails), the
  decoded text of a stored artifact, the sealing of page cursors, Unicode normalization of statements
  (\<open>nfkc\<close>), the three characters beyond 255 that notes and excerpts contain, the client of the S3
  store, the depth of the interpreter's stack that a nested scan may use (\<open>depth\<close>), the test for an
  escaped Lean name and the prose of a refusal. Where a property needs more of them it says so: local storage assumes the digest
  injective on the contents put, and the page cursors that opening undoes sealing.

  What the lemmas show. Each operation has lemmas of what its success says of the world before and
  after; \<open>result_simps\<close> and the bundles of \<open>_iff\<close> facts carry them. On these rest the
  properties: invariants over runs of commands (the books balance, dependencies
  stay acyclic, teams and subscriptions stay bounded), safety of concurrent
  workers (acquisition is exclusive, a superseded holder is locked out, a bound worker commits only
  under its lease, no update is lost), authority (scopes, attribution, receipts), delivery
  (complete reads, events delivered once and in order, deliveries that skip nothing due), bounds
  (granted tokens, message budgets, caps, excerpts, time boxes), amounts of money that are exact or
  refused, nodes whose status changes once and for good, one refinement (the local store is a
  set of contents), equivalences (paged and complete reads; the cached standing walk and its least
  solution), publication (what is recorded was checked against the right statement, imports only what
  stands, and contains no refused command; inlining keeps every module's lines and order) and round trips (amounts, ingestion).

  Recursion and bounds. Loops over lists are structural. Every other loop is a function with a
  termination proof: the scan of updates (at most a thousand events), the reading of all events, the
  binary search of an excerpt and its shrinking (each round drops a byte), the cutting of spans, the
  standing walk (a verdict or a visit more at every step) and the breadth-first walk of the
  dependencies, which stops when it has reached its limit of nodes, as the code does.
  The scan of Lean text nests as deep as its text; more stack than the text is long always suffices.
  The visit of imports is bounded by the two hundred modules a publication may inline; the bound is
  reported as the code reports it and running out of steps never shows.
  The complete read and the directories are partial functions; that they return is proved:
  each page moves the cursor past an id of the table.

  Not modelled. Concurrency inside one command: row locks and the lock on PostgreSQL's event sequence
  are taken to do what they are for, so commands run one at a time. Input and output: the HTTP, MCP
  and command-line front ends, Temporal workflows, sandboxes and containers, the provider SDKs behind
  the model runtimes, the Lean processes, the network search of literature. Prompts and tool descriptions.
  Statistics of studies, which are floating point. Of the token governor's futures only what its code
  asks of them: whether one is done, and that a cancelled caller's future may be done before the
  caller's own cleanup runs. Continuations of finished runs, memory notes, run control,
  the referee reviews of the commons and the export of experiments are commands of the same shape as the ones
  here and are outside this library.
\<close>

end
